(* ===== verification/Prelude.thy ===== *)
theory Prelude
  imports Main "HOL-Library.AList" "HOL-Library.Char_ord" "HOL-Library.List_Lexorder"
begin

text \<open>
  Shared vocabulary of the development: the value universe of the Python program
  (\<open>pyval\<close>), insertion-ordered dictionaries as association lists, the string
  methods the modelled code calls, an error monad over sums, and generic lemmas.

  Strings are lists of \<open>char\<close>, read as code points below 256.  Dictionary keys are
  strings.  A \<open>float\<close> is the rational number its shortest decimal notation denotes.
  An object of a user-defined class (a callable, a flow, a sentinel) is \<open>PObj\<close> with
  an identity.
\<close>

named_theorems dict_simps \<open>lookup and update laws of dictionaries\<close>

named_theorems err_simps \<open>unfolding the error monad\<close>

section \<open>The error monad\<close>

text \<open>A Python function that may raise returns \<open>'e + 'a\<close>: \<open>Inl\<close> carries the exception.\<close>

definition bindE :: "'e + 'a \<Rightarrow> ('a \<Rightarrow> 'e + 'b) \<Rightarrow> 'e + 'b" where
  "bindE m f = (case m of Inl e \<Rightarrow> Inl e | Inr a \<Rightarrow> f a)"

definition guardE :: "bool \<Rightarrow> 'e \<Rightarrow> 'e + unit" where
  "guardE b e = (if b then Inr () else Inl e)"

fun mapE :: "('a \<Rightarrow> 'e + 'b) \<Rightarrow> 'a list \<Rightarrow> 'e + 'b list" where
  "mapE f [] = Inr []"
| "mapE f (x # xs) = bindE (f x) (\<lambda>y. bindE (mapE f xs) (\<lambda>ys. Inr (y # ys)))"

fun foldE :: "('a \<Rightarrow> 's \<Rightarrow> 'e + 's) \<Rightarrow> 'a list \<Rightarrow> 's \<Rightarrow> 'e + 's" where
  "foldE f [] s = Inr s"
| "foldE f (x # xs) s = bindE (f x s) (foldE f xs)"

lemma bindE_Inl [simp, err_simps]: "bindE (Inl e) f = Inl e"
  by (simp add: bindE_def)

lemma bindE_Inr [simp, err_simps]: "bindE (Inr a) f = f a"
  by (simp add: bindE_def)

lemma bindE_eq_Inr: "bindE m f = Inr b \<longleftrightarrow> (\<exists>a. m = Inr a \<and> f a = Inr b)"
  by (cases m) simp_all

lemma bindE_eq_Inl: "bindE m f = Inl e \<longleftrightarrow> m = Inl e \<or> (\<exists>a. m = Inr a \<and> f a = Inl e)"
  by (cases m) simp_all

lemma bindE_cong [fundef_cong]:
  "m = m' \<Longrightarrow> (\<And>a. m' = Inr a \<Longrightarrow> f a = f' a) \<Longrightarrow> bindE m f = bindE m' f'"
  by (cases m') simp_all

lemma guardE_eq_Inr [simp]: "guardE b e = Inr u \<longleftrightarrow> b"
  by (simp add: guardE_def)

lemma guardE_eq_Inl [simp]: "guardE b e = Inl e' \<longleftrightarrow> \<not> b \<and> e' = e"
  by (auto simp: guardE_def)

lemma guardE_True [simp]: "guardE True e = Inr ()"
  by (simp add: guardE_def)

lemma guardE_False [simp]: "guardE False e = Inl e"
  by (simp add: guardE_def)

lemma mapE_cong [fundef_cong]:
  "xs = ys \<Longrightarrow> (\<And>x. x \<in> set ys \<Longrightarrow> f x = g x) \<Longrightarrow> mapE f xs = mapE g ys"
  by (induction ys arbitrary: xs) auto

lemma mapE_Inr_length: "mapE f xs = Inr ys \<Longrightarrow> length ys = length xs"
  by (induction xs arbitrary: ys) (auto simp: bindE_eq_Inr)

lemma mapE_total: "(\<And>x. x \<in> set xs \<Longrightarrow> f x = Inr (g x)) \<Longrightarrow> mapE f xs = Inr (map g xs)"
  by (induction xs) auto

lemma mapE_inverse: "(\<And>x. x \<in> set xs \<Longrightarrow> f (h x) = Inr x) \<Longrightarrow> mapE f (map h xs) = Inr xs"
  by (induction xs) auto

lemma mapE_Inr_mem: "mapE f xs = Inr ys \<Longrightarrow> y \<in> set ys \<Longrightarrow> \<exists>x \<in> set xs. f x = Inr y"
  by (induction xs arbitrary: ys) (auto simp: bindE_eq_Inr)

lemma foldE_append: "foldE f (xs @ ys) s = bindE (foldE f xs s) (foldE f ys)"
proof (induction xs arbitrary: s)
  case (Cons x xs)
  then show ?case by (cases "f x s") simp_all
qed simp

lemma foldE_invariant:
  assumes "foldE f xs s = Inr t" and "P s"
    and "\<And>x s s'. x \<in> set xs \<Longrightarrow> P s \<Longrightarrow> f x s = Inr s' \<Longrightarrow> P s'"
  shows "P t"
  using assms
proof (induction xs arbitrary: s)
  case (Cons x xs)
  from Cons.prems(1) obtain s' where s': "f x s = Inr s'" "foldE f xs s' = Inr t"
    by (auto simp: bindE_eq_Inr)
  have "P s'" using Cons.prems(2) s'(1) by (rule Cons.prems(3) [of x, rotated]) simp
  with s'(2) show ?case
    by (rule Cons.IH) (use Cons.prems(3) in \<open>auto\<close>)
qed simp

lemma foldE_unit:
  "foldE f xs () = Inr u \<longleftrightarrow> (\<forall>x \<in> set xs. f x () = Inr ())"
  by (induction xs) (auto simp: bindE_eq_Inr)

lemma foldE_unit_error:
  "foldE f xs () = Inl e \<Longrightarrow> \<exists>x \<in> set xs. f x () = Inl e"
  by (induction xs) (auto simp: bindE_eq_Inl)

section \<open>Dictionaries\<close>

text \<open>
  A Python \<open>dict\<close> keeps insertion order: storing at an existing key keeps its place,
  storing at a new key appends.  These are the operations of \<open>AList\<close>.
\<close>

type_synonym ('k, 'v) dict = "('k \<times> 'v) list"

abbreviation dict_get :: "('k, 'v) dict \<Rightarrow> 'k \<Rightarrow> 'v option" where
  "dict_get \<equiv> map_of"

abbreviation dict_set :: "'k \<Rightarrow> 'v \<Rightarrow> ('k, 'v) dict \<Rightarrow> ('k, 'v) dict" where
  "dict_set \<equiv> AList.update"

abbreviation dict_del :: "'k \<Rightarrow> ('k, 'v) dict \<Rightarrow> ('k, 'v) dict" where
  "dict_del \<equiv> AList.delete"

abbreviation dict_keys :: "('k, 'v) dict \<Rightarrow> 'k list" where
  "dict_keys d \<equiv> map fst d"

abbreviation dict_wf :: "('k, 'v) dict \<Rightarrow> bool" where
  "dict_wf d \<equiv> distinct (map fst d)"

definition dict_has :: "('k, 'v) dict \<Rightarrow> 'k \<Rightarrow> bool" where
  "dict_has d k \<longleftrightarrow> k \<in> set (map fst d)"

definition dict_get_or :: "('k, 'v) dict \<Rightarrow> 'k \<Rightarrow> 'v \<Rightarrow> 'v" where
  "dict_get_or d k v = (case dict_get d k of None \<Rightarrow> v | Some w \<Rightarrow> w)"

definition dict_setdefault :: "'k \<Rightarrow> 'v \<Rightarrow> ('k, 'v) dict \<Rightarrow> ('k, 'v) dict" where
  "dict_setdefault k v d = (if dict_has d k then d else dict_set k v d)"

definition dict_update :: "('k, 'v) dict \<Rightarrow> ('k, 'v) dict \<Rightarrow> ('k, 'v) dict" where
  "dict_update d new = fold (\<lambda>(k, v). dict_set k v) new d"

lemma dict_get_set [simp, dict_simps]:
  "dict_get (dict_set k v d) k' = (if k' = k then Some v else dict_get d k')"
  by (simp add: AList.update_conv')

lemma dict_get_del [simp, dict_simps]:
  "dict_get (dict_del k d) k' = (if k' = k then None else dict_get d k')"
  by (simp add: AList.delete_conv')

lemma dict_wf_set [simp, intro]: "dict_wf d \<Longrightarrow> dict_wf (dict_set k v d)"
  by (rule AList.distinct_update)

lemma dict_wf_del [simp, intro]: "dict_wf d \<Longrightarrow> dict_wf (dict_del k d)"
  by (rule AList.distinct_delete)

lemma dict_keys_set [dict_simps]:
  "dict_keys (dict_set k v d) =
     (if k \<in> set (dict_keys d) then dict_keys d else dict_keys d @ [k])"
  by (rule AList.update_keys)

lemma set_dict_keys_set [simp, dict_simps]:
  "set (dict_keys (dict_set k v d)) = insert k (set (dict_keys d))"
  by (auto simp: AList.update_keys)

lemma fst_image_set [simp]: "fst ` set (dict_set k v d) = insert k (fst ` set d)"
  using set_dict_keys_set [of k v d] by simp

lemma fst_image_del [simp]: "fst ` set (dict_del k d) = fst ` set d - {k}"
proof -
  have "set (map fst (dict_del k d)) = set (map fst d) - {k}"
    by (simp only: AList.delete_keys set_removeAll)
  then show ?thesis by simp
qed

lemma dict_has_iff [dict_simps]: "dict_has d k \<longleftrightarrow> dict_get d k \<noteq> None"
  by (auto simp: dict_has_def map_of_eq_None_iff)

lemma dict_has_mem: "dict_has d k \<longleftrightarrow> k \<in> fst ` set d"
  by (simp add: dict_has_def)

lemma dict_get_None_iff: "dict_get d k = None \<longleftrightarrow> k \<notin> fst ` set d"
  by (rule map_of_eq_None_iff)

lemma dict_get_Some_mem: "dict_get d k = Some v \<Longrightarrow> (k, v) \<in> set d"
  by (rule map_of_SomeD)

lemma dict_get_SomeI: "dict_wf d \<Longrightarrow> (k, v) \<in> set d \<Longrightarrow> dict_get d k = Some v"
  by (rule map_of_is_SomeI)

lemma dict_set_same: "dict_get d k = Some v \<Longrightarrow> dict_set k v d = d"
  by (rule AList.update_triv)

lemma dict_set_append: "k \<notin> fst ` set d \<Longrightarrow> dict_set k v d = d @ [(k, v)]"
  by (induction d) auto

lemma dict_del_id: "k \<notin> fst ` set d \<Longrightarrow> dict_del k d = d"
  by (rule AList.delete_id)

lemma set_dict_set:
  "dict_wf d \<Longrightarrow> set (dict_set k v d) = insert (k, v) {(k', v') \<in> set d. k' \<noteq> k}"
  by (induction d) force+

lemma dict_get_update:
  "dict_get (dict_update d new) k =
     (case dict_get (rev new) k of None \<Rightarrow> dict_get d k | Some v \<Rightarrow> Some v)"
  unfolding dict_update_def
  by (induction new arbitrary: d) (auto simp: map_add_def split: option.splits)

lemma dict_wf_update [simp, intro]: "dict_wf d \<Longrightarrow> dict_wf (dict_update d new)"
  unfolding dict_update_def by (induction new arbitrary: d) auto

lemma dict_wf_setdefault [simp, intro]: "dict_wf d \<Longrightarrow> dict_wf (dict_setdefault k v d)"
  by (simp add: dict_setdefault_def dict_wf_set)

lemma dict_get_setdefault [dict_simps]:
  "dict_get (dict_setdefault k v d) k' =
     (if k' = k then Some (dict_get_or d k v) else dict_get d k')"
  by (auto simp: dict_setdefault_def dict_has_iff dict_get_or_def split: option.splits)

section \<open>Lists without repetition\<close>

text \<open>Adding to a set of strings kept in order of insertion.\<close>

definition add_member :: "string \<Rightarrow> string list \<Rightarrow> string list" where
  "add_member x xs = (if x \<in> set xs then xs else xs @ [x])"

lemma set_add_member [simp]: "set (add_member x xs) = insert x (set xs)"
  by (auto simp: add_member_def)

lemma distinct_add_member [simp]: "distinct xs \<Longrightarrow> distinct (add_member x xs)"
  by (auto simp: add_member_def)

lemma add_member_nonempty [simp]: "add_member x xs \<noteq> []"
  by (auto simp: add_member_def)

lemma set_add_members [simp]: "set (fold add_member xs ys) = set xs \<union> set ys"
  by (induction xs arbitrary: ys) auto

lemma distinct_add_members [simp]: "distinct ys \<Longrightarrow> distinct (fold add_member xs ys)"
  by (induction xs arbitrary: ys) auto

end
