(* ===== verification/PyValue.thy ===== *)
theory PyValue
  imports Complex_Main Prelude
begin

text \<open>
  Python values and the string methods and conversions the modelled code applies to
  them: truthiness, \<open>==\<close>, \<open>is\<close>, \<open>str()\<close>, \<open>repr()\<close>, \<open>int()\<close>, \<open>strip\<close>, \<open>lower\<close>,
  \<open>split\<close>, \<open>join\<close>.  The lemmas are the round trips (split/join, int/str) and the size
  facts that make recursion over nested values terminate.
\<close>

section \<open>Values\<close>

text \<open>
  \<open>PObj i t\<close> is an object of a class outside the builtins: its identity and the text
  its \<open>str()\<close> gives.  A \<open>PSet\<close> lists its elements in iteration order.
\<close>

datatype pyval =
    PNone
  | PBool bool
  | PInt int
  | PFloat rat
  | PStr string
  | PList "pyval list"
  | PTuple "pyval list"
  | PSet "pyval list"
  | PDict "(string \<times> pyval) list"
  | PObj nat string

type_synonym pydict = "(string, pyval) dict"

fun truthy :: "pyval \<Rightarrow> bool" where
  "truthy PNone = False"
| "truthy (PBool b) = b"
| "truthy (PInt i) = (i \<noteq> 0)"
| "truthy (PFloat q) = (q \<noteq> 0)"
| "truthy (PStr s) = (s \<noteq> [])"
| "truthy (PList xs) = (xs \<noteq> [])"
| "truthy (PTuple xs) = (xs \<noteq> [])"
| "truthy (PSet xs) = (xs \<noteq> [])"
| "truthy (PDict d) = (d \<noteq> [])"
| "truthy (PObj _ _) = True"

text \<open>\<open>a or b\<close>, and \<open>d.get(k)\<close> with its default \<open>None\<close>.\<close>

definition py_or :: "pyval \<Rightarrow> pyval \<Rightarrow> pyval" where
  "py_or a b = (if truthy a then a else b)"

definition pget :: "pydict \<Rightarrow> string \<Rightarrow> pyval" where
  "pget d k = dict_get_or d k PNone"

fun is_mapping :: "pyval \<Rightarrow> bool" where
  "is_mapping (PDict _) = True"
| "is_mapping _ = False"

text \<open>\<open>isinstance(v, Sequence) and not isinstance(v, str)\<close>, with its elements.\<close>

fun seq_items :: "pyval \<Rightarrow> pyval list option" where
  "seq_items (PList xs) = Some xs"
| "seq_items (PTuple xs) = Some xs"
| "seq_items _ = None"

text \<open>Iterating a value: \<open>None\<close> is the \<open>TypeError\<close> of a value that is not iterable.\<close>

fun py_iter :: "pyval \<Rightarrow> pyval list option" where
  "py_iter (PList xs) = Some xs"
| "py_iter (PTuple xs) = Some xs"
| "py_iter (PSet xs) = Some xs"
| "py_iter (PDict d) = Some (map (PStr \<circ> fst) d)"
| "py_iter (PStr s) = Some (map (\<lambda>c. PStr [c]) s)"
| "py_iter _ = None"

text \<open>One element of the iterable given to \<open>dict(...)\<close>: a pair whose first part is a string.\<close>

fun pair_of :: "pyval \<Rightarrow> (string \<times> pyval) option" where
  "pair_of (PList [PStr k, v]) = Some (k, v)"
| "pair_of (PTuple [PStr k, v]) = Some (k, v)"
| "pair_of (PStr [a, b]) = Some ([a], PStr [b])"
| "pair_of _ = None"

definition mapping_or_empty :: "pyval \<Rightarrow> pydict" where
  "mapping_or_empty v = (case v of PDict d \<Rightarrow> d | _ \<Rightarrow> [])"

text \<open>
  Identity.  Only \<open>None\<close>, the booleans and objects have an identity the model can see;
  two separately built containers, numbers or strings are never taken to be identical.
\<close>

fun py_is :: "pyval \<Rightarrow> pyval \<Rightarrow> bool" where
  "py_is PNone v = (v = PNone)"
| "py_is (PBool b) v = (v = PBool b)"
| "py_is (PObj i _) v = (case v of PObj j _ \<Rightarrow> i = j | _ \<Rightarrow> False)"
| "py_is _ _ = False"

text \<open>Numbers compare by value across \<open>bool\<close>, \<open>int\<close> and \<open>float\<close>.\<close>

fun num_val :: "pyval \<Rightarrow> rat option" where
  "num_val (PBool b) = Some (if b then 1 else 0)"
| "num_val (PInt i) = Some (of_int i)"
| "num_val (PFloat q) = Some q"
| "num_val _ = None"

text \<open>\<open>==\<close>: element-wise on lists and tuples, key-wise on dictionaries.\<close>

function (sequential) py_eq :: "pyval \<Rightarrow> pyval \<Rightarrow> bool"
  and py_eq_list :: "pyval list \<Rightarrow> pyval list \<Rightarrow> bool"
  and py_eq_dict :: "(string \<times> pyval) list \<Rightarrow> pydict \<Rightarrow> bool"
  and py_mem :: "pyval list \<Rightarrow> pyval list \<Rightarrow> bool" where
  "py_eq PNone v = (v = PNone)"
| "py_eq (PBool b) v = (num_val v = num_val (PBool b))"
| "py_eq (PInt i) v = (num_val v = num_val (PInt i))"
| "py_eq (PFloat q) v = (num_val v = num_val (PFloat q))"
| "py_eq (PStr s) v = (v = PStr s)"
| "py_eq (PList xs) v = (case v of PList ys \<Rightarrow> py_eq_list xs ys | _ \<Rightarrow> False)"
| "py_eq (PTuple xs) v = (case v of PTuple ys \<Rightarrow> py_eq_list xs ys | _ \<Rightarrow> False)"
| "py_eq (PSet xs) v =
     (case v of PSet ys \<Rightarrow> length xs = length ys \<and> py_mem xs ys | _ \<Rightarrow> False)"
| "py_eq (PDict d) v =
     (case v of PDict e \<Rightarrow> length d = length e \<and> py_eq_dict d e | _ \<Rightarrow> False)"
| "py_eq (PObj i t) v = (case v of PObj j _ \<Rightarrow> i = j | _ \<Rightarrow> False)"
| "py_eq_list [] ys = (ys = [])"
| "py_eq_list (x # xs) ys = (case ys of [] \<Rightarrow> False | y # ys' \<Rightarrow> py_eq x y \<and> py_eq_list xs ys')"
| "py_eq_dict [] e = True"
| "py_eq_dict ((k, x) # d) e =
     (case dict_get e k of None \<Rightarrow> False | Some y \<Rightarrow> py_eq x y \<and> py_eq_dict d e)"
| "py_mem [] ys = True"
| "py_mem (x # xs) ys = (list_ex (\<lambda>y. py_eq x y) ys \<and> py_mem xs ys)"
  by pat_completeness auto
termination
  by (relation "measure (\<lambda>s. case s of
      Inl (Inl (v, _)) \<Rightarrow> size v
    | Inl (Inr (xs, _)) \<Rightarrow> size_list size xs
    | Inr (Inl (d, _)) \<Rightarrow> size_list (size_prod (\<lambda>_. 0) size) d
    | Inr (Inr (xs, _)) \<Rightarrow> size_list size xs)") auto

text \<open>\<open>x in xs\<close> on a list: identity or equality; equality subsumes identity here.\<close>

definition py_in :: "pyval \<Rightarrow> pyval list \<Rightarrow> bool" where
  "py_in x ys \<longleftrightarrow> list_ex (\<lambda>y. py_eq x y) ys"

text \<open>\<open>v in {...}\<close> for a set of strings: an unhashable value raises \<open>TypeError\<close>.\<close>

fun hashable :: "pyval \<Rightarrow> bool" where
  "hashable (PList _) = False"
| "hashable (PSet _) = False"
| "hashable (PDict _) = False"
| "hashable (PTuple xs) = list_all hashable xs"
| "hashable _ = True"

lemma py_eq_refl_list: "(\<And>x. x \<in> set xs \<Longrightarrow> py_eq x x) \<Longrightarrow> py_eq_list xs xs"
  by (induction xs) auto

lemma py_mem_refl: "(\<And>x. x \<in> set xs \<Longrightarrow> \<exists>y \<in> set ys. py_eq x y) \<Longrightarrow> py_mem xs ys"
  by (induction xs) (auto simp: list_ex_iff)

section \<open>Characters and strings\<close>

definition code_in :: "nat \<Rightarrow> nat \<Rightarrow> char \<Rightarrow> bool" where
  "code_in lo hi c \<longleftrightarrow> lo \<le> of_char c \<and> of_char c \<le> hi"

text \<open>\<open>str.isspace\<close> on one character below code point 256.\<close>

definition is_space :: "char \<Rightarrow> bool" where
  "is_space c \<longleftrightarrow> code_in 9 13 c \<or> code_in 28 32 c \<or> code_in 133 133 c \<or> code_in 160 160 c"

definition is_dec_digit :: "char \<Rightarrow> bool" where
  "is_dec_digit c \<longleftrightarrow> code_in 48 57 c"

text \<open>\<open>str.isdigit\<close> also accepts the superscript digits, which \<open>int()\<close> rejects.\<close>

definition is_digit_char :: "char \<Rightarrow> bool" where
  "is_digit_char c \<longleftrightarrow> is_dec_digit c \<or> code_in 178 179 c \<or> code_in 185 185 c"

definition py_isdigit :: "string \<Rightarrow> bool" where
  "py_isdigit s \<longleftrightarrow> s \<noteq> [] \<and> list_all is_digit_char s"

definition is_letter :: "char \<Rightarrow> bool" where
  "is_letter c \<longleftrightarrow> code_in 65 90 c \<or> code_in 97 122 c"

definition lstrip :: "string \<Rightarrow> string" where
  "lstrip s = dropWhile is_space s"

definition rstrip :: "string \<Rightarrow> string" where
  "rstrip s = rev (dropWhile is_space (rev s))"

definition strip :: "string \<Rightarrow> string" where
  "strip s = rstrip (lstrip s)"

definition lower_char :: "char \<Rightarrow> char" where
  "lower_char c =
     (if code_in 65 90 c \<or> code_in 192 214 c \<or> code_in 216 222 c
      then char_of (of_char c + (32::nat)) else c)"

definition lower :: "string \<Rightarrow> string" where
  "lower s = map lower_char s"

text \<open>
  \<open>upper\<close> on the letters whose capital is also below 256; the three others stay, which no
  comparison of the modelled code can see.
\<close>

definition upper_char :: "char \<Rightarrow> char" where
  "upper_char c =
     (if code_in 97 122 c \<or> code_in 224 246 c \<or> code_in 248 254 c
      then char_of (of_char c - (32::nat)) else c)"

definition upper :: "string \<Rightarrow> string" where
  "upper s = map upper_char s"

definition replace_char :: "char \<Rightarrow> char \<Rightarrow> string \<Rightarrow> string" where
  "replace_char a b s = map (\<lambda>c. if c = a then b else c) s"

text \<open>\<open>s.split(c)\<close> for a one-character separator: never empty.\<close>

fun split_on :: "'a \<Rightarrow> 'a list \<Rightarrow> 'a list list" where
  "split_on c [] = [[]]"
| "split_on c (x # xs) =
     (if x = c then [] # split_on c xs
      else (case split_on c xs of [] \<Rightarrow> [[x]] | p # ps \<Rightarrow> (x # p) # ps))"

text \<open>\<open>s.split(c, 1)\<close>: the part before the first separator, and the rest if there is one.\<close>

fun split_once :: "'a \<Rightarrow> 'a list \<Rightarrow> 'a list \<times> 'a list option" where
  "split_once c [] = ([], None)"
| "split_once c (x # xs) =
     (if x = c then ([], Some xs)
      else (case split_once c xs of (p, r) \<Rightarrow> (x # p, r)))"

fun join :: "'a list \<Rightarrow> 'a list list \<Rightarrow> 'a list" where
  "join sep [] = []"
| "join sep [p] = p"
| "join sep (p # q # ps) = p @ sep @ join sep (q # ps)"

lemma split_on_nonempty [simp]: "split_on c s \<noteq> []"
  by (induction s) (auto split: list.splits)

lemma join_split_on: "join [c] (split_on c s) = s"
proof (induction s)
  case (Cons x xs)
  then obtain p ps where ps: "split_on c xs = p # ps" by (meson neq_Nil_conv split_on_nonempty)
  show ?case
  proof (cases "x = c")
    case True
    with Cons ps show ?thesis by simp
  next
    case False
    from Cons ps have "join [c] (p # ps) = xs" by simp
    then have "join [c] ((x # p) # ps) = x # xs" by (cases ps) auto
    with False ps show ?thesis by simp
  qed
qed simp

lemma split_on_parts: "p \<in> set (split_on c s) \<Longrightarrow> c \<notin> set p"
proof (induction s arbitrary: p)
  case (Cons x xs)
  obtain q qs where qs: "split_on c xs = q # qs" by (meson neq_Nil_conv split_on_nonempty)
  with Cons show ?case by (auto split: if_splits)
qed simp

lemma split_on_single: "c \<notin> set s \<Longrightarrow> split_on c s = [s]"
  by (induction s) auto

lemma split_on_append: "c \<notin> set p \<Longrightarrow> split_on c (p @ c # s) = p # split_on c s"
  by (induction p) auto

lemma split_on_join:
  "ps \<noteq> [] \<Longrightarrow> (\<And>p. p \<in> set ps \<Longrightarrow> c \<notin> set p) \<Longrightarrow> split_on c (join [c] ps) = ps"
proof (induction ps)
  case (Cons p ps)
  then show ?case
    by (cases ps) (simp_all add: split_on_single split_on_append)
qed simp

lemma split_on_length_iff: "length (split_on c s) = 1 \<longleftrightarrow> c \<notin> set s"
proof (induction s)
  case (Cons x xs)
  then show ?case by (cases "split_on c xs") auto
qed simp

lemma rstrip_empty [simp]: "rstrip [] = []"
  by (simp add: rstrip_def)

lemma strip_empty [simp]: "strip [] = []"
  by (simp add: strip_def lstrip_def)

lemma rstrip_idem [simp]: "rstrip (rstrip s) = rstrip s"
  by (simp add: rstrip_def)

lemma hd_rstrip: "rstrip s \<noteq> [] \<Longrightarrow> hd (rstrip s) = hd s"
proof -
  assume ne: "rstrip s \<noteq> []"
  have "rev s = takeWhile is_space (rev s) @ dropWhile is_space (rev s)" by simp
  then have "s = rstrip s @ rev (takeWhile is_space (rev s))"
    unfolding rstrip_def by (metis rev_append rev_rev_ident)
  with ne show ?thesis by (metis hd_append2)
qed

lemma lstrip_fix: "s = [] \<or> \<not> is_space (hd s) \<Longrightarrow> lstrip s = s"
  by (cases s) (auto simp: lstrip_def)

lemma lstrip_hd: "lstrip s = [] \<or> \<not> is_space (hd (lstrip s))"
  unfolding lstrip_def by (meson hd_dropWhile)

lemma strip_idem [simp]: "strip (strip s) = strip s"
proof -
  have "lstrip (rstrip (lstrip s)) = rstrip (lstrip s)"
  proof (rule lstrip_fix)
    show "rstrip (lstrip s) = [] \<or> \<not> is_space (hd (rstrip (lstrip s)))"
      using lstrip_hd [of s] by (metis hd_rstrip rstrip_empty)
  qed
  then show ?thesis by (simp add: strip_def)
qed

end
