(* ===== verification/PyText.thy ===== *)
theory PyText
  imports PyValue
begin

text \<open>
  Conversions between values and text: decimal numerals, \<open>int(text)\<close>, \<open>float(text)\<close>,
  \<open>repr\<close> and \<open>str\<close>.  The main lemma is that \<open>int(str(i)) = i\<close>.
\<close>

section \<open>Decimal numerals\<close>

definition digit_char :: "nat \<Rightarrow> char" where
  "digit_char n = char_of (48 + n)"

definition digit_val :: "char \<Rightarrow> nat" where
  "digit_val c = of_char c - 48"

fun nat_text :: "nat \<Rightarrow> string" where
  "nat_text n =
     (if n < 10 then [digit_char n] else nat_text (n div 10) @ [digit_char (n mod 10)])"

declare nat_text.simps [simp del]

definition int_text :: "int \<Rightarrow> string" where
  "int_text i = (if i < 0 then CHR ''-'' # nat_text (nat (- i)) else nat_text (nat i))"

text \<open>
  The digits of \<open>int(text)\<close>: single underscores are allowed between digits.  The flag says
  whether the character before was a digit.
\<close>

fun digits_val :: "bool \<Rightarrow> nat \<Rightarrow> string \<Rightarrow> nat option" where
  "digits_val prev acc [] = (if prev then Some acc else None)"
| "digits_val prev acc (c # cs) =
     (if is_dec_digit c then digits_val True (10 * acc + digit_val c) cs
      else if c = CHR ''_'' \<and> prev then digits_val False acc cs
      else None)"

definition signed_text :: "string \<Rightarrow> bool \<times> string" where
  "signed_text s = (case s of [] \<Rightarrow> (False, [])
     | c # cs \<Rightarrow> if c = CHR ''-'' then (True, cs)
        else if c = CHR ''+'' then (False, cs) else (False, s))"

text \<open>\<open>int(text)\<close>; \<open>None\<close> is its \<open>ValueError\<close>.\<close>

definition int_of_text :: "string \<Rightarrow> int option" where
  "int_of_text s =
     (case signed_text (strip s) of (neg, ds) \<Rightarrow>
       map_option (\<lambda>n. if neg then - int n else int n) (digits_val False 0 ds))"

text \<open>
  \<open>float(text)\<close> on decimal notation without exponent: digits, an optional point and
  digits.  Exponents, \<open>inf\<close> and \<open>nan\<close> are outside the value universe.
\<close>

definition float_of_text :: "string \<Rightarrow> rat option" where
  "float_of_text s =
     (case signed_text (strip s) of (neg, ds) \<Rightarrow>
       (case split_once (CHR ''.'') ds of
          (whole, None) \<Rightarrow> map_option (\<lambda>n. (if neg then -1 else 1) * of_nat n) (digits_val False 0 whole)
        | (whole, Some fr) \<Rightarrow>
            (if whole = [] \<and> fr = [] then None
             else case (if whole = [] then Some 0 else digits_val False 0 whole,
                        if fr = [] then Some 0 else digits_val False 0 fr) of
               (Some w, Some f) \<Rightarrow>
                  Some ((if neg then -1 else 1) *
                        (of_nat w + of_nat f / 10 ^ length (filter is_dec_digit fr)))
             | _ \<Rightarrow> None)))"

lemma is_dec_digit_digit_char: "n < 10 \<Longrightarrow> is_dec_digit (digit_char n)"
  by (simp add: is_dec_digit_def code_in_def digit_char_def)

lemma digit_val_digit_char: "n < 10 \<Longrightarrow> digit_val (digit_char n) = n"
  by (simp add: digit_val_def digit_char_def)

lemma digits_val_append_digit:
  "digits_val b a ds = Some v \<Longrightarrow> n < 10 \<Longrightarrow>
     digits_val b a (ds @ [digit_char n]) = Some (10 * v + n)"
proof (induction b a ds rule: digits_val.induct)
  case (1 prev acc)
  then show ?case
    by (simp add: is_dec_digit_digit_char digit_val_digit_char split: if_splits)
next
  case (2 prev acc c cs)
  then show ?case
    by (cases "is_dec_digit c"; cases "c = CHR ''_'' \<and> prev") auto
qed

lemma digits_val_nat_text: "digits_val False 0 (nat_text n) = Some n"
proof (induction n rule: nat_text.induct)
  case (1 n)
  show ?case
  proof (cases "n < 10")
    case True
    then show ?thesis
      by (simp add: nat_text.simps [of n] is_dec_digit_digit_char digit_val_digit_char)
  next
    case False
    with 1 have "digits_val False 0 (nat_text (n div 10)) = Some (n div 10)" by simp
    from digits_val_append_digit [OF this, of "n mod 10"] False show ?thesis
      by (simp add: nat_text.simps [of n])
  qed
qed

lemma nat_text_digits: "c \<in> set (nat_text n) \<Longrightarrow> is_dec_digit c"
proof (induction n rule: nat_text.induct)
  case (1 n)
  then show ?case
    by (subst (asm) (2) nat_text.simps) (auto simp: is_dec_digit_digit_char split: if_splits)
qed

lemma nat_text_nonempty [simp]: "nat_text n \<noteq> []"
  by (subst nat_text.simps) simp

lemma dec_digit_not_space: "is_dec_digit c \<Longrightarrow> \<not> is_space c"
  by (auto simp: is_dec_digit_def is_space_def code_in_def)

lemma strip_no_space: "(\<And>c. c \<in> set s \<Longrightarrow> \<not> is_space c) \<Longrightarrow> strip s = s"
proof -
  assume ns: "\<And>c. c \<in> set s \<Longrightarrow> \<not> is_space c"
  then have "dropWhile is_space s = s" by (cases s) auto
  moreover have "dropWhile is_space (rev s) = rev s"
  proof (cases "rev s")
    case (Cons c cs)
    then have "c \<in> set s" by (metis list.set_intros(1) set_rev)
    with Cons ns show ?thesis by simp
  qed simp
  ultimately show ?thesis by (simp add: strip_def lstrip_def rstrip_def)
qed

lemma strip_nat_text [simp]: "strip (nat_text n) = nat_text n"
  by (rule strip_no_space) (auto dest: nat_text_digits dec_digit_not_space)

lemma py_isdigit_nat_text [simp]: "py_isdigit (nat_text n)"
  by (auto simp: py_isdigit_def list_all_iff is_digit_char_def dest: nat_text_digits)

lemma signed_text_nat_text [simp]: "signed_text (nat_text n) = (False, nat_text n)"
proof -
  obtain c cs where c: "nat_text n = c # cs" by (meson neq_Nil_conv nat_text_nonempty)
  then have "is_dec_digit c" using nat_text_digits [of c n] by simp
  then have "c \<noteq> CHR ''-''" "c \<noteq> CHR ''+''" by (auto simp: is_dec_digit_def code_in_def)
  with c show ?thesis by (simp add: signed_text_def)
qed

lemma int_of_text_nat_text: "int_of_text (nat_text n) = Some (int n)"
  by (simp add: int_of_text_def digits_val_nat_text)

lemma int_of_text_int_text: "int_of_text (int_text i) = Some i"
proof (cases "i < 0")
  case True
  have "strip (CHR ''-'' # nat_text (nat (- i))) = CHR ''-'' # nat_text (nat (- i))"
  proof (rule strip_no_space)
    fix c assume "c \<in> set (CHR ''-'' # nat_text (nat (- i)))"
    then consider "c = CHR ''-''" | "is_dec_digit c" by (auto dest: nat_text_digits)
    then show "\<not> is_space c"
    proof cases
      case 1
      then show ?thesis by (simp add: is_space_def code_in_def)
    qed (rule dec_digit_not_space)
  qed
  with True show ?thesis
    by (simp add: int_text_def int_of_text_def signed_text_def digits_val_nat_text)
qed (simp add: int_text_def int_of_text_nat_text)

section \<open>repr and str\<close>

text \<open>
  The shortest decimal notation of a float, to at most 17 places after the point; integral
  floats print a trailing \<open>.0\<close>.
\<close>

fun frac_text :: "nat \<Rightarrow> rat \<Rightarrow> string" where
  "frac_text 0 q = []"
| "frac_text (Suc k) q =
     (if q = 0 then []
      else digit_char (nat \<lfloor>10 * q\<rfloor>) # frac_text k (10 * q - of_int \<lfloor>10 * q\<rfloor>))"

definition float_text :: "rat \<Rightarrow> string" where
  "float_text q =
     (let a = \<bar>q\<bar>; w = \<lfloor>a\<rfloor>; f = frac_text 17 (a - of_int w)
      in (if q < 0 then ''-'' else []) @ nat_text (nat w) @ ''.'' @ (if f = [] then ''0'' else f))"

definition hex_digit :: "nat \<Rightarrow> char" where
  "hex_digit n = (if n < 10 then digit_char n else char_of (87 + n))"

definition repr_char :: "char \<Rightarrow> char \<Rightarrow> string" where
  "repr_char q c =
     (let n = of_char c :: nat
      in if c = q \<or> n = 92 then [CHR 0x5C, c]
         else if n = 10 then [CHR 0x5C, CHR ''n'']
         else if n = 13 then [CHR 0x5C, CHR ''r'']
         else if n = 9 then [CHR 0x5C, CHR ''t'']
         else if n < 32 \<or> (127 \<le> n \<and> n \<le> 160) \<or> n = 173
           then [CHR 0x5C, CHR ''x'', hex_digit (n div 16), hex_digit (n mod 16)]
         else [c])"

text \<open>Single quotes, unless the text holds one and no double quote.\<close>

definition repr_string :: "string \<Rightarrow> string" where
  "repr_string s =
     (let q = (if CHR 0x27 \<in> set s \<and> CHR 0x22 \<notin> set s then CHR 0x22 else CHR 0x27)
      in [q] @ concat (map (repr_char q) s) @ [q])"

lemma size_dict_entry [termination_simp]:
  "(k, v) \<in> set d \<Longrightarrow> size (v :: pyval) < Suc (size_list (size_prod (\<lambda>_. 0) size) d)"
  by (induction d) auto

fun py_repr :: "pyval \<Rightarrow> string" where
  "py_repr PNone = ''None''"
| "py_repr (PBool b) = (if b then ''True'' else ''False'')"
| "py_repr (PInt i) = int_text i"
| "py_repr (PFloat q) = float_text q"
| "py_repr (PStr s) = repr_string s"
| "py_repr (PList xs) = ''['' @ join '', '' (map py_repr xs) @ '']''"
| "py_repr (PTuple xs) =
     (case xs of [x] \<Rightarrow> ''('' @ py_repr x @ '',)''
      | _ \<Rightarrow> ''('' @ join '', '' (map py_repr xs) @ '')'')"
| "py_repr (PSet xs) =
     (if xs = [] then ''set()'' else CHR 0x7B # join '', '' (map py_repr xs) @ [CHR 0x7D])"
| "py_repr (PDict d) =
     CHR 0x7B # join '', '' (map (\<lambda>(k, v). repr_string k @ '': '' @ py_repr v) d) @ [CHR 0x7D]"
| "py_repr (PObj i t) = t"

fun py_str :: "pyval \<Rightarrow> string" where
  "py_str (PStr s) = s"
| "py_str v = py_repr v"

text \<open>\<open>str(v).strip()\<close>, the normalisation most identifiers go through.\<close>

definition str_strip :: "pyval \<Rightarrow> string" where
  "str_strip v = strip (py_str v)"

section \<open>Numbers from values\<close>

text \<open>\<open>int(v)\<close>: \<open>None\<close> stands for its \<open>TypeError\<close> or \<open>ValueError\<close>.\<close>

definition py_int :: "pyval \<Rightarrow> int option" where
  "py_int v = (case v of
       PBool b \<Rightarrow> Some (if b then 1 else 0)
     | PInt i \<Rightarrow> Some i
     | PFloat q \<Rightarrow> Some (if q < 0 then - \<lfloor>- q\<rfloor> else \<lfloor>q\<rfloor>)
     | PStr s \<Rightarrow> int_of_text s
     | _ \<Rightarrow> None)"

definition py_float :: "pyval \<Rightarrow> rat option" where
  "py_float v = (case v of
       PBool b \<Rightarrow> Some (if b then 1 else 0)
     | PInt i \<Rightarrow> Some (of_int i)
     | PFloat q \<Rightarrow> Some q
     | PStr s \<Rightarrow> float_of_text s
     | _ \<Rightarrow> None)"

section \<open>Identifier patterns\<close>

text \<open>The character class \<open>[A-Za-z0-9_.-]\<close>.\<close>

definition is_ident_char :: "char \<Rightarrow> bool" where
  "is_ident_char c \<longleftrightarrow> is_letter c \<or> is_dec_digit c \<or> c \<in> {CHR ''_'', CHR ''.'', CHR ''-''}"

lemma ident_char_not_space: "is_ident_char c \<Longrightarrow> \<not> is_space c"
  by (auto simp: is_ident_char_def is_letter_def is_dec_digit_def is_space_def code_in_def)

end
