(* ===== verification/DepGraph.thy ===== *)
theory DepGraph
  imports PyText
begin

text \<open>
  Dependency graphs and Kahn's algorithm, as both the task DAG validator and the task
  board validator run it.  A graph is a dictionary from ids to the ids they depend on.
  The specification is \<open>is_topo\<close>; the main lemmas are that the loop returns a
  topological order whenever it returns one (\<open>kahn_sound\<close>), that it does so whenever
  there is one (\<open>kahn_complete\<close>), and what the reported cycle holds.
\<close>

section \<open>Specification\<close>

type_synonym 'a depgraph = "('a, 'a list) dict"

definition deps_of :: "'a depgraph \<Rightarrow> 'a \<Rightarrow> 'a list" where
  "deps_of g t = dict_get_or g t []"

definition graph_wf :: "'a depgraph \<Rightarrow> bool" where
  "graph_wf g \<longleftrightarrow> dict_wf g \<and> (\<forall>(t, ds) \<in> set g. set ds \<subseteq> set (dict_keys g))"

text \<open>Every element comes after all its dependencies, given those already \<open>seen\<close>.\<close>

fun dep_ordered :: "('a \<Rightarrow> 'a list) \<Rightarrow> 'a set \<Rightarrow> 'a list \<Rightarrow> bool" where
  "dep_ordered deps seen [] = True"
| "dep_ordered deps seen (t # ts) = (set (deps t) \<subseteq> seen \<and> dep_ordered deps (insert t seen) ts)"

definition is_topo :: "'a depgraph \<Rightarrow> 'a list \<Rightarrow> bool" where
  "is_topo g xs \<longleftrightarrow> distinct xs \<and> set xs = set (dict_keys g) \<and> dep_ordered (deps_of g) {} xs"

definition roots_of :: "'a depgraph \<Rightarrow> 'a list" where
  "roots_of g = map fst (filter (\<lambda>(t, ds). ds = []) g)"

lemma dep_ordered_append:
  "dep_ordered deps seen (xs @ ys) \<longleftrightarrow> dep_ordered deps seen xs \<and> dep_ordered deps (seen \<union> set xs) ys"
  by (induction xs arbitrary: seen) (auto simp: Un_assoc)

lemma dep_ordered_mono: "dep_ordered deps seen xs \<Longrightarrow> seen \<subseteq> seen' \<Longrightarrow> dep_ordered deps seen' xs"
proof (induction xs arbitrary: seen seen')
  case (Cons x xs)
  from Cons.prems have "dep_ordered deps (insert x seen) xs" "insert x seen \<subseteq> insert x seen'"
    by auto
  then have "dep_ordered deps (insert x seen') xs" by (rule Cons.IH)
  with Cons.prems show ?case by auto
qed simp

lemma dep_ordered_cong:
  "(\<And>x. x \<in> set xs \<Longrightarrow> deps x = deps' x) \<Longrightarrow> dep_ordered deps seen xs = dep_ordered deps' seen xs"
  by (induction xs arbitrary: seen) auto

lemma dep_ordered_prefix_dep:
  "dep_ordered deps seen xs \<Longrightarrow> xs = ys @ t # zs \<Longrightarrow> d \<in> set (deps t) \<Longrightarrow> d \<in> seen \<union> set ys"
  by (auto simp: dep_ordered_append)

text \<open>Keeping a set that is closed under dependencies keeps the order topological.\<close>

lemma dep_ordered_filter:
  assumes "dep_ordered deps seen xs" and "\<And>x. x \<in> set xs \<Longrightarrow> P x \<Longrightarrow> set (deps x) \<subseteq> {d. P d}"
  shows "dep_ordered deps (seen \<inter> {d. P d}) (filter P xs)"
  using assms
proof (induction xs arbitrary: seen)
  case (Cons x xs)
  then have IH: "dep_ordered deps (insert x seen \<inter> {d. P d}) (filter P xs)" by simp
  show ?case
  proof (cases "P x")
    case True
    moreover from True have "insert x seen \<inter> {d. P d} = insert x (seen \<inter> {d. P d})" by auto
    ultimately show ?thesis using IH Cons.prems by auto
  next
    case False
    then have "insert x seen \<inter> {d. P d} = seen \<inter> {d. P d}" by auto
    with IH False show ?thesis by simp
  qed
qed simp

lemma graph_wf_dep: "graph_wf g \<Longrightarrow> d \<in> set (deps_of g t) \<Longrightarrow> d \<in> set (dict_keys g)"
  unfolding graph_wf_def deps_of_def dict_get_or_def
  by (auto split: option.splits dest!: dict_get_Some_mem)

lemma deps_of_mem: "graph_wf g \<Longrightarrow> (t, ds) \<in> set g \<Longrightarrow> deps_of g t = ds"
  unfolding graph_wf_def deps_of_def dict_get_or_def by (auto dest: dict_get_SomeI)

lemma mem_roots_of: "graph_wf g \<Longrightarrow> t \<in> set (roots_of g) \<longleftrightarrow> t \<in> set (dict_keys g) \<and> deps_of g t = []"
  by (force simp: roots_of_def dest: deps_of_mem)

text \<open>A graph with a topological order and a node has a root.\<close>

lemma is_topo_root:
  assumes "is_topo g xs" and "g \<noteq> []" and "graph_wf g"
  shows "xs \<noteq> [] \<and> hd xs \<in> set (roots_of g)"
proof -
  from assms(1,2) obtain t ts where xs: "xs = t # ts"
    by (cases xs) (auto simp: is_topo_def)
  with assms(1) have "deps_of g t = []" "t \<in> set (dict_keys g)" by (auto simp: is_topo_def)
  with xs show ?thesis by (simp add: mem_roots_of [OF assms(3)])
qed

section \<open>The algorithm\<close>

datatype 'a kahn_error = KahnKeyError 'a | NoRoot | CycleError "'a list"

definition init_dict :: "'v \<Rightarrow> 'a list \<Rightarrow> ('a, 'v) dict" where
  "init_dict v ks = fold (\<lambda>k. dict_set k v) ks []"

text \<open>\<open>adjacency[dependency].append(task.id); indegree[task.id] += 1\<close>\<close>

definition add_edge ::
  "'a \<Rightarrow> 'a \<Rightarrow> ('a, 'a list) dict \<times> ('a, int) dict
     \<Rightarrow> 'a kahn_error + ('a, 'a list) dict \<times> ('a, int) dict" where
  "add_edge t d s = (case s of (adj, ind) \<Rightarrow>
     (case dict_get adj d of
        None \<Rightarrow> Inl (KahnKeyError d)
      | Some cs \<Rightarrow>
          (case dict_get ind t of
             None \<Rightarrow> Inl (KahnKeyError t)
           | Some n \<Rightarrow> Inr (dict_set d (cs @ [t]) adj, dict_set t (n + 1) ind))))"

definition build_edges ::
  "'a depgraph \<Rightarrow> 'a kahn_error + ('a, 'a list) dict \<times> ('a, int) dict" where
  "build_edges g =
     foldE (\<lambda>(t, ds). foldE (add_edge t) ds) g
       (init_dict [] (dict_keys g), init_dict 0 (dict_keys g))"

text \<open>The inner loop over \<open>adjacency[task_id]\<close>.\<close>

fun release ::
  "'a list \<Rightarrow> ('a, int) dict \<Rightarrow> 'a list \<Rightarrow> 'a kahn_error + ('a, int) dict \<times> 'a list" where
  "release [] ind q = Inr (ind, q)"
| "release (c # cs) ind q =
     (case dict_get ind c of
        None \<Rightarrow> Inl (KahnKeyError c)
      | Some n \<Rightarrow> release cs (dict_set c (n - 1) ind) (if n - 1 = 0 then q @ [c] else q))"

definition positives :: "('a, int) dict \<Rightarrow> nat" where
  "positives ind = length (filter (\<lambda>(k, n). 0 < n) ind)"

lemma positives_set:
  "dict_get ind c = Some n \<Longrightarrow>
     positives (dict_set c m ind) + (if 0 < n then 1 else 0) = positives ind + (if 0 < m then 1 else 0)"
  by (induction ind) (auto simp: positives_def split: if_splits)

lemma release_measure:
  "release cs ind q = Inr (ind', q') \<Longrightarrow> length q' + positives ind' \<le> length q + positives ind"
proof (induction cs ind q rule: release.induct)
  case (2 c cs ind q)
  then obtain n where n: "dict_get ind c = Some n"
    and IH: "length q' + positives ind'
      \<le> length (if n - 1 = 0 then q @ [c] else q) + positives (dict_set c (n - 1) ind)"
    by (auto split: option.splits)
  from positives_set [OF n, of "n - 1"] IH show ?case by (auto split: if_splits)
qed simp

text \<open>The \<open>while queue\<close> loop.\<close>

function kahn_loop ::
  "('a, 'a list) dict \<Rightarrow> ('a, int) dict \<Rightarrow> 'a list \<Rightarrow> 'a list
     \<Rightarrow> 'a kahn_error + 'a list \<times> ('a, int) dict" where
  "kahn_loop adj ind [] ordered = Inr (ordered, ind)"
| "kahn_loop adj ind (t # q) ordered =
     (case dict_get adj t of
        None \<Rightarrow> Inl (KahnKeyError t)
      | Some cs \<Rightarrow>
          (case release cs ind q of
             Inl e \<Rightarrow> Inl e
           | Inr (ind', q') \<Rightarrow> kahn_loop adj ind' q' (ordered @ [t])))"
  by pat_completeness auto
termination
proof (relation "measure (\<lambda>(adj, ind, q, ordered). length q + positives ind)", simp)
  fix adj :: "('a, 'a list) dict" and ind t q ordered cs p ind' q'
  assume "release cs ind q = Inr p" and "(ind', q') = p"
  then have "length q' + positives ind' \<le> length q + positives ind"
    using release_measure [of cs ind q ind' q'] by simp
  then show "((adj, ind', q', ordered @ [t]), adj, ind, t # q, ordered)
      \<in> measure (\<lambda>(adj, ind, q, ordered). length q + positives ind)" by simp
qed

definition topological_order ::
  "('a::linorder) depgraph \<Rightarrow> 'a kahn_error + 'a list \<times> 'a list" where
  "topological_order g =
     bindE (build_edges g) (\<lambda>(adj, ind).
       let roots = roots_of g in
       if roots = [] then Inl NoRoot
       else bindE (kahn_loop adj ind roots []) (\<lambda>(ordered, ind').
         if length ordered \<noteq> length g
         then Inl (CycleError (sort (map fst (filter (\<lambda>(k, n). 0 < n) ind'))))
         else Inr (roots, ordered)))"


section \<open>Correctness\<close>

subsection \<open>Building the edges\<close>

lemma fold_dict_set_get:
  "dict_get (fold (\<lambda>k. dict_set k v) ks d) k = (if k \<in> set ks then Some v else dict_get d k)"
  by (induction ks arbitrary: d) auto

lemma init_dict_wf: "dict_wf (init_dict v ks)"
proof -
  have "dict_wf d \<Longrightarrow> dict_wf (fold (\<lambda>k. dict_set k v) ks d)" for d
    by (induction ks arbitrary: d) auto
  then show ?thesis by (simp add: init_dict_def)
qed

lemma init_dict_get: "dict_get (init_dict v ks) k = (if k \<in> set ks then Some v else None)"
  by (simp add: init_dict_def fold_dict_set_get)

text \<open>
  What the two dictionaries hold after the edges of \<open>done\<close> (a list of dependency pairs
  child, parent) were added.
\<close>

definition edges_inv ::
  "'a set \<Rightarrow> ('a \<times> 'a) list \<Rightarrow> ('a, 'a list) dict \<times> ('a, int) dict \<Rightarrow> bool" where
  "edges_inv K es s \<longleftrightarrow> (case s of (adj, ind) \<Rightarrow>
     (\<forall>k. dict_get adj k = (if k \<in> K then Some [c. (c, d) \<leftarrow> es, d = k] else None)) \<and>
     (\<forall>k. dict_get ind k = (if k \<in> K then Some (int (length [d. (c, d) \<leftarrow> es, c = k])) else None))
     \<and> dict_wf ind)"

lemma add_edge_inv:
  assumes "edges_inv K es s" and "t \<in> K" and "d \<in> K"
  shows "\<exists>s'. add_edge t d s = Inr s' \<and> edges_inv K (es @ [(t, d)]) s'"
  using assms by (cases s) (auto simp: edges_inv_def add_edge_def)

lemma add_edges_inv:
  "edges_inv K es s \<Longrightarrow> t \<in> K \<Longrightarrow> set ds \<subseteq> K \<Longrightarrow>
     \<exists>s'. foldE (add_edge t) ds s = Inr s' \<and> edges_inv K (es @ map (\<lambda>d. (t, d)) ds) s'"
proof (induction ds arbitrary: es s)
  case (Cons d ds)
  from Cons.prems obtain s1 where s1: "add_edge t d s = Inr s1" "edges_inv K (es @ [(t, d)]) s1"
    using add_edge_inv [of K es s t d] by auto
  from Cons.IH [OF s1(2)] Cons.prems s1(1) show ?case by simp
qed simp

definition edge_list :: "'a depgraph \<Rightarrow> ('a \<times> 'a) list" where
  "edge_list g = [(t, d). (t, ds) \<leftarrow> g, d \<leftarrow> ds]"

lemma build_edges_fold:
  "edges_inv K es s \<Longrightarrow> (\<And>t ds. (t, ds) \<in> set h \<Longrightarrow> t \<in> K \<and> set ds \<subseteq> K) \<Longrightarrow>
     \<exists>s'. foldE (\<lambda>(t, ds). foldE (add_edge t) ds) h s = Inr s' \<and> edges_inv K (es @ edge_list h) s'"
proof (induction h arbitrary: es s)
  case (Cons n h)
  obtain t ds where n: "n = (t, ds)" by (cases n)
  with Cons.prems(2) have "t \<in> K" "set ds \<subseteq> K" by auto
  with add_edges_inv [OF Cons.prems(1)] obtain s1
    where s1: "foldE (add_edge t) ds s = Inr s1" "edges_inv K (es @ map (\<lambda>d. (t, d)) ds) s1"
    by blast
  have "\<And>t ds. (t, ds) \<in> set h \<Longrightarrow> t \<in> K \<and> set ds \<subseteq> K" using Cons.prems(2) by auto
  from Cons.IH [OF s1(2) this] obtain s2
    where "foldE (\<lambda>(t, ds). foldE (add_edge t) ds) h s1 = Inr s2"
      "edges_inv K ((es @ map (\<lambda>d. (t, d)) ds) @ edge_list h) s2" by blast
  with s1(1) n show ?case by (simp add: edge_list_def)
qed (simp add: edge_list_def)

lemma edge_list_parents:
  "dict_wf g \<Longrightarrow> [d. (c, d) \<leftarrow> edge_list g, c = k] = deps_of g k"
proof (induction g)
  case (Cons n g)
  obtain t ds where n: "n = (t, ds)" by (cases n)
  have 1: "[d. (c, d) \<leftarrow> map (\<lambda>d. (t, d)) ds, c = k] = (if t = k then ds else [])" for ds :: "'a list"
    by (induction ds) auto
  have 2: "k \<notin> fst ` set g \<Longrightarrow> deps_of g k = []"
    by (simp add: deps_of_def dict_get_or_def dict_get_None_iff [symmetric])
  have "[d. (c, d) \<leftarrow> edge_list (n # g), c = k]
      = [d. (c, d) \<leftarrow> map (\<lambda>d. (t, d)) ds, c = k] @ [d. (c, d) \<leftarrow> edge_list g, c = k]"
    by (simp add: edge_list_def n)
  also have "\<dots> = (if t = k then ds else []) @ deps_of g k" using Cons 1 by simp
  also have "\<dots> = deps_of (n # g) k"
    using Cons.prems n 2 by (auto simp: deps_of_def dict_get_or_def)
  finally show ?case .
qed (simp add: edge_list_def deps_of_def dict_get_or_def)

lemma edge_list_children:
  "dict_wf g \<Longrightarrow> c \<in> set (dict_keys g) \<Longrightarrow>
     count_list [c. (c, d) \<leftarrow> edge_list g, d = k] c = count_list (deps_of g c) k"
proof (induction g)
  case (Cons n g)
  obtain t ds where n: "n = (t, ds)" by (cases n)
  have 1: "count_list [c. (c, d) \<leftarrow> map (\<lambda>d. (t, d)) ds, d = k] c
      = (if t = c then count_list ds k else 0)" for ds :: "'a list"
    by (induction ds) auto
  have 2: "count_list [c. (c, d) \<leftarrow> edge_list g, d = k] c = 0" if "c \<notin> fst ` set g"
    using that by (auto simp: edge_list_def count_list_0_iff image_iff)
  have "count_list [c. (c, d) \<leftarrow> edge_list (n # g), d = k] c
      = (if t = c then count_list ds k else 0) + count_list [c. (c, d) \<leftarrow> edge_list g, d = k] c"
    using 1 by (simp add: edge_list_def n)
  moreover have "deps_of (n # g) c = (if t = c then ds else deps_of g c)"
    by (auto simp: n deps_of_def dict_get_or_def)
  ultimately show ?case using Cons 2 n by (cases "t = c") auto
qed simp

lemma build_edges_spec:
  assumes "graph_wf g"
  obtains adj ind where "build_edges g = Inr (adj, ind)"
    and "\<And>k. k \<in> set (dict_keys g) \<Longrightarrow> \<exists>cs. dict_get adj k = Some cs \<and> set cs \<subseteq> set (dict_keys g)
            \<and> (\<forall>c \<in> set (dict_keys g). count_list cs c = count_list (deps_of g c) k)"
    and "\<And>k. dict_get ind k = (if k \<in> set (dict_keys g) then Some (int (length (deps_of g k))) else None)"
    and "dict_wf ind"
proof -
  let ?K = "set (dict_keys g)"
  have "edges_inv ?K [] (init_dict [] (dict_keys g), init_dict 0 (dict_keys g))"
    using init_dict_wf [of 0 "dict_keys g"] by (simp add: edges_inv_def init_dict_get)
  moreover have "t \<in> ?K \<and> set ds \<subseteq> ?K" if "(t, ds) \<in> set g" for t ds
    using assms that by (force simp: graph_wf_def)
  ultimately obtain s where s: "build_edges g = Inr s" "edges_inv ?K (edge_list g) s"
    using build_edges_fold [of ?K "[]" _ g] unfolding build_edges_def append_Nil by blast
  obtain adj ind where p: "s = (adj, ind)" by (cases s)
  have wf: "dict_wf g" using assms by (simp add: graph_wf_def)
  show thesis
  proof (rule that)
    show "build_edges g = Inr (adj, ind)" using s(1) p by simp
    show "dict_wf ind" using s(2) p by (simp add: edges_inv_def)
    show "dict_get ind k = (if k \<in> ?K then Some (int (length (deps_of g k))) else None)" for k
      using s(2) unfolding p edges_inv_def edge_list_parents [OF wf] by simp
    show "\<exists>cs. dict_get adj k = Some cs \<and> set cs \<subseteq> ?K
            \<and> (\<forall>c \<in> ?K. count_list cs c = count_list (deps_of g c) k)" if "k \<in> ?K" for k
    proof -
      have "dict_get adj k = Some [c. (c, d) \<leftarrow> edge_list g, d = k]"
        using s(2) that by (simp add: p edges_inv_def)
      moreover have "set [c. (c, d) \<leftarrow> edge_list g, d = k] \<subseteq> ?K"
        by (force simp: edge_list_def)
      ultimately show ?thesis using edge_list_children [OF wf] by blast
    qed
  qed
qed


subsection \<open>The release loop\<close>

lemma release_spec:
  assumes "\<And>c. c \<in> set cs \<Longrightarrow> \<exists>n. dict_get ind c = Some n \<and> int (count_list cs c) \<le> n"
  shows "\<exists>ind' new. release cs ind q = Inr (ind', q @ new) \<and> distinct new
    \<and> set new = {c \<in> set cs. dict_get ind c = Some (int (count_list cs c))}
    \<and> (\<forall>k. dict_get ind' k = map_option (\<lambda>n. n - int (count_list cs k)) (dict_get ind k))
    \<and> (dict_wf ind \<longrightarrow> dict_wf ind')"
  using assms
proof (induction cs arbitrary: ind q)
  case Nil
  then show ?case by (simp add: option.map_ident)
next
  case (Cons c cs)
  from Cons.prems [of c] obtain n
    where n: "dict_get ind c = Some n" "int (count_list (c # cs) c) \<le> n" by auto
  let ?ind = "dict_set c (n - 1) ind" and ?q = "if n - 1 = 0 then q @ [c] else q"
  have "\<exists>m. dict_get ?ind x = Some m \<and> int (count_list cs x) \<le> m" if "x \<in> set cs" for x
    using Cons.prems [of x] n that by (auto split: if_splits)
  from Cons.IH [OF this, of ?q] obtain ind' new
    where IH: "release cs ?ind ?q = Inr (ind', ?q @ new)" "distinct new"
      "set new = {x \<in> set cs. dict_get ?ind x = Some (int (count_list cs x))}"
      "\<forall>k. dict_get ind' k = map_option (\<lambda>n. n - int (count_list cs k)) (dict_get ?ind k)"
      "dict_wf ?ind \<longrightarrow> dict_wf ind'"
    by blast
  have step: "release (c # cs) ind q = Inr (ind', ?q @ new)" using n(1) IH(1) by simp
  have get: "dict_get ind' k = map_option (\<lambda>n. n - int (count_list (c # cs) k)) (dict_get ind k)" for k
    using IH(4) n(1) by (auto simp: option.map_comp comp_def)
  show ?case
  proof (cases "n = 1")
    case True
    with n(2) have "c \<notin> set cs" by (auto simp: count_list_0_iff [symmetric])
    with True IH n(1) step get show ?thesis
      by (intro exI [of _ ind'] exI [of _ "c # new"]) auto
  next
    case False
    with IH n(1) step get show ?thesis
      by (intro exI [of _ ind'] exI [of _ new]) (auto simp: count_list_0_iff)
  qed
qed

subsection \<open>The main loop\<close>

text \<open>
  The loop invariant: the in-degree of a node counts the dependencies not yet ordered, and
  the nodes ordered or queued are those for which that count is zero.
\<close>

definition left_of :: "'a depgraph \<Rightarrow> 'a list \<Rightarrow> 'a \<Rightarrow> nat" where
  "left_of g ordered k = length (filter (\<lambda>d. d \<notin> set ordered) (deps_of g k))"

definition kahn_inv :: "'a depgraph \<Rightarrow> ('a, int) dict \<Rightarrow> 'a list \<Rightarrow> 'a list \<Rightarrow> bool" where
  "kahn_inv g ind q ordered \<longleftrightarrow>
     distinct (ordered @ q) \<and> dep_ordered (deps_of g) {} ordered \<and>
     set (ordered @ q) = {k \<in> set (dict_keys g). left_of g ordered k = 0} \<and>
     (\<forall>k. dict_get ind k
        = (if k \<in> set (dict_keys g) then Some (int (left_of g ordered k)) else None)) \<and>
     dict_wf ind"

definition adj_ok :: "'a depgraph \<Rightarrow> ('a, 'a list) dict \<Rightarrow> bool" where
  "adj_ok g adj \<longleftrightarrow> (\<forall>k \<in> set (dict_keys g).
     \<exists>cs. dict_get adj k = Some cs \<and> set cs \<subseteq> set (dict_keys g)
        \<and> (\<forall>c \<in> set (dict_keys g). count_list cs c = count_list (deps_of g c) k))"

lemma left_of_zero: "left_of g ordered k = 0 \<longleftrightarrow> set (deps_of g k) \<subseteq> set ordered"
  by (auto simp: left_of_def filter_empty_conv)

lemma left_of_snoc:
  "t \<notin> set ordered \<Longrightarrow>
     left_of g (ordered @ [t]) k + count_list (deps_of g k) t = left_of g ordered k"
proof -
  have "length (filter (\<lambda>d. d \<notin> set (ordered @ [t])) ds) + count_list ds t
      = length (filter (\<lambda>d. d \<notin> set ordered) ds)" if "t \<notin> set ordered" for ds
    using that by (induction ds) auto
  then show "t \<notin> set ordered \<Longrightarrow> ?thesis" by (simp add: left_of_def)
qed

lemma kahn_step:
  assumes inv: "kahn_inv g ind (t # q) ordered" and adj: "adj_ok g adj"
  obtains cs ind' q' where "dict_get adj t = Some cs" and "release cs ind q = Inr (ind', q')"
    and "kahn_inv g ind' q' (ordered @ [t])"
proof -
  let ?K = "set (dict_keys g)"
  from inv have t: "t \<in> ?K" "t \<notin> set ordered" "left_of g ordered t = 0" "t \<notin> set q"
    by (auto simp: kahn_inv_def)
  from adj t(1) obtain cs where cs: "dict_get adj t = Some cs" "set cs \<subseteq> ?K"
    "\<forall>c \<in> ?K. count_list cs c = count_list (deps_of g c) t"
    unfolding adj_ok_def by blast
  have ind: "dict_get ind k = (if k \<in> ?K then Some (int (left_of g ordered k)) else None)" for k
    using inv by (simp add: kahn_inv_def)
  have le: "k \<in> ?K \<Longrightarrow> count_list cs k + left_of g (ordered @ [t]) k = left_of g ordered k" for k
    using bspec [OF cs(3), of k] left_of_snoc [OF t(2), of g k] by linarith
  have "\<exists>n. dict_get ind c = Some n \<and> int (count_list cs c) \<le> n" if "c \<in> set cs" for c
  proof -
    from that cs(2) have K: "c \<in> ?K" by blast
    from le [OF K] have "int (count_list cs c) \<le> int (left_of g ordered c)" by linarith
    with K ind [of c] show ?thesis by simp
  qed
  from release_spec [OF this, of q] obtain ind' new where
    r: "release cs ind q = Inr (ind', q @ new)" and dn: "distinct new"
    and new: "set new = {c \<in> set cs. dict_get ind c = Some (int (count_list cs c))}"
    and ind': "\<forall>k. dict_get ind' k = map_option (\<lambda>n. n - int (count_list cs k)) (dict_get ind k)"
    and wf: "dict_wf ind \<longrightarrow> dict_wf ind'"
    by blast
  have new2: "set new = {k \<in> ?K. left_of g ordered k \<noteq> 0 \<and> left_of g (ordered @ [t]) k = 0}"
  proof (rule set_eqI)
    fix k
    show "k \<in> set new \<longleftrightarrow>
        k \<in> {k \<in> ?K. left_of g ordered k \<noteq> 0 \<and> left_of g (ordered @ [t]) k = 0}"
    proof (cases "k \<in> ?K")
      case True
      with ind [of k] have "k \<in> set new \<longleftrightarrow> k \<in> set cs \<and> left_of g ordered k = count_list cs k"
        by (simp add: new)
      moreover have "k \<in> set cs \<longleftrightarrow> 0 < count_list cs k"
        using count_list_0_iff [of cs k] by auto
      ultimately show ?thesis using True le [OF True] by (auto simp del: set_map)
    next
      case False
      with cs(2) show ?thesis by (auto simp: new simp del: set_map)
    qed
  qed
  have split: "{k \<in> ?K. left_of g (ordered @ [t]) k = 0}
      = {k \<in> ?K. left_of g ordered k = 0} \<union> set new"
  proof -
    have "left_of g (ordered @ [t]) k = 0" if "k \<in> ?K" "left_of g ordered k = 0" for k
      using le [OF that(1)] that(2) by simp
    then show ?thesis unfolding new2 by blast
  qed
  have "kahn_inv g ind' (q @ new) (ordered @ [t])"
    unfolding kahn_inv_def
  proof (intro conjI)
    show "dict_wf ind'" using wf inv by (simp add: kahn_inv_def)
    show "distinct ((ordered @ [t]) @ q @ new)"
    proof -
      have all: "set (ordered @ t # q) = {k \<in> ?K. left_of g ordered k = 0}"
        using inv unfolding kahn_inv_def by blast
      have "set (ordered @ t # q) \<inter> set new = {}" unfolding new2 all by blast
      moreover have "distinct (ordered @ t # q)" using inv by (simp add: kahn_inv_def)
      ultimately show ?thesis using dn by auto
    qed
    show "dep_ordered (deps_of g) {} (ordered @ [t])"
      using inv t(3) by (simp add: kahn_inv_def dep_ordered_append left_of_zero)
    show "set ((ordered @ [t]) @ q @ new) = {k \<in> ?K. left_of g (ordered @ [t]) k = 0}"
      using inv unfolding split by (auto simp: kahn_inv_def)
    show "\<forall>k. dict_get ind' k
        = (if k \<in> ?K then Some (int (left_of g (ordered @ [t]) k)) else None)"
    proof
      fix k
      show "dict_get ind' k = (if k \<in> ?K then Some (int (left_of g (ordered @ [t]) k)) else None)"
      proof (cases "k \<in> ?K")
        case True
        with ind [of k] ind' le [OF True] show ?thesis by (simp del: set_map)
      next
        case False
        with ind [of k] ind' show ?thesis by (simp del: set_map)
      qed
    qed
  qed
  with cs(1) r that show thesis by blast
qed

lemma kahn_loop_spec:
  "kahn_inv g ind q ordered \<Longrightarrow> adj_ok g adj \<Longrightarrow>
     \<exists>xs ind'. kahn_loop adj ind q ordered = Inr (xs, ind') \<and> kahn_inv g ind' [] xs"
proof (induction adj ind q ordered rule: kahn_loop.induct)
  case (1 adj ind ordered)
  then show ?case by simp
next
  case (2 adj ind t q ordered)
  from kahn_step [OF "2.prems"] obtain cs ind' q' where
    s: "dict_get adj t = Some cs" "release cs ind q = Inr (ind', q')"
       "kahn_inv g ind' q' (ordered @ [t])" by blast
  from "2.IH" [OF s(1) s(2) refl s(3) "2.prems"(2)] s show ?case by simp
qed

text \<open>When the queue is empty the ordered nodes are exactly those of every topological list.\<close>

lemma kahn_inv_final:
  assumes "kahn_inv g ind [] xs"
  shows "distinct xs" "dep_ordered (deps_of g) {} xs" "set xs \<subseteq> set (dict_keys g)"
    "k \<in> set (dict_keys g) \<Longrightarrow> set (deps_of g k) \<subseteq> set xs \<longleftrightarrow> k \<in> set xs"
  using assms by (auto simp: kahn_inv_def left_of_zero)

lemma dep_ordered_closed:
  assumes "dep_ordered deps seen ys" and "seen \<subseteq> S" and "set ys \<subseteq> K"
    and "\<And>k. k \<in> K \<Longrightarrow> set (deps k) \<subseteq> S \<Longrightarrow> k \<in> S"
  shows "set ys \<subseteq> S"
  using assms
proof (induction ys arbitrary: seen)
  case (Cons y ys)
  from Cons.prems have y: "y \<in> S" by auto
  with Cons.prems have "set ys \<subseteq> S" by (intro Cons.IH [of "insert y seen"]) auto
  with y show ?case by simp
qed simp

subsection \<open>The whole algorithm\<close>

lemma kahn_run:
  assumes wf: "graph_wf g"
  obtains adj ind xs ind' where "build_edges g = Inr (adj, ind)"
    and "kahn_loop adj ind (roots_of g) [] = Inr (xs, ind')" and "kahn_inv g ind' [] xs"
proof -
  from build_edges_spec [OF wf] obtain adj ind where b: "build_edges g = Inr (adj, ind)"
    and adj: "adj_ok g adj"
    and ind: "\<And>k. dict_get ind k
        = (if k \<in> set (dict_keys g) then Some (int (length (deps_of g k))) else None)"
    and wfi: "dict_wf ind"
    unfolding adj_ok_def by (metis (no_types, lifting))
  have "kahn_inv g ind (roots_of g) []"
  proof -
    have "distinct (roots_of g)"
      using wf distinct_map_filter by (auto simp: roots_of_def graph_wf_def)
    moreover have "set (roots_of g) = {k \<in> set (dict_keys g). left_of g [] k = 0}"
      using mem_roots_of [OF wf] by (auto simp: left_of_zero)
    ultimately show ?thesis using ind wfi by (simp add: kahn_inv_def left_of_def)
  qed
  from kahn_loop_spec [OF this adj] b that show thesis by blast
qed

lemma length_eq_keys:
  assumes "graph_wf g" and "distinct xs" and "set xs \<subseteq> set (dict_keys g)"
  shows "length xs = length g \<longleftrightarrow> set xs = set (dict_keys g)"
proof -
  have "card (set (dict_keys g)) = length g"
    using assms(1) distinct_card [of "dict_keys g"] by (simp add: graph_wf_def)
  moreover have "card (set xs) = length xs" using assms(2) by (rule distinct_card)
  moreover have "finite (set (dict_keys g))" by simp
  ultimately show ?thesis using assms(3) card_subset_eq by metis
qed

lemma kahn_sound:
  assumes "graph_wf g" and "topological_order g = Inr (roots, xs)"
  shows "is_topo g xs" and "roots = roots_of g"
proof -
  from kahn_run [OF assms(1)] obtain adj ind ys ind' where
    k: "build_edges g = Inr (adj, ind)" "kahn_loop adj ind (roots_of g) [] = Inr (ys, ind')"
       "kahn_inv g ind' [] ys" .
  with assms(2) have eq: "roots = roots_of g" "xs = ys" "length ys = length g"
    by (auto simp: topological_order_def Let_def split: if_splits)
  note f = kahn_inv_final [OF k(3)]
  from eq f(1,2,3) length_eq_keys [OF assms(1) f(1,3)] show "is_topo g xs"
    by (simp add: is_topo_def)
  show "roots = roots_of g" by (rule eq(1))
qed

lemma kahn_complete:
  assumes wf: "graph_wf g" and "g \<noteq> []" and topo: "is_topo g ys"
  shows "\<exists>xs. topological_order g = Inr (roots_of g, xs)"
proof -
  from kahn_run [OF wf] obtain adj ind xs ind' where
    k: "build_edges g = Inr (adj, ind)" "kahn_loop adj ind (roots_of g) [] = Inr (xs, ind')"
       "kahn_inv g ind' [] xs" .
  note f = kahn_inv_final [OF k(3)]
  have "set ys \<subseteq> set xs"
    using topo f(4) unfolding is_topo_def
    by (intro dep_ordered_closed [of "deps_of g" "{}" ys "set xs" "set (dict_keys g)"]) auto
  with f(3) topo have "set xs = set (dict_keys g)" by (auto simp: is_topo_def)
  then have "length xs = length g" using length_eq_keys [OF wf f(1,3)] by simp
  moreover have "roots_of g \<noteq> []" using is_topo_root [OF topo assms(2) wf] by auto
  ultimately show ?thesis using k by (simp add: topological_order_def Let_def)
qed

text \<open>
  The reported cycle: sorted, without repetition, non-empty, and every id on it is a node
  with a dependency on it, so following dependencies from it never ends.
\<close>

lemma kahn_error:
  assumes wf: "graph_wf g" and "topological_order g = Inl e"
  shows "e = NoRoot \<and> roots_of g = [] \<or>
    (\<exists>cs. e = CycleError cs \<and> cs \<noteq> [] \<and> sorted cs \<and> set cs \<subseteq> set (dict_keys g)
       \<and> (\<forall>c \<in> set cs. set (deps_of g c) \<inter> set cs \<noteq> {}))"
proof -
  from kahn_run [OF wf] obtain adj ind xs ind' where
    k: "build_edges g = Inr (adj, ind)" "kahn_loop adj ind (roots_of g) [] = Inr (xs, ind')"
       "kahn_inv g ind' [] xs" .
  note f = kahn_inv_final [OF k(3)]
  let ?cs = "sort (map fst (filter (\<lambda>(k, n). 0 < n) ind'))"
  show ?thesis
  proof (cases "roots_of g = []")
    case True
    with k assms(2) show ?thesis by (simp add: topological_order_def Let_def)
  next
    case False
    with k assms(2) have e: "e = CycleError ?cs" "length xs \<noteq> length g"
      by (auto simp: topological_order_def Let_def split: if_splits)
    have stuck: "c \<in> set ?cs \<longleftrightarrow> c \<in> set (dict_keys g) \<and> c \<notin> set xs" for c
    proof -
      have "dict_wf ind'" using k(3) by (simp add: kahn_inv_def)
      then have "(c, n) \<in> set ind' \<longleftrightarrow> dict_get ind' c = Some n" for n
        by (meson dict_get_SomeI dict_get_Some_mem)
      then have "c \<in> set ?cs \<longleftrightarrow> (\<exists>n > 0. dict_get ind' c = Some n)" by force
      also have "\<dots> \<longleftrightarrow> c \<in> set (dict_keys g) \<and> left_of g xs c \<noteq> 0"
        using k(3) by (auto simp: kahn_inv_def)
      also have "\<dots> \<longleftrightarrow> c \<in> set (dict_keys g) \<and> c \<notin> set xs"
        using f(4) [of c] by (auto simp: left_of_zero)
      finally show ?thesis .
    qed
    have "set xs \<noteq> set (dict_keys g)" using length_eq_keys [OF wf f(1,3)] e(2) by simp
    with f(3) obtain c where "c \<in> set (dict_keys g)" "c \<notin> set xs" by blast
    then have "c \<in> set ?cs" unfolding stuck by blast
    then have "set ?cs \<noteq> {}" by (metis empty_iff)
    moreover have "set (deps_of g c) \<inter> set ?cs \<noteq> {}" if c: "c \<in> set ?cs" for c
    proof -
      from c f(4) [of c] obtain d where "d \<in> set (deps_of g c)" "d \<notin> set xs"
        unfolding stuck by blast
      with graph_wf_dep [OF wf] stuck show ?thesis by blast
    qed
    moreover have "set ?cs \<subseteq> set (dict_keys g)" using stuck by blast
    ultimately show ?thesis using e(1) by (intro disjI2 exI [of _ ?cs]) (auto simp del: set_sort)
  qed
qed


section \<open>The contract a validator's sorting step gives its clients\<close>

lemma deps_of_filter:
  "dict_wf g \<Longrightarrow> P t \<Longrightarrow> deps_of (filter (\<lambda>(t, ds). P t) g) t = deps_of g t"
  by (induction g) (auto simp: deps_of_def dict_get_or_def)

lemma graph_wf_filter:
  assumes "graph_wf g" and "\<And>t d. P t \<Longrightarrow> d \<in> set (deps_of g t) \<Longrightarrow> P d"
  shows "graph_wf (filter (\<lambda>(t, ds). P t) g)"
proof -
  have "distinct (map fst (filter (\<lambda>(t, ds). P t) g))"
    using assms(1) by (simp add: graph_wf_def distinct_map_filter)
  moreover have "d \<in> fst ` set (filter (\<lambda>(t, ds). P t) g)"
    if "(t, ds) \<in> set g" "P t" "d \<in> set ds" for t ds d
  proof -
    have "deps_of g t = ds" using assms(1) that(1) by (rule deps_of_mem)
    with that assms have "P d" "d \<in> fst ` set g" using graph_wf_dep [OF assms(1), of d t] by auto
    then show ?thesis by force
  qed
  ultimately show ?thesis unfolding graph_wf_def by auto
qed

locale topo_sorter =
  fixes sorter :: "'g \<Rightarrow> 'e + 'a list \<times> 'a list"
    and graph_of :: "'g \<Rightarrow> 'a depgraph"
    and valid :: "'g \<Rightarrow> bool"
  assumes valid_wf: "valid g \<Longrightarrow> graph_wf (graph_of g)"
    and sorter_sound: "valid g \<Longrightarrow> sorter g = Inr (rs, xs) \<Longrightarrow>
      is_topo (graph_of g) xs \<and> rs = roots_of (graph_of g)"
    and sorter_complete: "valid g \<Longrightarrow> graph_of g \<noteq> [] \<Longrightarrow> is_topo (graph_of g) ys \<Longrightarrow>
      \<exists>xs. sorter g = Inr (roots_of (graph_of g), xs)"
begin

lemma order_perm:
  "valid g \<Longrightarrow> sorter g = Inr (rs, xs) \<Longrightarrow> distinct xs \<and> set xs = set (dict_keys (graph_of g))"
  using sorter_sound by (auto simp: is_topo_def)

lemma deps_before:
  "valid g \<Longrightarrow> sorter g = Inr (rs, xs) \<Longrightarrow> xs = ys @ t # zs \<Longrightarrow>
     set (deps_of (graph_of g) t) \<subseteq> set ys"
  using sorter_sound dep_ordered_prefix_dep [of "deps_of (graph_of g)" "{}" xs ys t zs]
  by (auto simp: is_topo_def)

lemma sorts_iff:
  "valid g \<Longrightarrow> graph_of g \<noteq> [] \<Longrightarrow>
     (\<exists>p. sorter g = Inr p) \<longleftrightarrow> (\<exists>ys. is_topo (graph_of g) ys)"
  using sorter_sound sorter_complete by (metis surj_pair)

lemma restrict_topo:
  assumes "valid g" and "sorter g = Inr (rs, xs)"
    and closed: "\<And>t d. P t \<Longrightarrow> d \<in> set (deps_of (graph_of g) t) \<Longrightarrow> P d"
  shows "is_topo (filter (\<lambda>(t, ds). P t) (graph_of g)) (filter P xs)"
proof -
  let ?g = "graph_of g" and ?h = "filter (\<lambda>(t, ds). P t) (graph_of g)"
  from sorter_sound [OF assms(1,2)] have t: "is_topo ?g xs" by simp
  have wf: "dict_wf ?g" using valid_wf [OF assms(1)] by (simp add: graph_wf_def)
  have "dep_ordered (deps_of ?g) ({} \<inter> {d. P d}) (filter P xs)"
    using t closed by (intro dep_ordered_filter) (auto simp: is_topo_def)
  then have "dep_ordered (deps_of ?h) {} (filter P xs)"
    using deps_of_filter [OF wf, of P]
      dep_ordered_cong [of "filter P xs" "deps_of ?h" "deps_of ?g"] by simp
  moreover have "set (filter P xs) = set (dict_keys ?h)" using t by (force simp: is_topo_def)
  moreover have "distinct (filter P xs)" using t by (simp add: is_topo_def)
  ultimately show ?thesis by (simp add: is_topo_def)
qed

end

interpretation kahn: topo_sorter topological_order "\<lambda>g. g" graph_wf
  by unfold_locales (auto dest: kahn_sound kahn_complete)

end
