(* ===== verification/DagModel.thy ===== *)
theory DagModel
  imports DepGraph
begin

text \<open>
  The data of a task DAG (\<open>agently/types/data/task_dag.py\<close>): nodes, graphs, and the
  normalisation \<open>from_value\<close> of untrusted mappings.  The lemmas state the normal form
  every parsed node has and that \<open>to_dict\<close> followed by \<open>from_value\<close> gives it back.
\<close>

section \<open>Errors\<close>

text \<open>Every exception the task DAG code raises, with the values its message shows.\<close>

datatype dag_error =
    NodeNotMapping
  | NodeIdMissing
  | NotIterable
  | NotADict
  | DagNotMapping
  | TasksMissing
  | TasksNotList
  | GraphIdEmpty
  | Unhashable
  | DagKeyError string
  | EmptyDag
  | EmptyTaskId
  | BadTaskId string
  | DuplicateTaskIds "string list"
  | MissingDependency string string
  | NoRootTask
  | DependencyCycle "string list"
  | NoResolverEntry string string
  | DependsOnSkipped string "string list"
  | NothingAfterPruning
  | NoRootAfterPruning
  | SemanticMissing string string
  | SideEffectUnapproved string
  | SchemaMismatch string string
  | ResolverKeyEmpty
  | ResolverKeyBad string
  | RedefinedGraph string

section \<open>Nodes\<close>

record task_node =
  n_id :: string
  n_kind :: string
  n_title :: "string option"
  n_purpose :: "string option"
  n_depends_on :: "string list"
  n_inputs :: pyval
  n_binding :: pyval
  n_produces :: "pyval list"
  n_side_effect :: pydict
  n_fallback :: pyval
  n_approval :: pyval

definition opt_text :: "pyval \<Rightarrow> string option" where
  "opt_text v = (if v = PNone then None else Some (py_str v))"

definition iterE :: "pyval \<Rightarrow> dag_error + pyval list" where
  "iterE v = (case py_iter v of None \<Rightarrow> Inl NotIterable | Some xs \<Rightarrow> Inr xs)"

text \<open>\<open>TaskDAGNode.from_value\<close> on a value that is not already a node.\<close>

definition node_from_value :: "pyval \<Rightarrow> dag_error + task_node" where
  "node_from_value value =
     (case value of
        PDict d \<Rightarrow>
          if pget d ''id'' = PNone then Inl NodeIdMissing
          else
            let dep0 = dict_get_or d ''depends_on'' (PTuple []);
                dep1 = (if dep0 = PNone then PTuple [] else dep0);
                dep = (case dep1 of PStr s \<Rightarrow> PTuple [PStr s] | _ \<Rightarrow> dep1);
                pro0 = dict_get_or d ''produces'' (PTuple []);
                pro1 = (if pro0 = PNone then PTuple [] else pro0);
                pro = (case pro1 of PStr s \<Rightarrow> PTuple [pro1] | PDict m \<Rightarrow> PTuple [pro1] | _ \<Rightarrow> pro1);
                kind = str_strip (dict_get_or d ''kind'' (PStr ''task''));
                side = py_or (pget d ''side_effect_policy'') (PDict [])
            in bindE (iterE dep) (\<lambda>deps. bindE (iterE pro) (\<lambda>prods.
              Inr \<lparr> n_id = str_strip (pget d ''id''),
                    n_kind = (if kind = [] then ''task'' else kind),
                    n_title = opt_text (pget d ''title''),
                    n_purpose = opt_text (pget d ''purpose''),
                    n_depends_on = map str_strip deps,
                    n_inputs = dict_get_or d ''inputs'' (PDict []),
                    n_binding = pget d ''binding'',
                    n_produces = prods,
                    n_side_effect =
                      (case side of PDict m \<Rightarrow> m
                       | _ \<Rightarrow> [(''value'', pget d ''side_effect_policy'')]),
                    n_fallback = pget d ''fallback'',
                    n_approval = pget d ''approval'' \<rparr>))
      | _ \<Rightarrow> Inl NodeNotMapping)"

definition opt_value :: "string option \<Rightarrow> pyval" where
  "opt_value t = (case t of None \<Rightarrow> PNone | Some s \<Rightarrow> PStr s)"

definition node_to_dict :: "task_node \<Rightarrow> pydict" where
  "node_to_dict n =
     [(''id'', PStr (n_id n)),
      (''kind'', PStr (n_kind n)),
      (''title'', opt_value (n_title n)),
      (''purpose'', opt_value (n_purpose n)),
      (''depends_on'', PList (map PStr (n_depends_on n))),
      (''inputs'', n_inputs n),
      (''binding'', n_binding n),
      (''produces'', PList (n_produces n)),
      (''side_effect_policy'', PDict (n_side_effect n)),
      (''fallback'', n_fallback n),
      (''approval'', n_approval n)]"

text \<open>The normal form of a parsed node.\<close>

definition node_normal :: "task_node \<Rightarrow> bool" where
  "node_normal n \<longleftrightarrow>
     strip (n_id n) = n_id n \<and> strip (n_kind n) = n_kind n \<and> n_kind n \<noteq> [] \<and>
     list_all (\<lambda>d. strip d = d) (n_depends_on n)"

lemma opt_text_opt_value [simp]: "opt_text (opt_value t) = t"
  by (simp add: opt_text_def opt_value_def split: option.splits)

lemma str_strip_PStr [simp]: "str_strip (PStr s) = strip s"
  by (simp add: str_strip_def)

lemma strip_str_strip [simp]: "strip (str_strip v) = str_strip v"
  by (simp add: str_strip_def)

lemma strip_task: "strip ''task'' = ''task''"
  by (simp add: strip_def lstrip_def rstrip_def is_space_def code_in_def)

lemma node_from_value_normal: "node_from_value v = Inr n \<Longrightarrow> node_normal n"
  by (cases v)
    (auto simp: node_from_value_def node_normal_def Let_def bindE_eq_Inr list_all_iff strip_task
      split: if_splits)

lemma node_roundtrip_normal:
  assumes "node_normal n"
  shows "node_from_value (PDict (node_to_dict n)) = Inr n"
proof -
  have deps: "map (str_strip \<circ> PStr) (n_depends_on n) = n_depends_on n"
    using assms by (simp add: node_normal_def list_all_iff map_idI)
  have side: "(case py_or (PDict (n_side_effect n)) (PDict []) of PDict m \<Rightarrow> m | _ \<Rightarrow> x) = n_side_effect n" for x
    by (simp add: py_or_def)
  show ?thesis
    using assms deps side
    by (simp add: node_from_value_def node_to_dict_def node_normal_def pget_def dict_get_or_def
        iterE_def Let_def)
qed

section \<open>Graphs\<close>

record task_dag =
  g_id :: string
  g_tasks :: "task_node list"
  g_schema :: string
  g_semantic :: pyval
  g_policies :: pydict
  g_diagnostics :: "pydict list"

definition dag_schema_version :: string where
  "dag_schema_version = ''task_dag/v1''"

definition to_dictE :: "pyval \<Rightarrow> dag_error + pydict" where
  "to_dictE v =
     (case v of
        PDict d \<Rightarrow> Inr d
      | _ \<Rightarrow>
         (case py_iter v of
            None \<Rightarrow> Inl NotADict
          | Some xs \<Rightarrow>
              bindE (mapE (\<lambda>x. case pair_of x of None \<Rightarrow> Inl NotADict | Some p \<Rightarrow> Inr p) xs)
                (\<lambda>ps. Inr (dict_update [] ps))))"

text \<open>
  \<open>TaskDAG.from_value\<close> on a value that is not already a graph; \<open>fresh\<close> is the twelve
  hexadecimal digits of the random id it would draw.
\<close>

definition dag_from_value :: "string \<Rightarrow> pyval \<Rightarrow> dag_error + task_dag" where
  "dag_from_value fresh value =
     (case value of
        PDict d \<Rightarrow>
          (if pget d ''tasks'' = PNone then Inl TasksMissing
           else case seq_items (pget d ''tasks'') of
             None \<Rightarrow> Inl TasksNotList
           | Some raw_tasks \<Rightarrow>
               let gid = str_strip (py_or (pget d ''graph_id'') (PStr (''graph-'' @ fresh)));
                   diag0 = dict_get_or d ''diagnostics'' (PTuple []);
                   diag = (if is_mapping diag0 then PTuple [diag0] else diag0)
               in if gid = [] then Inl GraphIdEmpty
               else bindE (mapE node_from_value raw_tasks) (\<lambda>tasks.
                 bindE (to_dictE (py_or (pget d ''policies'') (PDict []))) (\<lambda>policies.
                 bindE (iterE (py_or diag (PTuple []))) (\<lambda>items.
                   Inr \<lparr> g_id = gid,
                         g_tasks = tasks,
                         g_schema = py_str (py_or (pget d ''task_schema_version'') (PStr dag_schema_version)),
                         g_semantic = dict_get_or d ''semantic_outputs'' (PDict []),
                         g_policies = policies,
                         g_diagnostics =
                           map (\<lambda>i. case i of PDict m \<Rightarrow> m | _ \<Rightarrow> [(''message'', PStr (py_str i))]) items \<rparr>))))
      | _ \<Rightarrow> Inl DagNotMapping)"

text \<open>A graph argument is a \<open>TaskDAG\<close> or a value to normalise.\<close>

datatype dag_input = DagObject task_dag | DagValue pyval

definition dag_of_input :: "string \<Rightarrow> dag_input \<Rightarrow> dag_error + task_dag" where
  "dag_of_input fresh i = (case i of DagObject g \<Rightarrow> Inr g | DagValue v \<Rightarrow> dag_from_value fresh v)"

definition dag_to_dict :: "task_dag \<Rightarrow> pydict" where
  "dag_to_dict g =
     [(''graph_id'', PStr (g_id g)),
      (''task_schema_version'', PStr (g_schema g)),
      (''tasks'', PList (map (PDict \<circ> node_to_dict) (g_tasks g))),
      (''semantic_outputs'', g_semantic g),
      (''policies'', PDict (g_policies g)),
      (''diagnostics'', PList (map PDict (g_diagnostics g)))]"

definition dag_normal :: "task_dag \<Rightarrow> bool" where
  "dag_normal g \<longleftrightarrow>
     strip (g_id g) = g_id g \<and> g_id g \<noteq> [] \<and> g_schema g \<noteq> [] \<and> list_all node_normal (g_tasks g)"

lemma truthy_py_or: "truthy b \<Longrightarrow> truthy (py_or a b)"
  by (simp add: py_or_def)

lemma map_dict_PDict:
  "map ((\<lambda>i. case i of PDict m \<Rightarrow> m | _ \<Rightarrow> h i) \<circ> PDict) ds = ds"
  by (induction ds) auto

lemma dag_roundtrip_normal:
  assumes "dag_normal g"
  shows "dag_from_value fresh (PDict (dag_to_dict g)) = Inr g"
proof -
  have tasks: "mapE node_from_value (map (PDict \<circ> node_to_dict) (g_tasks g)) = Inr (g_tasks g)"
    using assms by (intro mapE_inverse) (auto simp: dag_normal_def list_all_iff node_roundtrip_normal)
  have get: "pget (dag_to_dict g) ''tasks'' = PList (map (PDict \<circ> node_to_dict) (g_tasks g))"
    "pget (dag_to_dict g) ''graph_id'' = PStr (g_id g)"
    "pget (dag_to_dict g) ''task_schema_version'' = PStr (g_schema g)"
    "pget (dag_to_dict g) ''policies'' = PDict (g_policies g)"
    "dict_get_or (dag_to_dict g) ''semantic_outputs'' (PDict []) = g_semantic g"
    "dict_get_or (dag_to_dict g) ''diagnostics'' (PTuple []) = PList (map PDict (g_diagnostics g))"
    by (simp_all add: dag_to_dict_def pget_def dict_get_or_def)
  have pol: "to_dictE (py_or (PDict (g_policies g)) (PDict [])) = Inr (g_policies g)"
    by (simp add: py_or_def to_dictE_def)
  have diag: "iterE (py_or (PList (map PDict (g_diagnostics g))) (PTuple []))
      = Inr (map PDict (g_diagnostics g))"
    by (simp add: py_or_def iterE_def)
  have ids: "str_strip (py_or (PStr (g_id g)) x) = g_id g" "g_id g \<noteq> []"
    "py_str (py_or (PStr (g_schema g)) y) = g_schema g" for x y
    using assms by (simp_all add: dag_normal_def py_or_def)
  show ?thesis
    by (simp add: dag_from_value_def get pol diag ids tasks map_dict_PDict Let_def)
qed


lemma mapE_Inr_all: "mapE f xs = Inr ys \<Longrightarrow> (\<And>x y. f x = Inr y \<Longrightarrow> P y) \<Longrightarrow> list_all P ys"
  by (induction xs arbitrary: ys) (auto simp: bindE_eq_Inr)

lemma dag_from_value_normal:
  assumes "dag_from_value fresh v = Inr g" and "g_schema g \<noteq> []"
  shows "dag_normal g"
proof -
  from assms(1) have m: "\<exists>raw. mapE node_from_value raw = Inr (g_tasks g)"
    by (cases v) (auto simp: dag_from_value_def Let_def bindE_eq_Inr split: if_splits option.splits)
  from assms(1) have gid: "strip (g_id g) = g_id g \<and> g_id g \<noteq> []"
    by (cases v) (auto simp: dag_from_value_def Let_def bindE_eq_Inr split: if_splits option.splits)
  have "list_all node_normal (g_tasks g)"
    using m by (auto intro: mapE_Inr_all node_from_value_normal)
  with gid assms(2) show ?thesis by (auto simp: dag_normal_def)
qed

end
