(* ===== verification/DagHelpers.thy ===== *)
theory DagHelpers
  imports DagModel
begin

text \<open>
  The helper functions of \<open>TaskDAGHelpers.py\<close> (approval and fallback queries, semantic
  outputs, event names) and the executor registry of \<open>TaskDAGResolver.py\<close>.
\<close>

section \<open>Shape queries\<close>

definition is_approval_task :: "task_node \<Rightarrow> bool" where
  "is_approval_task n \<longleftrightarrow> n_kind n = ''approval''"

definition approval_required :: "task_node \<Rightarrow> dag_error + bool" where
  "approval_required n =
     (if is_approval_task n then Inr True
      else if n_approval n = PBool True then Inr True
      else case n_approval n of
        PDict d \<Rightarrow>
          if truthy (pget d ''required'') then Inr True
          else if \<not> hashable (pget d ''mode'') then Inl Unhashable
          else Inr (pget d ''mode'' \<in> {PStr ''required'', PStr ''pause''})
      | _ \<Rightarrow> Inr False)"

definition approval_type :: "task_node \<Rightarrow> string" where
  "approval_type n =
     (case n_approval n of
        PDict d \<Rightarrow> if truthy (pget d ''type'') then py_str (pget d ''type'') else ''dynamic_task_approval''
      | _ \<Rightarrow> ''dynamic_task_approval'')"

definition approval_payload :: "task_node \<Rightarrow> pydict \<Rightarrow> pyval" where
  "approval_payload n task_input =
     (let fallback = PDict
        [(''task_id'', PStr (n_id n)), (''kind'', PStr (n_kind n)), (''title'', opt_value (n_title n)),
         (''purpose'', opt_value (n_purpose n)), (''input'', PDict task_input)]
      in case n_approval n of
           PDict d \<Rightarrow> dict_get_or d ''payload'' fallback
         | _ \<Rightarrow> fallback)"

definition fallback_action :: "task_node \<Rightarrow> string option" where
  "fallback_action n =
     (case n_fallback n of
        PStr s \<Rightarrow> Some s
      | PDict d \<Rightarrow> opt_text (py_or (pget d ''on_error'') (pget d ''action''))
      | _ \<Rightarrow> None)"

definition coerce_positive_int :: "pyval \<Rightarrow> int \<Rightarrow> int" where
  "coerce_positive_int v dflt =
     (case py_int v of None \<Rightarrow> dflt | Some r \<Rightarrow> if 1 \<le> r then r else dflt)"

definition coerce_positive_float :: "pyval \<Rightarrow> rat \<Rightarrow> rat" where
  "coerce_positive_float v dflt =
     (case py_float v of None \<Rightarrow> dflt | Some r \<Rightarrow> if 0 < r then r else dflt)"

record retry_config =
  max_attempts :: int
  backoff_base :: rat
  backoff_max :: rat

text \<open>\<open>str(x or "")\<close> for an optional text.\<close>

definition text_or_empty :: "string option \<Rightarrow> string" where
  "text_or_empty t = (case t of None \<Rightarrow> [] | Some s \<Rightarrow> s)"

definition wants_retry :: "task_node \<Rightarrow> bool" where
  "wants_retry n \<longleftrightarrow> lower (strip (text_or_empty (fallback_action n))) = ''retry''"

definition fallback_retry_config :: "task_node \<Rightarrow> retry_config option" where
  "fallback_retry_config n =
     (if \<not> wants_retry n then None
      else
        let config = mapping_or_empty (n_fallback n);
            attempts = coerce_positive_int (pget config ''max_attempts'') 3;
            base = coerce_positive_float (pget config ''backoff_base'') (1 / 2);
            cap = coerce_positive_float (pget config ''backoff_max'') 30
        in Some \<lparr> max_attempts = max 1 attempts, backoff_base = base, backoff_max = max base cap \<rparr>)"

definition fallback_terminal_action :: "task_node \<Rightarrow> string option" where
  "fallback_terminal_action n =
     (if wants_retry n
      then (case n_fallback n of
              PDict d \<Rightarrow> Some (py_str (py_or (pget d ''then'') (PStr ''fail'')))
            | _ \<Rightarrow> Some ''fail'')
      else fallback_action n)"

section \<open>Semantic outputs\<close>

definition semantic_entry :: "string \<times> pyval \<Rightarrow> (string, string) dict \<Rightarrow> (string, string) dict" where
  "semantic_entry e refs =
     (case e of (role, spec) \<Rightarrow>
       (case spec of
          PStr s \<Rightarrow> dict_set role s refs
        | PDict m \<Rightarrow>
            let task_id = py_or (pget m ''task_id'') (pget m ''from_task'')
            in if task_id = PNone then refs else dict_set role (py_str task_id) refs
        | _ \<Rightarrow> refs))"

definition semantic_item :: "pyval \<Rightarrow> (string, string) dict \<Rightarrow> (string, string) dict" where
  "semantic_item item refs =
     (case item of
        PDict m \<Rightarrow>
          let role = py_or (pget m ''role'') (pget m ''name'');
              task_id = py_or (pget m ''task_id'') (pget m ''from_task'')
          in if role \<noteq> PNone \<and> task_id \<noteq> PNone then dict_set (py_str role) (py_str task_id) refs
             else refs
      | _ \<Rightarrow> refs)"

definition semantic_output_task_refs :: "pyval \<Rightarrow> (string, string) dict" where
  "semantic_output_task_refs outputs =
     (case outputs of
        PDict d \<Rightarrow> fold semantic_entry d []
      | _ \<Rightarrow> (case seq_items outputs of None \<Rightarrow> [] | Some xs \<Rightarrow> fold semantic_item xs []))"

definition produce_role :: "pyval \<Rightarrow> string option" where
  "produce_role item =
     (case item of
        PStr s \<Rightarrow> Some s
      | PDict m \<Rightarrow> opt_text (py_or (pget m ''role'') (pget m ''name''))
      | _ \<Rightarrow> None)"

definition extract_artifact_refs :: "pyval \<Rightarrow> pyval" where
  "extract_artifact_refs output =
     (case output of
        PDict m \<Rightarrow> (if pget m ''artifact_refs'' = PNone then pget m ''artifacts'' else pget m ''artifact_refs'')
      | _ \<Rightarrow> PNone)"

text \<open>The value \<open>_collect_semantic_outputs\<close> stores for a role.\<close>

definition role_output :: "string \<Rightarrow> pydict \<Rightarrow> pydict \<Rightarrow> pyval option" where
  "role_output task_id results artifacts =
     (case dict_get artifacts task_id of
        Some a \<Rightarrow> Some (PDict [(''task_id'', PStr task_id), (''artifact_refs'', a)])
      | None \<Rightarrow>
         (case dict_get results task_id of
            Some r \<Rightarrow> Some (PDict [(''task_id'', PStr task_id), (''result'', r)])
          | None \<Rightarrow> None))"

definition collect_ref :: "pydict \<Rightarrow> pydict \<Rightarrow> string \<times> string \<Rightarrow> pydict \<Rightarrow> pydict" where
  "collect_ref results artifacts e outputs =
     (case e of (role, task_id) \<Rightarrow>
       (case role_output task_id results artifacts of
          None \<Rightarrow> outputs
        | Some v \<Rightarrow> dict_set role v outputs))"

definition collect_produced :: "pydict \<Rightarrow> pydict \<Rightarrow> string \<times> pyval \<Rightarrow> pydict \<Rightarrow> pydict" where
  "collect_produced results artifacts e outputs =
     (case e of (task_id, item) \<Rightarrow>
       (case produce_role item of
          None \<Rightarrow> outputs
        | Some role \<Rightarrow>
            if role \<noteq> [] \<and> \<not> dict_has outputs role \<and> dict_has results task_id
            then (case role_output task_id results artifacts of
                    None \<Rightarrow> outputs
                  | Some v \<Rightarrow> dict_set role v outputs)
            else outputs))"

definition collect_semantic_outputs :: "task_dag \<Rightarrow> pydict \<Rightarrow> pydict \<Rightarrow> pydict" where
  "collect_semantic_outputs g results artifacts =
     fold (collect_produced results artifacts)
       (concat (map (\<lambda>n. map (\<lambda>item. (n_id n, item)) (n_produces n)) (g_tasks g)))
       (fold (collect_ref results artifacts) (semantic_output_task_refs (g_semantic g)) [])"

section \<open>Graph-level checks\<close>

definition validate_semantic_outputs :: "task_dag \<Rightarrow> string list \<Rightarrow> dag_error + unit" where
  "validate_semantic_outputs g ids =
     foldE (\<lambda>(role, task_id) u. guardE (task_id \<in> set ids) (SemanticMissing role task_id))
       (semantic_output_task_refs (g_semantic g)) ()"

definition has_external_write :: "pydict \<Rightarrow> bool" where
  "has_external_write se \<longleftrightarrow>
     truthy (pget se ''external_write'') \<or> truthy (pget se ''credential_usage'')
       \<or> truthy (pget se ''local_write'') \<or> truthy (pget se ''network'')"

definition side_effect_policy_strict :: "task_dag \<Rightarrow> bool" where
  "side_effect_policy_strict g \<longleftrightarrow>
     py_str (dict_get_or (g_policies g) ''approval''
               (dict_get_or (g_policies g) ''side_effect_approval'' (PStr ''allow'')))
       \<in> {''require'', ''required'', ''fail_closed''}"

definition check_side_effect :: "task_node \<Rightarrow> dag_error + unit" where
  "check_side_effect n =
     (if n_side_effect n = [] then Inr ()
      else if has_external_write (n_side_effect n)
        then bindE (approval_required n) (\<lambda>b. guardE b (SideEffectUnapproved (n_id n)))
      else Inr ())"

definition validate_side_effects :: "task_dag \<Rightarrow> dag_error + unit" where
  "validate_side_effects g =
     (if \<not> side_effect_policy_strict g then Inr ()
      else foldE (\<lambda>n u. check_side_effect n) (g_tasks g) ())"

text \<open>\<open>_graph_signature\<close>: what must not change when a graph id is compiled again.\<close>

definition node_signature :: "task_node \<Rightarrow> pyval" where
  "node_signature n = PTuple
     [PStr (n_id n), PStr (n_kind n), PTuple (map PStr (n_depends_on n)),
      (case n_binding n of PStr s \<Rightarrow> PStr s | _ \<Rightarrow> PNone), n_approval n, n_fallback n]"

definition graph_signature :: "task_dag \<Rightarrow> pyval" where
  "graph_signature g = PTuple (map node_signature (g_tasks g))"

section \<open>Event names\<close>

definition chunk_name :: "string \<Rightarrow> string \<Rightarrow> string \<Rightarrow> string" where
  "chunk_name graph_id phase task_id = ''dynamic:'' @ graph_id @ '':'' @ phase @ '':'' @ task_id"

definition start_task_event :: "string \<Rightarrow> string" where
  "start_task_event task_id = ''start:'' @ task_id"

definition done_task_event :: "string \<Rightarrow> string" where
  "done_task_event task_id = ''done:'' @ task_id"

definition failed_task_event :: "string \<Rightarrow> string" where
  "failed_task_event task_id = ''failed:'' @ task_id"

definition done_graph_event :: "string \<Rightarrow> string" where
  "done_graph_event graph_id = ''done:graph:'' @ graph_id"

section \<open>The resolver\<close>

definition valid_task_id :: "string \<Rightarrow> bool" where
  "valid_task_id s =
     (case s of [] \<Rightarrow> False
      | c # cs \<Rightarrow> (is_letter c \<or> c = CHR ''_'') \<and> list_all is_ident_char cs)"

text \<open>
  What the model cannot see of an object: whether it is callable, and, when it carries the
  marker \<open>task_dag_resolver_factory\<close>, the handler it builds for a task.
\<close>

record py_env =
  env_callable :: "nat \<Rightarrow> bool"
  env_factory :: "nat \<Rightarrow> (task_node \<Rightarrow> pyval) option"

type_synonym resolver = "pydict"

text \<open>The two handlers every resolver starts with.\<close>

definition default_validate_handler :: pyval where
  "default_validate_handler = PObj 0 ''_default_validate_task''"

definition default_emit_handler :: pyval where
  "default_emit_handler = PObj 1 ''_default_emit_task''"

definition resolver_register :: "string \<Rightarrow> pyval \<Rightarrow> resolver \<Rightarrow> dag_error + resolver" where
  "resolver_register key value r =
     (let k = strip key
      in if k = [] then Inl ResolverKeyEmpty
         else if \<not> valid_task_id k then Inl (ResolverKeyBad k)
         else Inr (dict_set k value r))"

definition resolver_new :: "pydict \<Rightarrow> dag_error + resolver" where
  "resolver_new entries =
     bindE (resolver_register ''validate'' default_validate_handler []) (\<lambda>r.
     bindE (resolver_register ''emit'' default_emit_handler r) (\<lambda>r.
       foldE (\<lambda>(k, v). resolver_register k v) entries r))"

definition resolve_registered :: "py_env \<Rightarrow> pyval \<Rightarrow> task_node \<Rightarrow> pyval" where
  "resolve_registered env v n =
     (case v of
        PObj i _ \<Rightarrow> (case env_factory env i of Some f \<Rightarrow> f n | None \<Rightarrow> v)
      | _ \<Rightarrow> v)"

definition is_callable :: "py_env \<Rightarrow> pyval \<Rightarrow> bool" where
  "is_callable env v = (case v of PObj i _ \<Rightarrow> env_callable env i | _ \<Rightarrow> False)"

text \<open>\<open>TaskDAGResolver.resolve\<close>; \<open>PNone\<close> is its \<open>None\<close>.\<close>

definition resolve :: "py_env \<Rightarrow> resolver \<Rightarrow> task_node \<Rightarrow> pyval" where
  "resolve env r n =
     (if is_callable env (n_binding n) then n_binding n
      else case n_binding n of
        PStr b \<Rightarrow>
          (case dict_get r b of
             Some v \<Rightarrow> resolve_registered env v n
           | None \<Rightarrow>
               if n_kind n \<in> {''model'', ''action'', ''skill''}
               then (case dict_get r (n_kind n) of
                       Some v \<Rightarrow> resolve_registered env v n
                     | None \<Rightarrow> PNone)
               else PNone)
      | _ \<Rightarrow>
          (case dict_get r (n_id n) of
             Some v \<Rightarrow> resolve_registered env v n
           | None \<Rightarrow>
              (case dict_get r (n_kind n) of
                 Some v \<Rightarrow> resolve_registered env v n
               | None \<Rightarrow> PNone)))"

text \<open>\<open>TaskDAGValidator._merge_resolver\<close>: the given entries override the validator's.\<close>

definition merge_resolver :: "resolver \<Rightarrow> resolver option \<Rightarrow> dag_error + resolver" where
  "merge_resolver own given =
     (case given of
        None \<Rightarrow> Inr own
      | Some r \<Rightarrow> bindE (resolver_new own) (\<lambda>merged. foldE (\<lambda>(k, v). resolver_register k v) r merged))"

end
