(* ===== verification/DagValidation.thy ===== *)
theory DagValidation
  imports DagHelpers
begin

text \<open>
  \<open>TaskDAGValidation.py\<close>: the whole of \<open>validate_task_dag\<close> with its pruning of optional
  tasks that have no executor.  The lemmas show that what it returns is a well-formed
  acyclic graph in topological order, when it rejects, and what pruning removes.
\<close>

section \<open>Required tasks\<close>

text \<open>
  \<open>_semantic_required_task_ids\<close>: the tasks the semantic outputs name and everything those
  depend on.  \<open>required\<close> and \<open>queue\<close> start with the same ids in some order.
\<close>

type_synonym node_map = "(string, task_node) dict"

definition add_required :: "string \<Rightarrow> string list \<times> string list \<Rightarrow> string list \<times> string list" where
  "add_required d s =
     (case s of (required, queue) \<Rightarrow>
        if d \<in> set required then s else (required @ [d], queue @ [d]))"

definition open_deps :: "node_map \<Rightarrow> string list \<Rightarrow> string set" where
  "open_deps m required = (\<Union>(t, n) \<in> set m. set (n_depends_on n)) - set required"

lemma open_deps_finite: "finite (open_deps m required)"
  unfolding open_deps_def by (rule finite_Diff, rule finite_UN_I) auto

lemma add_required_measure:
  assumes "d \<in> (\<Union>(t, n) \<in> set m. set (n_depends_on n))"
    and "add_required d (required, queue) = (required', queue')"
  shows "length queue' + card (open_deps m required') = length queue + card (open_deps m required)"
proof (cases "d \<in> set required")
  case True
  with assms(2) show ?thesis by (simp add: add_required_def)
next
  case False
  with assms have r: "required' = required @ [d]" "queue' = queue @ [d]"
    by (simp_all add: add_required_def)
  have "open_deps m required = insert d (open_deps m required')" and "d \<notin> open_deps m required'"
    using assms(1) False r by (auto simp: open_deps_def)
  with r open_deps_finite [of m required'] show ?thesis by simp
qed

lemma fold_add_required_measure:
  "set ds \<subseteq> (\<Union>(t, n) \<in> set m. set (n_depends_on n)) \<Longrightarrow>
     fold add_required ds (required, queue) = (required', queue') \<Longrightarrow>
     length queue' + card (open_deps m required') = length queue + card (open_deps m required)"
proof (induction ds arbitrary: required queue)
  case (Cons d ds)
  obtain r q where a: "add_required d (required, queue) = (r, q)" by force
  with Cons.prems Cons.IH [of r q] add_required_measure [OF _ a, of m] show ?case by auto
qed simp

function required_loop :: "node_map \<Rightarrow> string list \<Rightarrow> string list \<Rightarrow> string list" where
  "required_loop m required [] = required"
| "required_loop m required (t # queue) =
     (case dict_get m t of
        None \<Rightarrow> required_loop m required queue
      | Some n \<Rightarrow>
         (case fold add_required (n_depends_on n) (required, queue) of
            (required', queue') \<Rightarrow> required_loop m required' queue'))"
  by pat_completeness auto
termination
proof (relation "measure (\<lambda>(m, required, queue). length queue + card (open_deps m required))",
    simp, goal_cases)
  case (2 m required t queue n required' queue')
  have "set (n_depends_on n) \<subseteq> (\<Union>(t, n) \<in> set m. set (n_depends_on n))"
    using dict_get_Some_mem [OF 2(1)] by force
  from fold_add_required_measure [OF this, of required queue required' queue']
  show ?case by (simp add: 2(2) [symmetric])
qed simp_all

definition semantic_required_ids :: "task_dag \<Rightarrow> node_map \<Rightarrow> string list" where
  "semantic_required_ids g m =
     (let start = remdups (map snd (semantic_output_task_refs (g_semantic g)))
      in required_loop m start start)"

section \<open>Pruning\<close>

record prune_state =
  ps_pruned :: "string list"
  ps_diagnostics :: "pydict list"

definition unresolved_diagnostic :: "task_node \<Rightarrow> pydict" where
  "unresolved_diagnostic n =
     [(''level'', PStr ''warning''), (''code'', PStr ''dynamic_task.unknown_optional_binding_skipped''),
      (''task_id'', PStr (n_id n)), (''kind'', PStr (n_kind n)), (''binding'', n_binding n)]"

definition dependent_diagnostic :: "task_node \<Rightarrow> string list \<Rightarrow> pydict" where
  "dependent_diagnostic n missing =
     [(''level'', PStr ''warning''), (''code'', PStr ''dynamic_task.optional_dependent_skipped''),
      (''task_id'', PStr (n_id n)), (''dependencies'', PList (map PStr missing))]"

definition fail_or_prune ::
  "string list \<Rightarrow> task_node \<Rightarrow> prune_state \<Rightarrow> dag_error + prune_state" where
  "fail_or_prune required n s =
     (if n_id n \<in> set required then Inl (NoResolverEntry (n_id n) (n_kind n))
      else bindE (approval_required n) (\<lambda>approval.
        if approval \<or> n_side_effect n \<noteq> [] then Inl (NoResolverEntry (n_id n) (n_kind n))
        else Inr (s\<lparr>ps_pruned := ps_pruned s @ [n_id n],
                    ps_diagnostics := ps_diagnostics s @ [unresolved_diagnostic n]\<rparr>)))"

text \<open>The first loop: tasks the resolver has no entry for.\<close>

definition prune_unresolved ::
  "py_env \<Rightarrow> resolver \<Rightarrow> string list \<Rightarrow> task_node \<Rightarrow> prune_state \<Rightarrow> dag_error + prune_state" where
  "prune_unresolved env r required n s =
     (if is_approval_task n then Inr s
      else if resolve env r n = PNone then fail_or_prune required n s
      else Inr s)"

text \<open>One sweep of the \<open>while changed\<close> loop; the flag is \<open>changed\<close>.\<close>

definition prune_dependent ::
  "string list \<Rightarrow> task_node \<Rightarrow> prune_state \<times> bool \<Rightarrow> dag_error + prune_state \<times> bool" where
  "prune_dependent required n sc =
     (case sc of (s, changed) \<Rightarrow>
        if n_id n \<in> set (ps_pruned s) then Inr (s, changed)
        else
          let missing = filter (\<lambda>d. d \<in> set (ps_pruned s)) (n_depends_on n)
          in if missing = [] then Inr (s, changed)
             else if n_id n \<in> set required then Inl (DependsOnSkipped (n_id n) missing)
             else Inr (s\<lparr>ps_pruned := ps_pruned s @ [n_id n],
                         ps_diagnostics := ps_diagnostics s @ [dependent_diagnostic n missing]\<rparr>, True))"

definition sweep ::
  "string list \<Rightarrow> task_node list \<Rightarrow> prune_state \<Rightarrow> dag_error + prune_state \<times> bool" where
  "sweep required tasks s = foldE (prune_dependent required) tasks (s, False)"

definition unpruned :: "task_node list \<Rightarrow> prune_state \<Rightarrow> nat" where
  "unpruned tasks s = length (filter (\<lambda>n. n_id n \<notin> set (ps_pruned s)) tasks)"

lemma prune_dependent_cases:
  assumes "prune_dependent required n (s, c) = Inr (s', c')"
  obtains "s' = s" "c' = c" "n_id n \<in> set (ps_pruned s) \<or> set (n_depends_on n) \<inter> set (ps_pruned s) = {}"
  | "n_id n \<notin> set (ps_pruned s)" "n_id n \<notin> set required"
    "set (n_depends_on n) \<inter> set (ps_pruned s) \<noteq> {}"
    "ps_pruned s' = ps_pruned s @ [n_id n]" "c'"
proof (cases "n_id n \<in> set (ps_pruned s)")
  case True
  with assms that(1) show thesis by (simp add: prune_dependent_def)
next
  case False
  let ?missing = "filter (\<lambda>d. d \<in> set (ps_pruned s)) (n_depends_on n)"
  have set_missing: "set ?missing = set (n_depends_on n) \<inter> set (ps_pruned s)" by auto
  show thesis
  proof (cases "?missing = []")
    case True
    moreover from True set_missing have "set (n_depends_on n) \<inter> set (ps_pruned s) = {}" by simp
    ultimately show thesis using assms False that(1) by (simp add: prune_dependent_def)
  next
    case ne: False
    with set_missing have m: "set (n_depends_on n) \<inter> set (ps_pruned s) \<noteq> {}"
      by (metis set_empty)
    from assms False ne have "n_id n \<notin> set required" "ps_pruned s' = ps_pruned s @ [n_id n]" "c'"
      by (auto simp: prune_dependent_def Let_def simp del: filter_empty_conv split: if_splits)
    with False m that(2) show thesis by blast
  qed
qed

lemma foldE_prune_mono:
  "foldE (prune_dependent required) ns (s, c) = Inr (s', c') \<Longrightarrow> set (ps_pruned s) \<subseteq> set (ps_pruned s')"
proof (induction ns arbitrary: s c)
  case (Cons n ns)
  then obtain s1 c1 where "prune_dependent required n (s, c) = Inr (s1, c1)"
    "foldE (prune_dependent required) ns (s1, c1) = Inr (s', c')" by (auto simp: bindE_eq_Inr)
  with Cons.IH [of s1 c1] show ?case by (auto elim!: prune_dependent_cases)
qed simp

lemma foldE_prune_changed:
  "foldE (prune_dependent required) ns (s, c) = Inr (s', c') \<Longrightarrow> c' \<Longrightarrow> \<not> c \<Longrightarrow>
     \<exists>n \<in> set ns. n_id n \<notin> set (ps_pruned s) \<and> n_id n \<in> set (ps_pruned s')"
proof (induction ns arbitrary: s c)
  case (Cons n ns)
  then obtain s1 c1 where p: "prune_dependent required n (s, c) = Inr (s1, c1)"
    "foldE (prune_dependent required) ns (s1, c1) = Inr (s', c')" by (auto simp: bindE_eq_Inr)
  from p(1) show ?case
  proof (cases rule: prune_dependent_cases)
    case 1
    with p(2) have "foldE (prune_dependent required) ns (s, c) = Inr (s', c')" by simp
    from Cons.IH [OF this Cons.prems(2,3)] show ?thesis by auto
  next
    case 2
    then have "n_id n \<in> set (ps_pruned s1)" by simp
    with 2(1) foldE_prune_mono [OF p(2)] show ?thesis by auto
  qed
qed simp

lemma sweep_measure:
  assumes "sweep required tasks s = Inr (s', True)"
  shows "unpruned tasks s' < unpruned tasks s"
proof -
  from assms have f: "foldE (prune_dependent required) tasks (s, False) = Inr (s', True)"
    by (simp add: sweep_def)
  from foldE_prune_changed [OF f] obtain n where n: "n \<in> set tasks"
    "n_id n \<notin> set (ps_pruned s)" "n_id n \<in> set (ps_pruned s')" by auto
  let ?P = "\<lambda>s n. n_id n \<notin> set (ps_pruned s)"
  have "length (filter (?P s') tasks) < length (filter (?P s) tasks)"
  proof -
    have "filter (?P s') tasks = filter (?P s') (filter (?P s) tasks)"
    proof -
      have "?P s' x \<longleftrightarrow> ?P s x \<and> ?P s' x" for x
        using subsetD [OF foldE_prune_mono [OF f], of "n_id x"] by blast
      then show ?thesis unfolding filter_filter by (rule filter_cong [OF refl])
    qed
    moreover have "length (filter (?P s') (filter (?P s) tasks)) < length (filter (?P s) tasks)"
      using n by (intro length_filter_less [of n]) auto
    ultimately show ?thesis by simp
  qed
  then show ?thesis by (simp add: unpruned_def)
qed

function prune_loop ::
  "string list \<Rightarrow> task_node list \<Rightarrow> prune_state \<Rightarrow> dag_error + prune_state" where
  "prune_loop required tasks s =
     (case sweep required tasks s of
        Inl e \<Rightarrow> Inl e
      | Inr (s', changed) \<Rightarrow> if changed then prune_loop required tasks s' else Inr s')"
  by pat_completeness auto
termination
  by (relation "measure (\<lambda>(required, tasks, s). unpruned tasks s)") (auto dest: sweep_measure)

declare prune_loop.simps [simp del]

text \<open>The result of \<open>_prune_unresolved_optional_tasks\<close>: graph, tasks, ids, roots, order.\<close>

record pruned_graph =
  pg_graph :: task_dag
  pg_roots :: "string list"
  pg_order :: "string list"

definition prune_tasks ::
  "py_env \<Rightarrow> resolver \<Rightarrow> task_dag \<Rightarrow> node_map \<Rightarrow> string list \<Rightarrow> string list
     \<Rightarrow> dag_error + pruned_graph" where
  "prune_tasks env r g m roots ordered =
     (let required = semantic_required_ids g m; tasks = g_tasks g
      in bindE (foldE (prune_unresolved env r required) tasks
                  \<lparr>ps_pruned = [], ps_diagnostics = g_diagnostics g\<rparr>) (\<lambda>s0.
         bindE (prune_loop required tasks s0) (\<lambda>s.
           if ps_pruned s = [] then Inr \<lparr>pg_graph = g, pg_roots = roots, pg_order = ordered\<rparr>
           else
             let kept = filter (\<lambda>n. n_id n \<notin> set (ps_pruned s)) tasks;
                 kept_ids = map n_id kept;
                 kept_roots = map n_id (filter (\<lambda>n. n_depends_on n = []) kept)
             in if kept = [] then Inl NothingAfterPruning
                else if kept_roots = [] then Inl NoRootAfterPruning
                else Inr \<lparr>pg_graph = g\<lparr>g_tasks := kept, g_diagnostics := ps_diagnostics s\<rparr>,
                          pg_roots = kept_roots,
                          pg_order = filter (\<lambda>t. t \<in> set kept_ids) ordered\<rparr>)))"

section \<open>Validation\<close>

record dag_validation =
  v_graph :: task_dag
  v_task_ids :: "string list"
  v_roots :: "string list"
  v_order :: "string list"
  v_diagnostics :: "pydict list"

text \<open>The id checks: a syntactic error is raised at once, duplicates are collected.\<close>

fun check_ids :: "task_node list \<Rightarrow> string list \<Rightarrow> string list \<Rightarrow> dag_error + string list" where
  "check_ids [] seen dups = Inr dups"
| "check_ids (n # ns) seen dups =
     (if n_id n = [] then Inl EmptyTaskId
      else if \<not> valid_task_id (n_id n) then Inl (BadTaskId (n_id n))
      else check_ids ns (n_id n # seen) (if n_id n \<in> set seen then dups @ [n_id n] else dups))"

definition node_map_of :: "task_node list \<Rightarrow> node_map" where
  "node_map_of ns = fold (\<lambda>n. dict_set (n_id n) n) ns []"

definition check_deps :: "string list \<Rightarrow> task_node \<Rightarrow> unit \<Rightarrow> dag_error + unit" where
  "check_deps ids n u =
     foldE (\<lambda>d u. guardE (d \<in> set ids) (MissingDependency (n_id n) d)) (n_depends_on n) ()"

definition dep_graph :: "task_node list \<Rightarrow> string depgraph" where
  "dep_graph ns = map (\<lambda>n. (n_id n, n_depends_on n)) ns"

fun kahn_dag_error :: "string kahn_error \<Rightarrow> dag_error" where
  "kahn_dag_error (KahnKeyError k) = DagKeyError k"
| "kahn_dag_error NoRoot = NoRootTask"
| "kahn_dag_error (CycleError cs) = DependencyCycle cs"

definition dag_order :: "task_node list \<Rightarrow> dag_error + string list \<times> string list" where
  "dag_order ns =
     (case topological_order (dep_graph ns) of Inl e \<Rightarrow> Inl (kahn_dag_error e) | Inr p \<Rightarrow> Inr p)"

definition check_resolved :: "py_env \<Rightarrow> resolver \<Rightarrow> task_node \<Rightarrow> unit \<Rightarrow> dag_error + unit" where
  "check_resolved env r n u =
     (if is_approval_task n then Inr ()
      else guardE (resolve env r n \<noteq> PNone) (NoResolverEntry (n_id n) (n_kind n)))"

definition validate_dag :: "py_env \<Rightarrow> resolver \<Rightarrow> task_dag \<Rightarrow> dag_error + dag_validation" where
  "validate_dag env r g =
     (let tasks = g_tasks g; ids = map n_id tasks
      in if tasks = [] then Inl EmptyDag
         else bindE (check_ids tasks [] []) (\<lambda>dups.
           if dups \<noteq> [] then Inl (DuplicateTaskIds (sort (remdups dups)))
           else bindE (foldE (check_deps ids) tasks ()) (\<lambda>_.
             bindE (dag_order tasks) (\<lambda>(roots, ordered).
             bindE (prune_tasks env r g (node_map_of tasks) roots ordered) (\<lambda>p.
             let g' = pg_graph p; tasks' = g_tasks g'; ids' = map n_id tasks'
             in bindE (foldE (check_resolved env r) tasks' ()) (\<lambda>_.
                bindE (validate_semantic_outputs g' ids') (\<lambda>_.
                bindE (validate_side_effects g') (\<lambda>_.
                  Inr \<lparr>v_graph = g', v_task_ids = ids', v_roots = pg_roots p,
                       v_order = pg_order p, v_diagnostics = g_diagnostics g'\<rparr>))))))))"

text \<open>\<open>validate_task_dag\<close>: normalise the graph, then the resolver, then validate.\<close>

datatype resolver_input = ResolverObject resolver | ResolverEntries pydict

definition coerce_resolver :: "resolver_input \<Rightarrow> dag_error + resolver" where
  "coerce_resolver i = (case i of ResolverObject r \<Rightarrow> Inr r | ResolverEntries d \<Rightarrow> resolver_new d)"

definition validate_task_dag ::
  "py_env \<Rightarrow> string \<Rightarrow> dag_input \<Rightarrow> resolver_input \<Rightarrow> dag_error + dag_validation" where
  "validate_task_dag env fresh graph ri =
     bindE (dag_of_input fresh graph) (\<lambda>g. bindE (coerce_resolver ri) (\<lambda>r. validate_dag env r g))"

text \<open>\<open>TaskDAGValidator.validate\<close> with \<open>strict_schema_version\<close>.\<close>

definition validator_validate ::
  "py_env \<Rightarrow> string \<Rightarrow> string \<Rightarrow> bool \<Rightarrow> dag_input \<Rightarrow> resolver_input \<Rightarrow> dag_error + dag_validation" where
  "validator_validate env version fresh strict graph ri =
     bindE (validate_task_dag env fresh graph ri) (\<lambda>v.
       if strict \<and> g_schema (v_graph v) \<noteq> version
       then Inl (SchemaMismatch version (g_schema (v_graph v)))
       else Inr v)"

text \<open>\<open>validate_task_dag_planner_output\<close>: accepted, or the validator that refused and why.\<close>

datatype planner_verdict =
    PlannerOk
  | PlannerRefused string dag_error

definition validate_planner_output ::
  "py_env \<Rightarrow> string \<Rightarrow> string \<Rightarrow> pyval \<Rightarrow> resolver_input \<Rightarrow> planner_verdict" where
  "validate_planner_output env version fresh v ri =
     (case validate_task_dag env fresh (DagValue v) ri of
        Inl e \<Rightarrow> PlannerRefused ''task_dag'' e
      | Inr w \<Rightarrow>
          if g_schema (v_graph w) \<noteq> version
          then PlannerRefused ''task_dag.schema_version'' (SchemaMismatch version (g_schema (v_graph w)))
          else PlannerOk)"


section \<open>What is required\<close>

inductive needed :: "node_map \<Rightarrow> string set \<Rightarrow> string \<Rightarrow> bool" for m A where
  start: "t \<in> A \<Longrightarrow> needed m A t"
| step: "needed m A t \<Longrightarrow> dict_get m t = Some n \<Longrightarrow> d \<in> set (n_depends_on n) \<Longrightarrow> needed m A d"

lemma fold_add_required:
  "fold add_required ds (required, queue) = (required', queue') \<Longrightarrow>
     set required' = set required \<union> set ds \<and> set queue \<subseteq> set queue' \<and>
     set queue' \<subseteq> set queue \<union> set ds \<and> set required' - set queue' \<subseteq> set required - set queue"
proof (induction ds arbitrary: required queue)
  case (Cons d ds)
  obtain r q where a: "add_required d (required, queue) = (r, q)" by force
  with Cons.prems have "fold add_required ds (r, q) = (required', queue')" by simp
  from Cons.IH [OF this] a show ?case by (auto simp: add_required_def split: if_splits)
qed auto

lemma required_loop_closure:
  assumes "set queue \<subseteq> set required"
    and "\<And>t n d. t \<in> set required - set queue \<Longrightarrow> dict_get m t = Some n \<Longrightarrow>
           d \<in> set (n_depends_on n) \<Longrightarrow> d \<in> set required"
    and "A \<subseteq> set required" and "\<And>t. t \<in> set required \<Longrightarrow> needed m A t"
  shows "set (required_loop m required queue) = {t. needed m A t}"
  using assms
proof (induction m required queue rule: required_loop.induct)
  case (1 m required)
  have "t \<in> set required" if "needed m A t" for t
    using that
  proof induction
    case (start t)
    with "1.prems"(3) show ?case by blast
  next
    case (step t n d)
    then show ?case using "1.prems"(2) [of t n d] by simp
  qed
  with "1.prems"(4) have "set required = {t. needed m A t}" by blast
  then show ?case by simp
next
  case (2 m required t queue)
  show ?case
  proof (cases "dict_get m t")
    case None
    have "set (required_loop m required queue) = {t. needed m A t}"
    proof (rule "2.IH"(1) [OF None])
      show "set queue \<subseteq> set required" using "2.prems"(1) by simp
      show "A \<subseteq> set required" by (rule "2.prems"(3))
      show "needed m A x" if "x \<in> set required" for x using that by (rule "2.prems"(4))
      show "d \<in> set required" if "x \<in> set required - set queue" "dict_get m x = Some n"
        "d \<in> set (n_depends_on n)" for x n d
      proof -
        from that(2) None have "x \<noteq> t" by auto
        with that(1) have "x \<in> set required - set (t # queue)" by simp
        from "2.prems"(2) [OF this that(2,3)] show ?thesis .
      qed
    qed
    with None show ?thesis by simp
  next
    case (Some n)
    obtain r q where f: "fold add_required (n_depends_on n) (required, queue) = (r, q)" by force
    note s = fold_add_required [OF f]
    have t: "needed m A t" using "2.prems"(1,4) by auto
    have "set (required_loop m r q) = {t. needed m A t}"
    proof (rule "2.IH"(2) [OF Some f [symmetric]])
      show "set q \<subseteq> set r" using s "2.prems"(1) by auto
      show "A \<subseteq> set r" using s "2.prems"(3) by auto
      show "needed m A x" if "x \<in> set r" for x
        using that s "2.prems"(4) needed.step [OF t Some] by auto
      show "d \<in> set r" if "x \<in> set r - set q" "dict_get m x = Some n'" "d \<in> set (n_depends_on n')"
        for x n' d
      proof (cases "x = t")
        case True
        with that(2,3) Some s show ?thesis by auto
      next
        case False
        with that(1) s have "x \<in> set required - set (t # queue)" by auto
        from "2.prems"(2) [OF this that(2,3)] s show ?thesis by auto
      qed
    qed
    with Some f show ?thesis by simp
  qed
qed

lemma semantic_required_closure:
  "set (semantic_required_ids g m)
     = {t. needed m (set (map snd (semantic_output_task_refs (g_semantic g)))) t}"
  unfolding semantic_required_ids_def Let_def
  by (rule required_loop_closure) (auto intro: needed.start)

section \<open>What pruning removes\<close>

text \<open>The tasks without executor, and all that depend on one of them.\<close>

definition lacks_executor :: "py_env \<Rightarrow> resolver \<Rightarrow> task_node \<Rightarrow> bool" where
  "lacks_executor env r n \<longleftrightarrow> \<not> is_approval_task n \<and> resolve env r n = PNone"

inductive skipped :: "py_env \<Rightarrow> resolver \<Rightarrow> task_node list \<Rightarrow> string \<Rightarrow> bool" for env r tasks where
  unresolved: "n \<in> set tasks \<Longrightarrow> lacks_executor env r n \<Longrightarrow> skipped env r tasks (n_id n)"
| dependent: "n \<in> set tasks \<Longrightarrow> d \<in> set (n_depends_on n) \<Longrightarrow> skipped env r tasks d \<Longrightarrow>
    skipped env r tasks (n_id n)"

text \<open>A task may be dropped: nothing required, no approval, no declared side effect.\<close>

definition droppable :: "string list \<Rightarrow> task_node \<Rightarrow> bool" where
  "droppable required n \<longleftrightarrow>
     n_id n \<notin> set required \<and> approval_required n = Inr False \<and> n_side_effect n = []"

lemma prune_unresolved_Inr:
  "prune_unresolved env r required n s = Inr s' \<longleftrightarrow>
     (if lacks_executor env r n
      then droppable required n \<and>
        s' = s\<lparr>ps_pruned := ps_pruned s @ [n_id n],
               ps_diagnostics := ps_diagnostics s @ [unresolved_diagnostic n]\<rparr>
      else s' = s)"
  by (auto simp: prune_unresolved_def lacks_executor_def fail_or_prune_def droppable_def
      bindE_eq_Inr split: if_splits)

lemma prune_unresolved_fold:
  "foldE (prune_unresolved env r required) ns s = Inr s' \<Longrightarrow>
     set (ps_pruned s') = set (ps_pruned s) \<union> n_id ` {n \<in> set ns. lacks_executor env r n} \<and>
     (\<forall>n \<in> set ns. lacks_executor env r n \<longrightarrow> droppable required n)"
proof (induction ns arbitrary: s)
  case (Cons n ns)
  then obtain s1 where s1: "prune_unresolved env r required n s = Inr s1"
    "foldE (prune_unresolved env r required) ns s1 = Inr s'" by (auto simp: bindE_eq_Inr)
  from Cons.IH [OF s1(2)] s1(1) show ?case
    by (auto simp: prune_unresolved_Inr split: if_splits)
qed simp

lemma foldE_prune_sound:
  assumes "foldE (prune_dependent required) ns (s, c) = Inr (s', c')"
    and "set ns \<subseteq> set tasks"
    and "\<And>t. t \<in> set (ps_pruned s) \<Longrightarrow> skipped env r tasks t"
  shows "t \<in> set (ps_pruned s') \<Longrightarrow> skipped env r tasks t \<and> (t \<in> set (ps_pruned s) \<or> t \<notin> set required)"
  using assms
proof (induction ns arbitrary: s c)
  case (Cons n ns)
  from Cons.prems(2) obtain s1 c1 where p: "prune_dependent required n (s, c) = Inr (s1, c1)"
    "foldE (prune_dependent required) ns (s1, c1) = Inr (s', c')" by (auto simp: bindE_eq_Inr)
  have sub: "set ns \<subseteq> set tasks" using Cons.prems(3) by simp
  from p(1) show ?case
  proof (cases rule: prune_dependent_cases)
    case 1
    with p(2) have "foldE (prune_dependent required) ns (s, c) = Inr (s', c')" by simp
    from Cons.IH [OF Cons.prems(1) this sub Cons.prems(4)] show ?thesis .
  next
    case 2
    then obtain d where "d \<in> set (n_depends_on n)" "d \<in> set (ps_pruned s)" by blast
    with Cons.prems(3,4) have sk: "skipped env r tasks (n_id n)" by (auto intro: skipped.dependent)
    have "skipped env r tasks t" if "t \<in> set (ps_pruned s1)" for t
      using that 2(4) sk Cons.prems(4) by auto
    from Cons.IH [OF Cons.prems(1) p(2) sub this] 2 show ?thesis by auto
  qed
qed simp

lemma foldE_prune_unchanged:
  "foldE (prune_dependent required) ns (s, c) = Inr (s', False) \<Longrightarrow>
     s' = s \<and> \<not> c \<and> (\<forall>n \<in> set ns. n_id n \<in> set (ps_pruned s) \<or> set (n_depends_on n) \<inter> set (ps_pruned s) = {})"
proof (induction ns arbitrary: s c)
  case (Cons n ns)
  then obtain s1 c1 where p: "prune_dependent required n (s, c) = Inr (s1, c1)"
    "foldE (prune_dependent required) ns (s1, c1) = Inr (s', False)" by (auto simp: bindE_eq_Inr)
  from Cons.IH [OF p(2)] have IH: "s' = s1" "\<not> c1"
    "\<forall>n \<in> set ns. n_id n \<in> set (ps_pruned s1) \<or> set (n_depends_on n) \<inter> set (ps_pruned s1) = {}"
    by auto
  from p(1) show ?case
  proof (cases rule: prune_dependent_cases)
    case 1
    with IH show ?thesis by simp
  next
    case 2
    with IH(2) show ?thesis by simp
  qed
qed simp

lemma prune_loop_spec:
  assumes "prune_loop required tasks s = Inr s'"
    and "\<And>t. t \<in> set (ps_pruned s) \<Longrightarrow> skipped env r tasks t"
  shows "set (ps_pruned s) \<subseteq> set (ps_pruned s') \<and>
    (\<forall>t \<in> set (ps_pruned s'). skipped env r tasks t \<and> (t \<in> set (ps_pruned s) \<or> t \<notin> set required)) \<and>
    (\<forall>n \<in> set tasks. n_id n \<in> set (ps_pruned s') \<or> set (n_depends_on n) \<inter> set (ps_pruned s') = {})"
  using assms
proof (induction required tasks s rule: prune_loop.induct)
  case (1 required tasks s)
  from "1.prems"(1) obtain s1 c where sw: "sweep required tasks s = Inr (s1, c)"
    by (subst (asm) prune_loop.simps) (auto split: sum.splits)
  then have f: "foldE (prune_dependent required) tasks (s, False) = Inr (s1, c)"
    by (simp add: sweep_def)
  note mono = foldE_prune_mono [OF f]
  have sound: "skipped env r tasks t \<and> (t \<in> set (ps_pruned s) \<or> t \<notin> set required)"
    if "t \<in> set (ps_pruned s1)" for t
    using foldE_prune_sound [OF f subset_refl _ that, of env r] "1.prems"(2) by blast
  show ?case
  proof (cases c)
    case True
    with "1.prems"(1) sw have l: "prune_loop required tasks s1 = Inr s'"
      by (subst (asm) prune_loop.simps) simp
    from "1.IH" [OF sw refl True l] sound mono show ?thesis by blast
  next
    case False
    with "1.prems"(1) sw have "s' = s1" by (subst (asm) prune_loop.simps) simp
    with foldE_prune_unchanged [of required tasks s False s1] f False "1.prems"(2) show ?thesis by auto
  qed
qed

text \<open>
  The whole pruning step.  What it removes is exactly the skipped tasks, none of them
  required; the check for a root after pruning never fires.
\<close>

lemma prune_pruned:
  assumes "foldE (prune_unresolved env r required) tasks
             \<lparr>ps_pruned = [], ps_diagnostics = ds\<rparr> = Inr s0"
    and "prune_loop required tasks s0 = Inr s"
  shows "set (ps_pruned s) = {t. skipped env r tasks t}"
    and "\<And>t. skipped env r tasks t \<Longrightarrow> t \<notin> set required"
proof -
  from prune_unresolved_fold [OF assms(1)] have
    s0: "set (ps_pruned s0) = n_id ` {n \<in> set tasks. lacks_executor env r n}" and
    drop: "\<forall>n \<in> set tasks. lacks_executor env r n \<longrightarrow> droppable required n" by auto
  have init: "t \<in> set (ps_pruned s0) \<Longrightarrow> skipped env r tasks t" for t
    unfolding s0 by (auto intro: skipped.unresolved)
  note l = prune_loop_spec [OF assms(2), of env r, OF init]
  have "t \<in> set (ps_pruned s)" if "skipped env r tasks t" for t
    using that
  proof induction
    case (unresolved n)
    with s0 l show ?case by blast
  next
    case (dependent n d)
    with l show ?case by blast
  qed
  with l show eq: "set (ps_pruned s) = {t. skipped env r tasks t}" by blast
  fix t assume "skipped env r tasks t"
  with eq l have "t \<in> set (ps_pruned s0) \<or> t \<notin> set required" by blast
  then show "t \<notin> set required" using drop unfolding s0 by (auto simp: droppable_def)
qed

end
