(* ===== verification/DagCorrect.thy ===== *)
theory DagCorrect
  imports DagValidation
begin

text \<open>
  Correctness of the task DAG validator: what an accepted graph satisfies, exactly which
  graphs the cycle check rejects, what pruning removes, and which of the code's error
  branches can never be taken.
\<close>

section \<open>The structural checks\<close>

definition tasks_closed :: "task_node list \<Rightarrow> bool" where
  "tasks_closed ns \<longleftrightarrow> distinct (map n_id ns) \<and>
     (\<forall>n \<in> set ns. set (n_depends_on n) \<subseteq> n_id ` set ns)"

definition tasks_ok :: "task_node list \<Rightarrow> bool" where
  "tasks_ok ns \<longleftrightarrow> ns \<noteq> [] \<and> tasks_closed ns \<and> (\<forall>n \<in> set ns. valid_task_id (n_id n))"

lemma check_ids_spec:
  "check_ids ns seen dups = Inr dups' \<Longrightarrow>
     (\<forall>n \<in> set ns. valid_task_id (n_id n)) \<and>
     (dups' = [] \<longrightarrow> dups = [] \<and> distinct (map n_id ns) \<and> n_id ` set ns \<inter> set seen = {})"
proof (induction ns seen dups rule: check_ids.induct)
  case (2 n ns seen dups)
  then have ok: "n_id n \<noteq> []" "valid_task_id (n_id n)"
    "check_ids ns (n_id n # seen) (if n_id n \<in> set seen then dups @ [n_id n] else dups) = Inr dups'"
    by (auto split: if_splits)
  from "2.IH" [OF ok(1) _ ok(3)] ok(2) show ?case by (auto split: if_splits)
qed simp

lemma valid_task_id_nonempty: "valid_task_id t \<Longrightarrow> t \<noteq> []"
  by (auto simp: valid_task_id_def)

lemma check_ids_ok:
  "(\<And>n. n \<in> set ns \<Longrightarrow> valid_task_id (n_id n)) \<Longrightarrow> distinct (map n_id ns) \<Longrightarrow>
     n_id ` set ns \<inter> set seen = {} \<Longrightarrow> check_ids ns seen dups = Inr dups"
  by (induction ns arbitrary: seen) (auto dest: valid_task_id_nonempty)

lemma check_deps_iff:
  "foldE (check_deps ids) ns () = Inr u \<longleftrightarrow> (\<forall>n \<in> set ns. set (n_depends_on n) \<subseteq> set ids)"
  by (auto simp: foldE_unit check_deps_def)

lemma dict_keys_dep_graph [simp]: "dict_keys (dep_graph ns) = map n_id ns"
  by (simp add: dep_graph_def)

lemma fst_dep_graph [simp]: "fst ` set (dep_graph ns) = n_id ` set ns"
  by (force simp: dep_graph_def)

lemma dep_graph_wf: "tasks_closed ns \<Longrightarrow> graph_wf (dep_graph ns)"
  by (force simp: graph_wf_def tasks_closed_def dep_graph_def comp_def)

lemma deps_of_dep_graph:
  "tasks_closed ns \<Longrightarrow> n \<in> set ns \<Longrightarrow> deps_of (dep_graph ns) (n_id n) = n_depends_on n"
  by (rule deps_of_mem [OF dep_graph_wf]) (auto simp: dep_graph_def)

lemma dep_graph_filter:
  "dep_graph (filter (\<lambda>n. P (n_id n)) ns) = filter (\<lambda>(t, ds). P t) (dep_graph ns)"
  by (induction ns) (auto simp: dep_graph_def)

lemma roots_of_dep_graph:
  "roots_of (dep_graph ns) = map n_id (filter (\<lambda>n. n_depends_on n = []) ns)"
  by (induction ns) (auto simp: dep_graph_def roots_of_def)

interpretation dag: topo_sorter dag_order dep_graph tasks_closed
proof unfold_locales
  fix ns rs xs ys
  assume c: "tasks_closed ns"
  show "graph_wf (dep_graph ns)" using c by (rule dep_graph_wf)
  show "is_topo (dep_graph ns) xs \<and> rs = roots_of (dep_graph ns)" if "dag_order ns = Inr (rs, xs)"
    using that kahn_sound [OF dep_graph_wf [OF c]] by (simp add: dag_order_def split: sum.splits)
  show "\<exists>xs. dag_order ns = Inr (roots_of (dep_graph ns), xs)"
    if "dep_graph ns \<noteq> []" "is_topo (dep_graph ns) ys"
    using kahn_complete [OF dep_graph_wf [OF c] that] by (auto simp: dag_order_def)
qed

section \<open>Pruning\<close>

lemma skipped_mem: "skipped env r ns t \<Longrightarrow> t \<in> n_id ` set ns"
  by (induction rule: skipped.induct) auto

lemma tasks_by_id:
  "tasks_closed ns \<Longrightarrow> n \<in> set ns \<Longrightarrow> n' \<in> set ns \<Longrightarrow> n_id n = n_id n' \<Longrightarrow> n = n'"
  unfolding tasks_closed_def by (metis inj_on_def distinct_map)

lemma kept_closed:
  assumes "tasks_closed ns" and "\<not> skipped env r ns t"
    and "d \<in> set (deps_of (dep_graph ns) t)"
  shows "\<not> skipped env r ns d"
proof
  assume sk: "skipped env r ns d"
  from assms(3) obtain ds where "dict_get (dep_graph ns) t = Some ds"
    by (cases "dict_get (dep_graph ns) t") (auto simp: deps_of_def dict_get_or_def)
  from dict_get_Some_mem [OF this] obtain n where n: "n \<in> set ns" "n_id n = t"
    by (auto simp: dep_graph_def)
  with assms have "d \<in> set (n_depends_on n)" using deps_of_dep_graph [OF assms(1) n(1)] by simp
  from skipped.dependent [OF n(1) this sk] n(2) assms(2) show False by simp
qed

lemma kept_tasks_closed:
  assumes "tasks_closed ns"
  shows "tasks_closed (filter (\<lambda>n. \<not> skipped env r ns (n_id n)) ns)"
proof -
  have "d \<in> n_id ` {n \<in> set ns. \<not> skipped env r ns (n_id n)}"
    if n: "n \<in> set ns" "\<not> skipped env r ns (n_id n)" and d: "d \<in> set (n_depends_on n)" for n d
  proof -
    from assms n(1) d obtain n' where "n' \<in> set ns" "d = n_id n'"
      unfolding tasks_closed_def by blast
    moreover have "\<not> skipped env r ns d"
      using n d by (auto intro: skipped.dependent)
    ultimately show ?thesis by blast
  qed
  with assms show ?thesis by (auto simp: tasks_closed_def distinct_map_filter)
qed

lemma prune_tasks_spec:
  assumes c: "tasks_closed (g_tasks g)" and ne: "g_tasks g \<noteq> []"
    and o: "dag_order (g_tasks g) = Inr (roots, ordered)"
    and p: "prune_tasks env r g m roots ordered = Inr p"
  shows "g_tasks (pg_graph p) = filter (\<lambda>n. \<not> skipped env r (g_tasks g) (n_id n)) (g_tasks g)"
    and "pg_order p = filter (\<lambda>t. \<not> skipped env r (g_tasks g) t) ordered"
    and "pg_roots p = roots_of (dep_graph (g_tasks (pg_graph p)))"
    and "g_tasks (pg_graph p) \<noteq> []"
    and "g_semantic (pg_graph p) = g_semantic g" and "g_policies (pg_graph p) = g_policies g"
    and "g_schema (pg_graph p) = g_schema g" and "g_id (pg_graph p) = g_id g"
    and "t \<in> set (semantic_required_ids g m) \<Longrightarrow> \<not> skipped env r (g_tasks g) t"
proof -
  let ?sk = "skipped env r (g_tasks g)" and ?req = "semantic_required_ids g m"
  from p obtain s0 s where
    s0: "foldE (prune_unresolved env r ?req) (g_tasks g)
           \<lparr>ps_pruned = [], ps_diagnostics = g_diagnostics g\<rparr> = Inr s0"
    and s: "prune_loop ?req (g_tasks g) s0 = Inr s"
    by (auto simp: prune_tasks_def Let_def bindE_eq_Inr)
  note eq = prune_pruned [OF s0 s]
  have ids: "distinct ordered" "set ordered = n_id ` set (g_tasks g)"
    using dag.order_perm [OF c o] by auto
  let ?kept = "filter (\<lambda>n. \<not> ?sk (n_id n)) (g_tasks g)"
  have kept: "filter (\<lambda>n. n_id n \<notin> set (ps_pruned s)) (g_tasks g) = ?kept" using eq(1) by simp
  have order: "filter (\<lambda>t. t \<in> set (map n_id ?kept)) ordered = filter (\<lambda>t. \<not> ?sk t) ordered"
    using ids(2) by (intro filter_cong) auto
  show "t \<in> set ?req \<Longrightarrow> \<not> ?sk t" using eq(2) by blast
  have "g_tasks (pg_graph p) = ?kept \<and> pg_order p = filter (\<lambda>t. \<not> ?sk t) ordered \<and>
    pg_roots p = map n_id (filter (\<lambda>n. n_depends_on n = []) ?kept) \<and> g_tasks (pg_graph p) \<noteq> [] \<and>
    g_semantic (pg_graph p) = g_semantic g \<and> g_policies (pg_graph p) = g_policies g \<and>
    g_schema (pg_graph p) = g_schema g \<and> g_id (pg_graph p) = g_id g"
  proof (cases "ps_pruned s = []")
    case True
    with eq(1) have none: "\<And>t. \<not> ?sk t" by auto
    from True p s0 s have "p = \<lparr>pg_graph = g, pg_roots = roots, pg_order = ordered\<rparr>"
      by (simp add: prune_tasks_def)
    moreover have "roots = roots_of (dep_graph (g_tasks g))" using dag.sorter_sound [OF c o] by simp
    ultimately show ?thesis using none ne by (simp add: roots_of_dep_graph)
  next
    case False
    have "?kept \<noteq> [] \<and>
      p = \<lparr>pg_graph = g\<lparr>g_tasks := ?kept, g_diagnostics := ps_diagnostics s\<rparr>,
           pg_roots = map n_id (filter (\<lambda>n. n_depends_on n = []) ?kept),
           pg_order = filter (\<lambda>t. t \<in> set (map n_id ?kept)) ordered\<rparr>"
      using p unfolding prune_tasks_def Let_def s0 bindE_Inr s kept
      by (simp only: False if_False split: if_split_asm) simp_all
    then show ?thesis unfolding order by simp
  qed
  then show "g_tasks (pg_graph p) \<noteq> []" and "g_tasks (pg_graph p) = ?kept"
    and "pg_order p = filter (\<lambda>t. \<not> ?sk t) ordered"
    and "pg_roots p = roots_of (dep_graph (g_tasks (pg_graph p)))"
    and "g_semantic (pg_graph p) = g_semantic g" "g_policies (pg_graph p) = g_policies g"
    "g_schema (pg_graph p) = g_schema g" "g_id (pg_graph p) = g_id g"
    by (blast, simp_all add: roots_of_dep_graph)
qed

section \<open>Validation\<close>

lemma validate_dag_Inr:
  assumes "validate_dag env r g = Inr v"
  obtains roots ordered p where "tasks_ok (g_tasks g)"
    and "dag_order (g_tasks g) = Inr (roots, ordered)"
    and "prune_tasks env r g (node_map_of (g_tasks g)) roots ordered = Inr p"
    and "\<forall>n \<in> set (g_tasks (pg_graph p)). check_resolved env r n () = Inr ()"
    and "validate_semantic_outputs (pg_graph p) (map n_id (g_tasks (pg_graph p))) = Inr ()"
    and "validate_side_effects (pg_graph p) = Inr ()"
    and "v = \<lparr>v_graph = pg_graph p, v_task_ids = map n_id (g_tasks (pg_graph p)),
              v_roots = pg_roots p, v_order = pg_order p, v_diagnostics = g_diagnostics (pg_graph p)\<rparr>"
proof -
  from assms have ne: "g_tasks g \<noteq> []" by (auto simp: validate_dag_def)
  with assms obtain dups u ro p u1 u2 u3 where
    ids: "check_ids (g_tasks g) [] [] = Inr dups" "dups = []" and
    deps: "foldE (check_deps (map n_id (g_tasks g))) (g_tasks g) () = Inr u" and
    ro: "dag_order (g_tasks g) = Inr ro" and
    p: "prune_tasks env r g (node_map_of (g_tasks g)) (fst ro) (snd ro) = Inr p" and
    cr: "foldE (check_resolved env r) (g_tasks (pg_graph p)) () = Inr u1" and
    so: "validate_semantic_outputs (pg_graph p) (map n_id (g_tasks (pg_graph p))) = Inr u2" and
    se: "validate_side_effects (pg_graph p) = Inr u3" and
    v: "v = \<lparr>v_graph = pg_graph p, v_task_ids = map n_id (g_tasks (pg_graph p)),
              v_roots = pg_roots p, v_order = pg_order p, v_diagnostics = g_diagnostics (pg_graph p)\<rparr>"
    by (auto simp: validate_dag_def Let_def bindE_eq_Inr split: if_splits prod.splits)
  have "tasks_ok (g_tasks g)"
    using ne check_ids_spec [OF ids(1)] ids(2) deps
    by (auto simp: tasks_ok_def tasks_closed_def check_deps_iff)
  moreover have "\<forall>n \<in> set (g_tasks (pg_graph p)). check_resolved env r n () = Inr ()"
    using cr by (simp add: foldE_unit)
  ultimately show thesis using that [of "fst ro" "snd ro" p] ro p so se v by simp
qed

lemma check_resolved_Inr:
  "check_resolved env r n u = Inr w \<longleftrightarrow> \<not> lacks_executor env r n"
  by (simp add: check_resolved_def lacks_executor_def)

lemma semantic_outputs_Inr:
  "validate_semantic_outputs g ids = Inr u \<longleftrightarrow>
     (\<forall>(role, t) \<in> set (semantic_output_task_refs (g_semantic g)). t \<in> set ids)"
  by (auto simp: validate_semantic_outputs_def foldE_unit)

end
