(* ===== verification/DataPath.thy ===== *)
theory DataPath
  imports PyText
begin

text \<open>
  Paths into nested data: \<open>DataPathBuilder.py\<close> (building, converting and extracting paths)
  and the path half of \<open>DataLocator.py\<close> (looking a path up).  The lemmas relate both to a
  reference lookup along a list of keys.
\<close>

section \<open>Building paths\<close>

datatype path_key = KStr string | KInt int

fun key_text :: "path_key \<Rightarrow> string" where
  "key_text (KStr s) = s"
| "key_text (KInt i) = int_text i"

definition wild_texts :: "string list" where
  "wild_texts = [''*'', ''[]'', ''[*]'']"

fun dot_part :: "bool \<Rightarrow> path_key \<Rightarrow> string" where
  "dot_part first (KInt i) = ''['' @ int_text i @ '']''"
| "dot_part first (KStr s) =
     (if s \<in> set wild_texts then ''[*]'' else if first then s else CHR ''.'' # s)"

definition build_dot_path :: "path_key list \<Rightarrow> string" where
  "build_dot_path keys =
     (case keys of [] \<Rightarrow> [] | k # ks \<Rightarrow> dot_part True k @ concat (map (dot_part False) ks))"

definition build_slash_path :: "path_key list \<Rightarrow> string" where
  "build_slash_path keys =
     (if keys = [] then [] else CHR ''/'' # join ''/'' (map key_text keys))"

section \<open>Scanning a dot path\<close>

text \<open>
  The loop \<open>convert_dot_to_slash\<close> and \<open>get_value_by_path\<close> share: \<open>rest\<close> is the path from
  index \<open>i\<close> on.  With no \<open>]\<close> after a \<open>[\<close>, \<open>find\<close> returns \<open>-1\<close>, so the slice is taken up to
  index 0 (or up to the last character) and \<open>i\<close> becomes 0: the scan starts again.
  \<open>None\<close> is the scan that never ends.
\<close>

definition flush :: "string \<Rightarrow> string list \<Rightarrow> string list" where
  "flush buffer parts = (if buffer = [] then parts else parts @ [buffer])"

partial_function (option) dot_loop ::
  "bool \<Rightarrow> string \<Rightarrow> string \<Rightarrow> string \<Rightarrow> string list \<Rightarrow> string list option" where
  "dot_loop brackets path rest buffer parts =
     (case rest of
        [] \<Rightarrow> Some (flush buffer parts)
      | c # cs \<Rightarrow>
          if c = CHR ''['' then
            (case split_once (CHR '']'') cs of
               (inner, Some after) \<Rightarrow>
                 dot_loop brackets path after []
                   (flush buffer parts @ [if brackets then ''['' @ inner @ '']'' else inner])
             | (inner, None) \<Rightarrow>
                 dot_loop brackets path path []
                   (flush buffer parts @ [if brackets then [] else butlast cs]))
          else if c = CHR ''.'' then dot_loop brackets path cs [] (flush buffer parts)
          else dot_loop brackets path cs (buffer @ [c]) parts)"

declare dot_loop.simps [code]

definition convert_dot_to_slash :: "string \<Rightarrow> string option" where
  "convert_dot_to_slash dot_path =
     (if dot_path = [] then Some ''/''
      else map_option (\<lambda>parts. CHR ''/'' # join ''/'' parts) (dot_loop True dot_path dot_path [] []))"

definition strip_char :: "char \<Rightarrow> string \<Rightarrow> string" where
  "strip_char c s = rev (dropWhile ((=) c) (rev (dropWhile ((=) c) s)))"

definition bracketed :: "string \<Rightarrow> bool" where
  "bracketed p \<longleftrightarrow> p \<noteq> [] \<and> hd p = CHR ''['' \<and> last p = CHR '']''"

definition slash_part :: "string \<Rightarrow> string list \<Rightarrow> string list" where
  "slash_part part dot_parts =
     (if bracketed part then dot_parts @ [part]
      else if dot_parts = [] then [part]
      else dot_parts @ [CHR ''.'' # part])"

definition convert_slash_to_dot :: "string \<Rightarrow> string" where
  "convert_slash_to_dot slash_path =
     (if slash_path = [] \<or> slash_path = ''/'' then []
      else concat (fold slash_part (split_on (CHR ''/'') (strip_char (CHR ''/'') slash_path)) []))"

section \<open>Reading a value by path\<close>

datatype path_error = PathTypeError | PathValueError

definition digit_key :: "string \<Rightarrow> path_error + path_key" where
  "digit_key k =
     (if py_isdigit k
      then (case int_of_text k of None \<Rightarrow> Inl PathValueError | Some i \<Rightarrow> Inr (KInt i))
      else Inr (KStr k))"

fun merge_item :: "pyval \<Rightarrow> pyval list \<Rightarrow> pyval list" where
  "merge_item (PList ys) results = results @ ys"
| "merge_item PNone results = results"
| "merge_item v results = results @ [v]"

fun resolve_keys :: "path_key list \<Rightarrow> pyval \<Rightarrow> pyval" where
  "resolve_keys [] current = current"
| "resolve_keys (k # ks) current =
     (if k = KStr ''[*]'' then
        (case seq_items current of
           Some items \<Rightarrow> PList (fold (\<lambda>item. merge_item (resolve_keys ks item)) items [])
         | None \<Rightarrow> PNone)
      else
        (case (k, current) of
           (KStr s, PDict d) \<Rightarrow>
             (case dict_get d s of Some v \<Rightarrow> resolve_keys ks v | None \<Rightarrow> PNone)
         | (KInt i, _) \<Rightarrow>
             (case seq_items current of
                Some items \<Rightarrow>
                  if 0 \<le> i \<and> i < int (length items) then resolve_keys ks (items ! nat i) else PNone
              | None \<Rightarrow> PNone)
         | _ \<Rightarrow> PNone))"

datatype path_style = Dot | Slash

definition is_container :: "pyval \<Rightarrow> bool" where
  "is_container v \<longleftrightarrow> is_mapping v \<or> seq_items v \<noteq> None"

definition get_value_by_path :: "pyval \<Rightarrow> string \<Rightarrow> path_style \<Rightarrow> (path_error + pyval) option" where
  "get_value_by_path data path style =
     (if \<not> is_container data then Some (Inl PathTypeError)
      else if path = [] then Some (Inr PNone)
      else case style of
        Dot \<Rightarrow> map_option (\<lambda>parts. Inr (resolve_keys (map KStr parts) data)) (dot_loop False path path [] [])
      | Slash \<Rightarrow>
          Some (bindE (mapE digit_key (split_on (CHR ''/'') (strip_char (CHR ''/'') path)))
                  (\<lambda>keys. Inr (resolve_keys keys data))))"

section \<open>Output schemas\<close>

text \<open>
  A declared output structure; \<open>SGeneric\<close> is a \<open>list[T]\<close> annotation, with its argument.  A
  leaf is anything that is not a container: a type, a string, a marker.
\<close>

datatype schema =
    SLeaf pyval
  | STuple "schema list"
  | SDict "(string \<times> schema) list"
  | SList "schema list"
  | SGeneric "schema option"

definition get_ensure_policy :: "pyval \<Rightarrow> string option" where
  "get_ensure_policy v =
     (if py_eq v (PInt 1) then Some ''presence''
      else if v = PStr ''not_null'' then Some ''not_null''
      else None)"

definition normalize_ensure_marker :: "pyval \<Rightarrow> pyval" where
  "normalize_ensure_marker v =
     (case get_ensure_policy v of
        Some p \<Rightarrow> if p = ''presence'' then PBool True else PStr ''not_null''
      | None \<Rightarrow> PNone)"

definition is_ensure_marker :: "pyval \<Rightarrow> bool" where
  "is_ensure_marker v \<longleftrightarrow> get_ensure_policy v \<noteq> None"

definition render_path :: "path_style \<Rightarrow> path_key list \<Rightarrow> string" where
  "render_path style keys = (case style of Dot \<Rightarrow> build_dot_path keys | Slash \<Rightarrow> build_slash_path keys)"

fun schema_is_sequence :: "schema \<Rightarrow> bool" where
  "schema_is_sequence (STuple _) = True"
| "schema_is_sequence (SList _) = True"
| "schema_is_sequence _ = False"

definition schema_is_structure :: "schema \<Rightarrow> bool" where
  "schema_is_structure s \<longleftrightarrow> schema_is_sequence s \<or> (case s of SDict _ \<Rightarrow> True | _ \<Rightarrow> False)"

text \<open>Every path visited, in the order of the visit (the code keeps them in a set).\<close>

fun visit_paths :: "path_style \<Rightarrow> path_key list \<Rightarrow> schema \<Rightarrow> string list" where
  "visit_paths st keys (STuple []) = [render_path st keys]"
| "visit_paths st keys (STuple (x # xs)) = render_path st keys # visit_paths st keys x"
| "visit_paths st keys (SDict d) =
     render_path st keys # concat (map (\<lambda>(k, v). visit_paths st (keys @ [KStr k]) v) d)"
| "visit_paths st keys (SGeneric None) = [render_path st keys]"
| "visit_paths st keys (SGeneric (Some a)) =
     render_path st keys # visit_paths st (keys @ [KStr ''[*]'']) a"
| "visit_paths st keys (SList xs) =
     render_path st keys # concat (map (visit_paths st (keys @ [KStr ''[*]''])) xs)"
| "visit_paths st keys (SLeaf v) = [render_path st keys]"

definition extract_possible_paths :: "schema \<Rightarrow> path_style \<Rightarrow> path_error + string list" where
  "extract_possible_paths s st =
     (if schema_is_structure s then Inr (remdups (visit_paths st [] s)) else Inl PathTypeError)"

text \<open>\<open>ordered_paths[p] = None\<close>: a path keeps the place of its first insertion.\<close>

definition add_path :: "string \<Rightarrow> string list \<Rightarrow> string list" where
  "add_path p ps = (if p \<in> set ps then ps else ps @ [p])"

fun key_order :: "path_style \<Rightarrow> path_key list \<Rightarrow> schema \<Rightarrow> string list \<Rightarrow> string list" where
  "key_order st keys (STuple []) acc = add_path (render_path st keys) acc"
| "key_order st keys (STuple (x # xs)) acc =
     add_path (render_path st keys) (key_order st keys x acc)"
| "key_order st keys (SDict d) acc =
     add_path (render_path st keys) (fold (\<lambda>(k, v). key_order st (keys @ [KStr k]) v) d acc)"
| "key_order st keys (SGeneric None) acc = add_path (render_path st keys) acc"
| "key_order st keys (SGeneric (Some a)) acc =
     add_path (render_path st keys) (key_order st (keys @ [KStr ''[*]'']) a acc)"
| "key_order st keys (SList xs) acc =
     add_path (render_path st keys) (fold (key_order st (keys @ [KStr ''[*]''])) xs acc)"
| "key_order st keys (SLeaf v) acc = add_path (render_path st keys) acc"

definition extract_parsing_key_orders :: "schema \<Rightarrow> path_style \<Rightarrow> string list" where
  "extract_parsing_key_orders s st = key_order st [] s []"

definition schema_value :: "schema \<Rightarrow> pyval" where
  "schema_value s = (case s of SLeaf v \<Rightarrow> v | _ \<Rightarrow> PObj 0 [])"

definition tuple_marker :: "schema list \<Rightarrow> pyval" where
  "tuple_marker xs = (case xs of _ # _ # m # _ \<Rightarrow> schema_value m | _ \<Rightarrow> PNone)"

definition note_policy :: "string \<Rightarrow> string option \<Rightarrow> (string, string) dict \<Rightarrow> (string, string) dict" where
  "note_policy path policy acc =
     (case policy of
        None \<Rightarrow> acc
      | Some p \<Rightarrow>
          if path \<noteq> [] \<and> (p = ''not_null'' \<or> \<not> dict_has acc path) then dict_set path p acc else acc)"

fun ensure_policies ::
  "path_style \<Rightarrow> path_key list \<Rightarrow> schema \<Rightarrow> (string, string) dict \<Rightarrow> (string, string) dict" where
  "ensure_policies st keys (STuple []) acc = acc"
| "ensure_policies st keys (STuple (x # xs)) acc =
     ensure_policies st keys x
       (note_policy (render_path st keys) (get_ensure_policy (tuple_marker (x # xs))) acc)"
| "ensure_policies st keys (SDict d) acc =
     fold (\<lambda>(k, v). ensure_policies st (keys @ [KStr k]) v) d acc"
| "ensure_policies st keys (SGeneric None) acc = acc"
| "ensure_policies st keys (SGeneric (Some a)) acc = ensure_policies st (keys @ [KStr ''[*]'']) a acc"
| "ensure_policies st keys (SList xs) acc = fold (ensure_policies st (keys @ [KStr ''[*]''])) xs acc"
| "ensure_policies st keys (SLeaf v) acc = acc"

definition extract_ensure_path_policies :: "schema \<Rightarrow> path_style \<Rightarrow> path_error + (string, string) dict" where
  "extract_ensure_path_policies s st =
     (if schema_is_structure s then Inr (ensure_policies st [] s []) else Inl PathTypeError)"

definition extract_ensure_paths :: "schema \<Rightarrow> path_style \<Rightarrow> path_error + string list" where
  "extract_ensure_paths s st = bindE (extract_ensure_path_policies s st) (\<lambda>d. Inr (dict_keys d))"

section \<open>Locating a path\<close>

text \<open>
  \<open>_locate_path_parts\<close> returns its \<open>default\<close> object when a step fails, and a failing
  \<open>get\<close> goes on with it.  \<open>None\<close> is that object; a value found in the data can be the
  same object only when it is one of the singletons \<open>py_is\<close> knows.
\<close>

definition or_default :: "pyval \<Rightarrow> pyval option \<Rightarrow> pyval" where
  "or_default dflt r = (case r of None \<Rightarrow> dflt | Some v \<Rightarrow> v)"

definition is_default :: "pyval \<Rightarrow> pyval option \<Rightarrow> bool" where
  "is_default dflt r \<longleftrightarrow> (case r of None \<Rightarrow> True | Some v \<Rightarrow> py_is v dflt)"

fun locate_each :: "pyval \<Rightarrow> (pyval \<Rightarrow> pyval option) \<Rightarrow> pyval list \<Rightarrow> pyval list option" where
  "locate_each dflt f [] = Some []"
| "locate_each dflt f (x # xs) =
     (if is_default dflt (f x) then None
      else map_option ((#) (or_default dflt (f x))) (locate_each dflt f xs))"

definition locate_items :: "pyval \<Rightarrow> (pyval \<Rightarrow> pyval option) \<Rightarrow> pyval \<Rightarrow> pyval option" where
  "locate_items dflt f v =
     (case seq_items v of
        None \<Rightarrow> None
      | Some items \<Rightarrow> map_option PList (locate_each dflt f items))"

text \<open>Indexing a list: a negative index counts from the end; out of range is an \<open>IndexError\<close>.\<close>

definition py_index :: "'a list \<Rightarrow> int \<Rightarrow> 'a option" where
  "py_index xs i =
     (if 0 \<le> i \<and> i < int (length xs) then Some (xs ! nat i)
      else if i < 0 \<and> 0 \<le> i + int (length xs) then Some (xs ! nat (i + int (length xs)))
      else None)"

definition locate_at :: "(pyval \<Rightarrow> pyval option) \<Rightarrow> string \<Rightarrow> pyval \<Rightarrow> pyval option" where
  "locate_at f index v =
     (case (int_of_text index, seq_items v) of
        (Some i, Some items) \<Rightarrow> (case py_index items i of Some x \<Rightarrow> f x | None \<Rightarrow> None)
      | _ \<Rightarrow> None)"

fun locate_dot :: "pyval \<Rightarrow> string list \<Rightarrow> pyval option \<Rightarrow> pyval option" where
  "locate_dot dflt [] r = r"
| "locate_dot dflt (part # remaining) r =
     (let result = or_default dflt r in
      case split_once (CHR ''['') part of
        (key, Some tail) \<Rightarrow>
          let index = butlast tail;
              rec = (\<lambda>item. locate_dot dflt remaining (Some item));
              step = (\<lambda>v. if index = ''*'' \<or> index = [] then locate_items dflt rec v
                          else locate_at rec index v)
          in if key \<noteq> [] then
               (case result of PDict d \<Rightarrow> step (or_default dflt (dict_get d key)) | _ \<Rightarrow> None)
             else if seq_items result = None then None
             else step result
      | (_, None) \<Rightarrow>
          (case result of PDict d \<Rightarrow> locate_dot dflt remaining (dict_get d part) | _ \<Rightarrow> None))"

fun locate_slash :: "pyval \<Rightarrow> string list \<Rightarrow> pyval option \<Rightarrow> pyval option" where
  "locate_slash dflt [] r = r"
| "locate_slash dflt (part # remaining) r =
     (let result = or_default dflt r;
          p = (if bracketed part then butlast (tl part) else part);
          rec = (\<lambda>item. locate_slash dflt remaining (Some item))
      in if p = ''*'' \<or> p = [] then locate_items dflt rec result
         else case result of
           PDict d \<Rightarrow> locate_slash dflt remaining (dict_get d p)
         | _ \<Rightarrow> locate_at rec p result)"

definition locate_path_in_dict :: "pyval \<Rightarrow> string \<Rightarrow> path_style \<Rightarrow> pyval \<Rightarrow> pyval option" where
  "locate_path_in_dict original path style dflt =
     (if path = [] then Some original
      else case style of
        Dot \<Rightarrow> locate_dot dflt (split_on (CHR ''.'') path) (Some original)
      | Slash \<Rightarrow>
          locate_slash dflt (filter (\<lambda>p. p \<noteq> []) (split_on (CHR ''/'') path)) (Some original))"

fun matches_schema_shape :: "pyval \<Rightarrow> schema \<Rightarrow> bool" where
  "matches_schema_shape parsed (SDict ks) =
     (case parsed of
        PDict d \<Rightarrow> ks = [] \<or> list_ex (\<lambda>(k, _). dict_has d k) ks
      | _ \<Rightarrow> False)"
| "matches_schema_shape parsed s = (schema_is_sequence s \<and> seq_items parsed \<noteq> None)"

text \<open>The score: how many declared paths the candidate has; \<open>empty\<close> is a fresh object.\<close>

definition fresh_object :: "nat \<Rightarrow> pyval" where
  "fresh_object i = PObj i ''<object object>''"

definition score_schema_match :: "nat \<Rightarrow> pyval \<Rightarrow> schema \<Rightarrow> int" where
  "score_schema_match fresh parsed s =
     (if \<not> matches_schema_shape parsed s then -1
      else case extract_possible_paths s Dot of
        Inl _ \<Rightarrow> 0
      | Inr paths \<Rightarrow>
          int (length (filter (\<lambda>p. p \<noteq> [] \<and>
             \<not> is_default (fresh_object fresh) (locate_path_in_dict parsed p Dot (fresh_object fresh))) paths)))"

end
