(* ===== verification/JsonDump.thy ===== *)
theory JsonDump
  imports PyText
begin

text \<open>
  \<open>json.dumps\<close> with \<open>ensure_ascii=False\<close>, as several components use it: the escaping of
  strings, and the stable rendering with \<open>sort_keys=True\<close> and \<open>default=str\<close> that identities
  are computed from.  The main result is that equal stable renderings come from equal data.
\<close>

section \<open>Strings\<close>

definition json_char :: "char \<Rightarrow> string" where
  "json_char c =
     (if c = CHR 0x22 then [CHR 0x5C, CHR 0x22]
      else if c = CHR 0x5C then [CHR 0x5C, CHR 0x5C]
      else if c = CHR 0x0A then [CHR 0x5C, CHR ''n'']
      else if c = CHR 0x0D then [CHR 0x5C, CHR ''r'']
      else if c = CHR 0x09 then [CHR 0x5C, CHR ''t'']
      else if c = CHR 0x0C then [CHR 0x5C, CHR ''f'']
      else if c = CHR 0x08 then [CHR 0x5C, CHR ''b'']
      else if (of_char c :: nat) < 32
        then CHR 0x5C # ''u00'' @ [hex_digit (of_char c div 16), hex_digit (of_char c mod 16)]
      else [c])"

definition json_string :: "string \<Rightarrow> string" where
  "json_string s = [CHR 0x22] @ concat (map json_char s) @ [CHR 0x22]"

section \<open>The stable rendering\<close>

text \<open>The data a rendering shows: tuples as lists, keys sorted, other objects as their text.\<close>

datatype json =
    JNull
  | JBool bool
  | JNum string
  | JStr string
  | JList "json list"
  | JDict "(string \<times> json) list"

fun canon :: "pyval \<Rightarrow> json" where
  "canon PNone = JNull"
| "canon (PBool b) = JBool b"
| "canon (PInt i) = JNum (int_text i)"
| "canon (PFloat q) = JNum (float_text q)"
| "canon (PStr s) = JStr s"
| "canon (PList xs) = JList (map canon xs)"
| "canon (PTuple xs) = JList (map canon xs)"
| "canon (PDict d) = JDict (sort_key fst (map (\<lambda>(k, v). (k, canon v)) d))"
| "canon v = JStr (py_str v)"

fun json_text :: "json \<Rightarrow> string" where
  "json_text JNull = ''null''"
| "json_text (JBool b) = (if b then ''true'' else ''false'')"
| "json_text (JNum t) = t"
| "json_text (JStr s) = json_string s"
| "json_text (JList xs) = ''['' @ join '', '' (map json_text xs) @ '']''"
| "json_text (JDict d) =
     CHR 0x7B # join '', '' (map (\<lambda>(k, v). json_string k @ '': '' @ json_text v) d) @ [CHR 0x7D]"

definition stable_json :: "pyval \<Rightarrow> string" where
  "stable_json v = json_text (canon v)"

section \<open>Equal renderings come from equal data\<close>

text \<open>What may follow a rendered value.\<close>

definition ends_value :: "string \<Rightarrow> bool" where
  "ends_value s \<longleftrightarrow> s = [] \<or> hd s \<in> {CHR '','', CHR '']'', CHR 0x7D}"

definition is_num_char :: "char \<Rightarrow> bool" where
  "is_num_char c \<longleftrightarrow> is_dec_digit c \<or> c = CHR ''-'' \<or> c = CHR ''.''"

fun json_ok :: "json \<Rightarrow> bool" where
  "json_ok (JNum t) = (t \<noteq> [] \<and> list_all is_num_char t)"
| "json_ok (JList xs) = list_all json_ok xs"
| "json_ok (JDict d) = list_all (\<lambda>(k, v). json_ok v) d"
| "json_ok _ = True"

lemma digit_char_num: "n < 10 \<Longrightarrow> is_num_char (digit_char n)"
  by (simp add: is_num_char_def is_dec_digit_digit_char)

lemma nat_text_num: "list_all is_num_char (nat_text n)"
  by (auto simp: list_all_iff is_num_char_def dest: nat_text_digits)

lemma frac_text_num: "0 \<le> q \<Longrightarrow> q < 1 \<Longrightarrow> list_all is_num_char (frac_text k q)"
proof (induction k arbitrary: q)
  case (Suc k)
  have "0 \<le> 10 * q - of_int \<lfloor>10 * q\<rfloor>" "10 * q - of_int \<lfloor>10 * q\<rfloor> < 1" by linarith+
  moreover have "nat \<lfloor>10 * q\<rfloor> < 10" using Suc.prems by linarith
  ultimately show ?case using Suc.IH by (simp add: digit_char_num)
qed simp

lemma int_text_num: "int_text i \<noteq> [] \<and> list_all is_num_char (int_text i)"
  by (simp add: int_text_def nat_text_num is_num_char_def)

lemma float_text_num: "float_text q \<noteq> [] \<and> list_all is_num_char (float_text q)"
proof -
  have "list_all is_num_char (frac_text 17 (\<bar>q\<bar> - of_int \<lfloor>\<bar>q\<bar>\<rfloor>))"
    by (rule frac_text_num) linarith+
  moreover have "is_num_char (CHR ''-'')" "is_num_char (CHR ''.'')" "is_num_char (CHR ''0'')"
    by (simp_all add: is_num_char_def is_dec_digit_def code_in_def)
  ultimately show ?thesis by (simp add: float_text_def Let_def nat_text_num)
qed

lemma canon_ok: "json_ok (canon v)"
proof (induction v rule: canon.induct)
  case (3 i)
  show ?case using int_text_num by simp
next
  case (4 q)
  show ?case using float_text_num by simp
qed (auto simp: list_all_iff)

subsection \<open>Strings are read back\<close>

lemma hex_digit_inject: "m < 16 \<Longrightarrow> n < 16 \<Longrightarrow> hex_digit m = hex_digit n \<Longrightarrow> m = n"
proof -
  have "list_all (\<lambda>m. list_all (\<lambda>n. hex_digit m = hex_digit n \<longrightarrow> m = n) [0..<16]) [0..<16]"
    by code_simp
  then show "m < 16 \<Longrightarrow> n < 16 \<Longrightarrow> hex_digit m = hex_digit n \<Longrightarrow> m = n"
    by (auto simp: list_all_iff)
qed

lemma json_char_prefix: "json_char a @ x = json_char b @ y \<Longrightarrow> a = b \<and> x = y"
proof -
  have eq: "of_char a div 16 = (of_char b div 16 :: nat) \<Longrightarrow> of_char a mod 16 = (of_char b mod 16 :: nat) \<Longrightarrow> a = b"
    by (metis div_mult_mod_eq of_char_eq_iff)
  have small: "(of_char c :: nat) < 32 \<Longrightarrow> of_char c div 16 < (16 :: nat)" for c :: char by linarith
  assume "json_char a @ x = json_char b @ y"
  then show ?thesis
    by (auto simp: json_char_def small intro!: eq dest!: hex_digit_inject [rotated 2] split: if_splits)
qed

lemma json_char_quote: "json_char a @ x \<noteq> CHR 0x22 # y"
  by (auto simp: json_char_def split: if_splits)

lemma json_string_prefix: "json_string s @ x = json_string t @ y \<Longrightarrow> s = t \<and> x = y"
proof -
  have "concat (map json_char s) @ CHR 0x22 # x = concat (map json_char t) @ CHR 0x22 # y \<Longrightarrow> s = t \<and> x = y"
  proof (induction s arbitrary: t)
    case Nil
    then show ?case by (cases t) (auto simp: json_char_quote [symmetric])
  next
    case (Cons a s)
    show ?case
    proof (cases t)
      case Nil
      with Cons.prems show ?thesis by (simp add: json_char_quote)
    next
      case (Cons b t')
      with Cons.prems have "json_char a @ concat (map json_char s) @ CHR 0x22 # x =
          json_char b @ concat (map json_char t') @ CHR 0x22 # y" by simp
      from json_char_prefix [OF this] Cons.IH Cons show ?thesis by simp
    qed
  qed
  then show "json_string s @ x = json_string t @ y \<Longrightarrow> s = t \<and> x = y"
    by (simp add: json_string_def)
qed

subsection \<open>Sequences are read back\<close>

lemma join_prefix:
  assumes "\<forall>a \<in> set xs. \<forall>b \<in> set ys. \<forall>r s. ends_value r \<longrightarrow> ends_value s \<longrightarrow> p a @ r = q b @ s \<longrightarrow> R a b \<and> r = s"
    and "\<forall>a \<in> set xs. p a \<noteq> [] \<and> hd (p a) \<noteq> c" and "\<forall>b \<in> set ys. q b \<noteq> [] \<and> hd (q b) \<noteq> c"
    and c: "c \<in> {CHR '']'', CHR 0x7D}"
    and "join '', '' (map p xs) @ c # x = join '', '' (map q ys) @ c # y"
  shows "list_all2 R xs ys \<and> x = y"
  using assms(1-3,5)
proof (induction xs arbitrary: ys)
  case Nil
  show ?case
  proof (cases ys)
    case (Cons b bs)
    obtain h t where "q b = h # t" "h \<noteq> c" using Nil.prems(3) Cons by (cases "q b") auto
    with Nil.prems Cons show ?thesis by (cases bs) simp_all
  qed (use Nil in simp)
next
  case (Cons a as)
  obtain h t where a: "p a = h # t" "h \<noteq> c" using Cons.prems(2) by (cases "p a") auto
  have unfold: "join '', '' (map f (b # bs)) @ c # z =
      f b @ (case bs of [] \<Rightarrow> c # z | _ \<Rightarrow> '', '' @ join '', '' (map f bs) @ c # z)" for f :: "'z \<Rightarrow> string" and b bs z
    by (cases bs) simp_all
  have ends: "ends_value (case zs of [] \<Rightarrow> c # z | _ \<Rightarrow> '', '' @ join '', '' (map f zs) @ c # z)"
    for f :: "'z \<Rightarrow> string" and zs z
    using c by (cases zs) (auto simp: ends_value_def)
  show ?case
  proof (cases ys)
    case Nil
    with Cons.prems a show ?thesis by (cases as) simp_all
  next
    case (Cons b bs)
    let ?r = "case as of [] \<Rightarrow> c # x | _ \<Rightarrow> '', '' @ join '', '' (map p as) @ c # x"
    let ?s = "case bs of [] \<Rightarrow> c # y | _ \<Rightarrow> '', '' @ join '', '' (map q bs) @ c # y"
    have "p a @ ?r = q b @ ?s" using Cons.prems(4) unfolding Cons unfold .
    then have "R a b \<and> ?r = ?s"
      by (intro Cons.prems(1) [rule_format, of a b ?r ?s] ends) (simp_all add: Cons)
    then have "R a b" and tails: "?r = ?s" by blast+
    have "list_all2 R as bs \<and> x = y"
    proof (cases "as = [] \<or> bs = []")
      case True
      with tails c show ?thesis by (cases as; cases bs) auto
    next
      case False
      with tails have "join '', '' (map p as) @ c # x = join '', '' (map q bs) @ c # y"
        by (cases as; cases bs) simp_all
      with Cons.prems(1-3) Cons show ?thesis by (intro Cons.IH) auto
    qed
    with \<open>R a b\<close> Cons show ?thesis by simp
  qed
qed

lemma num_prefix:
  assumes "list_all is_num_char s" and "list_all is_num_char t" and "ends_value x" and "ends_value y"
    and "s @ x = t @ y"
  shows "s = t \<and> x = y"
proof -
  have stop: "takeWhile is_num_char z = []" if "ends_value z" for z
    using that by (cases z) (auto simp: ends_value_def is_num_char_def is_dec_digit_def code_in_def)
  have "takeWhile is_num_char (s @ x) = s" and "takeWhile is_num_char (t @ y) = t"
    using assms(1-4) stop by (simp_all add: list_all_iff takeWhile_append2 del: takeWhile_eq_Nil_iff)
  with assms(5) show ?thesis by (metis append_same_eq append_eq_conv_conj same_append_eq)
qed

subsection \<open>Values are read back\<close>

lemma json_start: "json_ok v \<Longrightarrow> json_text v \<noteq> [] \<and> hd (json_text v) \<notin> {CHR '']'', CHR 0x7D}"
  by (cases v) (auto simp: json_string_def is_num_char_def is_dec_digit_def code_in_def neq_Nil_conv)

text \<open>The first character tells the kind of value.\<close>

definition kind_of_char :: "char \<Rightarrow> nat" where
  "kind_of_char c =
     (if c = CHR ''n'' then 0 else if c = CHR ''t'' then 1 else if c = CHR ''f'' then 2
      else if c = CHR 0x22 then 4 else if c = CHR ''['' then 5 else if c = CHR 0x7B then 6 else 3)"

fun json_kind :: "json \<Rightarrow> nat" where
  "json_kind JNull = 0"
| "json_kind (JBool b) = (if b then 1 else 2)"
| "json_kind (JNum t) = 3"
| "json_kind (JStr s) = 4"
| "json_kind (JList xs) = 5"
| "json_kind (JDict d) = 6"

lemma kind_of_text: "json_ok v \<Longrightarrow> kind_of_char (hd (json_text v @ x)) = json_kind v"
proof (cases v)
  case (JNum t)
  assume "json_ok v"
  with JNum obtain c u where "t = c # u" "is_num_char c" by (cases t) auto
  with JNum show ?thesis
    by (auto simp: kind_of_char_def is_num_char_def is_dec_digit_def code_in_def)
qed (simp_all add: json_string_def kind_of_char_def)

lemma same_kind:
  "json_ok u \<Longrightarrow> json_ok v \<Longrightarrow> json_text u @ x = json_text v @ y \<Longrightarrow> json_kind v = json_kind u"
  by (metis kind_of_text)

lemma json_text_prefix:
  "json_ok u \<Longrightarrow> json_ok v \<Longrightarrow> ends_value x \<Longrightarrow> ends_value y \<Longrightarrow>
   json_text u @ x = json_text v @ y \<Longrightarrow> u = v \<and> x = y"
proof (induction u arbitrary: v x y)
  case JNull
  from same_kind [OF this(1, 2, 5)] JNull show ?case by (cases v) (simp_all split: if_splits)
next
  case (JBool b)
  from same_kind [OF this(1, 2, 5)] JBool show ?case by (cases v) (simp_all split: if_splits)
next
  case (JNum t)
  have "json_kind v = 3" using same_kind [OF JNum.prems(1, 2, 5)] by simp
  with JNum.prems num_prefix [of t _ x y] show ?case by (cases v) (auto split: if_splits)
next
  case (JStr s)
  have "json_kind v = 4" using same_kind [OF JStr.prems(1, 2, 5)] by simp
  with JStr.prems json_string_prefix [of s x _ y] show ?case by (cases v) (auto split: if_splits)
next
  case (JList xs)
  have "json_kind v = 5" using same_kind [OF JList.prems(1, 2, 5)] by simp
  then obtain ys where v: "v = JList ys" by (cases v) (auto split: if_splits)
  have "list_all2 (=) xs ys \<and> x = y"
  proof (rule join_prefix [where c = "CHR '']''"])
    show "\<forall>a \<in> set xs. \<forall>b \<in> set ys. \<forall>r s. ends_value r \<longrightarrow> ends_value s \<longrightarrow>
        json_text a @ r = json_text b @ s \<longrightarrow> a = b \<and> r = s"
      using JList v by (auto simp: list_all_iff)
  qed (use JList.prems v json_start in \<open>auto simp: list_all_iff\<close>)
  with v show ?case by (simp add: list.rel_eq)
next
  case (JDict d)
  have "json_kind v = 6" using same_kind [OF JDict.prems(1, 2, 5)] by simp
  then obtain e where v: "v = JDict e" by (cases v) (auto split: if_splits)
  let ?item = "\<lambda>(k, v). json_string k @ '': '' @ json_text v"
  have "list_all2 (=) d e \<and> x = y"
  proof (rule join_prefix [where c = "CHR 0x7D" and p = ?item and q = ?item])
    have "kv = lw \<and> r = s"
      if "kv \<in> set d" "lw \<in> set e" "ends_value r" "ends_value s" "?item kv @ r = ?item lw @ s" for kv lw r s
    proof -
      obtain k v' l w where kv: "kv = (k, v')" and lw: "lw = (l, w)" by (cases kv; cases lw)
      from that(5) have "json_string k @ '': '' @ json_text v' @ r = json_string l @ '': '' @ json_text w @ s"
        by (simp add: kv lw)
      then have "k = l" and "json_text v' @ r = json_text w @ s" using json_string_prefix by blast+
      moreover have "json_ok v'" "json_ok w"
        using that(1, 2) JDict.prems(1, 2) by (auto simp: kv lw v list_all_iff)
      ultimately show ?thesis using JDict.IH [of kv v' w r s] that by (simp add: kv lw)
    qed
    then show "\<forall>kv \<in> set d. \<forall>lw \<in> set e. \<forall>r s. ends_value r \<longrightarrow> ends_value s \<longrightarrow>
        ?item kv @ r = ?item lw @ s \<longrightarrow> kv = lw \<and> r = s" by blast
  qed (use JDict.prems v in \<open>auto simp: json_string_def\<close>)
  with v show ?case by (simp add: list.rel_eq)
qed

lemma stable_json_eq_iff: "stable_json u = stable_json v \<longleftrightarrow> canon u = canon v"
  using json_text_prefix [of "canon u" "canon v" "[]" "[]"]
  by (auto simp: stable_json_def canon_ok ends_value_def)

end
