(* ===== verification/DagRuntime.thy ===== *)
theory DagRuntime
  imports DagCorrect DataPath JsonDump
begin

text \<open>
  \<open>TaskDAGRuntime.py\<close>: how a validated graph runs.  Placeholders in task inputs, the retry
  loop around a handler, the body of a task runner, and the run as a step relation: tasks
  are started by signals, a task with several dependencies through an and-gate
  (\<open>BaseProcess.when\<close>), and every completion records its result and emits signals.
\<close>

section \<open>Placeholders\<close>

text \<open>\<open>json.dumps(v, ensure_ascii=False)\<close>; \<open>None\<close> is its \<open>TypeError\<close>.\<close>

fun json_dumps :: "pyval \<Rightarrow> string option" where
  "json_dumps PNone = Some ''null''"
| "json_dumps (PBool b) = Some (if b then ''true'' else ''false'')"
| "json_dumps (PInt i) = Some (int_text i)"
| "json_dumps (PFloat q) = Some (float_text q)"
| "json_dumps (PStr s) = Some (json_string s)"
| "json_dumps (PList xs) =
     map_option (\<lambda>ts. ''['' @ join '', '' ts @ '']'') (those (map json_dumps xs))"
| "json_dumps (PTuple xs) =
     map_option (\<lambda>ts. ''['' @ join '', '' ts @ '']'') (those (map json_dumps xs))"
| "json_dumps (PDict d) =
     map_option (\<lambda>ts. CHR 0x7B # join '', '' ts @ [CHR 0x7D])
       (those (map (\<lambda>(k, v). map_option (\<lambda>t. json_string k @ '': '' @ t) (json_dumps v)) d))"
| "json_dumps (PSet xs) = None"
| "json_dumps (PObj i t) = None"

datatype run_error =
    MissingResult string
  | BadPlaceholder string
  | MissingPath string
  | NotSerializable

definition stringify_placeholder :: "pyval \<Rightarrow> run_error + string" where
  "stringify_placeholder v =
     (if is_mapping v \<or> seq_items v \<noteq> None
      then (case json_dumps v of None \<Rightarrow> Inl NotSerializable | Some t \<Rightarrow> Inr t)
      else Inr (py_str v))"

text \<open>What the placeholders of a task can refer to.\<close>

record placeholder_env =
  pe_trigger :: pyval
  pe_input :: pyval
  pe_state :: pyval
  pe_deps :: pydict

definition placeholder_root :: "placeholder_env \<Rightarrow> string \<Rightarrow> pyval option" where
  "placeholder_root e name =
     (if name = ''INIT'' then Some (pe_input e)
      else if name = ''STATE'' then Some (pe_state e)
      else if name = ''DEPS'' then Some (PDict (pe_deps e))
      else if name = ''TRIGGER'' then Some (pe_trigger e)
      else None)"

text \<open>\<open>missing = object()\<close> is the object numbered \<open>fresh\<close>.\<close>

definition resolve_placeholder :: "nat \<Rightarrow> placeholder_env \<Rightarrow> string \<Rightarrow> run_error + pyval" where
  "resolve_placeholder fresh e expression =
     (case split_once (CHR ''.'') (strip expression) of (head, tail) \<Rightarrow>
        let path = strip (case tail of None \<Rightarrow> [] | Some p \<Rightarrow> p)
        in case placeholder_root e (upper (strip head)) of
             None \<Rightarrow> Inl (BadPlaceholder expression)
           | Some base \<Rightarrow>
               if path = [] then Inr base
               else
                 let r = locate_path_in_dict base path Dot (fresh_object fresh)
                 in if is_default (fresh_object fresh) r then Inl (MissingPath expression)
                    else Inr (or_default (fresh_object fresh) r))"

text \<open>The matches of \<open>\$\{([^}]+)\}\<close>, left to right, with the text between them.\<close>

datatype piece = Lit char | Hole string

lemma split_once_shorter: "split_once c s = (p, Some r) \<Longrightarrow> length r < length s"
  by (induction s arbitrary: p) (auto split: if_splits prod.splits)

function (sequential) scan_holes :: "string \<Rightarrow> piece list" where
  "scan_holes [] = []"
| "scan_holes (c # d # rest) =
     (if c = CHR ''$'' \<and> d = CHR 0x7B then
        (case split_once (CHR 0x7D) rest of
           (e # es, Some after) \<Rightarrow> Hole (e # es) # scan_holes after
         | _ \<Rightarrow> Lit c # scan_holes (d # rest))
      else Lit c # scan_holes (d # rest))"
| "scan_holes [c] = [Lit c]"
  by pat_completeness auto
termination
  by (relation "measure length") (auto dest!: split_once_shorter [OF sym])

definition holes :: "piece list \<Rightarrow> string list" where
  "holes ps = concat (map (\<lambda>p. case p of Lit _ \<Rightarrow> [] | Hole e \<Rightarrow> [e]) ps)"

definition fill_piece :: "nat \<Rightarrow> placeholder_env \<Rightarrow> piece \<Rightarrow> run_error + string" where
  "fill_piece fresh e p =
     (case p of
        Lit c \<Rightarrow> Inr [c]
      | Hole x \<Rightarrow> bindE (resolve_placeholder fresh e x) stringify_placeholder)"

definition resolve_text :: "nat \<Rightarrow> placeholder_env \<Rightarrow> string \<Rightarrow> run_error + pyval" where
  "resolve_text fresh e s =
     (let ps = scan_holes s in
      if holes ps = [] then Inr (PStr s)
      else case ps of
        [Hole x] \<Rightarrow> resolve_placeholder fresh e x
      | _ \<Rightarrow> bindE (mapE (fill_piece fresh e) ps) (\<lambda>ts. Inr (PStr (concat ts))))"

fun resolve_inputs :: "nat \<Rightarrow> placeholder_env \<Rightarrow> pyval \<Rightarrow> run_error + pyval" where
  "resolve_inputs fresh e (PDict d) =
     bindE (mapE (\<lambda>(k, v). bindE (resolve_inputs fresh e v) (\<lambda>w. Inr (k, w))) d) (\<lambda>d. Inr (PDict d))"
| "resolve_inputs fresh e (PList xs) = bindE (mapE (resolve_inputs fresh e) xs) (\<lambda>ys. Inr (PList ys))"
| "resolve_inputs fresh e (PTuple xs) = bindE (mapE (resolve_inputs fresh e) xs) (\<lambda>ys. Inr (PTuple ys))"
| "resolve_inputs fresh e (PStr s) = resolve_text fresh e s"
| "resolve_inputs fresh e v = Inr v"

section \<open>The retry loop\<close>

text \<open>
  \<open>_execute_node_handler\<close>: \<open>run k\<close> is what the k-th call of the handler gives.  The result
  has the outcome, the number of calls and the delays slept between them.
\<close>

type_synonym py_exception = "string \<times> string"

definition retry_delay :: "retry_config \<Rightarrow> nat \<Rightarrow> rat" where
  "retry_delay c attempt = min (backoff_max c) (backoff_base c * 2 ^ (attempt - 1))"

function retry_loop ::
  "retry_config \<Rightarrow> (nat \<Rightarrow> py_exception + pyval) \<Rightarrow> nat \<Rightarrow> rat list
     \<Rightarrow> (py_exception + pyval) \<times> nat \<times> rat list" where
  "retry_loop c run attempt delays =
     (let k = attempt + 1 in
      case run k of
        Inr v \<Rightarrow> (Inr v, k, delays)
      | Inl e \<Rightarrow>
          if max_attempts c \<le> int k then (Inl e, k, delays)
          else retry_loop c run k (delays @ [retry_delay c k]))"
  by pat_completeness auto
termination
  by (relation "measure (\<lambda>(c, run, attempt, delays). nat (max_attempts c) - attempt)") auto

declare retry_loop.simps [simp del]

definition execute_node_handler ::
  "task_node \<Rightarrow> (nat \<Rightarrow> py_exception + pyval) \<Rightarrow> (py_exception + pyval) \<times> nat \<times> rat list" where
  "execute_node_handler n run =
     (case fallback_retry_config n of
        None \<Rightarrow> (run 1, 1, [])
      | Some c \<Rightarrow> retry_loop c run 0 [])"

section \<open>The body of a task runner\<close>

datatype approval_gate = GateApproved | GateDenied string | GatePaused

datatype body_result = Paused | Finished pyval | Raised py_exception

definition approved_output :: pyval where
  "approved_output = PDict
     [(''status'', PStr ''approved''), (''approved'', PBool True),
      (''reason'', PStr ''Task DAG approval passed.'')]"

definition body_output :: "task_node \<Rightarrow> pyval option \<Rightarrow> (nat \<Rightarrow> py_exception + pyval) \<Rightarrow> body_result" where
  "body_output n resume run =
     (if is_approval_task n then
        (case resume of
           None \<Rightarrow> Finished approved_output
         | Some v \<Rightarrow> Finished (if v = PNone then approved_output else v))
      else case fst (execute_node_handler n run) of Inl e \<Rightarrow> Raised e | Inr v \<Rightarrow> Finished v)"

definition task_body ::
  "task_node \<Rightarrow> pyval option \<Rightarrow> approval_gate \<Rightarrow> (nat \<Rightarrow> py_exception + pyval) \<Rightarrow> body_result" where
  "task_body n resume gate run =
     (case approval_required n of
        Inl _ \<Rightarrow> Raised (''TypeError'', ''unhashable type'')
      | Inr required \<Rightarrow>
          if required \<and> resume = None then
            (case gate of
               GatePaused \<Rightarrow> Paused
             | GateDenied reason \<Rightarrow> Raised (''RuntimeError'', reason)
             | GateApproved \<Rightarrow> body_output n resume run)
          else body_output n resume run)"

section \<open>Compiling a graph onto a flow\<close>

text \<open>
  The compile cache a flow carries: the signature of every graph compiled on it, and which
  handlers exist.
\<close>

record compile_cache =
  cc_signatures :: "(string, pyval) dict"
  cc_handlers :: "(string \<times> string \<times> string) list"
  cc_locks :: "string list"

definition empty_cache :: compile_cache where
  "empty_cache = \<lparr>cc_signatures = [], cc_handlers = [], cc_locks = []\<rparr>"

definition assert_signature :: "task_dag \<Rightarrow> compile_cache \<Rightarrow> dag_error + compile_cache" where
  "assert_signature g cache =
     (let signature = graph_signature g;
          keep = Inr (cache\<lparr>cc_signatures := dict_set (g_id g) signature (cc_signatures cache)\<rparr>)
      in case dict_get (cc_signatures cache) (g_id g) of
           None \<Rightarrow> keep
         | Some existing \<Rightarrow> if py_eq existing signature then keep else Inl (RedefinedGraph (g_id g)))"

definition cached_handler :: "string \<times> string \<times> string \<Rightarrow> compile_cache \<Rightarrow> compile_cache" where
  "cached_handler key cache =
     (if key \<in> set (cc_handlers cache) then cache
      else cache\<lparr>cc_handlers := cc_handlers cache @ [key]\<rparr>)"

datatype signal =
    SigStart string
  | SigDone string
  | SigFailed string
  | SigWhen "string list"
  | SigGraph

fun signal_event :: "string \<Rightarrow> (string list \<Rightarrow> string) \<Rightarrow> signal \<Rightarrow> string" where
  "signal_event gid digest (SigStart t) = start_task_event t"
| "signal_event gid digest (SigDone t) = done_task_event t"
| "signal_event gid digest (SigFailed t) = failed_task_event t"
| "signal_event gid digest (SigWhen ds) = ''When-'' @ digest ds"
| "signal_event gid digest SigGraph = done_graph_event gid"

text \<open>
  A gate is identified by its sorted signals; \<open>task_trigger\<close> is what starts a task.
  \<open>compile_task_dag\<close> returns the validation, the wiring of the flow (\<open>None\<close> is its start)
  and the cache.
\<close>

definition task_trigger :: "task_node \<Rightarrow> signal" where
  "task_trigger n =
     (case n_depends_on n of
        [] \<Rightarrow> SigStart (n_id n)
      | [d] \<Rightarrow> SigDone d
      | ds \<Rightarrow> SigWhen (sort ds))"

definition compile_task_dag ::
  "py_env \<Rightarrow> string \<Rightarrow> dag_input \<Rightarrow> resolver_input \<Rightarrow> compile_cache
     \<Rightarrow> dag_error + dag_validation \<times> (signal option \<times> string) list \<times> compile_cache" where
  "compile_task_dag env fresh graph ri cache =
     bindE (coerce_resolver ri) (\<lambda>r.
     bindE (validate_task_dag env fresh graph (ResolverObject r)) (\<lambda>v.
       let g = v_graph v; gid = g_id g in
       bindE (assert_signature g cache) (\<lambda>cache.
         let cache = cache\<lparr>cc_locks := (if gid \<in> set (cc_locks cache) then cc_locks cache else cc_locks cache @ [gid])\<rparr>;
             cache = cached_handler (gid, ''kickoff'', ''*'') cache;
             cache = fold (\<lambda>n. cached_handler (gid, ''run'', n_id n)) (g_tasks g) cache;
             cache = cached_handler (gid, ''finalize'', ''*'') cache
         in Inr (v,
              [(None, chunk_name gid ''kickoff'' ''*'')]
                @ map (\<lambda>n. (Some (task_trigger n), chunk_name gid ''run'' (n_id n))) (g_tasks g)
                @ [(Some SigGraph, chunk_name gid ''finalize'' ''*'')], cache))))"

end
