(* ===== verification/DagRun.thy ===== *)
theory DagRun
  imports DagRuntime
begin

text \<open>
  The run of a compiled task graph as a step relation.  A state holds the flow state the
  handlers share, the signals emitted and not yet handled, the and-gates, and the task
  activations; \<open>r_delivered\<close>, \<open>r_started\<close>, \<open>r_failed\<close> and \<open>r_crashed\<close> record the trace.
\<close>

section \<open>States\<close>

record activation =
  a_task :: task_node
  a_deps :: pydict
  a_resume :: "pyval option"
  a_error :: "py_exception option"

record dag_run =
  r_state :: pydict
  r_pending :: "(signal \<times> pyval) list"
  r_gates :: "(string list, pydict) dict"
  r_active :: "activation list"
  r_paused :: "activation list"
  r_delivered :: "signal list"
  r_started :: "string list"
  r_failed :: "string list"
  r_crashed :: "string list"

text \<open>\<open>dict(data.get_state(k, {}) or {})\<close>.\<close>

definition state_map :: "dag_run \<Rightarrow> string \<Rightarrow> pydict" where
  "state_map s k = mapping_or_empty (dict_get_or (r_state s) k (PDict []))"

definition set_state :: "string \<Rightarrow> pyval \<Rightarrow> dag_run \<Rightarrow> dag_run" where
  "set_state k v s = s\<lparr>r_state := dict_set k v (r_state s)\<rparr>"

definition emit :: "signal \<Rightarrow> pyval \<Rightarrow> dag_run \<Rightarrow> dag_run" where
  "emit sig v s = s\<lparr>r_pending := r_pending s @ [(sig, v)]\<rparr>"

abbreviation results :: "dag_run \<Rightarrow> pydict" where
  "results s \<equiv> state_map s ''task_results''"

section \<open>Kickoff\<close>

definition kickoff :: "task_dag \<Rightarrow> string \<Rightarrow> string list \<Rightarrow> pyval \<Rightarrow> dag_run" where
  "kickoff g fingerprint roots input =
     \<lparr>r_state =
        [(''graph_id'', PStr (g_id g)), (''graph_input'', input), (''task_results'', PDict []),
         (''task_statuses'', PDict []), (''task_failures'', PDict []), (''artifact_refs'', PDict []),
         (''semantic_outputs'', PDict []), (''task_dag'', PDict (dag_to_dict g)),
         (''task_dag_graph_fingerprint'', PStr fingerprint)],
      r_pending = map (\<lambda>t. (SigStart t,
         PDict [(''task_id'', PStr t), (''graph_id'', PStr (g_id g))])) roots,
      r_gates = [], r_active = [], r_paused = [], r_delivered = [], r_started = [], r_failed = [],
      r_crashed = []\<rparr>"

section \<open>Starting a task\<close>

definition dependency_results :: "task_node \<Rightarrow> dag_run \<Rightarrow> run_error + pydict" where
  "dependency_results n s =
     foldE (\<lambda>d acc. case dict_get (results s) d of
         None \<Rightarrow> Inl (MissingResult d)
       | Some v \<Rightarrow> Inr (dict_set d v acc)) (n_depends_on n) []"

definition prepare_task ::
  "nat \<Rightarrow> task_node \<Rightarrow> pyval \<Rightarrow> pyval option \<Rightarrow> dag_run \<Rightarrow> run_error + activation" where
  "prepare_task fresh n payload resume s =
     bindE (dependency_results n s) (\<lambda>deps.
     bindE (resolve_inputs fresh
         \<lparr>pe_trigger = payload, pe_input = pget (r_state s) ''graph_input'',
          pe_state = PDict (r_state s), pe_deps = deps\<rparr> (n_inputs n)) (\<lambda>inputs.
       Inr \<lparr>a_task = n\<lparr>n_inputs := inputs\<rparr>, a_deps = deps, a_resume = resume, a_error = None\<rparr>))"

text \<open>An exception here is outside the \<open>try\<close> of the runner: the task crashes, unrecorded.\<close>

definition start_task :: "nat \<Rightarrow> pyval \<Rightarrow> task_node \<Rightarrow> dag_run \<Rightarrow> dag_run" where
  "start_task fresh payload n s =
     (let s1 = s\<lparr>r_started := r_started s @ [n_id n]\<rparr>
      in case prepare_task fresh n payload None s of
           Inl e \<Rightarrow> s1\<lparr>r_crashed := r_crashed s @ [n_id n]\<rparr>
         | Inr a \<Rightarrow> s1\<lparr>r_active := r_active s @ [a]\<rparr>)"

section \<open>Signals\<close>

definition listeners :: "task_dag \<Rightarrow> signal \<Rightarrow> task_node list" where
  "listeners g sig = filter (\<lambda>n. task_trigger n = sig) (g_tasks g)"

definition gate_tasks :: "task_dag \<Rightarrow> task_node list" where
  "gate_tasks g = filter (\<lambda>n. 2 \<le> length (n_depends_on n)) (g_tasks g)"

definition gate_keys :: "task_dag \<Rightarrow> string list list" where
  "gate_keys g = remdups (map (\<lambda>n. sort (n_depends_on n)) (gate_tasks g))"

text \<open>The order of a gate's signals is that of the first task that registered it.\<close>

definition gate_order :: "task_dag \<Rightarrow> string list \<Rightarrow> string list" where
  "gate_order g key =
     (case filter (\<lambda>n. sort (n_depends_on n) = key) (gate_tasks g) of
        [] \<Rightarrow> []
      | n # ns \<Rightarrow> remdups (n_depends_on n))"

definition gate_payload :: "task_dag \<Rightarrow> string list \<Rightarrow> pydict \<Rightarrow> pyval" where
  "gate_payload g key values =
     PDict [(''event'', PDict (map (\<lambda>d. (done_task_event d, pget values d)) (gate_order g key)))]"

definition gate_receive :: "task_dag \<Rightarrow> string \<Rightarrow> pyval \<Rightarrow> string list \<Rightarrow> dag_run \<Rightarrow> dag_run" where
  "gate_receive g d v key s =
     (if d \<notin> set key then s
      else
        let values = dict_set d v (dict_get_or (r_gates s) key []);
            s1 = s\<lparr>r_gates := dict_set key values (r_gates s)\<rparr>
        in if list_all (dict_has values) key then emit (SigWhen key) (gate_payload g key values) s1
           else s1)"

definition deliver :: "task_dag \<Rightarrow> nat \<Rightarrow> signal \<Rightarrow> pyval \<Rightarrow> dag_run \<Rightarrow> dag_run" where
  "deliver g fresh sig v s =
     (let s1 = (case sig of SigDone d \<Rightarrow> fold (gate_receive g d v) (gate_keys g) s | _ \<Rightarrow> s)
      in fold (start_task fresh v) (listeners g sig) s1)"

section \<open>Finishing a task\<close>

definition record_success :: "task_dag \<Rightarrow> task_node \<Rightarrow> pyval \<Rightarrow> dag_run \<Rightarrow> dag_run" where
  "record_success g n output s =
     (let t = n_id n;
          res = dict_set t output (results s);
          statuses = dict_set t (PStr ''completed'') (state_map s ''task_statuses'');
          refs = extract_artifact_refs output;
          s1 = set_state ''task_statuses'' (PDict statuses) (set_state ''task_results'' (PDict res) s);
          s2 = (if truthy refs
                then set_state ''artifact_refs'' (PDict (dict_set t refs (state_map s ''artifact_refs''))) s1
                else s1);
          s3 = emit (SigDone t) (PDict [(''task_id'', PStr t), (''result'', output)]) s2
      in if length res = length (g_tasks g) then emit SigGraph (PDict res) s3 else s3)"

definition record_failure :: "task_node \<Rightarrow> py_exception \<Rightarrow> dag_run \<Rightarrow> dag_run" where
  "record_failure n err s =
     (let t = n_id n;
          info = PDict [(''type'', PStr (fst err)), (''message'', PStr (snd err))]
      in emit (SigFailed t) info
           (set_state ''task_statuses'' (PDict (dict_set t (PStr ''failed'') (state_map s ''task_statuses'')))
             (set_state ''task_failures'' (PDict (dict_set t info (state_map s ''task_failures''))) s)))"

definition skipped_output :: "py_exception \<Rightarrow> pyval" where
  "skipped_output err = PDict [(''status'', PStr ''skipped''), (''reason'', PStr (snd err))]"

definition finalize :: "task_dag \<Rightarrow> dag_run \<Rightarrow> dag_run" where
  "finalize g s =
     (let res = results s; refs = state_map s ''artifact_refs'';
          outputs = collect_semantic_outputs g res refs
      in set_state ''task_dag_execution''
           (PDict [(''graph_id'', PStr (g_id g)), (''task_results'', PDict res), (''artifact_refs'', PDict refs),
              (''semantic_outputs'', PDict outputs), (''diagnostics'', PList (map PDict (g_diagnostics g)))])
           (set_state ''semantic_outputs'' (PDict outputs) s))"

text \<open>
  The steps.  Handlers run concurrently, so any pending signal may be handled and any
  activation may go on next.  A gate is cleared some time after it fired.
\<close>

definition take_signal :: "signal \<times> pyval \<Rightarrow> dag_run \<Rightarrow> dag_run" where
  "take_signal e s = s\<lparr>r_pending := remove1 e (r_pending s), r_delivered := r_delivered s @ [fst e]\<rparr>"

definition drop_active :: "activation \<Rightarrow> dag_run \<Rightarrow> dag_run" where
  "drop_active a s = s\<lparr>r_active := remove1 a (r_active s)\<rparr>"

inductive run_step :: "task_dag \<Rightarrow> nat \<Rightarrow> dag_run \<Rightarrow> dag_run \<Rightarrow> bool" for g fresh where
  signal: "(sig, v) \<in> set (r_pending s) \<Longrightarrow> sig \<noteq> SigGraph \<Longrightarrow>
     run_step g fresh s (deliver g fresh sig v (take_signal (sig, v) s))"
| graph_done: "(SigGraph, v) \<in> set (r_pending s) \<Longrightarrow>
     run_step g fresh s (finalize g (take_signal (SigGraph, v) s))"
| finish: "a \<in> set (r_active s) \<Longrightarrow> a_error a = None \<Longrightarrow>
     task_body (a_task a) (a_resume a) gate run = Finished out \<Longrightarrow>
     run_step g fresh s (record_success g (a_task a) out (drop_active a s))"
| pause: "a \<in> set (r_active s) \<Longrightarrow> a_error a = None \<Longrightarrow>
     task_body (a_task a) (a_resume a) gate run = Paused \<Longrightarrow>
     run_step g fresh s ((drop_active a s)\<lparr>r_paused := r_paused s @ [a]\<rparr>)"
| resume: "a \<in> set (r_paused s) \<Longrightarrow> n \<in> set (g_tasks g) \<Longrightarrow> n_id n = n_id (a_task a) \<Longrightarrow>
     prepare_task fresh n payload (Some v) s = Inr b \<Longrightarrow>
     run_step g fresh s (s\<lparr>r_paused := remove1 a (r_paused s), r_active := r_active s @ [b]\<rparr>)"
| resume_crash: "a \<in> set (r_paused s) \<Longrightarrow> n \<in> set (g_tasks g) \<Longrightarrow> n_id n = n_id (a_task a) \<Longrightarrow>
     prepare_task fresh n payload (Some v) s = Inl e \<Longrightarrow>
     run_step g fresh s (s\<lparr>r_paused := remove1 a (r_paused s), r_crashed := r_crashed s @ [n_id n]\<rparr>)"
| fail: "a \<in> set (r_active s) \<Longrightarrow> a_error a = None \<Longrightarrow>
     task_body (a_task a) (a_resume a) gate run = Raised err \<Longrightarrow>
     s1 = drop_active a s \<Longrightarrow>
     run_step g fresh s (record_failure (a_task a) err
       (s1\<lparr>r_active := r_active s1 @ [a\<lparr>a_error := Some err\<rparr>]\<rparr>))"
| skip: "a \<in> set (r_active s) \<Longrightarrow> a_error a = Some err \<Longrightarrow>
     fallback_terminal_action (a_task a) = Some ''skip'' \<Longrightarrow>
     run_step g fresh s (record_success g (a_task a) (skipped_output err) (drop_active a s))"
| give_up: "a \<in> set (r_active s) \<Longrightarrow> a_error a = Some err \<Longrightarrow>
     fallback_terminal_action (a_task a) \<noteq> Some ''skip'' \<Longrightarrow>
     run_step g fresh s ((drop_active a s)\<lparr>r_failed := r_failed s @ [n_id (a_task a)]\<rparr>)"
| clear_gate: "dict_get (r_gates s) key = Some values \<Longrightarrow> list_all (dict_has values) key \<Longrightarrow>
     run_step g fresh s (s\<lparr>r_gates := dict_del key (r_gates s)\<rparr>)"

inductive reachable :: "task_dag \<Rightarrow> nat \<Rightarrow> dag_run \<Rightarrow> dag_run \<Rightarrow> bool" for g fresh s0 where
  init: "reachable g fresh s0 s0"
| step: "reachable g fresh s0 s \<Longrightarrow> run_step g fresh s s' \<Longrightarrow> reachable g fresh s0 s'"

end
