(* ===== verification/DagTheorems.thy ===== *)
theory DagTheorems
  imports DagCorrect
begin

text \<open>
  What \<open>validate_dag\<close> accepts, exactly, and what it returns: the completeness half of the
  pruning step, and the properties of the validator.
\<close>

section \<open>Pruning succeeds when nothing it must drop is needed\<close>

lemma prune_unresolved_total:
  "(\<And>n. n \<in> set ns \<Longrightarrow> lacks_executor env r n \<Longrightarrow> droppable req n) \<Longrightarrow>
     \<exists>s'. foldE (prune_unresolved env r req) ns s = Inr s'"
proof (induction ns arbitrary: s)
  case (Cons n ns)
  have "\<exists>s1. prune_unresolved env r req n s = Inr s1"
    using Cons.prems [of n] by (cases "lacks_executor env r n") (auto simp: prune_unresolved_Inr)
  then obtain s1 where "prune_unresolved env r req n s = Inr s1" ..
  with Cons.IH [of s1] Cons.prems show ?case by simp
qed simp

lemma prune_dependent_total:
  assumes "n \<in> set tasks" and "\<forall>t. skipped env r tasks t \<longrightarrow> t \<notin> set req"
    and "\<forall>t \<in> set (ps_pruned s). skipped env r tasks t"
  shows "\<exists>s' c'. prune_dependent req n (s, c) = Inr (s', c') \<and>
    (\<forall>t \<in> set (ps_pruned s'). skipped env r tasks t)"
proof (cases "n_id n \<in> set (ps_pruned s) \<or> filter (\<lambda>d. d \<in> set (ps_pruned s)) (n_depends_on n) = []")
  case True
  then show ?thesis using assms(3) by (auto simp: prune_dependent_def Let_def simp del: filter_empty_conv)
next
  case False
  let ?missing = "filter (\<lambda>d. d \<in> set (ps_pruned s)) (n_depends_on n)"
  from False have "hd ?missing \<in> set ?missing" by (intro hd_in_set) simp
  then have "hd ?missing \<in> set (n_depends_on n)" "hd ?missing \<in> set (ps_pruned s)" by auto
  with assms(1,3) have sk: "skipped env r tasks (n_id n)" by (auto intro: skipped.dependent)
  with False assms(2) have "prune_dependent req n (s, c) =
      Inr (s\<lparr>ps_pruned := ps_pruned s @ [n_id n],
              ps_diagnostics := ps_diagnostics s @ [dependent_diagnostic n ?missing]\<rparr>, True)"
    by (simp add: prune_dependent_def Let_def del: filter_empty_conv)
  with sk assms(3) show ?thesis by auto
qed

lemma foldE_prune_total:
  assumes "set ns \<subseteq> set tasks" and "\<forall>t. skipped env r tasks t \<longrightarrow> t \<notin> set req"
    and "\<forall>t \<in> set (ps_pruned s). skipped env r tasks t"
  shows "\<exists>s' c'. foldE (prune_dependent req) ns (s, c) = Inr (s', c') \<and>
    (\<forall>t \<in> set (ps_pruned s'). skipped env r tasks t)"
  using assms
proof (induction ns arbitrary: s c)
  case (Cons n ns)
  from Cons.prems(1) have n: "n \<in> set tasks" and ns: "set ns \<subseteq> set tasks" by auto
  from prune_dependent_total [OF n Cons.prems(2,3), of c] obtain s1 c1 where
    "prune_dependent req n (s, c) = Inr (s1, c1)" "\<forall>t \<in> set (ps_pruned s1). skipped env r tasks t"
    by blast
  with Cons.IH [OF ns Cons.prems(2), of s1 c1] show ?case by auto
qed auto

lemma prune_loop_total:
  assumes "\<forall>t. skipped env r tasks t \<longrightarrow> t \<notin> set req"
    and "\<forall>t \<in> set (ps_pruned s). skipped env r tasks t"
  shows "\<exists>s'. prune_loop req tasks s = Inr s'"
  using assms
proof (induction req tasks s rule: prune_loop.induct)
  case (1 req tasks s)
  from foldE_prune_total [OF subset_refl "1.prems", of False] obtain s1 c1 where
    s1: "sweep req tasks s = Inr (s1, c1)" "\<forall>t \<in> set (ps_pruned s1). skipped env r tasks t"
    unfolding sweep_def by blast
  then show ?case
  proof (cases c1)
    case True
    from "1.IH" [OF s1(1) refl True "1.prems"(1)] s1 True show ?thesis
      by (subst prune_loop.simps) simp
  next
    case False
    with s1 show ?thesis by (subst prune_loop.simps) simp
  qed
qed

definition kept_tasks :: "py_env \<Rightarrow> resolver \<Rightarrow> task_dag \<Rightarrow> task_node list" where
  "kept_tasks env r g = filter (\<lambda>n. \<not> skipped env r (g_tasks g) (n_id n)) (g_tasks g)"

text \<open>A task without executor may be skipped only if all of this holds of the graph.\<close>

definition prunable :: "py_env \<Rightarrow> resolver \<Rightarrow> task_dag \<Rightarrow> bool" where
  "prunable env r g \<longleftrightarrow>
     (let req = semantic_required_ids g (node_map_of (g_tasks g))
      in (\<forall>n \<in> set (g_tasks g). lacks_executor env r n \<longrightarrow> droppable req n) \<and>
         (\<forall>t \<in> set req. \<not> skipped env r (g_tasks g) t) \<and> kept_tasks env r g \<noteq> [])"

lemma kept_root:
  assumes c: "tasks_closed (g_tasks g)" and o: "dag_order (g_tasks g) = Inr (roots, ordered)"
    and ne: "kept_tasks env r g \<noteq> []"
  shows "filter (\<lambda>n. n_depends_on n = []) (kept_tasks env r g) \<noteq> []"
proof -
  let ?h = "dep_graph (kept_tasks env r g)"
  have h: "?h = filter (\<lambda>(t, ds). \<not> skipped env r (g_tasks g) t) (dep_graph (g_tasks g))"
    unfolding kept_tasks_def by (rule dep_graph_filter)
  have "is_topo ?h (filter (\<lambda>t. \<not> skipped env r (g_tasks g) t) ordered)"
    unfolding h by (rule dag.restrict_topo [OF c o]) (rule kept_closed [OF c])
  moreover have "?h \<noteq> []" using ne by (simp add: dep_graph_def)
  moreover have "graph_wf ?h"
    unfolding kept_tasks_def by (rule dep_graph_wf, rule kept_tasks_closed, rule c)
  ultimately have "roots_of ?h \<noteq> []" using is_topo_root by fastforce
  then show ?thesis by (simp add: roots_of_dep_graph del: filter_empty_conv)
qed

lemma prune_tasks_total:
  assumes c: "tasks_closed (g_tasks g)" and o: "dag_order (g_tasks g) = Inr (roots, ordered)"
    and pr: "prunable env r g"
  shows "\<exists>p. prune_tasks env r g (node_map_of (g_tasks g)) roots ordered = Inr p"
proof -
  let ?req = "semantic_required_ids g (node_map_of (g_tasks g))"
  from pr have drop: "\<And>n. n \<in> set (g_tasks g) \<Longrightarrow> lacks_executor env r n \<Longrightarrow> droppable ?req n"
    and req: "\<forall>t. skipped env r (g_tasks g) t \<longrightarrow> t \<notin> set ?req" and ne: "kept_tasks env r g \<noteq> []"
    unfolding prunable_def Let_def by blast+
  from prune_unresolved_total [OF drop] obtain s0 where
    s0: "foldE (prune_unresolved env r ?req) (g_tasks g)
           \<lparr>ps_pruned = [], ps_diagnostics = g_diagnostics g\<rparr> = Inr s0" by blast
  have "\<forall>t \<in> set (ps_pruned s0). skipped env r (g_tasks g) t"
    using prune_unresolved_fold [OF s0] by (auto intro: skipped.unresolved)
  from prune_loop_total [OF req this] obtain s where s: "prune_loop ?req (g_tasks g) s0 = Inr s"
    by blast
  have kept: "filter (\<lambda>n. n_id n \<notin> set (ps_pruned s)) (g_tasks g) = kept_tasks env r g"
    unfolding kept_tasks_def prune_pruned(1) [OF s0 s] by simp
  from kept_root [OF c o ne] ne show ?thesis
    unfolding prune_tasks_def Let_def s0 bindE_Inr s kept by (simp del: filter_empty_conv)
qed

lemma prune_tasks_prunable:
  assumes c: "tasks_closed (g_tasks g)" and ne: "g_tasks g \<noteq> []"
    and o: "dag_order (g_tasks g) = Inr (roots, ordered)"
    and p: "prune_tasks env r g (node_map_of (g_tasks g)) roots ordered = Inr p"
  shows "prunable env r g"
proof -
  let ?req = "semantic_required_ids g (node_map_of (g_tasks g))"
  note spec = prune_tasks_spec [OF c ne o p]
  from p obtain s0 where
    "foldE (prune_unresolved env r ?req) (g_tasks g)
       \<lparr>ps_pruned = [], ps_diagnostics = g_diagnostics g\<rparr> = Inr s0"
    by (auto simp: prune_tasks_def Let_def bindE_eq_Inr)
  from prune_unresolved_fold [OF this] spec(1,4,9) show ?thesis
    unfolding prunable_def Let_def kept_tasks_def by metis
qed

lemma kept_no_executor: "n \<in> set (kept_tasks env r g) \<Longrightarrow> \<not> lacks_executor env r n"
  by (auto simp: kept_tasks_def intro: skipped.unresolved)

lemma semantic_refs_required:
  "(role, t) \<in> set (semantic_output_task_refs (g_semantic g)) \<Longrightarrow>
     t \<in> set (semantic_required_ids g m)"
  unfolding semantic_required_closure by (force intro: needed.start)

section \<open>What each refusal means\<close>

text \<open>The exceptions the pruning step can raise, each with what is then true of the graph.\<close>

fun justified :: "py_env \<Rightarrow> resolver \<Rightarrow> task_dag \<Rightarrow> dag_error \<Rightarrow> bool" where
  "justified env r g (NoResolverEntry t k) =
     (\<exists>n \<in> set (g_tasks g). n_id n = t \<and> n_kind n = k \<and> lacks_executor env r n \<and>
        \<not> droppable (semantic_required_ids g (node_map_of (g_tasks g))) n)"
| "justified env r g Unhashable =
     (\<exists>n \<in> set (g_tasks g). approval_required n = Inl Unhashable)"
| "justified env r g (DependsOnSkipped t ds) =
     (t \<in> set (semantic_required_ids g (node_map_of (g_tasks g))) \<and>
      (\<exists>n \<in> set (g_tasks g). n_id n = t \<and> ds \<noteq> [] \<and>
         (\<forall>d \<in> set ds. d \<in> set (n_depends_on n) \<and> skipped env r (g_tasks g) d)))"
| "justified env r g NothingAfterPruning = (kept_tasks env r g = [])"
| "justified env r g e = False"

lemma approval_required_Inl: "approval_required n = Inl e \<Longrightarrow> e = Unhashable"
  by (auto simp: approval_required_def split: if_splits pyval.splits)

lemma prune_unresolved_error:
  assumes "foldE (prune_unresolved env r (semantic_required_ids g (node_map_of (g_tasks g)))) ns s = Inl e"
    and "set ns \<subseteq> set (g_tasks g)"
  shows "justified env r g e"
  using assms
proof (induction ns arbitrary: s)
  case (Cons n ns)
  let ?req = "semantic_required_ids g (node_map_of (g_tasks g))"
  show ?case
  proof (cases "prune_unresolved env r ?req n s")
    case (Inl e')
    with Cons.prems(1) have e: "prune_unresolved env r ?req n s = Inl e" by simp
    then have l: "lacks_executor env r n" "fail_or_prune ?req n s = Inl e"
      by (auto simp: prune_unresolved_def lacks_executor_def split: if_splits)
    show ?thesis
    proof (cases "approval_required n")
      case (Inl e'')
      with approval_required_Inl have "approval_required n = Inl Unhashable" by blast
      with l Cons.prems(2) show ?thesis
        by (auto simp: fail_or_prune_def droppable_def split: if_splits)
    next
      case (Inr b)
      with l Cons.prems(2) show ?thesis
        by (auto simp: fail_or_prune_def droppable_def intro!: bexI [of _ n] split: if_splits)
    qed
  next
    case (Inr s1)
    with Cons show ?thesis by simp
  qed
qed simp

lemma prune_dependent_error:
  assumes "foldE (prune_dependent (semantic_required_ids g (node_map_of (g_tasks g)))) ns (s, c) = Inl e"
    and "set ns \<subseteq> set (g_tasks g)" and "\<forall>t \<in> set (ps_pruned s). skipped env r (g_tasks g) t"
  shows "justified env r g e"
  using assms
proof (induction ns arbitrary: s c)
  case (Cons n ns)
  let ?req = "semantic_required_ids g (node_map_of (g_tasks g))"
  show ?case
  proof (cases "prune_dependent ?req n (s, c)")
    case (Inl e')
    with Cons.prems(1) have "prune_dependent ?req n (s, c) = Inl e" by simp
    then have "n_id n \<in> set ?req" "filter (\<lambda>d. d \<in> set (ps_pruned s)) (n_depends_on n) \<noteq> []"
      "e = DependsOnSkipped (n_id n) (filter (\<lambda>d. d \<in> set (ps_pruned s)) (n_depends_on n))"
      by (auto simp: prune_dependent_def Let_def simp del: filter_empty_conv split: if_splits)
    with Cons.prems(2,3) show ?thesis by auto
  next
    case (Inr sc)
    then obtain s1 c1 where sc: "prune_dependent ?req n (s, c) = Inr (s1, c1)" by (cases sc) auto
    from sc have "\<forall>t \<in> set (ps_pruned s1). skipped env r (g_tasks g) t"
    proof (cases rule: prune_dependent_cases)
      case 1
      with Cons.prems(3) show ?thesis by simp
    next
      case 2
      then obtain d where "d \<in> set (n_depends_on n)" "d \<in> set (ps_pruned s)" by blast
      with Cons.prems(2,3) have "skipped env r (g_tasks g) (n_id n)" by (auto intro: skipped.dependent)
      with 2(4) Cons.prems(3) show ?thesis by auto
    qed
    with Cons.IH [of s1 c1] Cons.prems sc show ?thesis by simp
  qed
qed simp

lemma prune_loop_error:
  assumes "prune_loop req tasks s = Inl e"
    and "req = semantic_required_ids g (node_map_of (g_tasks g))" and "tasks = g_tasks g"
    and "\<forall>t \<in> set (ps_pruned s). skipped env r (g_tasks g) t"
  shows "justified env r g e"
  using assms
proof (induction req tasks s rule: prune_loop.induct)
  case (1 req tasks s)
  show ?case
  proof (cases "sweep req tasks s")
    case (Inl e')
    with "1.prems"(1) have "sweep req tasks s = Inl e" by (subst (asm) prune_loop.simps) simp
    with "1.prems" prune_dependent_error [of g "g_tasks g" s False e env r] show ?thesis
      by (simp add: sweep_def)
  next
    case (Inr sc)
    then obtain s1 c1 where sc: "sweep req tasks s = Inr (s1, c1)" by (cases sc) auto
    with "1.prems"(1) have c1: "c1" "prune_loop req tasks s1 = Inl e"
      by (subst (asm) prune_loop.simps, simp split: if_splits)+
    have "\<forall>t \<in> set (ps_pruned s1). skipped env r (g_tasks g) t"
      using foldE_prune_sound [of req tasks s False s1 c1 "g_tasks g" env r] sc "1.prems"(3,4)
      by (auto simp: sweep_def)
    from "1.IH" [OF sc refl c1(1) c1(2) "1.prems"(2,3) this] show ?thesis .
  qed
qed

lemma prune_tasks_error:
  assumes c: "tasks_closed (g_tasks g)" and o: "dag_order (g_tasks g) = Inr (roots, ordered)"
    and p: "prune_tasks env r g (node_map_of (g_tasks g)) roots ordered = Inl e"
  shows "justified env r g e"
proof -
  let ?req = "semantic_required_ids g (node_map_of (g_tasks g))"
  let ?s = "\<lparr>ps_pruned = [], ps_diagnostics = g_diagnostics g\<rparr>"
  show ?thesis
  proof (cases "foldE (prune_unresolved env r ?req) (g_tasks g) ?s")
    case (Inl e')
    with p have "foldE (prune_unresolved env r ?req) (g_tasks g) ?s = Inl e"
      by (simp add: prune_tasks_def)
    then show ?thesis by (rule prune_unresolved_error) simp
  next
    case s0: (Inr s0)
    have init: "\<forall>t \<in> set (ps_pruned s0). skipped env r (g_tasks g) t"
      using prune_unresolved_fold [OF s0] by (auto intro: skipped.unresolved)
    show ?thesis
    proof (cases "prune_loop ?req (g_tasks g) s0")
      case (Inl e')
      with p s0 have "prune_loop ?req (g_tasks g) s0 = Inl e" by (simp add: prune_tasks_def)
      from prune_loop_error [OF this refl refl init] show ?thesis .
    next
      case s: (Inr s)
      have kept: "filter (\<lambda>n. n_id n \<notin> set (ps_pruned s)) (g_tasks g) = kept_tasks env r g"
        unfolding kept_tasks_def prune_pruned(1) [OF s0 s] by simp
      show ?thesis
      proof (cases "kept_tasks env r g = []")
        case True
        with p show ?thesis unfolding prune_tasks_def Let_def s0 bindE_Inr s kept
          by (simp split: if_split_asm)
      next
        case False
        with kept_root [OF c o] p show ?thesis unfolding prune_tasks_def Let_def s0 bindE_Inr s kept
          by (simp del: filter_empty_conv split: if_split_asm)
      qed
    qed
  qed
qed

section \<open>The properties of the validator\<close>

lemma validate_dag_ok:
  assumes "tasks_ok (g_tasks g)"
  shows "validate_dag env r g =
    bindE (dag_order (g_tasks g)) (\<lambda>(roots, ordered).
      bindE (prune_tasks env r g (node_map_of (g_tasks g)) roots ordered) (\<lambda>p.
        bindE (foldE (check_resolved env r) (g_tasks (pg_graph p)) ()) (\<lambda>_.
          bindE (validate_semantic_outputs (pg_graph p) (map n_id (g_tasks (pg_graph p)))) (\<lambda>_.
            bindE (validate_side_effects (pg_graph p)) (\<lambda>_.
              Inr \<lparr>v_graph = pg_graph p, v_task_ids = map n_id (g_tasks (pg_graph p)),
                   v_roots = pg_roots p, v_order = pg_order p,
                   v_diagnostics = g_diagnostics (pg_graph p)\<rparr>)))))"
proof -
  have "check_ids (g_tasks g) [] [] = Inr []"
    using assms by (intro check_ids_ok) (auto simp: tasks_ok_def tasks_closed_def)
  moreover have "foldE (check_deps (map n_id (g_tasks g))) (g_tasks g) () = Inr ()"
    using assms by (auto simp: check_deps_iff tasks_ok_def tasks_closed_def)
  ultimately show ?thesis using assms by (simp add: validate_dag_def tasks_ok_def Let_def)
qed

lemma tasks_ok_closed [simp]: "tasks_ok ns \<Longrightarrow> tasks_closed ns"
  by (simp add: tasks_ok_def)

lemma tasks_ok_graph [simp]: "tasks_ok ns \<Longrightarrow> dep_graph ns \<noteq> []"
  by (simp add: tasks_ok_def dep_graph_def)

text \<open>The graph as \<open>validate_side_effects\<close> reads it.\<close>

lemma validate_side_effects_cong:
  "g_tasks g = g_tasks h \<Longrightarrow> g_policies g = g_policies h \<Longrightarrow>
     validate_side_effects g = validate_side_effects h"
  by (simp add: validate_side_effects_def side_effect_policy_strict_def)

definition acceptable :: "py_env \<Rightarrow> resolver \<Rightarrow> task_dag \<Rightarrow> bool" where
  "acceptable env r g \<longleftrightarrow> tasks_ok (g_tasks g) \<and> (\<exists>ys. is_topo (dep_graph (g_tasks g)) ys) \<and>
     prunable env r g \<and>
     set (map snd (semantic_output_task_refs (g_semantic g))) \<subseteq> n_id ` set (g_tasks g) \<and>
     validate_side_effects (g\<lparr>g_tasks := kept_tasks env r g\<rparr>) = Inr ()"

lemma validate_dag_acceptable:
  assumes "validate_dag env r g = Inr v"
  shows "acceptable env r g"
proof -
  from assms obtain roots ordered p where ok: "tasks_ok (g_tasks g)"
    and o: "dag_order (g_tasks g) = Inr (roots, ordered)"
    and p: "prune_tasks env r g (node_map_of (g_tasks g)) roots ordered = Inr p"
    and "\<forall>n \<in> set (g_tasks (pg_graph p)). check_resolved env r n () = Inr ()"
    and so: "validate_semantic_outputs (pg_graph p) (map n_id (g_tasks (pg_graph p))) = Inr ()"
    and se: "validate_side_effects (pg_graph p) = Inr ()"
    and v: "v = \<lparr>v_graph = pg_graph p, v_task_ids = map n_id (g_tasks (pg_graph p)),
              v_roots = pg_roots p, v_order = pg_order p, v_diagnostics = g_diagnostics (pg_graph p)\<rparr>"
    by (rule validate_dag_Inr)
  have c: "tasks_closed (g_tasks g)" and ne: "g_tasks g \<noteq> []" using ok by (auto simp: tasks_ok_def)
  note spec = prune_tasks_spec [OF c ne o p]
  have kept: "g_tasks (pg_graph p) = kept_tasks env r g" using spec(1) by (simp add: kept_tasks_def)
  have "is_topo (dep_graph (g_tasks g)) ordered" using dag.sorter_sound [OF c o] by simp
  moreover have "prunable env r g" by (rule prune_tasks_prunable [OF c ne o p])
  moreover have "set (map snd (semantic_output_task_refs (g_semantic g))) \<subseteq> n_id ` set (g_tasks g)"
    using so spec(5) kept by (fastforce simp: semantic_outputs_Inr kept_tasks_def)
  moreover have "validate_side_effects (g\<lparr>g_tasks := kept_tasks env r g\<rparr>) = Inr ()"
    using se kept spec(6) validate_side_effects_cong [of "g\<lparr>g_tasks := kept_tasks env r g\<rparr>" "pg_graph p"]
    by simp
  ultimately show ?thesis using ok unfolding acceptable_def by blast
qed

lemma acceptable_validate_dag:
  assumes "acceptable env r g"
  shows "\<exists>v. validate_dag env r g = Inr v"
proof -
  from assms obtain ys where ok: "tasks_ok (g_tasks g)" and ys: "is_topo (dep_graph (g_tasks g)) ys"
    and pr: "prunable env r g"
    and refs: "set (map snd (semantic_output_task_refs (g_semantic g))) \<subseteq> n_id ` set (g_tasks g)"
    and se: "validate_side_effects (g\<lparr>g_tasks := kept_tasks env r g\<rparr>) = Inr ()"
    unfolding acceptable_def by blast
  have c: "tasks_closed (g_tasks g)" and ne: "g_tasks g \<noteq> []" using ok by (auto simp: tasks_ok_def)
  from dag.sorter_complete [OF c tasks_ok_graph [OF ok] ys] obtain roots ordered where
    o: "dag_order (g_tasks g) = Inr (roots, ordered)" by blast
  from prune_tasks_total [OF c o pr] obtain p where
    p: "prune_tasks env r g (node_map_of (g_tasks g)) roots ordered = Inr p" by blast
  note spec = prune_tasks_spec [OF c ne o p]
  have kept: "g_tasks (pg_graph p) = kept_tasks env r g" using spec(1) by (simp add: kept_tasks_def)
  have cr: "foldE (check_resolved env r) (g_tasks (pg_graph p)) () = Inr ()"
    unfolding kept by (auto simp: foldE_unit check_resolved_Inr dest: kept_no_executor)
  have "t \<in> n_id ` set (kept_tasks env r g)"
    if t: "(role, t) \<in> set (semantic_output_task_refs (g_semantic g))" for role t
  proof -
    from t refs have "t \<in> n_id ` set (g_tasks g)" by force
    moreover have "\<not> skipped env r (g_tasks g) t" by (rule spec(9), rule semantic_refs_required, rule t)
    ultimately show ?thesis by (auto simp: kept_tasks_def)
  qed
  then have so: "validate_semantic_outputs (pg_graph p) (map n_id (g_tasks (pg_graph p))) = Inr ()"
    using spec(5) kept by (auto simp: semantic_outputs_Inr)
  have "validate_side_effects (pg_graph p) = Inr ()"
    using se kept spec(6) validate_side_effects_cong [of "g\<lparr>g_tasks := kept_tasks env r g\<rparr>" "pg_graph p"]
    by simp
  with o p cr so show ?thesis by (simp add: validate_dag_ok [OF ok])
qed

lemma validate_dag_value:
  assumes "validate_dag env r g = Inr v"
  shows "g_tasks (v_graph v) = kept_tasks env r g" and "v_task_ids v = map n_id (kept_tasks env r g)"
    and "is_topo (dep_graph (kept_tasks env r g)) (v_order v)"
    and "v_roots v = roots_of (dep_graph (kept_tasks env r g))"
    and "tasks_ok (kept_tasks env r g)"
    and "g_semantic (v_graph v) = g_semantic g" and "g_policies (v_graph v) = g_policies g"
    and "g_schema (v_graph v) = g_schema g" and "g_id (v_graph v) = g_id g"
proof -
  from assms obtain roots ordered p where ok: "tasks_ok (g_tasks g)"
    and o: "dag_order (g_tasks g) = Inr (roots, ordered)"
    and p: "prune_tasks env r g (node_map_of (g_tasks g)) roots ordered = Inr p"
    and "\<forall>n \<in> set (g_tasks (pg_graph p)). check_resolved env r n () = Inr ()"
    and so: "validate_semantic_outputs (pg_graph p) (map n_id (g_tasks (pg_graph p))) = Inr ()"
    and se: "validate_side_effects (pg_graph p) = Inr ()"
    and v: "v = \<lparr>v_graph = pg_graph p, v_task_ids = map n_id (g_tasks (pg_graph p)),
              v_roots = pg_roots p, v_order = pg_order p, v_diagnostics = g_diagnostics (pg_graph p)\<rparr>"
    by (rule validate_dag_Inr)
  have c: "tasks_closed (g_tasks g)" and ne: "g_tasks g \<noteq> []" using ok by (auto simp: tasks_ok_def)
  note spec = prune_tasks_spec [OF c ne o p]
  have kept: "g_tasks (pg_graph p) = kept_tasks env r g" using spec(1) by (simp add: kept_tasks_def)
  show "g_tasks (v_graph v) = kept_tasks env r g" "v_task_ids v = map n_id (kept_tasks env r g)"
    "v_roots v = roots_of (dep_graph (kept_tasks env r g))"
    "g_semantic (v_graph v) = g_semantic g" "g_policies (v_graph v) = g_policies g"
    "g_schema (v_graph v) = g_schema g" "g_id (v_graph v) = g_id g"
    using v kept spec(3,5-8) by simp_all
  have "is_topo (filter (\<lambda>(t, ds). \<not> skipped env r (g_tasks g) t) (dep_graph (g_tasks g)))
      (filter (\<lambda>t. \<not> skipped env r (g_tasks g) t) ordered)"
    by (rule dag.restrict_topo [OF c o]) (rule kept_closed [OF c])
  then show "is_topo (dep_graph (kept_tasks env r g)) (v_order v)"
    using v spec(2)
      dep_graph_filter [of "\<lambda>t. \<not> skipped env r (g_tasks g) t" "g_tasks g"]
    by (simp add: kept_tasks_def)
  show "tasks_ok (kept_tasks env r g)"
    using ok spec(4) kept kept_tasks_closed [OF c]
    by (auto simp: tasks_ok_def kept_tasks_def simp del: filter_empty_conv)
qed

text \<open>A graph with a required task, a task depending on it, and one nobody can execute.\<close>

definition sample_node :: "string \<Rightarrow> string \<Rightarrow> string list \<Rightarrow> task_node" where
  "sample_node t k ds =
     \<lparr>n_id = t, n_kind = k, n_title = None, n_purpose = None, n_depends_on = ds, n_inputs = PDict [],
      n_binding = PNone, n_produces = [], n_side_effect = [], n_fallback = PNone, n_approval = PNone\<rparr>"

definition sample_dag :: "task_node list \<Rightarrow> task_dag" where
  "sample_dag ns =
     \<lparr>g_id = ''g'', g_tasks = ns, g_schema = dag_schema_version,
      g_semantic = PDict [(''out'', PStr ''b'')], g_policies = [(''approval'', PStr ''require'')],
      g_diagnostics = []\<rparr>"

definition sample_nodes :: "task_node list" where
  "sample_nodes = [sample_node ''b'' ''emit'' [''a''], sample_node ''a'' ''emit'' [],
     sample_node ''c'' ''ghost'' [''a''], sample_node ''d'' ''emit'' [''c'']]"

definition sample_env :: py_env where
  "sample_env = \<lparr>env_callable = (\<lambda>i. True), env_factory = (\<lambda>i. None)\<rparr>"

definition sample_resolver :: resolver where
  "sample_resolver = [(''emit'', default_emit_handler)]"

lemma sample_valid:
  "\<exists>v. validate_dag sample_env sample_resolver (sample_dag sample_nodes) = Inr v \<and>
     v_order v = [''a'', ''b'']"
proof -
  have "(case validate_dag sample_env sample_resolver (sample_dag sample_nodes) of
      Inl e \<Rightarrow> False | Inr v \<Rightarrow> v_order v = [''a'', ''b''])" by code_simp
  then show ?thesis by (auto split: sum.splits)
qed

text \<open>
  C1: \<open>validate_task_dag\<close> accepts a graph exactly when its ids are distinct and
  well-formed, every dependency is a task, there is a topological order, every task without
  an executor is optional (not needed by a semantic output, no approval, no side effect) and
  so is all that depends on it, something is left, every semantic output names a task, and
  the side-effect policy holds of the tasks that are left.
\<close>

theorem validate_dag_accepts:
  "(\<exists>v. validate_dag env r g = Inr v) =
     (let ns = g_tasks g; req = semantic_required_ids g (node_map_of ns);
          kept = filter (\<lambda>n. \<not> skipped env r ns (n_id n)) ns
      in ns \<noteq> [] \<and> distinct (map n_id ns) \<and>
         (\<forall>n \<in> set ns. valid_task_id (n_id n) \<and> set (n_depends_on n) \<subseteq> n_id ` set ns) \<and>
         (\<exists>ys. is_topo (dep_graph ns) ys) \<and>
         (\<forall>n \<in> set ns. lacks_executor env r n \<longrightarrow> droppable req n) \<and>
         (\<forall>t \<in> set req. \<not> skipped env r ns t) \<and> kept \<noteq> [] \<and>
         set (map snd (semantic_output_task_refs (g_semantic g))) \<subseteq> n_id ` set ns \<and>
         validate_side_effects (g\<lparr>g_tasks := kept\<rparr>) = Inr ())"
proof -
  have "(\<exists>v. validate_dag env r g = Inr v) = acceptable env r g"
    using validate_dag_acceptable acceptable_validate_dag by blast
  then show ?thesis
    unfolding acceptable_def tasks_ok_def tasks_closed_def prunable_def kept_tasks_def Let_def by blast
qed

theorem validate_dag_accepts_witness:
  "\<not> skipped sample_env sample_resolver sample_nodes ''a''"
proof -
  have g: "g_tasks (sample_dag sample_nodes) = sample_nodes" by (simp add: sample_dag_def)
  have "\<exists>v. validate_dag sample_env sample_resolver (sample_dag sample_nodes) = Inr v"
    using sample_valid by blast
  then have "\<forall>t \<in> set (semantic_required_ids (sample_dag sample_nodes) (node_map_of sample_nodes)).
      \<not> skipped sample_env sample_resolver sample_nodes t"
    unfolding validate_dag_accepts Let_def g by blast
  moreover have "''a'' \<in> set (semantic_required_ids (sample_dag sample_nodes) (node_map_of sample_nodes))"
    by code_simp
  ultimately show ?thesis by blast
qed

text \<open>
  C2: what the validator returns for an accepted graph.  The graph keeps exactly the tasks
  that are not skipped, in their order; the execution order is a topological order of them;
  the roots are the tasks without dependency, and there is one; every task that is not an
  approval has an executor; the other fields are untouched.
\<close>

theorem validate_dag_result:
  assumes "validate_dag env r g = Inr v"
  shows "g_tasks (v_graph v) = filter (\<lambda>n. \<not> skipped env r (g_tasks g) (n_id n)) (g_tasks g)
    \<and> v_task_ids v = map n_id (g_tasks (v_graph v))
    \<and> is_topo (dep_graph (g_tasks (v_graph v))) (v_order v)
    \<and> v_roots v = map n_id (filter (\<lambda>n. n_depends_on n = []) (g_tasks (v_graph v)))
    \<and> v_roots v \<noteq> []
    \<and> (\<forall>n \<in> set (g_tasks (v_graph v)). is_approval_task n \<or> resolve env r n \<noteq> PNone)
    \<and> g_id (v_graph v) = g_id g \<and> g_semantic (v_graph v) = g_semantic g"
proof -
  note v = validate_dag_value [OF assms]
  have "v_roots v \<noteq> []"
    using is_topo_root [OF v(3)] v(4,5) dep_graph_wf by (fastforce simp: tasks_ok_def)
  moreover have "\<forall>n \<in> set (kept_tasks env r g). is_approval_task n \<or> resolve env r n \<noteq> PNone"
    using kept_no_executor unfolding lacks_executor_def by blast
  ultimately show ?thesis using v by (simp add: roots_of_dep_graph kept_tasks_def del: filter_empty_conv)
qed

theorem validate_dag_result_witness:
  "\<exists>v. validate_dag sample_env sample_resolver (sample_dag sample_nodes) = Inr v \<and>
     is_topo (dep_graph (g_tasks (v_graph v))) (v_order v)"
proof -
  from sample_valid obtain v where
    v: "validate_dag sample_env sample_resolver (sample_dag sample_nodes) = Inr v" by blast
  from validate_dag_result [OF this] v show ?thesis by blast
qed

text \<open>What can be refused once there is a topological order.\<close>

fun late_error :: "py_env \<Rightarrow> resolver \<Rightarrow> task_dag \<Rightarrow> dag_error \<Rightarrow> bool" where
  "late_error env r g (SemanticMissing role t) =
     ((role, t) \<in> set (semantic_output_task_refs (g_semantic g)) \<and> t \<notin> n_id ` set (g_tasks g))"
| "late_error env r g (SideEffectUnapproved t) =
     (side_effect_policy_strict g \<and>
       (\<exists>n \<in> set (g_tasks g). n_id n = t \<and> has_external_write (n_side_effect n) \<and>
          approval_required n = Inr False))"
| "late_error env r g e = justified env r g e"

lemma side_effects_error:
  assumes "validate_side_effects h = Inl e" and "set (g_tasks h) \<subseteq> set (g_tasks g)"
    and "g_policies h = g_policies g"
  shows "late_error env r g e"
proof -
  from assms(1) have strict: "side_effect_policy_strict h"
    and "\<exists>n \<in> set (g_tasks h). check_side_effect n = Inl e"
    by (auto simp: validate_side_effects_def split: if_splits dest: foldE_unit_error)
  then obtain n where n: "n \<in> set (g_tasks g)" "check_side_effect n = Inl e" using assms(2) by blast
  from strict assms(3) have "side_effect_policy_strict g" by (simp add: side_effect_policy_strict_def)
  moreover have "approval_required n = Inl x \<Longrightarrow> approval_required n = Inl Unhashable" for x
    using approval_required_Inl by blast
  ultimately show ?thesis using n
    by (cases "approval_required n")
      (auto simp: check_side_effect_def intro!: bexI [of _ n] split: if_splits)
qed

lemma validate_dag_late_error:
  assumes ok: "tasks_ok (g_tasks g)" and ys: "is_topo (dep_graph (g_tasks g)) ys"
    and e: "validate_dag env r g = Inl e"
  shows "late_error env r g e"
proof -
  have c: "tasks_closed (g_tasks g)" and ne: "g_tasks g \<noteq> []" using ok by (auto simp: tasks_ok_def)
  from dag.sorter_complete [OF c tasks_ok_graph [OF ok] ys] obtain roots ordered where
    o: "dag_order (g_tasks g) = Inr (roots, ordered)" by blast
  show ?thesis
  proof (cases "prune_tasks env r g (node_map_of (g_tasks g)) roots ordered")
    case (Inl e')
    with e o have "e' = e" by (simp add: validate_dag_ok [OF ok])
    with prune_tasks_error [OF c o, of env r e] Inl show ?thesis
      by (cases "(env, r, g, e)" rule: justified.cases) auto
  next
    case p: (Inr p)
    note spec = prune_tasks_spec [OF c ne o p]
    have kept: "g_tasks (pg_graph p) = kept_tasks env r g" using spec(1) by (simp add: kept_tasks_def)
    have cr: "foldE (check_resolved env r) (g_tasks (pg_graph p)) () = Inr ()"
      unfolding kept by (auto simp: foldE_unit check_resolved_Inr dest: kept_no_executor)
    consider "validate_semantic_outputs (pg_graph p) (map n_id (kept_tasks env r g)) = Inl e"
      | "validate_side_effects (pg_graph p) = Inl e"
      using e o p cr by (auto simp: validate_dag_ok [OF ok] kept bindE_eq_Inl)
    then show ?thesis
    proof cases
      case 1
      then obtain role t where t: "(role, t) \<in> set (semantic_output_task_refs (g_semantic g))"
        "t \<notin> n_id ` set (kept_tasks env r g)" "e = SemanticMissing role t"
        using spec(5) by (auto simp: validate_semantic_outputs_def dest!: foldE_unit_error)
      moreover have "\<not> skipped env r (g_tasks g) t"
        by (rule spec(9), rule semantic_refs_required, rule t(1))
      ultimately show ?thesis by (auto simp: kept_tasks_def)
    next
      case 2
      then show ?thesis
        by (rule side_effects_error) (use kept spec(6) in \<open>auto simp: kept_tasks_def\<close>)
    qed
  qed
qed

lemma validate_dag_not_cyclic:
  "tasks_ok (g_tasks g) \<Longrightarrow> is_topo (dep_graph (g_tasks g)) ys \<Longrightarrow>
     validate_dag env r g \<noteq> Inl NoRootTask \<and> validate_dag env r g \<noteq> Inl (DependencyCycle cs)"
  using validate_dag_late_error by fastforce

text \<open>
  C3: on a graph with distinct valid ids and no missing dependency, the validator reports a
  missing root or a cycle exactly when there is no topological order; and every id of a
  reported cycle is a task that depends on a task of the cycle.
\<close>

theorem validate_dag_cycle:
  assumes ok: "tasks_ok (g_tasks g)"
  shows "((\<exists>e. validate_dag env r g = Inl e \<and> (e = NoRootTask \<or> (\<exists>cs. e = DependencyCycle cs)))
      = (\<nexists>ys. is_topo (dep_graph (g_tasks g)) ys))
    \<and> (\<forall>cs. validate_dag env r g = Inl (DependencyCycle cs) \<longrightarrow> cs \<noteq> [] \<and> sorted cs \<and>
        (\<forall>c \<in> set cs. \<exists>n \<in> set (g_tasks g). n_id n = c \<and> set (n_depends_on n) \<inter> set cs \<noteq> {}))"
proof (cases "\<exists>ys. is_topo (dep_graph (g_tasks g)) ys")
  case True
  with ok have "validate_dag env r g \<noteq> Inl NoRootTask" "validate_dag env r g \<noteq> Inl (DependencyCycle cs)" for cs
    using validate_dag_not_cyclic by blast+
  with True show ?thesis by blast
next
  case False
  have c: "tasks_closed (g_tasks g)" using ok by simp
  have "\<nexists>p. dag_order (g_tasks g) = Inr p"
    using False dag.sorts_iff [OF c tasks_ok_graph [OF ok]] by simp
  then obtain k where k: "topological_order (dep_graph (g_tasks g)) = Inl k"
    by (cases "topological_order (dep_graph (g_tasks g))") (auto simp: dag_order_def)
  then have v: "validate_dag env r g = Inl (kahn_dag_error k)"
    by (simp add: validate_dag_ok [OF ok] dag_order_def)
  note e = kahn_error [OF dep_graph_wf [OF c] k]
  have real: "\<exists>n \<in> set (g_tasks g). n_id n = t \<and> set (n_depends_on n) \<inter> set cs \<noteq> {}"
    if t: "t \<in> set (dict_keys (dep_graph (g_tasks g)))"
      and d: "set (deps_of (dep_graph (g_tasks g)) t) \<inter> set cs \<noteq> {}" for t cs
  proof -
    from t obtain n where "n \<in> set (g_tasks g)" "n_id n = t" by auto
    with d deps_of_dep_graph [OF c, of n] show ?thesis by auto
  qed
  show ?thesis using v e False real by auto
qed

theorem validate_dag_cycle_witness:
  "validate_dag sample_env sample_resolver
     (sample_dag [sample_node ''a'' ''emit'' [], sample_node ''b'' ''emit'' [''c''], sample_node ''c'' ''emit'' [''b'']])
     = Inl (DependencyCycle [''b'', ''c'']) \<and>
   (\<nexists>ys. is_topo (dep_graph [sample_node ''a'' ''emit'' [], sample_node ''b'' ''emit'' [''c''],
     sample_node ''c'' ''emit'' [''b'']]) ys)"
proof -
  let ?ns = "[sample_node ''a'' ''emit'' [], sample_node ''b'' ''emit'' [''c''], sample_node ''c'' ''emit'' [''b'']]"
  let ?g = "sample_dag ?ns"
  have g: "g_tasks ?g = ?ns" by (simp add: sample_dag_def)
  have ok: "tasks_ok (g_tasks ?g)" unfolding g by code_simp
  have "(case validate_dag sample_env sample_resolver ?g of
      Inl (DependencyCycle cs) \<Rightarrow> cs = [''b'', ''c''] | _ \<Rightarrow> False)" by code_simp
  then have "validate_dag sample_env sample_resolver ?g = Inl (DependencyCycle [''b'', ''c''])"
    by (auto split: sum.splits dag_error.splits)
  with validate_dag_cycle [OF ok, of sample_env sample_resolver] g show ?thesis by auto
qed

text \<open>
  C6: once the ids and dependencies are well-formed and there is a topological order, every
  refusal is justified: a task reported without executor has none and is required, an
  approval or has a side effect; a task reported to depend on skipped tasks is required and
  does; a semantic output reported missing is; a side effect reported unapproved is an
  external write without approval under a strict policy.  In particular the check for a root
  after pruning never fires.
\<close>

theorem validate_dag_refusals:
  assumes "tasks_ok (g_tasks g)" and "is_topo (dep_graph (g_tasks g)) ys"
    and "validate_dag env r g = Inl e"
  shows "late_error env r g e \<and> e \<noteq> NoRootAfterPruning"
  using validate_dag_late_error [OF assms] by (cases e) auto

theorem validate_dag_refusals_witness:
  "late_error sample_env [] (sample_dag sample_nodes) (NoResolverEntry ''b'' ''emit'')"
proof -
  let ?g = "sample_dag sample_nodes"
  have ok: "tasks_ok (g_tasks ?g)" by code_simp
  have t: "is_topo (dep_graph (g_tasks ?g)) [''a'', ''b'', ''c'', ''d'']" by code_simp
  have "(case validate_dag sample_env [] ?g of
      Inl (NoResolverEntry t k) \<Rightarrow> t = ''b'' \<and> k = ''emit'' | _ \<Rightarrow> False)" by code_simp
  then have "validate_dag sample_env [] ?g = Inl (NoResolverEntry ''b'' ''emit'')"
    by (auto split: sum.splits dag_error.splits)
  from validate_dag_refusals [OF ok t this] show ?thesis by blast
qed

lemma not_skipped_all:
  assumes "\<And>n. n \<in> set ns \<Longrightarrow> \<not> lacks_executor env r n"
  shows "\<not> skipped env r ns t"
proof
  assume "skipped env r ns t"
  then show False by induction (use assms in auto)
qed

lemma kept_tasks_idem:
  assumes "g_tasks h = kept_tasks env r g"
  shows "kept_tasks env r h = g_tasks h"
proof -
  have "\<not> skipped env r (g_tasks h) t" for t
    by (rule not_skipped_all) (use assms kept_no_executor in auto)
  then show ?thesis by (simp add: kept_tasks_def)
qed

text \<open>
  C29: what the validator returns is accepted again with the same resolver, nothing more is
  pruned, and the tasks, the ids and the roots are the same.
\<close>

theorem validate_dag_again:
  assumes v: "validate_dag env r g = Inr v"
  shows "\<exists>w. validate_dag env r (v_graph v) = Inr w \<and> g_tasks (v_graph w) = g_tasks (v_graph v)
    \<and> v_task_ids w = v_task_ids v \<and> v_roots w = v_roots v"
proof -
  note val = validate_dag_value [OF v]
  note idem = kept_tasks_idem [OF val(1)]
  have none: "\<not> skipped env r (g_tasks (v_graph v)) t" for t
    by (rule not_skipped_all) (use val(1) kept_no_executor in auto)
  have acc: "acceptable env r g" by (rule validate_dag_acceptable [OF v])
  have se: "validate_side_effects (v_graph v) = Inr ()"
    using acc val(1,7) validate_side_effects_cong [of "g\<lparr>g_tasks := kept_tasks env r g\<rparr>" "v_graph v"]
    by (simp add: acceptable_def)
  have refs: "set (map snd (semantic_output_task_refs (g_semantic (v_graph v)))) \<subseteq> n_id ` set (g_tasks (v_graph v))"
  proof -
    have "t \<in> n_id ` set (kept_tasks env r g)"
      if t: "(role, t) \<in> set (semantic_output_task_refs (g_semantic g))" for role t
    proof -
      from t acc have "t \<in> n_id ` set (g_tasks g)" by (force simp: acceptable_def)
      moreover have "\<not> skipped env r (g_tasks g) t"
        using acc semantic_refs_required [OF t] unfolding acceptable_def prunable_def Let_def by blast
      ultimately show ?thesis by (auto simp: kept_tasks_def)
    qed
    then show ?thesis using val(1,6) by auto
  qed
  have se': "validate_side_effects (v_graph v\<lparr>g_tasks := kept_tasks env r g\<rparr>) = Inr ()"
    using se val(1) validate_side_effects_cong [of "v_graph v\<lparr>g_tasks := kept_tasks env r g\<rparr>" "v_graph v"]
    by simp
  have "acceptable env r (v_graph v)"
    unfolding acceptable_def prunable_def Let_def idem
    using val(1,3,5) none refs se' kept_no_executor
    by (auto simp: tasks_ok_def)
  then obtain w where w: "validate_dag env r (v_graph v) = Inr w"
    using acceptable_validate_dag by blast
  from validate_dag_value [OF w] val idem w show ?thesis by auto
qed

theorem validate_dag_again_witness:
  "\<exists>v w. validate_dag sample_env sample_resolver (sample_dag sample_nodes) = Inr v \<and>
     validate_dag sample_env sample_resolver (v_graph v) = Inr w"
  using sample_valid validate_dag_again by blast

section \<open>Round trips\<close>

text \<open>
  C36: exporting a parsed graph with \<open>to_dict\<close> and parsing it again gives the same graph, and
  so for every node of it, whatever untrusted value the graph came from.  The exception is
  a schema version that renders as the empty text.
\<close>

theorem dag_roundtrip:
  assumes "dag_from_value fresh v = Inr g" and "g_schema g \<noteq> []"
  shows "dag_from_value fresh' (PDict (dag_to_dict g)) = Inr g
    \<and> (\<forall>n \<in> set (g_tasks g). node_from_value (PDict (node_to_dict n)) = Inr n)"
  using dag_roundtrip_normal [OF dag_from_value_normal [OF assms], of fresh'] dag_from_value_normal [OF assms]
  by (auto simp: dag_normal_def list_all_iff node_roundtrip_normal)

definition sample_graph_value :: pyval where
  "sample_graph_value = PDict [(''graph_id'', PStr '' g ''),
     (''tasks'', PList [PDict [(''id'', PStr '' a''), (''produces'', PStr ''out'')],
        PDict [(''id'', PInt 5), (''depends_on'', PStr ''a ''), (''side_effect_policy'', PStr ''net'')]])]"

theorem dag_roundtrip_witness:
  "\<exists>g. dag_from_value ''0'' sample_graph_value = Inr g \<and> dag_from_value ''1'' (PDict (dag_to_dict g)) = Inr g
     \<and> map n_id (g_tasks g) = [''a'', ''5'']"
proof -
  have "(case dag_from_value ''0'' sample_graph_value of
      Inl e \<Rightarrow> False | Inr g \<Rightarrow> g_schema g \<noteq> [] \<and> map n_id (g_tasks g) = [''a'', ''5''])" by code_simp
  then obtain g where g: "dag_from_value ''0'' sample_graph_value = Inr g" "g_schema g \<noteq> []"
    "map n_id (g_tasks g) = [''a'', ''5'']" by (auto split: sum.splits)
  from dag_roundtrip [OF g(1,2), of "''1''"] have "dag_from_value ''1'' (PDict (dag_to_dict g)) = Inr g" ..
  with g show ?thesis by (intro exI [of _ g]) simp
qed

section \<open>Resolvers\<close>

text \<open>What registration builds: distinct well-formed keys.\<close>

definition resolver_ok :: "resolver \<Rightarrow> bool" where
  "resolver_ok r \<longleftrightarrow> dict_wf r \<and> (\<forall>(k, v) \<in> set r. valid_task_id k)"

lemma valid_task_id_strip: "valid_task_id k \<Longrightarrow> strip k = k"
proof (rule strip_no_space)
  fix c assume k: "valid_task_id k" and c: "c \<in> set k"
  have "is_letter x \<or> x = CHR ''_'' \<Longrightarrow> is_ident_char x" for x
    by (auto simp: is_ident_char_def)
  with k have "list_all is_ident_char k" by (auto simp: valid_task_id_def split: list.splits)
  with c show "\<not> is_space c" by (auto simp: list_all_iff dest: ident_char_not_space)
qed

lemma register_valid: "valid_task_id k \<Longrightarrow> resolver_register k v r = Inr (dict_set k v r)"
  using valid_task_id_nonempty [of k] by (simp add: resolver_register_def valid_task_id_strip)

lemma register_all:
  "\<forall>(k, v) \<in> set es. valid_task_id k \<Longrightarrow>
     foldE (\<lambda>(k, v). resolver_register k v) es r = Inr (dict_update r es)"
  by (induction es arbitrary: r) (auto simp: register_valid dict_update_def)

lemma dict_get_rev: "dict_wf d \<Longrightarrow> dict_get (rev d) k = dict_get d k"
  using map_of_inject_set [of "rev d" d] by (simp add: rev_map [symmetric])

lemma resolver_new_ok:
  assumes "resolver_ok r"
  shows "resolver_new r = Inr (dict_update [(''validate'', default_validate_handler), (''emit'', default_emit_handler)] r)"
proof -
  have "valid_task_id ''validate''" "valid_task_id ''emit''" by code_simp+
  then show ?thesis
    using register_all [of r] assms by (simp add: resolver_new_def register_valid resolver_ok_def)
qed

lemma dict_update_keys: "fst ` set (dict_update d new) = fst ` set d \<union> fst ` set new"
  unfolding dict_update_def
proof (induction new arbitrary: d)
  case (Cons e new)
  then show ?case by (cases e) simp
qed simp

lemma resolver_ok_update:
  assumes "resolver_ok d" and "resolver_ok new"
  shows "resolver_ok (dict_update d new)"
proof -
  have "\<forall>k \<in> fst ` set (dict_update d new). valid_task_id k"
    using assms unfolding dict_update_keys resolver_ok_def by auto
  with assms(1) show ?thesis by (force simp: resolver_ok_def)
qed

text \<open>
  Merging a resolver into a validator's own never fails on resolvers built by
  registration; the result has every entry of the given one, then those of the validator,
  then the two default handlers, in this precedence, and is again well-formed.
\<close>

theorem merge_resolver_entries:
  assumes "resolver_ok own" and "resolver_ok r"
  shows "\<exists>m. merge_resolver own (Some r) = Inr m \<and> resolver_ok m \<and>
    (\<forall>k. dict_get m k =
       (case dict_get r k of Some v \<Rightarrow> Some v | None \<Rightarrow>
         (case dict_get own k of Some v \<Rightarrow> Some v | None \<Rightarrow>
            dict_get [(''validate'', default_validate_handler), (''emit'', default_emit_handler)] k)))"
proof -
  let ?base = "[(''validate'', default_validate_handler), (''emit'', default_emit_handler)]"
  let ?m = "dict_update (dict_update ?base own) r"
  have "valid_task_id ''validate''" "valid_task_id ''emit''" by code_simp+
  then have base: "resolver_ok ?base" by (simp add: resolver_ok_def)
  have "merge_resolver own (Some r) = Inr ?m"
    using assms register_all [of r] by (simp add: merge_resolver_def resolver_new_ok resolver_ok_def)
  moreover have "resolver_ok ?m" by (intro resolver_ok_update base assms)
  moreover have "dict_wf own" "dict_wf r" using assms by (simp_all add: resolver_ok_def)
  ultimately show ?thesis
    by (intro exI [of _ ?m]) (simp add: dict_get_update dict_get_rev split: option.split)
qed

theorem merge_resolver_entries_witness:
  "\<exists>m. merge_resolver [(''a'', PInt 1), (''emit'', PInt 2)] (Some [(''a'', PInt 3)]) = Inr m \<and>
     dict_get m ''a'' = Some (PInt 3) \<and> dict_get m ''emit'' = Some (PInt 2) \<and>
     dict_get m ''validate'' = Some default_validate_handler"
proof -
  have "resolver_ok [(''a'', PInt 1), (''emit'', PInt 2)]" "resolver_ok [(''a'', PInt 3)]" by code_simp+
  from merge_resolver_entries [OF this] show ?thesis by auto
qed

end
