(* ===== verification/DagRunCorrect.thy ===== *)
theory DagRunCorrect
  imports DagRun DagTheorems "HOL-Library.Multiset"
begin

text \<open>
  The invariant of a run and what follows from it: a task starts at most once and only after
  all its dependencies have results, the completion signal of the graph is emitted exactly
  when every task has a result, and a run that can go no further has executed every task
  that no failure cuts off.
\<close>

inductive_cases run_stepE: "run_step g fresh s s'"

section \<open>The shared state\<close>

lemma state_map_set [simp]:
  "state_map (set_state k (PDict d) s) k' = (if k' = k then d else state_map s k')"
  by (simp add: state_map_def set_state_def dict_get_or_def mapping_or_empty_def)

lemma state_map_set_other: "k' \<noteq> k \<Longrightarrow> state_map (set_state k v s) k' = state_map s k'"
  by (simp add: state_map_def set_state_def dict_get_or_def)

lemma state_map_cong: "r_state s = r_state s' \<Longrightarrow> state_map s k = state_map s' k"
  by (simp add: state_map_def)

lemma state_map_emit [simp]: "state_map (emit sig v s) k = state_map s k"
  by (rule state_map_cong) (simp add: emit_def)

lemma state_map_take [simp]: "state_map (take_signal e s) k = state_map s k"
  by (rule state_map_cong) (simp add: take_signal_def)

lemma state_map_upd [simp]:
  "state_map (s\<lparr>r_active := as\<rparr>) k = state_map s k" "state_map (s\<lparr>r_paused := as\<rparr>) k = state_map s k"
  "state_map (s\<lparr>r_failed := ts\<rparr>) k = state_map s k" "state_map (s\<lparr>r_crashed := ts\<rparr>) k = state_map s k"
  "state_map (s\<lparr>r_gates := gs\<rparr>) k = state_map s k"
  by (simp_all add: state_map_def)

lemma state_map_drop [simp]: "state_map (drop_active a s) k = state_map s k"
  by (rule state_map_cong) (simp add: drop_active_def)

lemma set_state_fields [simp]:
  "r_pending (set_state k v s) = r_pending s" "r_gates (set_state k v s) = r_gates s"
  "r_active (set_state k v s) = r_active s" "r_paused (set_state k v s) = r_paused s"
  "r_delivered (set_state k v s) = r_delivered s" "r_started (set_state k v s) = r_started s"
  "r_failed (set_state k v s) = r_failed s" "r_crashed (set_state k v s) = r_crashed s"
  by (simp_all add: set_state_def)

lemma emit_fields [simp]:
  "r_pending (emit sig v s) = r_pending s @ [(sig, v)]" "r_gates (emit sig v s) = r_gates s"
  "r_active (emit sig v s) = r_active s" "r_paused (emit sig v s) = r_paused s"
  "r_delivered (emit sig v s) = r_delivered s" "r_started (emit sig v s) = r_started s"
  "r_failed (emit sig v s) = r_failed s" "r_crashed (emit sig v s) = r_crashed s"
  by (simp_all add: emit_def)

lemma take_fields [simp]:
  "r_pending (take_signal e s) = remove1 e (r_pending s)" "r_gates (take_signal e s) = r_gates s"
  "r_active (take_signal e s) = r_active s" "r_paused (take_signal e s) = r_paused s"
  "r_delivered (take_signal e s) = r_delivered s @ [fst e]" "r_started (take_signal e s) = r_started s"
  "r_failed (take_signal e s) = r_failed s" "r_crashed (take_signal e s) = r_crashed s"
  "r_state (take_signal e s) = r_state s"
  by (simp_all add: take_signal_def)

lemma drop_fields [simp]:
  "r_pending (drop_active a s) = r_pending s" "r_gates (drop_active a s) = r_gates s"
  "r_active (drop_active a s) = remove1 a (r_active s)" "r_paused (drop_active a s) = r_paused s"
  "r_delivered (drop_active a s) = r_delivered s" "r_started (drop_active a s) = r_started s"
  "r_failed (drop_active a s) = r_failed s" "r_crashed (drop_active a s) = r_crashed s"
  by (simp_all add: drop_active_def)

section \<open>The compound operations, field by field\<close>

lemma record_success_fields:
  "r_gates (record_success g n out s) = r_gates s" "r_active (record_success g n out s) = r_active s"
  "r_paused (record_success g n out s) = r_paused s" "r_delivered (record_success g n out s) = r_delivered s"
  "r_started (record_success g n out s) = r_started s" "r_failed (record_success g n out s) = r_failed s"
  "r_crashed (record_success g n out s) = r_crashed s"
  "results (record_success g n out s) = dict_set (n_id n) out (results s)"
  "map fst (r_pending (record_success g n out s)) = map fst (r_pending s) @ [SigDone (n_id n)] @
     (if length (dict_set (n_id n) out (results s)) = length (g_tasks g) then [SigGraph] else [])"
  by (simp_all add: record_success_def Let_def state_map_set_other)

lemma record_failure_fields:
  "r_gates (record_failure n err s) = r_gates s" "r_active (record_failure n err s) = r_active s"
  "r_paused (record_failure n err s) = r_paused s" "r_delivered (record_failure n err s) = r_delivered s"
  "r_started (record_failure n err s) = r_started s" "r_failed (record_failure n err s) = r_failed s"
  "r_crashed (record_failure n err s) = r_crashed s" "results (record_failure n err s) = results s"
  "map fst (r_pending (record_failure n err s)) = map fst (r_pending s) @ [SigFailed (n_id n)]"
  by (simp_all add: record_failure_def Let_def state_map_set_other)

lemma finalize_fields:
  "r_gates (finalize g s) = r_gates s" "r_active (finalize g s) = r_active s"
  "r_paused (finalize g s) = r_paused s" "r_delivered (finalize g s) = r_delivered s"
  "r_started (finalize g s) = r_started s" "r_failed (finalize g s) = r_failed s"
  "r_crashed (finalize g s) = r_crashed s" "results (finalize g s) = results s"
  "r_pending (finalize g s) = r_pending s"
  by (simp_all add: finalize_def Let_def state_map_set_other)

text \<open>Delivering a result to the gates.\<close>

definition gate_values :: "string \<Rightarrow> pyval \<Rightarrow> dag_run \<Rightarrow> string list \<Rightarrow> pydict" where
  "gate_values d v s key = dict_set d v (dict_get_or (r_gates s) key [])"

definition gate_fires :: "string \<Rightarrow> pyval \<Rightarrow> dag_run \<Rightarrow> string list \<Rightarrow> bool" where
  "gate_fires d v s key \<longleftrightarrow> d \<in> set key \<and> list_all (dict_has (gate_values d v s key)) key"

lemma gate_receive_fields:
  "r_active (gate_receive g d v k s) = r_active s" "r_paused (gate_receive g d v k s) = r_paused s"
  "r_delivered (gate_receive g d v k s) = r_delivered s" "r_started (gate_receive g d v k s) = r_started s"
  "r_failed (gate_receive g d v k s) = r_failed s" "r_crashed (gate_receive g d v k s) = r_crashed s"
  "r_state (gate_receive g d v k s) = r_state s"
  by (simp_all add: gate_receive_def Let_def emit_def)

lemma gate_receive_gates:
  "dict_get (r_gates (gate_receive g d v k s)) k' =
     (if k' = k \<and> d \<in> set k then Some (gate_values d v s k) else dict_get (r_gates s) k')"
  by (simp add: gate_receive_def Let_def gate_values_def)

lemma gate_receive_pending:
  "map fst (r_pending (gate_receive g d v k s)) =
     map fst (r_pending s) @ (if gate_fires d v s k then [SigWhen k] else [])"
  by (simp add: gate_receive_def Let_def gate_fires_def gate_values_def)

lemma fold_gate_receive:
  "distinct ks \<Longrightarrow> s' = fold (gate_receive g d v) ks s \<Longrightarrow>
     (\<forall>k. dict_get (r_gates s') k =
        (if k \<in> set ks \<and> d \<in> set k then Some (gate_values d v s k) else dict_get (r_gates s) k)) \<and>
     map fst (r_pending s') = map fst (r_pending s) @ map SigWhen (filter (gate_fires d v s) ks) \<and>
     r_active s' = r_active s \<and> r_paused s' = r_paused s \<and> r_delivered s' = r_delivered s \<and>
     r_started s' = r_started s \<and> r_failed s' = r_failed s \<and> r_crashed s' = r_crashed s \<and>
     r_state s' = r_state s"
proof (induction ks arbitrary: s)
  case (Cons k' ks)
  let ?s = "gate_receive g d v k' s"
  have same: "gate_values d v ?s k = gate_values d v s k" if "k \<in> set ks" for k
    using that Cons.prems(1) by (auto simp: gate_values_def dict_get_or_def gate_receive_gates)
  then have fires: "filter (gate_fires d v ?s) ks = filter (gate_fires d v s) ks"
    by (intro filter_cong) (auto simp: gate_fires_def)
  have "distinct ks" "s' = fold (gate_receive g d v) ks ?s" using Cons.prems by simp_all
  from Cons.IH [OF this] fires same Cons.prems(1) show ?case
    by (auto simp: gate_receive_fields gate_receive_gates gate_receive_pending)
qed simp

text \<open>Starting the tasks that listen to a signal.\<close>

abbreviation tid :: "activation \<Rightarrow> string" where
  "tid a \<equiv> n_id (a_task a)"

lemma prepare_task_cong:
  "r_state s = r_state s' \<Longrightarrow> prepare_task fresh n payload resume s = prepare_task fresh n payload resume s'"
  by (simp add: prepare_task_def dependency_results_def state_map_def)

lemma fold_start_task:
  "s' = fold (start_task fresh v) ns s \<Longrightarrow>
     (\<exists>as cs. r_active s' = r_active s @ as \<and> r_crashed s' = r_crashed s @ cs \<and>
        mset (map tid as) + mset cs = mset (map n_id ns) \<and>
        (\<forall>a \<in> set as. \<exists>n \<in> set ns. prepare_task fresh n v None s = Inr a) \<and>
        (\<forall>t \<in> set cs. \<exists>n \<in> set ns. n_id n = t \<and> (\<exists>e. prepare_task fresh n v None s = Inl e))) \<and>
     r_started s' = r_started s @ map n_id ns \<and> r_pending s' = r_pending s \<and> r_gates s' = r_gates s \<and>
     r_paused s' = r_paused s \<and> r_delivered s' = r_delivered s \<and> r_failed s' = r_failed s \<and>
     r_state s' = r_state s"
proof (induction ns arbitrary: s)
  case (Cons n ns)
  let ?s = "start_task fresh v n s"
  have st: "r_state ?s = r_state s"
    by (simp add: start_task_def Let_def split: sum.splits)
  then have prep: "prepare_task fresh m v None ?s = prepare_task fresh m v None s" for m
    by (rule prepare_task_cong)
  have s': "s' = fold (start_task fresh v) ns ?s" using Cons.prems by simp
  from Cons.IH [OF s'] obtain as cs where
    IH: "r_active s' = r_active ?s @ as" "r_crashed s' = r_crashed ?s @ cs"
      "mset (map tid as) + mset cs = mset (map n_id ns)"
      "\<forall>a \<in> set as. \<exists>n \<in> set ns. prepare_task fresh n v None s = Inr a"
      "\<forall>t \<in> set cs. \<exists>n \<in> set ns. n_id n = t \<and> (\<exists>e. prepare_task fresh n v None s = Inl e)"
      "r_started s' = r_started ?s @ map n_id ns \<and> r_pending s' = r_pending ?s \<and> r_gates s' = r_gates ?s \<and>
       r_paused s' = r_paused ?s \<and> r_delivered s' = r_delivered ?s \<and> r_failed s' = r_failed ?s \<and>
       r_state s' = r_state ?s"
    unfolding prep by blast
  show ?case
  proof (cases "prepare_task fresh n v None s")
    case (Inl e)
    then have "?s = s\<lparr>r_started := r_started s @ [n_id n], r_crashed := r_crashed s @ [n_id n]\<rparr>"
      by (simp add: start_task_def)
    with IH Inl show ?thesis
      by (intro conjI exI [of _ as] exI [of _ "n_id n # cs"]) auto
  next
    case (Inr a)
    then have "?s = s\<lparr>r_started := r_started s @ [n_id n], r_active := r_active s @ [a]\<rparr>"
      by (simp add: start_task_def)
    moreover have "tid a = n_id n" using Inr by (auto simp: prepare_task_def bindE_eq_Inr)
    ultimately show ?thesis using IH Inr
      by (intro conjI exI [of _ "a # as"] exI [of _ cs]) auto
  qed
qed simp

section \<open>The invariant\<close>

definition emitted :: "dag_run \<Rightarrow> signal list" where
  "emitted s = map fst (r_pending s) @ r_delivered s"

definition busy :: "dag_run \<Rightarrow> string list" where
  "busy s = map tid (r_active s) @ map tid (r_paused s) @ r_failed s @ r_crashed s @ dict_keys (results s)"

definition deps_ready :: "dag_run \<Rightarrow> task_node \<Rightarrow> bool" where
  "deps_ready s n \<longleftrightarrow> set (n_depends_on n) \<subseteq> set (dict_keys (results s))"

text \<open>An activation is of a task of the graph and holds exactly the results of its dependencies.\<close>

definition activation_ok :: "task_dag \<Rightarrow> dag_run \<Rightarrow> activation \<Rightarrow> bool" where
  "activation_ok g s a \<longleftrightarrow>
     (\<exists>n \<in> set (g_tasks g). \<exists>i. a_task a = n\<lparr>n_inputs := i\<rparr>) \<and>
     (\<forall>d. dict_get (a_deps a) d =
        (if d \<in> set (n_depends_on (a_task a)) then dict_get (results s) d else None)) \<and>
     set (n_depends_on (a_task a)) \<subseteq> set (dict_keys (results s))"

definition signals_inv :: "task_dag \<Rightarrow> dag_run \<Rightarrow> bool" where
  "signals_inv g s \<longleftrightarrow> distinct (emitted s) \<and>
     (\<forall>t. SigStart t \<in> set (emitted s) \<longleftrightarrow> (\<exists>n \<in> set (g_tasks g). n_id n = t \<and> n_depends_on n = [])) \<and>
     (\<forall>t. SigDone t \<in> set (emitted s) \<longleftrightarrow> t \<in> set (dict_keys (results s))) \<and>
     (\<forall>k. SigWhen k \<in> set (emitted s) \<longleftrightarrow>
        k \<in> set (gate_keys g) \<and> (\<forall>d \<in> set k. SigDone d \<in> set (r_delivered s))) \<and>
     (SigGraph \<in> set (emitted s) \<longleftrightarrow> length (results s) = length (g_tasks g)) \<and>
     (\<forall>t. SigFailed t \<in> set (emitted s) \<longrightarrow>
        (\<exists>a \<in> set (r_active s). tid a = t \<and> a_error a \<noteq> None) \<or>
        t \<in> set (r_failed s) \<union> set (dict_keys (results s)))"

definition gates_inv :: "task_dag \<Rightarrow> dag_run \<Rightarrow> bool" where
  "gates_inv g s \<longleftrightarrow>
     (\<forall>k values. dict_get (r_gates s) k = Some values \<longrightarrow> k \<in> set (gate_keys g) \<and>
        (\<forall>d. dict_has values d \<longleftrightarrow> d \<in> set k \<and> SigDone d \<in> set (r_delivered s))) \<and>
     (\<forall>k \<in> set (gate_keys g). dict_get (r_gates s) k = None \<longrightarrow>
        (\<forall>d \<in> set k. SigDone d \<notin> set (r_delivered s)) \<or>
        (\<forall>d \<in> set k. SigDone d \<in> set (r_delivered s)))"

definition tasks_inv :: "task_dag \<Rightarrow> dag_run \<Rightarrow> bool" where
  "tasks_inv g s \<longleftrightarrow> distinct (r_started s) \<and>
     set (r_started s) = n_id ` {n \<in> set (g_tasks g). task_trigger n \<in> set (r_delivered s)} \<and>
     mset (busy s) = mset (r_started s) \<and>
     (\<forall>a \<in> set (r_active s) \<union> set (r_paused s). activation_ok g s a) \<and>
     (\<forall>a \<in> set (r_paused s). a_error a = None) \<and>
     (\<forall>t \<in> set (dict_keys (results s)). \<forall>n \<in> set (g_tasks g). n_id n = t \<longrightarrow> deps_ready s n)"

definition run_inv :: "task_dag \<Rightarrow> dag_run \<Rightarrow> bool" where
  "run_inv g s \<longleftrightarrow> signals_inv g s \<and> gates_inv g s \<and> tasks_inv g s"

lemmas run_inv_defs = run_inv_def signals_inv_def gates_inv_def tasks_inv_def

section \<open>Facts that follow from the invariant\<close>

lemma busy_distinct: "tasks_inv g s \<Longrightarrow> distinct (busy s)"
  unfolding tasks_inv_def by (metis mset_eq_imp_distinct_iff)

lemma busy_started: "tasks_inv g s \<Longrightarrow> set (busy s) = set (r_started s)"
  unfolding tasks_inv_def by (metis mset_eq_setD)

lemma tid_graph:
  assumes "tasks_closed (g_tasks g)" and "activation_ok g s a" and "n \<in> set (g_tasks g)" and "n_id n = tid a"
  shows "n_depends_on n = n_depends_on (a_task a)"
proof -
  from assms(2) obtain n' i where n': "n' \<in> set (g_tasks g)" "a_task a = n'\<lparr>n_inputs := i\<rparr>"
    unfolding activation_ok_def by blast
  have "tid a = n_id n'" "n_depends_on (a_task a) = n_depends_on n'" unfolding n'(2) by simp_all
  moreover from this assms(4) have "n = n'" using tasks_by_id [OF assms(1,3) n'(1)] by simp
  ultimately show ?thesis by simp
qed

lemma busy_memD:
  assumes "tasks_inv g s" and "t \<in> set (busy s)"
  shows "\<exists>n \<in> set (g_tasks g). n_id n = t \<and> task_trigger n \<in> set (r_delivered s)"
  using assms busy_started [OF assms(1)] unfolding tasks_inv_def by auto

lemma results_keys_wf: "tasks_inv g s \<Longrightarrow> dict_wf (results s)"
  using busy_distinct by (auto simp: busy_def)

lemma results_keys_sub: "tasks_inv g s \<Longrightarrow> set (dict_keys (results s)) \<subseteq> n_id ` set (g_tasks g)"
proof
  fix t assume t: "tasks_inv g s" "t \<in> set (dict_keys (results s))"
  then have "t \<in> set (busy s)" by (simp add: busy_def)
  from busy_memD [OF t(1) this] show "t \<in> n_id ` set (g_tasks g)" by blast
qed

lemma active_not_result:
  assumes "tasks_inv g s" and "a \<in> set (r_active s)"
  shows "tid a \<notin> set (dict_keys (results s))" "tid a \<notin> set (r_failed s)" "tid a \<notin> set (r_crashed s)"
    "tid a \<notin> tid ` set (r_paused s)"
  using busy_distinct [OF assms(1)] assms(2) by (auto simp: busy_def)

lemma active_unique:
  assumes "tasks_inv g s" and "a \<in> set (r_active s)" and "b \<in> set (r_active s)" and "tid a = tid b"
  shows "a = b"
proof -
  have "distinct (map tid (r_active s))" using busy_distinct [OF assms(1)] by (simp add: busy_def)
  with assms(2-4) show ?thesis unfolding distinct_map by (auto dest: inj_onD)
qed

lemma mset_map_remove1:
  "a \<in> set xs \<Longrightarrow> mset (map f (remove1 a xs)) + {#f a#} = mset (map f xs)"
  by (induction xs) auto

lemma dependency_results_ok:
  assumes "dependency_results n s = Inr ds"
  shows "dict_get ds d = (if d \<in> set (n_depends_on n) then dict_get (results s) d else None)"
    and "set (n_depends_on n) \<subseteq> set (dict_keys (results s))"
proof -
  have gen: "foldE (\<lambda>d acc. case dict_get (results s) d of None \<Rightarrow> Inl (MissingResult d)
        | Some v \<Rightarrow> Inr (dict_set d v acc)) xs acc = Inr ds \<Longrightarrow>
      dict_get ds d = (if d \<in> set xs then dict_get (results s) d else dict_get acc d) \<and>
      set xs \<subseteq> set (dict_keys (results s))" for xs acc
  proof (induction xs arbitrary: acc)
    case (Cons x xs)
    then obtain v where v: "dict_get (results s) x = Some v"
      by (cases "dict_get (results s) x") auto
    have "x \<in> set (dict_keys (results s))" using dict_get_Some_mem [OF v] by force
    with Cons.IH [of "dict_set x v acc"] Cons.prems v show ?case by auto
  qed simp
  from gen [of "n_depends_on n" "[]"] assms
  show "dict_get ds d = (if d \<in> set (n_depends_on n) then dict_get (results s) d else None)"
    "set (n_depends_on n) \<subseteq> set (dict_keys (results s))"
    by (simp_all add: dependency_results_def)
qed

lemma prepare_task_ok:
  assumes "n \<in> set (g_tasks g)" and "prepare_task fresh n v r s = Inr a"
  shows "activation_ok g s a" and "tid a = n_id n" and "a_error a = None" and "a_resume a = r"
proof -
  from assms(2) obtain ds i where ds: "dependency_results n s = Inr ds"
    "a = \<lparr>a_task = n\<lparr>n_inputs := i\<rparr>, a_deps = ds, a_resume = r, a_error = None\<rparr>"
    by (auto simp: prepare_task_def bindE_eq_Inr)
  with dependency_results_ok [OF ds(1)] assms(1)
  show "activation_ok g s a" "tid a = n_id n" "a_error a = None" "a_resume a = r"
    by (auto simp: activation_ok_def)
qed

lemma activation_ok_cong: "results s = results s' \<Longrightarrow> activation_ok g s a = activation_ok g s' a"
  by (simp add: activation_ok_def)

lemma deps_ready_cong: "results s = results s' \<Longrightarrow> deps_ready s n = deps_ready s' n"
  by (simp add: deps_ready_def)

text \<open>A task whose trigger was emitted has all its dependencies' results.\<close>

lemma trigger_ready:
  assumes "run_inv g s" and "n \<in> set (g_tasks g)" and "task_trigger n \<in> set (emitted s)"
  shows "deps_ready s n"
proof -
  note inv = assms(1) [unfolded run_inv_def signals_inv_def]
  consider "n_depends_on n = []" | d where "n_depends_on n = [d]"
    | "2 \<le> length (n_depends_on n)" by (cases "n_depends_on n" rule: remdups_adj.cases) auto
  then show ?thesis
  proof cases
    case 2
    with assms(3) inv show ?thesis by (auto simp: task_trigger_def deps_ready_def)
  next
    case 3
    then have "task_trigger n = SigWhen (sort (n_depends_on n))"
      by (cases "n_depends_on n" rule: remdups_adj.cases) (auto simp: task_trigger_def)
    with assms(3) inv have "\<forall>d \<in> set (sort (n_depends_on n)). SigDone d \<in> set (r_delivered s)" by metis
    then have "\<forall>d \<in> set (n_depends_on n). SigDone d \<in> set (emitted s)" by (simp add: emitted_def)
    with inv show ?thesis unfolding deps_ready_def by blast
  qed (simp add: deps_ready_def)
qed

section \<open>Every step keeps the invariant\<close>

lemma gate_keys_nonempty: "k \<in> set (gate_keys g) \<Longrightarrow> set k \<noteq> {}"
proof -
  assume "k \<in> set (gate_keys g)"
  then have "2 \<le> length k" by (auto simp: gate_keys_def gate_tasks_def)
  then show ?thesis by auto
qed

lemma kickoff_inv:
  assumes c: "tasks_closed (g_tasks g)" and ne: "g_tasks g \<noteq> []"
    and "roots = map n_id (filter (\<lambda>n. n_depends_on n = []) (g_tasks g))"
  shows "run_inv g (kickoff g fp roots input)"
proof -
  let ?s = "kickoff g fp roots input"
  have em: "emitted ?s = map SigStart roots" by (simp add: emitted_def kickoff_def comp_def)
  have res: "results ?s = []" by (simp add: kickoff_def state_map_def dict_get_or_def mapping_or_empty_def)
  have "distinct roots" using c assms(3) by (simp add: tasks_closed_def distinct_map_filter)
  then have "distinct (emitted ?s)" unfolding em by (simp add: distinct_map inj_on_def)
  moreover have "k \<in> set (gate_keys g) \<Longrightarrow> set k \<noteq> {}" for k
    using gate_keys_nonempty by blast
  ultimately have "signals_inv g ?s"
    using ne assms(3) unfolding signals_inv_def em res
    by (auto simp: kickoff_def)
  moreover have "gates_inv g ?s" by (simp add: gates_inv_def kickoff_def)
  moreover have "tasks_inv g ?s" using res by (simp add: tasks_inv_def busy_def) (simp add: kickoff_def)
  ultimately show ?thesis by (simp add: run_inv_def)
qed

lemma success_inv:
  assumes c: "tasks_closed (g_tasks g)" and inv: "run_inv g s" and a: "a \<in> set (r_active s)"
  shows "run_inv g (record_success g (a_task a) out (drop_active a s))"
proof -
  let ?s = "record_success g (a_task a) out (drop_active a s)"
  let ?t = "tid a"
  have t: "tasks_inv g s" and sg: "signals_inv g s" and gt: "gates_inv g s"
    using inv by (simp_all add: run_inv_def)
  note nr = active_not_result [OF t a]
  have res: "results ?s = results s @ [(?t, out)]"
    using nr(1) by (simp add: record_success_fields dict_set_append)
  have keys: "dict_keys (results ?s) = dict_keys (results s) @ [?t]" by (simp add: res)
  have ok: "activation_ok g s a" using t a by (simp add: tasks_inv_def)
  have "?t \<in> n_id ` set (g_tasks g)" using ok by (auto simp: activation_ok_def)
  then have "insert ?t (set (dict_keys (results s))) \<subseteq> n_id ` set (g_tasks g)"
    using results_keys_sub [OF t] by blast
  then have "card (insert ?t (set (dict_keys (results s)))) \<le> card (n_id ` set (g_tasks g))"
    by (intro card_mono) auto
  moreover have "card (n_id ` set (g_tasks g)) = length (g_tasks g)"
    using c distinct_card [of "map n_id (g_tasks g)"] by (simp add: tasks_closed_def)
  moreover have "card (insert ?t (set (dict_keys (results s)))) = Suc (length (results s))"
    using nr(1) distinct_card [OF results_keys_wf [OF t]] by (simp del: set_map)
  ultimately have len: "length (results s) < length (g_tasks g)" by linarith
  let ?new = "[SigDone ?t] @ (if length (results ?s) = length (g_tasks g) then [SigGraph] else [])"
  have em: "emitted ?s = map fst (r_pending s) @ ?new @ r_delivered s"
    by (simp add: emitted_def record_success_fields)
  have nosig: "SigDone ?t \<notin> set (emitted s)" "SigGraph \<notin> set (emitted s)"
    using sg nr(1) len unfolding signals_inv_def by auto
  have em_set: "set (emitted ?s) = set (emitted s) \<union> set ?new" unfolding em by (auto simp: emitted_def)
  have del: "r_delivered ?s = r_delivered s" by (simp add: record_success_fields)
  have "distinct (emitted ?s)" using sg nosig unfolding em signals_inv_def by (auto simp: emitted_def)
  moreover have "(\<exists>b \<in> set (r_active ?s). tid b = u \<and> b_err b) \<or> u \<in> set (r_failed ?s) \<union> set (dict_keys (results ?s))"
    if "(\<exists>b \<in> set (r_active s). tid b = u \<and> b_err b) \<or> u \<in> set (r_failed s) \<union> set (dict_keys (results s))" for u b_err
  proof (cases "u = ?t")
    case False
    then have "b \<in> set (r_active ?s)" if "b \<in> set (r_active s)" "tid b = u" for b
      using that by (cases "b = a") (auto simp: record_success_fields)
    with that show ?thesis unfolding keys by (auto simp: record_success_fields)
  qed (simp add: keys)
  ultimately have "signals_inv g ?s"
    using sg len unfolding signals_inv_def em_set del keys res by (auto simp del: set_map)
  moreover have "gates_inv g ?s" using gt by (simp add: gates_inv_def record_success_fields)
  moreover have "tasks_inv g ?s"
  proof -
    have "mset (busy ?s) = mset (busy s)"
      using mset_map_remove1 [OF a, of tid] unfolding busy_def keys
      by (simp add: record_success_fields)
    moreover have act: "activation_ok g ?s b" if "activation_ok g s b" for b
      using that nr(1) dict_get_None_iff [of "results s" ?t] unfolding activation_ok_def res
      by (auto simp: map_add_def split: option.splits)
    moreover have "deps_ready ?s n" if "deps_ready s n" for n
      using that by (auto simp: deps_ready_def res)
    moreover have "deps_ready ?s n" if "n \<in> set (g_tasks g)" "n_id n = ?t" for n
      using tid_graph [OF c ok that] ok by (auto simp: deps_ready_def activation_ok_def res)
    ultimately show ?thesis
      using t unfolding tasks_inv_def keys
      by (auto simp: record_success_fields dest: notin_set_remove1 in_set_remove1 set_remove1_subset [THEN subsetD])
  qed
  ultimately show ?thesis by (simp add: run_inv_def)
qed

text \<open>Changes to the activations alone.\<close>

lemma activations_inv:
  assumes inv: "run_inv g s"
    and same: "r_pending s' = r_pending s" "r_delivered s' = r_delivered s" "r_gates s' = r_gates s"
      "r_started s' = r_started s" "r_state s' = r_state s"
    and busy: "mset (busy s') = mset (busy s)"
    and failing: "\<And>b. b \<in> set (r_active s) \<Longrightarrow> a_error b \<noteq> None \<Longrightarrow> b \<in> set (r_active s') \<or> tid b \<in> set (r_failed s')"
    and failed: "set (r_failed s) \<subseteq> set (r_failed s')"
    and ok: "\<And>b. b \<in> set (r_active s') \<union> set (r_paused s') \<Longrightarrow>
        b \<in> set (r_active s) \<union> set (r_paused s) \<or> activation_ok g s b"
    and paused: "\<And>b. b \<in> set (r_paused s') \<Longrightarrow> a_error b = None"
  shows "run_inv g s'"
proof -
  have res: "results s' = results s" by (rule state_map_cong [OF same(5)])
  have em: "emitted s' = emitted s" using same by (simp add: emitted_def)
  have "(\<exists>b \<in> set (r_active s'). tid b = t \<and> a_error b \<noteq> None) \<or> t \<in> set (r_failed s')"
    if "(\<exists>b \<in> set (r_active s). tid b = t \<and> a_error b \<noteq> None) \<or> t \<in> set (r_failed s)" for t
    using that failing failed by blast
  then have "signals_inv g s'"
    using inv unfolding run_inv_def signals_inv_def em res same(2) by blast
  moreover have "gates_inv g s'" using inv same by (simp add: run_inv_def gates_inv_def)
  moreover have "tasks_inv g s'"
  proof -
    have t: "tasks_inv g s" using inv by (simp add: run_inv_def)
    have "activation_ok g s' b" if "b \<in> set (r_active s') \<union> set (r_paused s')" for b
      using ok [OF that] t activation_ok_cong [OF res, of g b] unfolding tasks_inv_def by blast
    moreover have "deps_ready s' n = deps_ready s n" for n by (rule deps_ready_cong [OF res])
    ultimately show ?thesis
      using t busy paused unfolding tasks_inv_def same res by simp
  qed
  ultimately show ?thesis by (simp add: run_inv_def)
qed

lemma activation_ok_error [simp]: "activation_ok g s (a\<lparr>a_error := e\<rparr>) = activation_ok g s a"
  by (simp add: activation_ok_def)

lemma failure_inv:
  assumes inv: "run_inv g s" and a: "a \<in> set (r_active s)" and e: "a_error a = None"
  shows "run_inv g (record_failure (a_task a) err
    ((drop_active a s)\<lparr>r_active := remove1 a (r_active s) @ [a\<lparr>a_error := Some err\<rparr>]\<rparr>))"
proof -
  let ?b = "a\<lparr>a_error := Some err\<rparr>"
  let ?m = "(drop_active a s)\<lparr>r_active := remove1 a (r_active s) @ [?b]\<rparr>"
  let ?s = "record_failure (a_task a) err ?m"
  have t: "tasks_inv g s" and sg: "signals_inv g s" using inv by (simp_all add: run_inv_def)
  note nr = active_not_result [OF t a]
  have m: "run_inv g ?m"
  proof (rule activations_inv [OF inv])
    show "mset (busy ?m) = mset (busy s)"
      using mset_map_remove1 [OF a, of tid] by (simp add: busy_def)
    show "b \<in> set (r_active ?m) \<or> tid b \<in> set (r_failed ?m)"
      if "b \<in> set (r_active s)" "a_error b \<noteq> None" for b
      using that e by (cases "b = a") auto
    show "b \<in> set (r_active s) \<union> set (r_paused s) \<or> activation_ok g s b"
      if "b \<in> set (r_active ?m) \<union> set (r_paused ?m)" for b
      using that t a by (auto simp: tasks_inv_def dest: notin_set_remove1)
  qed (use t in \<open>auto simp: tasks_inv_def drop_active_def\<close>)
  have nf: "SigFailed (tid a) \<notin> set (emitted s)"
  proof
    assume "SigFailed (tid a) \<in> set (emitted s)"
    with sg nr obtain b where "b \<in> set (r_active s)" "tid b = tid a" "a_error b \<noteq> None"
      unfolding signals_inv_def by auto
    with active_unique [OF t a] e show False by fastforce
  qed
  have res: "results ?s = results ?m" by (rule record_failure_fields)
  have em: "emitted ?s = map fst (r_pending s) @ [SigFailed (tid a)] @ r_delivered s"
    by (simp add: emitted_def record_failure_fields)
  have em': "emitted ?m = emitted s" by (simp add: emitted_def)
  have em_set: "set (emitted ?s) = insert (SigFailed (tid a)) (set (emitted ?m))"
    unfolding em em' by (auto simp: emitted_def)
  have "distinct (emitted ?s)" using sg nf unfolding em signals_inv_def by (auto simp: emitted_def)
  moreover have "\<exists>b \<in> set (r_active ?s). tid b = tid a \<and> a_error b \<noteq> None"
    by (intro bexI [of _ ?b]) (auto simp: record_failure_fields)
  ultimately have "signals_inv g ?s"
    using m unfolding run_inv_def signals_inv_def em_set res record_failure_fields by auto
  moreover have "gates_inv g ?s" using m by (simp add: run_inv_def gates_inv_def record_failure_fields)
  moreover have "tasks_inv g ?s"
    using m activation_ok_cong [OF res] deps_ready_cong [OF res]
    unfolding run_inv_def tasks_inv_def busy_def record_failure_fields by simp
  ultimately show ?thesis by (simp add: run_inv_def)
qed

lemma take_emitted:
  assumes "(sig, v) \<in> set (r_pending s)"
  shows "mset (emitted (take_signal (sig, v) s)) = mset (emitted s)"
  using mset_map_remove1 [OF assms, of fst] by (simp add: emitted_def)

lemma take_new:
  assumes "signals_inv g s" and "(sig, v) \<in> set (r_pending s)"
  shows "sig \<notin> set (r_delivered s)" and "sig \<in> set (emitted s)"
proof -
  from assms(2) have "sig \<in> set (map fst (r_pending s))" by force
  with assms(1) show "sig \<notin> set (r_delivered s)" "sig \<in> set (emitted s)"
    unfolding signals_inv_def emitted_def by auto
qed

text \<open>Handling a signal: first the gates, then the listeners.\<close>

lemma gate_values_has:
  assumes gt: "gates_inv g s" and k: "k \<in> set (gate_keys g)" and d: "d \<in> set k"
    and new: "SigDone d \<notin> set (r_delivered s)"
  shows "dict_has (gate_values d v s k) x \<longleftrightarrow> x = d \<or> x \<in> set k \<and> SigDone x \<in> set (r_delivered s)"
proof (cases "dict_get (r_gates s) k")
  case None
  with gt k d new have "\<forall>x \<in> set k. SigDone x \<notin> set (r_delivered s)" unfolding gates_inv_def by blast
  with None show ?thesis by (auto simp: gate_values_def dict_get_or_def dict_has_def)
next
  case (Some vs)
  with gt have "dict_has vs x \<longleftrightarrow> x \<in> set k \<and> SigDone x \<in> set (r_delivered s)"
    unfolding gates_inv_def by blast
  with Some show ?thesis by (simp add: gate_values_def dict_get_or_def dict_has_iff)
qed

lemma gate_fires_iff:
  assumes "gates_inv g s" and "k \<in> set (gate_keys g)" and "SigDone d \<notin> set (r_delivered s)"
  shows "gate_fires d v s k \<longleftrightarrow> d \<in> set k \<and> (\<forall>x \<in> set k. x = d \<or> SigDone x \<in> set (r_delivered s))"
  using gate_values_has [OF assms(1,2) _ assms(3), of v] by (auto simp: gate_fires_def list_all_iff)

text \<open>
  \<open>gates_step g s sig v\<close> is the state in which the listeners of \<open>sig\<close> are started.
\<close>

definition gates_step :: "task_dag \<Rightarrow> dag_run \<Rightarrow> signal \<Rightarrow> pyval \<Rightarrow> dag_run" where
  "gates_step g s sig v =
     (case sig of
        SigDone d \<Rightarrow> fold (gate_receive g d v) (gate_keys g) (take_signal (sig, v) s)
      | _ \<Rightarrow> take_signal (sig, v) s)"

lemma gates_step_fields:
  "r_active (gates_step g s sig v) = r_active s \<and> r_paused (gates_step g s sig v) = r_paused s \<and>
   r_delivered (gates_step g s sig v) = r_delivered s @ [sig] \<and>
   r_started (gates_step g s sig v) = r_started s \<and> r_failed (gates_step g s sig v) = r_failed s \<and>
   r_crashed (gates_step g s sig v) = r_crashed s \<and> r_state (gates_step g s sig v) = r_state s"
proof (cases "\<exists>d. sig = SigDone d")
  case True
  then obtain d where d: "sig = SigDone d" by blast
  have "distinct (gate_keys g)" by (simp add: gate_keys_def)
  from fold_gate_receive [OF this, of "gates_step g s sig v" g d v "take_signal (sig, v) s"] d
  show ?thesis unfolding gates_step_def by simp
next
  case False
  then have "gates_step g s sig v = take_signal (sig, v) s" by (cases sig) (auto simp: gates_step_def)
  then show ?thesis by simp
qed

lemmas gates_step_same =
  gates_step_fields [THEN conjunct1] gates_step_fields [THEN conjunct2, THEN conjunct1]
  gates_step_fields [THEN conjunct2, THEN conjunct2, THEN conjunct1]
  gates_step_fields [THEN conjunct2, THEN conjunct2, THEN conjunct2, THEN conjunct1]
  gates_step_fields [THEN conjunct2, THEN conjunct2, THEN conjunct2, THEN conjunct2, THEN conjunct1]
  gates_step_fields [THEN conjunct2, THEN conjunct2, THEN conjunct2, THEN conjunct2, THEN conjunct2, THEN conjunct1]
  gates_step_fields [THEN conjunct2, THEN conjunct2, THEN conjunct2, THEN conjunct2, THEN conjunct2, THEN conjunct2]

lemma gates_step_inv:
  assumes sg: "signals_inv g s" and gt: "gates_inv g s" and p: "(sig, v) \<in> set (r_pending s)"
  shows "signals_inv g (gates_step g s sig v) \<and> gates_inv g (gates_step g s sig v)"
proof (cases "\<exists>d. sig = SigDone d")
  case False
  then have s': "gates_step g s sig v = take_signal (sig, v) s" (is "?s = ?t")
    by (cases sig) (auto simp: gates_step_def)
  have em: "set (emitted ?t) = set (emitted s)" "distinct (emitted ?t)"
    using take_emitted [OF p] sg unfolding signals_inv_def
    by (metis set_mset_mset, metis mset_eq_imp_distinct_iff)
  have del: "SigDone d \<in> set (r_delivered ?t) \<longleftrightarrow> SigDone d \<in> set (r_delivered s)" for d
    using False by auto
  have "signals_inv g ?t" using sg em unfolding signals_inv_def del by simp
  moreover have "gates_inv g ?t" using gt unfolding gates_inv_def del by simp
  ultimately show ?thesis unfolding s' by blast
next
  case True
  then obtain d where d: "sig = SigDone d" by blast
  let ?t = "take_signal (sig, v) s" and ?s = "gates_step g s sig v"
  have s': "?s = fold (gate_receive g d v) (gate_keys g) ?t" by (simp add: gates_step_def d)
  have dist: "distinct (gate_keys g)" by (simp add: gate_keys_def)
  note new = take_new [OF sg p, unfolded d]
  note f = fold_gate_receive [OF dist s']
  have vals: "gate_values d v ?t k = gate_values d v s k" for k by (simp add: gate_values_def)
  then have fires: "gate_fires d v ?t k = gate_fires d v s k" for k by (simp add: gate_fires_def)
  let ?ks = "filter (gate_fires d v s) (gate_keys g)"
  have em: "mset (emitted ?s) = mset (emitted s) + mset (map SigWhen ?ks)"
    using f take_emitted [OF p] unfolding emitted_def fires by simp
  have em_set: "set (emitted ?s) = set (emitted s) \<union> SigWhen ` set ?ks"
    using arg_cong [OF em, of set_mset] by simp
  have del: "r_delivered ?s = r_delivered s @ [SigDone d]" by (simp add: gates_step_same d)
  have res: "results ?s = results s" by (rule state_map_cong) (rule gates_step_same)
  have fire: "k \<in> set (gate_keys g) \<Longrightarrow> gate_fires d v s k \<longleftrightarrow>
      d \<in> set k \<and> (\<forall>x \<in> set k. SigDone x \<in> set (r_delivered ?s))" for k
    using gate_fires_iff [OF gt _ new(1), of k v] by (auto simp: del)
  have old: "SigWhen k \<in> set (emitted s) \<Longrightarrow> k \<in> set (gate_keys g) \<and> d \<notin> set k" for k
    using sg new(1) unfolding signals_inv_def by blast
  have "distinct (emitted ?s)"
  proof -
    have "distinct (emitted s @ map SigWhen ?ks)"
      using sg dist old fire by (auto simp: signals_inv_def distinct_map inj_on_def gate_fires_def)
    moreover have "mset (emitted ?s) = mset (emitted s @ map SigWhen ?ks)" using em by simp
    ultimately show ?thesis by (metis mset_eq_imp_distinct_iff)
  qed
  moreover have "SigWhen k \<in> set (emitted ?s) \<longleftrightarrow>
      k \<in> set (gate_keys g) \<and> (\<forall>x \<in> set k. SigDone x \<in> set (r_delivered ?s))" for k
  proof (cases "d \<in> set k")
    case True
    with old [of k] fire [of k] show ?thesis by (auto simp: em_set)
  next
    case False
    then have "(\<forall>x \<in> set k. SigDone x \<in> set (r_delivered ?s)) \<longleftrightarrow> (\<forall>x \<in> set k. SigDone x \<in> set (r_delivered s))"
      by (auto simp: del)
    moreover have "SigWhen k \<in> set (emitted ?s) \<longleftrightarrow> SigWhen k \<in> set (emitted s)"
      using False by (auto simp: em_set gate_fires_def)
    ultimately show ?thesis using sg unfolding signals_inv_def by blast
  qed
  ultimately have "signals_inv g ?s"
    using sg unfolding signals_inv_def res by (auto simp: em_set gates_step_same)
  moreover have "gates_inv g ?s"
  proof -
    have has: "dict_has (gate_values d v s k) x \<longleftrightarrow> x \<in> set k \<and> SigDone x \<in> set (r_delivered ?s)"
      if "k \<in> set (gate_keys g)" "d \<in> set k" for k x
      using gate_values_has [OF gt that new(1), of v x] that(2) by (auto simp: del)
    have get: "dict_get (r_gates ?s) k = (if k \<in> set (gate_keys g) \<and> d \<in> set k then Some (gate_values d v s k)
        else dict_get (r_gates s) k)" for k
      using f by (simp add: vals)
    have other: "SigDone x \<in> set (r_delivered ?s) \<longleftrightarrow> SigDone x \<in> set (r_delivered s)"
      if "x \<in> set k" "d \<notin> set k" for x k
      using that by (auto simp: del)
    show ?thesis
      unfolding gates_inv_def
    proof (intro conjI allI impI ballI)
      fix k vs assume v: "dict_get (r_gates ?s) k = Some vs"
      then show k: "k \<in> set (gate_keys g)" using gt unfolding get gates_inv_def by (metis)
      fix x show "dict_has vs x = (x \<in> set k \<and> SigDone x \<in> set (r_delivered ?s))"
        using v k has [of k x] other [of x k] gt unfolding get gates_inv_def by (metis option.inject)
    next
      fix k assume k: "k \<in> set (gate_keys g)" and v: "dict_get (r_gates ?s) k = None"
      then have nd: "d \<notin> set k" "dict_get (r_gates s) k = None" unfolding get by (metis option.distinct(1))+
      with gt k have "(\<forall>d \<in> set k. SigDone d \<notin> set (r_delivered s)) \<or> (\<forall>d \<in> set k. SigDone d \<in> set (r_delivered s))"
        unfolding gates_inv_def by blast
      then show "(\<forall>d \<in> set k. SigDone d \<notin> set (r_delivered ?s)) \<or> (\<forall>d \<in> set k. SigDone d \<in> set (r_delivered ?s))"
        using other nd(1) by blast
    qed
  qed
  ultimately show ?thesis by blast
qed

lemma deliver_gates_step:
  "deliver g fresh sig v (take_signal (sig, v) s)
     = fold (start_task fresh v) (listeners g sig) (gates_step g s sig v)"
  by (cases sig) (simp_all add: deliver_def gates_step_def)

lemma deliver_inv:
  assumes c: "tasks_closed (g_tasks g)" and inv: "run_inv g s" and p: "(sig, v) \<in> set (r_pending s)"
  shows "run_inv g (deliver g fresh sig v (take_signal (sig, v) s))"
proof -
  let ?m = "gates_step g s sig v" and ?ns = "listeners g sig"
  let ?s = "fold (start_task fresh v) ?ns ?m"
  have t: "tasks_inv g s" and sg: "signals_inv g s" and gt: "gates_inv g s"
    using inv by (simp_all add: run_inv_def)
  have m: "signals_inv g ?m" "gates_inv g ?m" using gates_step_inv [OF sg gt p] by blast+
  note new = take_new [OF sg p]
  from fold_start_task [OF refl, of fresh v ?ns ?m] obtain as cs where
    act: "r_active ?s = r_active ?m @ as" "r_crashed ?s = r_crashed ?m @ cs"
    and ms: "mset (map tid as) + mset cs = mset (map n_id ?ns)"
    and prep: "\<forall>a \<in> set as. \<exists>n \<in> set ?ns. prepare_task fresh n v None ?m = Inr a"
    and same: "r_started ?s = r_started ?m @ map n_id ?ns" "r_pending ?s = r_pending ?m"
      "r_gates ?s = r_gates ?m" "r_paused ?s = r_paused ?m" "r_delivered ?s = r_delivered ?m"
      "r_failed ?s = r_failed ?m" "r_state ?s = r_state ?m" by metis
  have res: "results ?s = results ?m" by (rule state_map_cong [OF same(7)])
  have res': "results ?m = results s" by (rule state_map_cong) (rule gates_step_same)
  have em: "emitted ?s = emitted ?m" by (simp add: emitted_def same)
  have "signals_inv g ?s"
    using m(1) unfolding signals_inv_def em res same(5,6) act by auto
  moreover have "gates_inv g ?s" using m(2) unfolding gates_inv_def same by simp
  moreover have "tasks_inv g ?s"
  proof -
    have fresh_ids: "n_id n \<notin> set (r_started s)" if n: "n \<in> set ?ns" for n
    proof
      assume "n_id n \<in> set (r_started s)"
      then obtain n' where n': "n' \<in> set (g_tasks g)" "n_id n' = n_id n" "task_trigger n' \<in> set (r_delivered s)"
        using t unfolding tasks_inv_def by auto
      have "n' = n" by (rule tasks_by_id [OF c n'(1) _ n'(2)]) (use n in \<open>simp add: listeners_def\<close>)
      with n n'(3) new(1) show False by (simp add: listeners_def)
    qed
    have "distinct (map n_id ?ns)" using c by (simp add: listeners_def tasks_closed_def distinct_map_filter)
    moreover have "set (r_started s) \<inter> set (map n_id ?ns) = {}" using fresh_ids by auto
    moreover have "distinct (r_started s)" using t by (simp add: tasks_inv_def)
    ultimately have "distinct (r_started ?s)"
      unfolding same gates_step_same by (simp only: distinct_append)
    moreover have "set (r_started ?s) = n_id ` {n \<in> set (g_tasks g). task_trigger n \<in> set (r_delivered ?s)}"
      using t unfolding same gates_step_same tasks_inv_def by (auto simp: listeners_def)
    moreover have "mset (busy ?s) = mset (busy s) + (mset (map tid as) + mset cs)"
      unfolding busy_def same act gates_step_same res res' by (simp add: ac_simps)
    then have "mset (busy ?s) = mset (r_started ?s)"
      unfolding ms using t by (simp add: tasks_inv_def same gates_step_same)
    moreover have "activation_ok g ?s a" if "a \<in> set (r_active ?s) \<union> set (r_paused ?s)" for a
    proof -
      have "activation_ok g s a \<or> activation_ok g ?m a"
      proof (cases "a \<in> set as")
        case True
        with prep obtain n where "n \<in> set ?ns" "prepare_task fresh n v None ?m = Inr a" by blast
        then show ?thesis using prepare_task_ok(1) [of n g] by (simp add: listeners_def)
      next
        case False
        with that have "a \<in> set (r_active s) \<union> set (r_paused s)" by (simp add: act same gates_step_same)
        with t show ?thesis by (simp add: tasks_inv_def)
      qed
      with res res' show ?thesis by (metis activation_ok_cong)
    qed
    moreover have "deps_ready ?s n = deps_ready s n" for n
      by (rule deps_ready_cong) (simp add: res res')
    ultimately show ?thesis
      using t unfolding tasks_inv_def res res' by (simp add: same gates_step_same)
  qed
  ultimately show ?thesis unfolding deliver_gates_step by (simp add: run_inv_def)
qed

lemma finalize_inv:
  assumes inv: "run_inv g s" and p: "(SigGraph, v) \<in> set (r_pending s)"
  shows "run_inv g (finalize g (take_signal (SigGraph, v) s))"
proof -
  let ?m = "gates_step g s SigGraph v"
  have m: "?m = take_signal (SigGraph, v) s" by (simp add: gates_step_def)
  have "task_trigger n \<noteq> SigGraph" for n by (simp add: task_trigger_def split: list.split)
  then have none: "listeners g SigGraph = []" by (simp add: listeners_def)
  have "run_inv g (take_signal (SigGraph, v) s)"
  proof -
    have sg: "signals_inv g ?m \<and> gates_inv g ?m"
      using inv gates_step_inv [OF _ _ p] by (simp add: run_inv_def)
    have "tasks_inv g ?m"
      using inv \<open>\<And>n. task_trigger n \<noteq> SigGraph\<close> unfolding run_inv_def m tasks_inv_def busy_def
      by (simp add: activation_ok_def deps_ready_def)
    with sg show ?thesis by (simp add: run_inv_def m)
  qed
  moreover have "emitted (finalize g x) = emitted x" for x by (simp add: emitted_def finalize_fields)
  moreover have "busy (finalize g x) = busy x" for x by (simp add: busy_def finalize_fields)
  ultimately show ?thesis
    unfolding run_inv_def signals_inv_def gates_inv_def tasks_inv_def finalize_fields
    by (simp add: finalize_fields activation_ok_def deps_ready_def)
qed

lemma clear_gate_inv:
  assumes inv: "run_inv g s" and k: "dict_get (r_gates s) key = Some vals" "list_all (dict_has vals) key"
  shows "run_inv g (s\<lparr>r_gates := dict_del key (r_gates s)\<rparr>)"
proof -
  let ?s = "s\<lparr>r_gates := dict_del key (r_gates s)\<rparr>"
  have all: "\<forall>d \<in> set key. SigDone d \<in> set (r_delivered s)"
    using inv k unfolding run_inv_def gates_inv_def list_all_iff by blast
  have "gates_inv g ?s"
    using inv all unfolding run_inv_def gates_inv_def by (auto split: if_splits)
  moreover have "signals_inv g ?s" using inv by (simp add: run_inv_def signals_inv_def emitted_def)
  moreover have "tasks_inv g ?s"
    using inv by (simp add: run_inv_def tasks_inv_def busy_def activation_ok_def deps_ready_def)
  ultimately show ?thesis by (simp add: run_inv_def)
qed

lemma run_step_inv:
  assumes c: "tasks_closed (g_tasks g)" and inv: "run_inv g s" and st: "run_step g fresh s s'"
  shows "run_inv g s'"
  using st
proof (cases rule: run_step.cases)
  case (signal sig v)
  then show ?thesis using deliver_inv [OF c inv] by simp
next
  case (graph_done v)
  then show ?thesis using finalize_inv [OF inv] by simp
next
  case (finish a gate run out)
  then show ?thesis using success_inv [OF c inv] by simp
next
  case (skip a err)
  then show ?thesis using success_inv [OF c inv] by simp
next
  case (fail a gate run err s1)
  then show ?thesis using failure_inv [OF inv] by simp
next
  case (clear_gate key vals)
  then show ?thesis using clear_gate_inv [OF inv] by simp
next
  case (pause a gate run)
  have t: "tasks_inv g s" using inv by (simp add: run_inv_def)
  show ?thesis
  proof (rule activations_inv [OF inv])
    show "mset (busy s') = mset (busy s)"
      using mset_map_remove1 [OF pause(2), of tid] unfolding pause(1) by (simp add: busy_def)
    show "b \<in> set (r_active s') \<or> tid b \<in> set (r_failed s')" if "b \<in> set (r_active s)" "a_error b \<noteq> None" for b
      using that pause by (cases "b = a") auto
  qed (use pause t in \<open>auto simp: tasks_inv_def drop_active_def dest: notin_set_remove1\<close>)
next
  case (give_up a err)
  have t: "tasks_inv g s" using inv by (simp add: run_inv_def)
  show ?thesis
  proof (rule activations_inv [OF inv])
    show "mset (busy s') = mset (busy s)"
      using mset_map_remove1 [OF give_up(2), of tid] unfolding give_up(1) by (simp add: busy_def)
    show "b \<in> set (r_active s') \<or> tid b \<in> set (r_failed s')" if "b \<in> set (r_active s)" "a_error b \<noteq> None" for b
      using that give_up by (cases "b = a") auto
  qed (use give_up t in \<open>auto simp: tasks_inv_def drop_active_def dest: notin_set_remove1\<close>)
next
  case (resume a n payload v b)
  have t: "tasks_inv g s" using inv by (simp add: run_inv_def)
  note b = prepare_task_ok [OF resume(3) resume(5)]
  show ?thesis
  proof (rule activations_inv [OF inv])
    show "mset (busy s') = mset (busy s)"
      using mset_map_remove1 [OF resume(2), of tid] resume(4) b(2) unfolding resume(1)
      by (simp add: busy_def ac_simps)
  qed (use resume t b in \<open>auto simp: tasks_inv_def dest: notin_set_remove1\<close>)
next
  case (resume_crash a n payload v e)
  have t: "tasks_inv g s" using inv by (simp add: run_inv_def)
  show ?thesis
  proof (rule activations_inv [OF inv])
    show "mset (busy s') = mset (busy s)"
      using mset_map_remove1 [OF resume_crash(2), of tid] resume_crash(4) unfolding resume_crash(1)
      by (simp add: busy_def ac_simps)
  qed (use resume_crash t in \<open>auto simp: tasks_inv_def dest: notin_set_remove1\<close>)
qed

lemma reachable_inv:
  assumes "tasks_closed (g_tasks g)" and "run_inv g s0" and "reachable g fresh s0 s"
  shows "run_inv g s"
  using assms(3) by induction (use assms(1,2) run_step_inv in blast)+

section \<open>The properties of a run\<close>

definition run_of :: "dag_validation \<Rightarrow> nat \<Rightarrow> string \<Rightarrow> pyval \<Rightarrow> dag_run \<Rightarrow> bool" where
  "run_of v fresh fingerprint input s \<longleftrightarrow>
     reachable (v_graph v) fresh (kickoff (v_graph v) fingerprint (v_roots v) input) s"

lemma validated_run:
  assumes "validate_dag env r g = Inr v" and "run_of v fresh fp input s"
  shows "run_inv (v_graph v) s" and "tasks_closed (g_tasks (v_graph v))"
    and "is_topo (dep_graph (g_tasks (v_graph v))) (v_order v)"
proof -
  note v = validate_dag_value [OF assms(1)]
  have ok: "tasks_ok (g_tasks (v_graph v))" using v(1,5) by simp
  then show c: "tasks_closed (g_tasks (v_graph v))" by simp
  have "run_inv (v_graph v) (kickoff (v_graph v) fp (v_roots v) input)"
    using ok v by (intro kickoff_inv) (simp_all add: tasks_ok_def roots_of_dep_graph)
  from reachable_inv [OF c this assms(2) [unfolded run_of_def]] show "run_inv (v_graph v) s" .
  show "is_topo (dep_graph (g_tasks (v_graph v))) (v_order v)" using v(1,3) by simp
qed



text \<open>A run of the sample graph: the root has been started and has finished.\<close>

definition sample_validation :: dag_validation where
  "sample_validation = (case validate_dag sample_env sample_resolver (sample_dag sample_nodes) of
     Inr v \<Rightarrow> v | Inl e \<Rightarrow> \<lparr>v_graph = sample_dag [], v_task_ids = [], v_roots = [], v_order = [], v_diagnostics = []\<rparr>)"

lemma sample_validation: "validate_dag sample_env sample_resolver (sample_dag sample_nodes) = Inr sample_validation"
  using sample_valid by (auto simp: sample_validation_def)

definition sample_start :: dag_run where
  "sample_start = kickoff (v_graph sample_validation) ''fp'' (v_roots sample_validation) (PInt 1)"

text \<open>One signal taken from the front, and one running task finished with a value.\<close>

definition next_signal :: "dag_run \<Rightarrow> dag_run" where
  "next_signal s =
     (case r_pending s of
        [] \<Rightarrow> s
      | (sig, v) # _ \<Rightarrow>
          if sig = SigGraph then finalize (v_graph sample_validation) (take_signal (sig, v) s)
          else deliver (v_graph sample_validation) 9 sig v (take_signal (sig, v) s))"

definition next_finish :: "pyval \<Rightarrow> dag_run \<Rightarrow> dag_run" where
  "next_finish out s =
     (case r_active s of
        [] \<Rightarrow> s
      | a # _ \<Rightarrow> record_success (v_graph sample_validation) (a_task a) out (drop_active a s))"

definition runs_now :: "dag_run \<Rightarrow> bool" where
  "runs_now s \<longleftrightarrow> (case r_active s of [] \<Rightarrow> False
     | a # _ \<Rightarrow> a_error a = None \<and> \<not> is_approval_task (a_task a) \<and> approval_required (a_task a) = Inr False
         \<and> fallback_retry_config (a_task a) = None)"

lemma run_next_signal:
  "run_of sample_validation 9 ''fp'' (PInt 1) s \<Longrightarrow> run_of sample_validation 9 ''fp'' (PInt 1) (next_signal s)"
  unfolding run_of_def next_signal_def
  by (auto split: list.split prod.split intro!: reachable.step [of _ _ _ s]
      intro: run_step.graph_done run_step.signal)

lemma run_next_finish:
  "run_of sample_validation 9 ''fp'' (PInt 1) s \<Longrightarrow> runs_now s \<Longrightarrow>
     run_of sample_validation 9 ''fp'' (PInt 1) (next_finish out s)"
  unfolding run_of_def next_finish_def runs_now_def
  by (auto split: list.splits intro!: reachable.step [of _ _ _ s]
      run_step.finish [where gate = GateApproved and run = "\<lambda>_. Inr out" and out = out]
      simp: task_body_def body_output_def execute_node_handler_def)






lemma dependency_results_total:
  assumes "deps_ready s n"
  shows "\<exists>ds. dependency_results n s = Inr ds"
proof -
  have "set xs \<subseteq> set (dict_keys (results s)) \<Longrightarrow>
      \<exists>ds. foldE (\<lambda>d acc. case dict_get (results s) d of None \<Rightarrow> Inl (MissingResult d)
        | Some v \<Rightarrow> Inr (dict_set d v acc)) xs acc = Inr ds" for xs acc
  proof (induction xs arbitrary: acc)
    case (Cons x xs)
    then have "dict_get (results s) x \<noteq> None" by (simp add: dict_get_None_iff)
    with Cons show ?case by auto
  qed simp
  with assms show ?thesis by (simp add: dependency_results_def deps_ready_def)
qed

text \<open>
  No task is ever started before its dependencies have results: whenever a signal is
  handled, the lookup of the dependency results of every task it starts succeeds.
\<close>

theorem run_dependencies_present:
  assumes "validate_dag env r g = Inr v" and "run_of v fresh fp input s"
    and "(sig, x) \<in> set (r_pending s)" and "n \<in> set (listeners (v_graph v) sig)"
  shows "\<exists>ds. dependency_results n s = Inr ds"
proof (rule dependency_results_total, rule trigger_ready)
  show "run_inv (v_graph v) s" by (rule validated_run [OF assms(1,2)])
  show "n \<in> set (g_tasks (v_graph v))" using assms(4) by (simp add: listeners_def)
  have "task_trigger n = sig" using assms(4) by (simp add: listeners_def)
  with assms(3) show "task_trigger n \<in> set (emitted s)" by (force simp: emitted_def)
qed

definition sample_before_b :: dag_run where
  "sample_before_b = next_finish (PInt 7) (next_signal sample_start)"

theorem run_dependencies_present_witness:
  "\<exists>ds. dependency_results (sample_node ''b'' ''emit'' [''a'']) sample_before_b = Inr ds"
proof -
  have "run_of sample_validation 9 ''fp'' (PInt 1) sample_start"
    by (simp add: run_of_def sample_start_def reachable.init)
  moreover have "runs_now (next_signal sample_start)" by code_simp
  ultimately have run: "run_of sample_validation 9 ''fp'' (PInt 1) sample_before_b"
    unfolding sample_before_b_def by (intro run_next_finish run_next_signal)
  have p: "(SigDone ''a'', PDict [(''task_id'', PStr ''a''), (''result'', PInt 7)]) \<in> set (r_pending sample_before_b)"
    by code_simp
  have "sample_node ''b'' ''emit'' [''a''] \<in> set (listeners (v_graph sample_validation) (SigDone ''a''))"
    by code_simp
  from run_dependencies_present [OF sample_validation run p this] show ?thesis .
qed

section \<open>What a finished run has done\<close>






end
