(* ===== verification/DagRuntimeCorrect.thy ===== *)
theory DagRuntimeCorrect
  imports DagRuntime
begin

text \<open>
  The retry loop, placeholders and the compile cache: bounds on attempts and delays, which
  inputs are left alone, and what compiling a graph id again does.
\<close>

section \<open>Retries\<close>

lemma retry_config_bounds:
  assumes "fallback_retry_config n = Some c"
  shows "1 \<le> max_attempts c" and "0 < backoff_base c" and "backoff_base c \<le> backoff_max c"
  using assms
  by (auto simp: fallback_retry_config_def Let_def coerce_positive_float_def max_def
      split: if_splits option.splits)

lemma retry_delay_mono:
  assumes "0 < backoff_base c" and "i \<le> j"
  shows "retry_delay c i \<le> retry_delay c j"
proof -
  have "(2::rat) ^ (i - 1) \<le> 2 ^ (j - 1)" using assms(2) by (intro power_increasing) auto
  with assms(1) show ?thesis by (simp add: retry_delay_def min_le_iff_disj mult_left_mono)
qed

lemma retry_delay_bounds:
  assumes "0 < backoff_base c" and "backoff_base c \<le> backoff_max c"
  shows "0 < retry_delay c i" and "retry_delay c i \<le> backoff_max c"
  using assms by (simp_all add: retry_delay_def)

lemma retry_loop_spec:
  assumes "int attempt < max_attempts c" and "delays = map (retry_delay c) [1..<Suc attempt]"
    and "\<forall>k. 1 \<le> k \<and> k \<le> attempt \<longrightarrow> (\<exists>e. run k = Inl e)"
  shows "\<exists>calls. retry_loop c run attempt delays = (run calls, calls, map (retry_delay c) [1..<calls]) \<and>
    1 \<le> calls \<and> int calls \<le> max_attempts c \<and> (\<forall>k. 1 \<le> k \<and> k < calls \<longrightarrow> (\<exists>e. run k = Inl e)) \<and>
    ((\<exists>e. run calls = Inl e) \<longrightarrow> int calls = max_attempts c)"
  using assms
proof (induction c run attempt delays rule: retry_loop.induct)
  case (1 c run attempt delays)
  let ?k = "attempt + 1"
  show ?case
  proof (cases "run ?k")
    case (Inr v)
    then show ?thesis using "1.prems"
      by (intro exI [of _ ?k]) (simp add: retry_loop.simps [of c run attempt])
  next
    case (Inl e)
    show ?thesis
    proof (cases "max_attempts c \<le> int ?k")
      case True
      then show ?thesis using "1.prems" Inl
        by (intro exI [of _ ?k]) (simp add: retry_loop.simps [of c run attempt])
    next
      case False
      have "retry_loop c run attempt delays = retry_loop c run ?k (delays @ [retry_delay c ?k])"
        using False Inl by (simp add: retry_loop.simps [of c run attempt])
      moreover have "delays @ [retry_delay c ?k] = map (retry_delay c) [1..<Suc ?k]" using "1.prems"(2) by simp
      moreover have "\<forall>k. 1 \<le> k \<and> k \<le> ?k \<longrightarrow> (\<exists>e. run k = Inl e)"
        using "1.prems"(3) Inl by (auto simp: le_Suc_eq)
      ultimately show ?thesis using "1.IH" [OF refl Inl False] False by simp
    qed
  qed
qed

text \<open>
  C32: when a node asks for retries, its handler is called at least once and at most
  \<open>max_attempts\<close> times; the result is that of the last call and all earlier calls failed; a
  failure is only reported when all attempts are used; between two calls the runner sleeps
  a positive time, at most \<open>backoff_max\<close>, never less than the time before.
\<close>

theorem retry_bounded:
  assumes c: "fallback_retry_config n = Some c"
    and ex: "execute_node_handler n run = (outcome, calls, delays)"
  shows "1 \<le> calls \<and> int calls \<le> max_attempts c \<and> outcome = run calls \<and>
    (\<forall>k. 1 \<le> k \<and> k < calls \<longrightarrow> (\<exists>e. run k = Inl e)) \<and>
    ((\<exists>e. outcome = Inl e) \<longrightarrow> int calls = max_attempts c) \<and>
    length delays = calls - 1 \<and> sorted delays \<and> (\<forall>x \<in> set delays. 0 < x \<and> x \<le> backoff_max c)"
proof -
  note b = retry_config_bounds [OF c]
  from retry_loop_spec [of 0 c "[]" run] b(1) ex c obtain k where
    k: "outcome = run k" "calls = k" "delays = map (retry_delay c) [1..<k]" "1 \<le> k" "int k \<le> max_attempts c"
      "\<forall>i. 1 \<le> i \<and> i < k \<longrightarrow> (\<exists>e. run i = Inl e)" "(\<exists>e. run k = Inl e) \<longrightarrow> int k = max_attempts c"
    by (auto simp: execute_node_handler_def)
  have "sorted delays" unfolding k(3)
    by (auto simp: sorted_map intro!: sorted_wrt_mono_rel [OF _ sorted_wrt_upt] retry_delay_mono [OF b(2)])
  with k retry_delay_bounds [OF b(2,3)] show ?thesis by auto
qed

definition retry_node :: task_node where
  "retry_node = \<lparr>n_id = ''r'', n_kind = ''emit'', n_title = None, n_purpose = None, n_depends_on = [],
     n_inputs = PDict [], n_binding = PNone, n_produces = [], n_side_effect = [],
     n_fallback = PDict [(''on_error'', PStr '' Retry ''), (''max_attempts'', PInt 4), (''backoff_max'', PInt 1)],
     n_approval = PNone\<rparr>"

theorem retry_bounded_witness:
  "execute_node_handler retry_node (\<lambda>k. if k < 4 then Inl (''E'', ''x'') else Inr (PInt 1)) = (Inr (PInt 1), 4, [1/2, 1, 1])
   \<and> sorted [1/2 :: rat, 1, 1]"
proof -
  let ?run = "\<lambda>k::nat. if k < 4 then Inl (''E'', ''x'') else Inr (PInt 1)"
  have "fallback_retry_config retry_node = Some \<lparr>max_attempts = 4, backoff_base = 1/2, backoff_max = 1\<rparr>"
    by code_simp
  moreover have ex: "execute_node_handler retry_node ?run = (Inr (PInt 1), 4, [1/2, 1, 1])" by code_simp
  ultimately have "sorted [1/2 :: rat, 1, 1]" using retry_bounded by blast
  with ex show ?thesis by blast
qed

section \<open>Compiling a graph id again\<close>

lemma py_eq_signature_id: "py_eq (node_signature a) (node_signature b) \<Longrightarrow> n_id a = n_id b"
  by (simp add: node_signature_def)

lemma py_eq_signatures_ids:
  "py_eq_list (map node_signature ns) (map node_signature ms) \<Longrightarrow> map n_id ns = map n_id ms"
proof (induction ns arbitrary: ms)
  case Nil
  then show ?case by simp
next
  case (Cons n ns)
  then obtain m ms' where "ms = m # ms'" by (cases ms) auto
  with Cons py_eq_signature_id show ?case by auto
qed

lemma graph_signature_ids:
  "py_eq (graph_signature g) (graph_signature h) \<Longrightarrow> map n_id (g_tasks g) = map n_id (g_tasks h)"
  by (simp add: graph_signature_def py_eq_signatures_ids)

lemma cached_handler_mem:
  "set (cc_handlers (cached_handler key cache)) = insert key (set (cc_handlers cache))"
  by (auto simp: cached_handler_def)

lemma cached_handler_known: "key \<in> set (cc_handlers cache) \<Longrightarrow> cached_handler key cache = cache"
  by (simp add: cached_handler_def)

lemma cached_handler_signatures [simp]: "cc_signatures (cached_handler key cache) = cc_signatures cache"
  by (simp add: cached_handler_def)

lemma fold_cached_mem:
  "set (cc_handlers (fold (\<lambda>n. cached_handler (gid, ''run'', n_id n)) ns cache)) =
     set (cc_handlers cache) \<union> (\<lambda>n. (gid, ''run'', n_id n)) ` set ns"
  by (induction ns arbitrary: cache) (auto simp: cached_handler_mem)

lemma fold_cached_known:
  "(\<And>n. n \<in> set ns \<Longrightarrow> (gid, ''run'', n_id n) \<in> set (cc_handlers cache)) \<Longrightarrow>
     fold (\<lambda>n. cached_handler (gid, ''run'', n_id n)) ns cache = cache"
  by (induction ns) (auto simp: cached_handler_known)

lemma fold_cached_signatures [simp]:
  "cc_signatures (fold (\<lambda>n. cached_handler (gid, ''run'', n_id n)) ns cache) = cc_signatures cache"
  by (induction ns arbitrary: cache) auto

lemma compiled_cache:
  assumes "compile_task_dag env fresh graph ri cache = Inr (v, w, cache')"
  shows "dict_get (cc_signatures cache') (g_id (v_graph v)) = Some (graph_signature (v_graph v))"
    and "insert (g_id (v_graph v), ''kickoff'', ''*'') (insert (g_id (v_graph v), ''finalize'', ''*'')
      ((\<lambda>n. (g_id (v_graph v), ''run'', n_id n)) ` set (g_tasks (v_graph v)))) \<subseteq> set (cc_handlers cache')"
  using assms
  by (auto simp: compile_task_dag_def assert_signature_def bindE_eq_Inr Let_def cached_handler_mem
      fold_cached_mem split: option.splits if_splits)

text \<open>
  Compiling a graph id a second time on the same flow builds no handler at all, even
  when the second graph has other inputs or comes with another resolver: the signature that
  is compared covers only ids, kinds, dependencies, text bindings, approvals and fallbacks,
  and every runner of the first compilation is reused, with its task and its resolver.
\<close>

theorem recompile_builds_nothing:
  assumes first: "compile_task_dag env fresh graph ri cache = Inr (v, w, cache1)"
    and second: "compile_task_dag env' fresh' graph' ri' cache1 = Inr (v', w', cache2)"
    and same: "g_id (v_graph v') = g_id (v_graph v)"
  shows "cc_handlers cache2 = cc_handlers cache1"
proof -
  let ?gid = "g_id (v_graph v)"
  note c = compiled_cache [OF first]
  have eq: "py_eq (graph_signature (v_graph v)) (graph_signature (v_graph v'))"
    using second c(1) same
    by (auto simp: compile_task_dag_def assert_signature_def bindE_eq_Inr Let_def split: if_splits)
  let ?c1 = "cache1\<lparr>cc_signatures := dict_set ?gid (graph_signature (v_graph v')) (cc_signatures cache1),
    cc_locks := (if ?gid \<in> set (cc_locks cache1) then cc_locks cache1 else cc_locks cache1 @ [?gid])\<rparr>"
  have "set (map n_id (g_tasks (v_graph v'))) = set (map n_id (g_tasks (v_graph v)))"
    using graph_signature_ids [OF eq] by simp
  then have ids: "n_id ` set (g_tasks (v_graph v')) = n_id ` set (g_tasks (v_graph v))" by simp
  have known: "(?gid, ''run'', n_id n) \<in> set (cc_handlers ?c1)" if "n \<in> set (g_tasks (v_graph v'))" for n
  proof -
    from that ids have "n_id n \<in> n_id ` set (g_tasks (v_graph v))" by blast
    then obtain m where "m \<in> set (g_tasks (v_graph v))" "n_id n = n_id m" by blast
    with c(2) show ?thesis by auto
  qed
  have "cache2 = cached_handler (?gid, ''finalize'', ''*'')
      (fold (\<lambda>n. cached_handler (?gid, ''run'', n_id n)) (g_tasks (v_graph v'))
        (cached_handler (?gid, ''kickoff'', ''*'') ?c1))"
    using second c(1) same
    by (auto simp: compile_task_dag_def assert_signature_def bindE_eq_Inr Let_def split: if_splits)
  moreover have "cached_handler (?gid, ''kickoff'', ''*'') ?c1 = ?c1"
    by (rule cached_handler_known) (use c(2) in simp)
  moreover have "fold (\<lambda>n. cached_handler (?gid, ''run'', n_id n)) (g_tasks (v_graph v')) ?c1 = ?c1"
    by (rule fold_cached_known) (rule known)
  moreover have "cached_handler (?gid, ''finalize'', ''*'') ?c1 = ?c1"
    by (rule cached_handler_known) (use c(2) in simp)
  ultimately have "cache2 = ?c1" by (simp only:)
  then show ?thesis by simp
qed

text \<open>Two graphs with the same id and tasks, whose task has other inputs.\<close>

definition input_dag :: "pyval \<Rightarrow> task_dag" where
  "input_dag i =
     \<lparr>g_id = ''g'', g_tasks = [retry_node\<lparr>n_inputs := i\<rparr>], g_schema = ''v'', g_semantic = PDict [],
      g_policies = [], g_diagnostics = []\<rparr>"

definition plain_env :: py_env where
  "plain_env = \<lparr>env_callable = (\<lambda>i. True), env_factory = (\<lambda>i. None)\<rparr>"

definition first_cache :: compile_cache where
  "first_cache = (case compile_task_dag plain_env [] (DagObject (input_dag (PInt 1))) (ResolverEntries []) empty_cache of
     Inr (v, w, c) \<Rightarrow> c | Inl e \<Rightarrow> empty_cache)"

theorem recompile_builds_nothing_witness:
  "\<exists>v w c. compile_task_dag plain_env [] (DagObject (input_dag (PInt 2))) (ResolverEntries []) first_cache = Inr (v, w, c)
     \<and> map n_inputs (g_tasks (v_graph v)) = [PInt 2] \<and> cc_handlers c = cc_handlers first_cache"
proof -
  have "(case compile_task_dag plain_env [] (DagObject (input_dag (PInt 1))) (ResolverEntries []) empty_cache of
      Inr (v, w, c) \<Rightarrow> c = first_cache \<and> g_id (v_graph v) = ''g'' | Inl e \<Rightarrow> False)" by code_simp
  then obtain v1 w1 where one: "compile_task_dag plain_env [] (DagObject (input_dag (PInt 1))) (ResolverEntries []) empty_cache
      = Inr (v1, w1, first_cache)" "g_id (v_graph v1) = ''g''" by (auto split: sum.splits)
  have "(case compile_task_dag plain_env [] (DagObject (input_dag (PInt 2))) (ResolverEntries []) first_cache of
      Inr (v, w, c) \<Rightarrow> map n_inputs (g_tasks (v_graph v)) = [PInt 2] \<and> g_id (v_graph v) = ''g'' | Inl e \<Rightarrow> False)" by code_simp
  then obtain v2 w2 c2 where two: "compile_task_dag plain_env [] (DagObject (input_dag (PInt 2))) (ResolverEntries []) first_cache
      = Inr (v2, w2, c2)" "map n_inputs (g_tasks (v_graph v2)) = [PInt 2]" "g_id (v_graph v2) = ''g''"
    by (auto split: sum.splits)
  from recompile_builds_nothing [OF one(1) two(1)] one(2) two show ?thesis by auto
qed

end
