(* ===== verification/DataPathCorrect.thy ===== *)
theory DataPathCorrect
  imports DataPath
begin

text \<open>
  Paths against a reference lookup \<open>follow\<close> along a list of keys: when locating a built path
  is that lookup, which paths the code cannot read, when the scan of a dot path ends, and
  the round trip between the two styles.
\<close>

section \<open>The reference\<close>

fun follow :: "path_key list \<Rightarrow> pyval \<Rightarrow> pyval option" where
  "follow [] v = Some v"
| "follow (KInt i # ks) v =
     (case seq_items v of
        None \<Rightarrow> None
      | Some xs \<Rightarrow> (case py_index xs i of None \<Rightarrow> None | Some x \<Rightarrow> follow ks x))"
| "follow (KStr s # ks) v =
     (if s \<in> set wild_texts then
        (case seq_items v of
           None \<Rightarrow> None
         | Some xs \<Rightarrow> map_option PList (those (map (follow ks) xs)))
      else case v of
        PDict d \<Rightarrow> (case dict_get d s of None \<Rightarrow> None | Some w \<Rightarrow> follow ks w)
      | _ \<Rightarrow> None)"

definition is_bracket :: "path_key \<Rightarrow> bool" where
  "is_bracket k \<longleftrightarrow> (case k of KInt _ \<Rightarrow> True | KStr s \<Rightarrow> s \<in> set wild_texts)"

definition plain_text :: "string \<Rightarrow> bool" where
  "plain_text s \<longleftrightarrow> s \<noteq> [] \<and> CHR ''.'' \<notin> set s \<and> CHR ''['' \<notin> set s \<and> CHR ''/'' \<notin> set s"

definition plain_key :: "path_key \<Rightarrow> bool" where
  "plain_key k \<longleftrightarrow> is_bracket k \<or> plain_text (key_text k)"

fun single_brackets :: "path_key list \<Rightarrow> bool" where
  "single_brackets (k # l # ks) = (\<not> (is_bracket k \<and> is_bracket l) \<and> single_brackets (l # ks))"
| "single_brackets ks = True"

text \<open>The value has no occurrence of an object: then that object is a usable default.\<close>

fun obj_free :: "nat \<Rightarrow> pyval \<Rightarrow> bool" where
  "obj_free i (PList xs) = (\<forall>x \<in> set xs. obj_free i x)"
| "obj_free i (PTuple xs) = (\<forall>x \<in> set xs. obj_free i x)"
| "obj_free i (PSet xs) = (\<forall>x \<in> set xs. obj_free i x)"
| "obj_free i (PDict d) = (\<forall>(k, v) \<in> set d. obj_free i v)"
| "obj_free i (PObj j t) = (i \<noteq> j)"
| "obj_free i v = True"

lemma obj_free_items: "obj_free i v \<Longrightarrow> seq_items v = Some xs \<Longrightarrow> x \<in> set xs \<Longrightarrow> obj_free i x"
  by (cases v) auto

lemma obj_free_get: "obj_free i (PDict d) \<Longrightarrow> dict_get d k = Some v \<Longrightarrow> obj_free i v"
  by (auto dest!: dict_get_Some_mem)

lemma py_index_mem: "py_index xs i = Some x \<Longrightarrow> x \<in> set xs"
  by (auto simp: py_index_def split: if_splits)

lemma those_mem: "those xs = Some ys \<Longrightarrow> y \<in> set ys \<Longrightarrow> Some y \<in> set xs"
  by (induction xs arbitrary: ys) (auto split: option.splits)

lemma follow_obj_free: "obj_free i v \<Longrightarrow> follow ks v = Some w \<Longrightarrow> obj_free i w"
proof (induction ks v arbitrary: w rule: follow.induct)
  case (2 j ks v)
  then show ?case by (auto split: option.splits dest: py_index_mem obj_free_items)
next
  case (3 s ks v)
  show ?case
  proof (cases "s \<in> set wild_texts")
    case True
    with "3.prems"(2) obtain xs ys where xs: "seq_items v = Some xs" "those (map (follow ks) xs) = Some ys"
      "w = PList ys" by (auto split: option.splits)
    have "obj_free i y" if "y \<in> set ys" for y
    proof -
      from those_mem [OF xs(2) that] obtain x where "x \<in> set xs" "follow ks x = Some y" by auto
      with "3.IH"(1) [OF True xs(1)] obj_free_items [OF "3.prems"(1) xs(1)] show ?thesis by blast
    qed
    with xs(3) show ?thesis by simp
  next
    case False
    with "3.prems"(2) obtain d u where "v = PDict d" "dict_get d s = Some u" "follow ks u = Some w"
      by (auto split: pyval.splits option.splits)
    with "3.IH"(2) [OF False] "3.prems"(1) obj_free_get show ?thesis by blast
  qed
qed simp

section \<open>The segments of a built path\<close>

fun segments :: "path_key list \<Rightarrow> string list" where
  "segments [] = []"
| "segments [k] = [dot_part True k]"
| "segments (k # l # ks) =
     (if \<not> is_bracket k \<and> is_bracket l then (dot_part True k @ dot_part True l) # segments ks
      else dot_part True k # segments (l # ks))"

lemma dot_part_bracket: "is_bracket k \<Longrightarrow> dot_part False k = dot_part True k"
  by (cases k) (auto simp: is_bracket_def)

lemma dot_part_field: "\<not> is_bracket k \<Longrightarrow> dot_part False k = CHR ''.'' # dot_part True k"
  by (cases k) (auto simp: is_bracket_def)

lemma segments_nonempty [simp]: "segments ks = [] \<longleftrightarrow> ks = []"
  by (cases ks rule: segments.cases) auto

lemma concat_dot_parts:
  "single_brackets ks \<Longrightarrow> ks \<noteq> [] \<Longrightarrow>
     dot_part True (hd ks) @ concat (map (dot_part False) (tl ks)) = join ''.'' (segments ks)"
proof (induction ks rule: segments.induct)
  case (3 k l ks)
  show ?case
  proof (cases "\<not> is_bracket k \<and> is_bracket l")
    case True
    then show ?thesis
    proof (cases ks)
      case (Cons m ms)
      with True "3.prems" have "\<not> is_bracket m" by simp
      have IH: "dot_part True m @ concat (map (dot_part False) ms) = join ''.'' (segments ks)"
        using "3.IH"(1) [OF True] "3.prems" Cons by (cases ms) simp_all
      obtain p ps where ps: "segments ks = p # ps" using Cons by (metis neq_Nil_conv segments_nonempty)
      have "segments (k # l # ks) = (dot_part True k @ dot_part True l) # p # ps"
        using True ps by simp
      with IH ps True \<open>\<not> is_bracket m\<close> Cons show ?thesis
        by (simp add: dot_part_bracket dot_part_field del: segments.simps)
    qed (use True in \<open>simp add: dot_part_bracket\<close>)
  next
    case False
    with "3.prems" have "\<not> is_bracket l" by auto
    obtain p ps where ps: "segments (l # ks) = p # ps" by (metis list.distinct(1) neq_Nil_conv segments_nonempty)
    have "dot_part True l @ concat (map (dot_part False) ks) = join ''.'' (segments (l # ks))"
      using "3.IH"(2) [OF False] "3.prems" by simp
    moreover have "segments (k # l # ks) = dot_part True k # p # ps"
      using \<open>\<not> is_bracket l\<close> ps by simp
    ultimately show ?thesis using ps \<open>\<not> is_bracket l\<close>
      by (simp add: dot_part_field del: segments.simps)
  qed
qed simp_all

lemma build_dot_path_join: "single_brackets ks \<Longrightarrow> build_dot_path ks = join ''.'' (segments ks)"
  using concat_dot_parts [of ks] by (cases ks) (simp_all add: build_dot_path_def)

lemma digit_not_punct:
  "c \<in> set (int_text i) \<Longrightarrow> c \<notin> {CHR ''.'', CHR ''['', CHR '']'', CHR ''/'', CHR ''*''}"
proof
  assume c: "c \<in> set (int_text i)" and p: "c \<in> {CHR ''.'', CHR ''['', CHR '']'', CHR ''/'', CHR ''*''}"
  from c have "c = CHR ''-'' \<or> is_dec_digit c"
    by (auto simp: int_text_def dest: nat_text_digits split: if_splits)
  with p show False by (auto simp: is_dec_digit_def code_in_def)
qed

lemma int_text_nonempty [simp]: "int_text i \<noteq> []"
  by (simp add: int_text_def)

lemma split_once_append: "c \<notin> set p \<Longrightarrow> split_once c (p @ c # q) = (p, Some q)"
  by (induction p) auto

lemma split_once_none: "c \<notin> set p \<Longrightarrow> split_once c p = (p, None)"
  by (induction p) auto

text \<open>The text inside the brackets of a bracket key.\<close>

definition inner_text :: "path_key \<Rightarrow> string" where
  "inner_text k = (case k of KInt i \<Rightarrow> int_text i | KStr _ \<Rightarrow> ''*'')"

lemma dot_part_inner: "is_bracket k \<Longrightarrow> dot_part b k = CHR ''['' # inner_text k @ '']''"
  by (cases k) (auto simp: is_bracket_def inner_text_def)

lemma inner_text_clean:
  "CHR ''.'' \<notin> set (inner_text k)" "CHR '']'' \<notin> set (inner_text k)" "CHR ''/'' \<notin> set (inner_text k)"
  "inner_text k \<noteq> []"
  by (cases k; auto simp: inner_text_def dest: digit_not_punct)+

lemma dot_part_plain: "\<not> is_bracket k \<Longrightarrow> dot_part True k = key_text k"
  by (cases k) (auto simp: is_bracket_def)

lemma segment_no_dot:
  "plain_key k \<Longrightarrow> CHR ''.'' \<notin> set (dot_part True k)"
  by (cases "is_bracket k")
    (auto simp: dot_part_inner dot_part_plain plain_key_def plain_text_def inner_text_clean)

lemma segments_no_dot:
  "(\<forall>k \<in> set ks. plain_key k) \<Longrightarrow> p \<in> set (segments ks) \<Longrightarrow> CHR ''.'' \<notin> set p"
  by (induction ks rule: segments.induct) (auto dest: segment_no_dot split: if_splits)

lemma split_build_dot_path:
  assumes "single_brackets ks" and "\<forall>k \<in> set ks. plain_key k" and "ks \<noteq> []"
  shows "split_on (CHR ''.'') (build_dot_path ks) = segments ks"
  unfolding build_dot_path_join [OF assms(1)]
  by (rule split_on_join) (use assms segments_no_dot in auto)

section \<open>Locating a built path is the reference lookup\<close>

lemma locate_each_those:
  assumes "\<And>x. x \<in> set xs \<Longrightarrow> f x = h x"
    and "\<And>x y. x \<in> set xs \<Longrightarrow> h x = Some y \<Longrightarrow> \<not> py_is y dflt"
  shows "locate_each dflt f xs = those (map h xs)"
  using assms
proof (induction xs)
  case (Cons x xs)
  have "locate_each dflt f xs = those (map h xs)"
    by (rule Cons.IH) (use Cons.prems in auto)
  with Cons.prems(1) [of x] Cons.prems(2) [of x] show ?case
    by (cases "h x") (auto simp: is_default_def or_default_def)
qed simp

lemma not_is_fresh: "obj_free i v \<Longrightarrow> \<not> py_is v (fresh_object i)"
  by (cases v) (auto simp: fresh_object_def)

lemma locate_items_follow:
  assumes "obj_free i v" and "\<And>x. obj_free i x \<Longrightarrow> f x = follow ks x"
  shows "locate_items (fresh_object i) f v =
    (case seq_items v of None \<Rightarrow> None | Some xs \<Rightarrow> map_option PList (those (map (follow ks) xs)))"
proof (cases "seq_items v")
  case (Some xs)
  have "locate_each (fresh_object i) f xs = those (map (follow ks) xs)"
    by (rule locate_each_those)
      (use assms obj_free_items [OF assms(1) Some] not_is_fresh follow_obj_free in blast)+
  with Some show ?thesis by (simp add: locate_items_def)
qed (simp add: locate_items_def)

lemma locate_at_follow:
  assumes "obj_free i v" and "\<And>x. obj_free i x \<Longrightarrow> f x = follow ks x"
  shows "locate_at f (int_text j) v = follow (KInt j # ks) v"
proof (cases "seq_items v")
  case (Some xs)
  then show ?thesis
    using assms(2) obj_free_items [OF assms(1) Some]
    by (auto simp: locate_at_def int_of_text_int_text split: option.splits dest!: py_index_mem)
qed (simp add: locate_at_def int_of_text_int_text)

lemma bracket_step:
  assumes "is_bracket k" and "obj_free i v" and "\<And>x. obj_free i x \<Longrightarrow> f x = follow ks x"
  shows "(inner_text k = ''*'' \<longrightarrow> locate_items (fresh_object i) f v = follow (k # ks) v) \<and>
    (inner_text k \<noteq> ''*'' \<longrightarrow> locate_at f (inner_text k) v = follow (k # ks) v)"
proof (cases k)
  case (KStr s)
  with assms(1) have "s \<in> set wild_texts" by (simp add: is_bracket_def)
  with KStr locate_items_follow [OF assms(2,3)]
  show ?thesis
    by (simp_all add: inner_text_def)
next
  case (KInt j)
  have "int_text j \<noteq> ''*''" using digit_not_punct [of "CHR ''*''" j] by auto
  with KInt locate_at_follow [OF assms(2,3)]
  show ?thesis
    by (simp_all add: inner_text_def del: follow.simps)
qed

lemma bracket_only_seq: "is_bracket k \<Longrightarrow> seq_items v = None \<Longrightarrow> follow (k # ks) v = None"
  by (cases k) (auto simp: is_bracket_def)

lemma field_follow:
  "\<not> is_bracket k \<Longrightarrow> follow (k # ks) v =
     (case v of PDict d \<Rightarrow> (case dict_get d (key_text k) of None \<Rightarrow> None | Some w \<Rightarrow> follow ks w) | _ \<Rightarrow> None)"
  by (cases k) (auto simp: is_bracket_def split: pyval.splits)

lemma locate_dot_default: "ps \<noteq> [] \<Longrightarrow> locate_dot (fresh_object i) ps None = None"
  by (cases ps) (auto simp: or_default_def fresh_object_def Let_def split: prod.splits option.splits)

lemma locate_dot_segments:
  assumes "\<forall>k \<in> set ks. plain_key k" and "single_brackets ks" and "obj_free i v"
  shows "locate_dot (fresh_object i) (segments ks) (Some v) = follow ks v"
  using assms
proof (induction ks arbitrary: v rule: segments.induct)
  case (2 k)
  show ?case
  proof (cases "is_bracket k")
    case True
    have f: "locate_dot (fresh_object i) [] (Some x) = follow [] x" for x by simp
    from True bracket_step [OF True "2.prems"(3) f] bracket_only_seq [OF True, of v "[]"] show ?thesis
      by (cases "seq_items v") (simp_all add: dot_part_inner inner_text_clean Let_def or_default_def del: follow.simps)
  next
    case False
    then have "CHR ''['' \<notin> set (key_text k)" using "2.prems"(1) by (simp add: plain_key_def plain_text_def)
    with False show ?thesis
      by (simp add: dot_part_plain split_once_none or_default_def field_follow del: follow.simps(2,3)
          split: pyval.splits option.splits)
  qed
next
  case (3 k l ks)
  show ?case
  proof (cases "\<not> is_bracket k \<and> is_bracket l")
    case True
    have IH: "obj_free i x \<Longrightarrow> locate_dot (fresh_object i) (segments ks) (Some x) = follow ks x" for x
    proof (rule "3.IH"(1) [OF True])
      show "single_brackets ks" using "3.prems"(2) by (cases ks) auto
    qed (use "3.prems" in auto)
    have key: "CHR ''['' \<notin> set (key_text k)" "key_text k \<noteq> []"
      using True "3.prems"(1) by (auto simp: plain_key_def plain_text_def)
    have split: "split_once (CHR ''['') (dot_part True k @ dot_part True l)
        = (key_text k, Some (inner_text l @ '']''))"
      using True key by (simp add: dot_part_plain dot_part_inner split_once_append)
    show ?thesis
    proof (cases v)
      case (PDict d)
      show ?thesis
      proof (cases "dict_get d (key_text k)")
        case None
        with True split key PDict show ?thesis
          by (simp add: Let_def or_default_def field_follow locate_items_def locate_at_def
              fresh_object_def del: follow.simps split: option.splits)
      next
        case (Some w)
        from Some "3.prems"(3) PDict have "obj_free i w" using obj_free_get by blast
        with bracket_step [OF _ this IH, of l] True split key PDict Some show ?thesis
          by (simp add: inner_text_clean Let_def or_default_def field_follow del: follow.simps)
      qed
    qed (use True split key in \<open>simp_all add: Let_def or_default_def field_follow del: follow.simps\<close>)
  next
    case False
    then have l: "\<not> is_bracket l" using "3.prems"(2) by auto
    have IH: "obj_free i x \<Longrightarrow> locate_dot (fresh_object i) (segments (l # ks)) (Some x) = follow (l # ks) x" for x
      by (rule "3.IH"(2) [OF False]) (use "3.prems" in auto)
    have segs: "segments (k # l # ks) = dot_part True k # segments (l # ks)" using l by simp
    show ?thesis
    proof (cases "is_bracket k")
      case True
      from True bracket_step [OF True "3.prems"(3) IH] bracket_only_seq [OF True, of v "l # ks"] show ?thesis
        unfolding segs
        by (cases "seq_items v")
          (simp_all add: dot_part_inner inner_text_clean Let_def or_default_def del: follow.simps segments.simps)
    next
      case kf: False
      then have "CHR ''['' \<notin> set (key_text k)" using "3.prems"(1) by (simp add: plain_key_def plain_text_def)
      moreover have "obj_free i w" if "v = PDict d" "dict_get d (key_text k) = Some w" for d w
        using that "3.prems"(3) obj_free_get by blast
      ultimately show ?thesis using kf IH unfolding segs
        by (cases v) (auto simp: dot_part_plain split_once_none or_default_def field_follow locate_dot_default
            simp del: follow.simps(2,3) segments.simps obj_free.simps split: option.splits)
    qed
  qed
qed simp

section \<open>Properties of paths\<close>

lemma build_dot_path_nonempty:
  assumes "\<forall>k \<in> set ks. plain_key k" and "ks \<noteq> []"
  shows "build_dot_path ks \<noteq> []"
proof (cases ks)
  case (Cons k js)
  have "dot_part True k \<noteq> []"
    using assms Cons by (cases "is_bracket k") (auto simp: dot_part_inner dot_part_plain plain_key_def plain_text_def)
  with Cons show ?thesis by (simp add: build_dot_path_def)
qed (use assms in simp)

text \<open>
  C35: a dot path built from keys is located exactly where the reference lookup finds it:
  the value when there is one, the default otherwise, with \<open>[*]\<close> mapping over a list and
  negative indices counting from the end.  The keys are field names without dot, bracket or
  slash, with at most one bracket after each; the default is an object not in the data.
\<close>

theorem locate_built_dot_path:
  assumes "\<forall>k \<in> set ks. plain_key k" and "single_brackets ks" and "obj_free i v"
  shows "locate_path_in_dict v (build_dot_path ks) Dot (fresh_object i) = follow ks v"
proof (cases "ks = []")
  case True
  then show ?thesis by (simp add: build_dot_path_def locate_path_in_dict_def)
next
  case False
  with build_dot_path_nonempty [OF assms(1)] locate_dot_segments [OF assms]
    split_build_dot_path [OF assms(2,1)] show ?thesis by (simp add: locate_path_in_dict_def)
qed

definition sample_value :: pyval where
  "sample_value = PDict [(''user'', PDict [(''tags'', PList [PStr ''x'', PStr ''y''])]),
     (''rows'', PList [PDict [(''id'', PInt 1)], PDict [(''id'', PInt 2)]]),
     (''grid'', PList [PList [PInt 5]])]"

theorem locate_built_dot_path_witness:
  "locate_path_in_dict sample_value (build_dot_path [KStr ''rows'', KStr ''*'', KStr ''id'']) Dot (fresh_object 7)
     = Some (PList [PInt 1, PInt 2])"
proof -
  have "\<forall>k \<in> set [KStr ''rows'', KStr ''*'', KStr ''id'']. plain_key k" by code_simp
  moreover have "single_brackets [KStr ''rows'', KStr ''*'', KStr ''id'']" by code_simp
  moreover have "obj_free 7 sample_value" by code_simp
  ultimately have "locate_path_in_dict sample_value (build_dot_path [KStr ''rows'', KStr ''*'', KStr ''id'']) Dot (fresh_object 7)
     = follow [KStr ''rows'', KStr ''*'', KStr ''id''] sample_value"
    by (rule locate_built_dot_path)
  also have "\<dots> = Some (PList [PInt 1, PInt 2])" by code_simp
  finally show ?thesis .
qed

definition slash_key :: "path_key \<Rightarrow> bool" where
  "slash_key k \<longleftrightarrow> key_text k \<noteq> [] \<and> CHR ''/'' \<notin> set (key_text k) \<and>
     (is_bracket k \<or> \<not> bracketed (key_text k))"

lemma split_build_slash_path:
  assumes "\<forall>k \<in> set ks. slash_key k" and "ks \<noteq> []"
  shows "filter (\<lambda>p. p \<noteq> []) (split_on (CHR ''/'') (build_slash_path ks)) = map key_text ks"
proof -
  have "split_on (CHR ''/'') (join ''/'' (map key_text ks)) = map key_text ks"
    by (rule split_on_join) (use assms in \<open>auto simp: slash_key_def\<close>)
  moreover have "filter (\<lambda>p. p \<noteq> []) (map key_text ks) = map key_text ks"
    using assms(1) by (induction ks) (auto simp: slash_key_def)
  ultimately show ?thesis using assms(2) by (simp add: build_slash_path_def)
qed

definition slash_inner :: "string \<Rightarrow> string" where
  "slash_inner part = (if bracketed part then butlast (tl part) else part)"

lemma slash_inner_wild: "s \<in> set wild_texts \<Longrightarrow> slash_inner s = ''*'' \<or> slash_inner s = []"
  by (auto simp: wild_texts_def slash_inner_def bracketed_def)

lemma slash_inner_int: "slash_inner (int_text i) = int_text i"
proof -
  have "hd (int_text i) \<noteq> CHR ''[''"
    using digit_not_punct [OF hd_in_set [OF int_text_nonempty], of i] by simp
  then show ?thesis by (simp add: slash_inner_def bracketed_def)
qed

lemma those_locate_each:
  assumes "those (map h xs) = Some ys" and "\<And>x y. x \<in> set xs \<Longrightarrow> h x = Some y \<Longrightarrow> f x = Some y \<and> \<not> py_is y dflt"
  shows "locate_each dflt f xs = Some ys"
  using assms
proof (induction xs arbitrary: ys)
  case (Cons x xs)
  then obtain y zs where y: "h x = Some y" "those (map h xs) = Some zs" "ys = y # zs"
    by (auto split: option.splits)
  have "locate_each dflt f xs = Some zs"
    by (rule Cons.IH [OF y(2)]) (use Cons.prems(2) in auto)
  with Cons.prems(2) [of x y] y show ?case by (simp add: is_default_def or_default_def)
qed simp

lemma locate_slash_follow:
  assumes "follow ks v = Some w" and "\<forall>k \<in> set ks. slash_key k" and "obj_free i v"
  shows "locate_slash (fresh_object i) (map key_text ks) (Some v) = Some w"
  using assms
proof (induction ks v arbitrary: w rule: follow.induct)
  case (2 j ks v)
  from "2.prems"(1) obtain xs x where xs: "seq_items v = Some xs" "py_index xs j = Some x" "follow ks x = Some w"
    by (auto split: option.splits)
  have IH: "locate_slash (fresh_object i) (map key_text ks) (Some x) = Some w"
    by (rule "2.IH" [OF xs(1,2,3)]) (use "2.prems" obj_free_items [OF _ xs(1) py_index_mem [OF xs(2)]] in auto)
  have "int_text j \<noteq> ''*''" using digit_not_punct [of "CHR ''*''" j] by auto
  with xs IH slash_inner_int [of j] show ?case
    by (cases v) (simp_all add: Let_def or_default_def slash_inner_def [symmetric] locate_at_def int_of_text_int_text)
next
  case (3 s ks v)
  show ?case
  proof (cases "s \<in> set wild_texts")
    case True
    with "3.prems"(1) obtain xs ys where xs: "seq_items v = Some xs" "those (map (follow ks) xs) = Some ys"
      "w = PList ys" by (auto split: option.splits)
    have "locate_each (fresh_object i) (\<lambda>x. locate_slash (fresh_object i) (map key_text ks) (Some x)) xs = Some ys"
    proof (rule those_locate_each [OF xs(2)], goal_cases)
      case (1 x y)
      have ob: "obj_free i x" using obj_free_items [OF "3.prems"(3) xs(1) 1(1)] .
      with 1 "3.IH"(1) [OF True xs(1) 1] "3.prems"(2) follow_obj_free [OF ob 1(2)] not_is_fresh show ?case by auto
    qed
    with xs slash_inner_wild [OF True] show ?thesis
      by (auto simp: Let_def or_default_def slash_inner_def [symmetric] locate_items_def)
  next
    case False
    with "3.prems"(1) obtain d u where d: "v = PDict d" "dict_get d s = Some u" "follow ks u = Some w"
      by (auto split: pyval.splits option.splits)
    have "obj_free i u" using "3.prems"(3) d(1,2) obj_free_get by blast
    with "3.IH"(2) [OF False d] "3.prems"(2) have IH: "locate_slash (fresh_object i) (map key_text ks) (Some u) = Some w" by simp
    have "\<not> bracketed s" "s \<noteq> []" "s \<noteq> ''*''"
      using "3.prems"(2) False by (auto simp: slash_key_def is_bracket_def wild_texts_def)
    with IH d show ?thesis by (simp add: Let_def or_default_def)
  qed
qed simp

text \<open>
  Whatever the reference lookup finds along a list of keys, the slash path built from
  the keys locates; there the keys may have several brackets in a row.
\<close>

theorem locate_built_slash_path:
  assumes "\<forall>k \<in> set ks. slash_key k" and "obj_free i v" and "follow ks v = Some w"
  shows "locate_path_in_dict v (build_slash_path ks) Slash (fresh_object i) = Some w"
proof (cases "ks = []")
  case True
  with assms(3) show ?thesis by (simp add: build_slash_path_def locate_path_in_dict_def)
next
  case False
  then have "build_slash_path ks \<noteq> []" by (simp add: build_slash_path_def)
  with split_build_slash_path [OF assms(1) False] locate_slash_follow [OF assms(3,1,2)]
  show ?thesis by (simp add: locate_path_in_dict_def)
qed

theorem locate_built_slash_path_witness:
  "locate_path_in_dict sample_value (build_slash_path [KStr ''grid'', KInt 0, KInt (-1)]) Slash (fresh_object 7)
     = Some (PInt 5)"
proof (rule locate_built_slash_path)
  show "\<forall>k \<in> set [KStr ''grid'', KInt 0, KInt (-1)]. slash_key k" by code_simp
  show "obj_free 7 sample_value" by code_simp
  show "follow [KStr ''grid'', KInt 0, KInt (-1)] sample_value = Some (PInt 5)" by code_simp
qed

section \<open>What the code cannot read\<close>

lemma mem_dropWhile: "c \<in> set s \<Longrightarrow> \<not> P c \<Longrightarrow> c \<in> set (dropWhile P s)"
  by (induction s) auto

lemma mem_strip: "c \<in> set s \<Longrightarrow> \<not> is_space c \<Longrightarrow> c \<in> set (strip s)"
  by (simp add: strip_def rstrip_def lstrip_def mem_dropWhile)

lemma digits_val_chars:
  "digits_val prev acc s = Some n \<Longrightarrow> c \<in> set s \<Longrightarrow> is_dec_digit c \<or> c = CHR ''_''"
  by (induction prev acc s rule: digits_val.induct) (auto split: if_splits)

lemma int_of_text_bracket: "CHR '']'' \<in> set s \<Longrightarrow> int_of_text s = None"
proof (rule ccontr)
  assume s: "CHR '']'' \<in> set s" and "int_of_text s \<noteq> None"
  then obtain n where n: "digits_val False 0 (snd (signed_text (strip s))) = Some n"
    by (auto simp: int_of_text_def split: prod.splits)
  have "CHR '']'' \<in> set (strip s)" using s by (rule mem_strip) (simp add: is_space_def code_in_def)
  then have "CHR '']'' \<in> set (snd (signed_text (strip s)))"
    by (auto simp: signed_text_def split: list.splits)
  from digits_val_chars [OF n this] show False by (simp add: is_dec_digit_def code_in_def)
qed

text \<open>
  The dot lookup cannot read two brackets in a row.  A path through a list of lists,
  such as \<open>grid[0][0]\<close> or \<open>grid[*][*]\<close>, which \<open>build_dot_path\<close> produces, is always reported
  missing, whatever the data.
\<close>

theorem locate_double_bracket:
  assumes "plain_text a" and "a \<notin> set wild_texts" and "is_bracket k" and "is_bracket l"
  shows "locate_path_in_dict v (build_dot_path [KStr a, k, l]) Dot (fresh_object i) = None"
proof -
  let ?inner = "inner_text k @ '']['' @ inner_text l"
  have p: "build_dot_path [KStr a, k, l] = a @ CHR ''['' # ?inner @ '']''"
    using assms by (simp add: build_dot_path_def dot_part_bracket dot_part_inner)
  have "CHR ''.'' \<notin> set (build_dot_path [KStr a, k, l])"
    using assms(1) inner_text_clean by (auto simp: p plain_text_def)
  moreover have "?inner \<noteq> ''*''"
    by (cases "inner_text k") auto
  moreover have "int_of_text ?inner = None" by (rule int_of_text_bracket) simp
  ultimately show ?thesis
    using assms(1) p
    by (simp add: locate_path_in_dict_def split_on_single split_once_append plain_text_def or_default_def
        locate_at_def Let_def butlast_append split: pyval.splits)
qed

theorem locate_double_bracket_witness:
  "locate_path_in_dict sample_value (build_dot_path [KStr ''grid'', KInt 0, KInt 0]) Dot (fresh_object 7) = None
   \<and> follow [KStr ''grid'', KInt 0, KInt 0] sample_value = Some (PInt 5)"
proof
  have "plain_text ''grid''" "''grid'' \<notin> set wild_texts" "is_bracket (KInt 0)" by code_simp+
  from locate_double_bracket [OF this this(3)]
  show "locate_path_in_dict sample_value (build_dot_path [KStr ''grid'', KInt 0, KInt 0]) Dot (fresh_object 7) = None" .
  show "follow [KStr ''grid'', KInt 0, KInt 0] sample_value = Some (PInt 5)" by code_simp
qed

section \<open>The scan of a dot path\<close>

lemma split_once_rest: "split_once c s = (p, Some r) \<Longrightarrow> s = p @ c # r"
  by (induction s arbitrary: p) (auto split: if_splits prod.splits)

lemma split_once_rest_none: "split_once c s = (p, None) \<Longrightarrow> c \<notin> set s"
  by (induction s arbitrary: p) (auto split: if_splits prod.splits)

text \<open>A \<open>[\<close> the scan reaches with no \<open>]\<close> after it.\<close>

function unclosed :: "string \<Rightarrow> bool" where
  "unclosed [] = False"
| "unclosed (c # cs) =
     (if c = CHR ''['' then
        (case split_once (CHR '']'') cs of (_, None) \<Rightarrow> True | (_, Some after) \<Rightarrow> unclosed after)
      else unclosed cs)"
  by pat_completeness auto
termination
  by (relation "measure length") (auto dest!: split_once_rest [OF sym])

lemma dot_loop_unclosed:
  assumes "dot_loop b path rest buffer parts = Some ps"
  shows "unclosed path \<longrightarrow> \<not> unclosed rest"
proof (rule dot_loop.raw_induct [OF _ assms], goal_cases)
  case (1 loop b path rest buffer parts ps)
  show ?case
  proof (cases rest)
    case (Cons c cs)
    show ?thesis
    proof (cases "c = CHR ''[''")
      case True
      obtain inner r where s: "split_once (CHR '']'') cs = (inner, r)" by force
      show ?thesis
      proof (cases r)
        case None
        with 1(2) Cons True s have "unclosed path \<longrightarrow> \<not> unclosed path" by (intro 1(1)) auto
        then show ?thesis by simp
      next
        case (Some after)
        with 1(2) Cons True s have "unclosed path \<longrightarrow> \<not> unclosed after" by (intro 1(1)) auto
        with Cons True s Some show ?thesis by simp
      qed
    next
      case False
      with 1(1) 1(2) Cons show ?thesis by (auto split: if_splits)
    qed
  qed simp
qed

lemma dot_loop_closed:
  "\<not> unclosed rest \<Longrightarrow> \<exists>ps. dot_loop b path rest buffer parts = Some ps"
proof (induction rest arbitrary: buffer parts rule: unclosed.induct)
  case 1
  then show ?case by (subst dot_loop.simps) simp
next
  case (2 c cs)
  show ?case
  proof (cases "c = CHR ''[''")
    case True
    with "2.prems" obtain inner after where s: "split_once (CHR '']'') cs = (inner, Some after)"
      "\<not> unclosed after" by (auto split: prod.splits option.splits)
    from "2.IH"(1) [OF True s(1) [symmetric] refl s(2)] True s(1) show ?thesis
      by (subst dot_loop.simps) simp
  next
    case False
    with "2.prems" "2.IH"(2) show ?thesis by (subst dot_loop.simps) simp
  qed
qed

text \<open>
  \<open>convert_dot_to_slash\<close> returns if and only if no \<open>[\<close> the scan reaches lacks a later
  \<open>]\<close>; otherwise it starts again from the beginning for ever.
\<close>

theorem convert_dot_to_slash_returns:
  "(\<exists>s. convert_dot_to_slash path = Some s) = (\<not> unclosed path)"
proof (cases "path = []")
  case False
  then show ?thesis
    using dot_loop_closed [of path True path "[]" "[]"] dot_loop_unclosed [of True path path "[]" "[]"]
    by (auto simp: convert_dot_to_slash_def)
qed (simp add: convert_dot_to_slash_def)

section \<open>Converting between the styles\<close>

definition scan_part :: "bool \<Rightarrow> path_key \<Rightarrow> string" where
  "scan_part b k = (if is_bracket k \<and> \<not> b then inner_text k else dot_part True k)"

lemma dot_loop_text:
  "CHR ''['' \<notin> set s \<Longrightarrow> CHR ''.'' \<notin> set s \<Longrightarrow>
     dot_loop b path (s @ rest) buffer parts = dot_loop b path rest (buffer @ s) parts"
proof (induction s arbitrary: buffer)
  case (Cons c s)
  from Cons.prems have "c \<noteq> CHR ''[''" "c \<noteq> CHR ''.''" by auto
  with Cons show ?case by (subst dot_loop.simps) simp
qed simp

lemma dot_loop_bracket:
  assumes "is_bracket k"
  shows "dot_loop b path (dot_part x k @ rest) buffer parts
     = dot_loop b path rest [] (flush buffer parts @ [scan_part b k])"
proof -
  have "split_once (CHR '']'') (inner_text k @ CHR '']'' # rest) = (inner_text k, Some rest)"
    by (rule split_once_append) (rule inner_text_clean)
  then show ?thesis using assms
    by (subst dot_loop.simps) (simp add: dot_part_inner scan_part_def)
qed

lemma dot_loop_dot:
  "dot_loop b path (CHR ''.'' # cs) buffer parts = dot_loop b path cs [] (flush buffer parts)"
  by (subst dot_loop.simps) simp

lemma field_text:
  "plain_key k \<Longrightarrow> \<not> is_bracket k \<Longrightarrow>
     dot_part True k \<noteq> [] \<and> CHR ''['' \<notin> set (dot_part True k) \<and> CHR ''.'' \<notin> set (dot_part True k)
     \<and> CHR ''/'' \<notin> set (dot_part True k)"
  by (simp add: dot_part_plain plain_key_def plain_text_def)

lemma dot_loop_parts:
  "\<forall>k \<in> set ks. plain_key k \<Longrightarrow>
     dot_loop b path (concat (map (dot_part False) ks)) buffer parts
       = Some (flush buffer parts @ map (scan_part b) ks)"
proof (induction ks arbitrary: buffer parts)
  case Nil
  then show ?case by (subst dot_loop.simps) simp
next
  case (Cons k ks)
  then have IH: "dot_loop b path (concat (map (dot_part False) ks)) buffer' parts'
      = Some (flush buffer' parts' @ map (scan_part b) ks)" for buffer' parts' by simp
  show ?case
  proof (cases "is_bracket k")
    case True
    then show ?thesis by (simp add: dot_loop_bracket IH flush_def)
  next
    case False
    with Cons.prems field_text [of k] show ?thesis
      by (simp add: dot_part_field dot_loop_dot dot_loop_text IH flush_def scan_part_def)
  qed
qed

lemma dot_loop_built:
  assumes "\<forall>k \<in> set ks. plain_key k"
  shows "dot_loop b path (build_dot_path ks) [] [] = Some (map (scan_part b) ks)"
proof (cases ks)
  case Nil
  then show ?thesis by (subst dot_loop.simps) (simp add: build_dot_path_def flush_def)
next
  case (Cons k js)
  have tail: "dot_loop b path (concat (map (dot_part False) js)) buffer' parts'
      = Some (flush buffer' parts' @ map (scan_part b) js)" for buffer' parts'
    by (rule dot_loop_parts) (use assms Cons in simp)
  show ?thesis
  proof (cases "is_bracket k")
    case True
    with Cons show ?thesis by (simp add: build_dot_path_def dot_loop_bracket tail flush_def)
  next
    case False
    with assms Cons field_text [of k] show ?thesis
      by (simp add: build_dot_path_def dot_loop_text tail flush_def scan_part_def)
  qed
qed

lemma part_clean: "plain_key k \<Longrightarrow> dot_part True k \<noteq> [] \<and> CHR ''/'' \<notin> set (dot_part True k)"
  using field_text [of k] by (cases "is_bracket k") (auto simp: dot_part_inner inner_text_clean)

lemma bracketed_part: "plain_key k \<Longrightarrow> bracketed (dot_part True k) = is_bracket k"
proof (cases "is_bracket k")
  case False
  assume "plain_key k"
  with False field_text [of k] have "dot_part True k \<noteq> []" "CHR ''['' \<notin> set (dot_part True k)" by auto
  then have "hd (dot_part True k) \<noteq> CHR ''[''" using hd_in_set by metis
  with False show ?thesis by (simp add: bracketed_def)
qed (simp add: dot_part_inner bracketed_def)

lemma fold_slash_part:
  "\<forall>k \<in> set ks. plain_key k \<Longrightarrow> acc \<noteq> [] \<Longrightarrow>
     concat (fold slash_part (map (dot_part True) ks) acc) = concat acc @ concat (map (dot_part False) ks)"
proof (induction ks arbitrary: acc)
  case (Cons k ks)
  have "concat (slash_part (dot_part True k) acc) = concat acc @ dot_part False k" "slash_part (dot_part True k) acc \<noteq> []"
    using Cons.prems bracketed_part [of k]
    by (cases "is_bracket k"; simp add: slash_part_def dot_part_bracket dot_part_field)+
  with Cons show ?case by simp
qed simp

lemma strip_char_parts:
  assumes "ps \<noteq> []" and "\<forall>p \<in> set ps. p \<noteq> [] \<and> c \<notin> set p"
  shows "strip_char c (c # join [c] ps) = join [c] ps"
proof -
  obtain p qs where ps: "ps = p # qs" using assms(1) by (cases ps) auto
  have hd: "\<exists>x xs. join [c] ps = x # xs \<and> x \<noteq> c"
    using assms ps by (cases p; cases qs) auto
  have "\<exists>x xs. rev (join [c] ps) = x # xs \<and> x \<noteq> c"
    using assms
  proof (induction ps rule: list_nonempty_induct)
    case (single p)
    then show ?case by (cases p rule: rev_cases) auto
  next
    case (cons p ps)
    then obtain q qs x xs where "ps = q # qs" "rev (join [c] ps) = x # xs" "x \<noteq> c"
      by (cases ps) auto
    then show ?case by simp
  qed
  then have "dropWhile ((=) c) (rev (join [c] ps)) = rev (join [c] ps)" by auto
  moreover have "dropWhile ((=) c) (join [c] ps) = join [c] ps" using hd by auto
  ultimately show ?thesis by (simp add: strip_char_def)
qed

text \<open>
  A dot path built from keys is converted to the slash path of the same keys (brackets
  kept), and converted back to itself.
\<close>

theorem dot_slash_roundtrip:
  assumes "\<forall>k \<in> set ks. plain_key k"
  shows "convert_dot_to_slash (build_dot_path ks) = Some (CHR ''/'' # join ''/'' (map (dot_part True) ks)) \<and>
    convert_slash_to_dot (CHR ''/'' # join ''/'' (map (dot_part True) ks)) = build_dot_path ks"
proof
  have sp: "map (scan_part True) ks = map (dot_part True) ks" by (simp add: scan_part_def)
  show "convert_dot_to_slash (build_dot_path ks) = Some (CHR ''/'' # join ''/'' (map (dot_part True) ks))"
  proof (cases "ks = []")
    case False
    with build_dot_path_nonempty [OF assms] show ?thesis
      by (simp add: convert_dot_to_slash_def dot_loop_built [OF assms] sp)
  qed (simp add: convert_dot_to_slash_def build_dot_path_def)
  show "convert_slash_to_dot (CHR ''/'' # join ''/'' (map (dot_part True) ks)) = build_dot_path ks"
  proof (cases ks)
    case Nil
    then show ?thesis by (simp add: convert_slash_to_dot_def build_dot_path_def)
  next
    case (Cons k js)
    let ?ps = "map (dot_part True) ks"
    have clean: "\<forall>p \<in> set ?ps. p \<noteq> [] \<and> CHR ''/'' \<notin> set p" using assms part_clean by auto
    have ne: "?ps \<noteq> []" using Cons by simp
    have "join ''/'' ?ps \<noteq> []" using clean Cons by (cases js) auto
    moreover have "split_on (CHR ''/'') (strip_char (CHR ''/'') (CHR ''/'' # join ''/'' ?ps)) = ?ps"
      unfolding strip_char_parts [OF ne clean] by (rule split_on_join [OF ne]) (use clean in blast)
    moreover have "concat (fold slash_part ?ps []) = build_dot_path ks"
      using fold_slash_part [of js "[dot_part True k]"] assms Cons
      by (simp add: slash_part_def build_dot_path_def)
    ultimately show ?thesis by (simp add: convert_slash_to_dot_def)
  qed
qed

theorem dot_slash_roundtrip_witness:
  "convert_slash_to_dot (the (convert_dot_to_slash (build_dot_path [KStr ''a'', KInt 0, KInt 3, KStr ''b'']))) = ''a[0][3].b''"
proof -
  have "\<forall>k \<in> set [KStr ''a'', KInt 0, KInt 3, KStr ''b'']. plain_key k" by code_simp
  note r = dot_slash_roundtrip [OF this]
  have "build_dot_path [KStr ''a'', KInt 0, KInt 3, KStr ''b''] = ''a[0][3].b''" by code_simp
  with r show ?thesis by simp
qed

text \<open>
  \<open>get_value_by_path\<close> in dot style never reads an element of a list: the scan drops the
  brackets, so a wildcard or an index becomes a field name and the result is \<open>None\<close>, although
  \<open>resolve\<close> implements both.
\<close>

theorem get_value_dot_brackets:
  assumes "\<forall>k \<in> set (KStr a # l # ks). plain_key k" and "is_bracket l" and "a \<notin> set wild_texts"
    and "dict_get d a = Some (PList xs)"
  shows "get_value_by_path (PDict d) (build_dot_path (KStr a # l # ks)) Dot = Some (Inr PNone)"
proof -
  have "a \<noteq> ''[*]''" using assms(3) by (auto simp: wild_texts_def)
  moreover have "\<not> is_bracket (KStr a)" using assms(3) by (simp add: is_bracket_def)
  moreover have "inner_text l \<noteq> ''[*]''" using inner_text_clean(2) [of l] by auto
  moreover have "build_dot_path (KStr a # l # ks) \<noteq> []" by (rule build_dot_path_nonempty [OF assms(1)]) simp
  ultimately show ?thesis
    using assms(2-4)
    by (simp add: get_value_by_path_def is_container_def dot_loop_built [OF assms(1)] scan_part_def)
qed

theorem get_value_dot_brackets_witness:
  "get_value_by_path sample_value ''rows[0].id'' Dot = Some (Inr PNone) \<and>
   get_value_by_path sample_value ''/rows/0/id'' Slash = Some (Inr (PInt 1))"
proof
  let ?d = "[(''user'', PDict [(''tags'', PList [PStr ''x'', PStr ''y''])]),
     (''rows'', PList [PDict [(''id'', PInt 1)], PDict [(''id'', PInt 2)]]), (''grid'', PList [PList [PInt 5]])]"
  have "\<forall>k \<in> set [KStr ''rows'', KInt 0, KStr ''id'']. plain_key k" "is_bracket (KInt 0)" "''rows'' \<notin> set wild_texts"
    by code_simp+
  moreover have "dict_get ?d ''rows'' = Some (PList [PDict [(''id'', PInt 1)], PDict [(''id'', PInt 2)]])" by simp
  ultimately have "get_value_by_path (PDict ?d) (build_dot_path [KStr ''rows'', KInt 0, KStr ''id'']) Dot = Some (Inr PNone)"
    by (rule get_value_dot_brackets)
  moreover have "build_dot_path [KStr ''rows'', KInt 0, KStr ''id''] = ''rows[0].id''" by code_simp
  ultimately show "get_value_by_path sample_value ''rows[0].id'' Dot = Some (Inr PNone)" by (simp add: sample_value_def)
  have "(case get_value_by_path sample_value ''/rows/0/id'' Slash of Some (Inr v) \<Rightarrow> v = PInt 1 | _ \<Rightarrow> False)" by code_simp
  then show "get_value_by_path sample_value ''/rows/0/id'' Slash = Some (Inr (PInt 1))"
    by (auto split: option.splits sum.splits)
qed

section \<open>The traversals of an output schema\<close>

lemma set_add_path [simp]: "set (add_path p ps) = insert p (set ps)"
  by (auto simp: add_path_def)

lemma distinct_add_path [simp]: "distinct (add_path p ps) = distinct ps"
  by (simp add: add_path_def)

lemma fold_union:
  "(\<And>x acc. x \<in> set xs \<Longrightarrow> set (f x acc) = set acc \<union> set (g x)) \<Longrightarrow>
     set (fold f xs acc) = set acc \<union> set (concat (map g xs))"
  by (induction xs arbitrary: acc) (auto simp: Un_assoc)

lemma fold_keeps: "(\<And>x acc. x \<in> set xs \<Longrightarrow> P acc \<Longrightarrow> P (f x acc)) \<Longrightarrow> P acc \<Longrightarrow> P (fold f xs acc)"
  by (induction xs arbitrary: acc) auto

lemma key_order_set: "set (key_order st keys s acc) = set acc \<union> set (visit_paths st keys s)"
proof (induction st keys s arbitrary: acc rule: visit_paths.induct)
  case (3 st keys d)
  have "set (fold (\<lambda>(k, v). key_order st (keys @ [KStr k]) v) d acc)
      = set acc \<union> set (concat (map (\<lambda>(k, v). visit_paths st (keys @ [KStr k]) v) d))"
    by (rule fold_union) (use 3 in auto)
  then show ?case by auto
next
  case (6 st keys xs)
  have "set (fold (key_order st (keys @ [KStr ''[*]''])) xs acc)
      = set acc \<union> set (concat (map (visit_paths st (keys @ [KStr ''[*]''])) xs))"
    by (rule fold_union) (use 6 in auto)
  then show ?case by auto
qed auto

lemma key_order_distinct: "distinct acc \<Longrightarrow> distinct (key_order st keys s acc)"
proof (induction st keys s arbitrary: acc rule: visit_paths.induct)
  case (3 st keys d)
  then show ?case by (auto intro!: fold_keeps [where P = distinct])
next
  case (6 st keys xs)
  then show ?case by (auto intro!: fold_keeps [where P = distinct])
qed auto

lemma note_policy_keys:
  "fst ` set (note_policy p pol acc) \<subseteq> insert p (fst ` set acc)"
  by (auto simp: note_policy_def split: option.splits)

lemma ensure_policies_keys:
  "fst ` set acc \<subseteq> S \<Longrightarrow> set (visit_paths st keys s) \<subseteq> S \<Longrightarrow>
     fst ` set (ensure_policies st keys s acc) \<subseteq> S"
proof (induction st keys s arbitrary: acc rule: visit_paths.induct)
  case (2 st keys x xs)
  have "render_path st keys \<in> S" "set (visit_paths st keys x) \<subseteq> S" using "2.prems"(2) by auto
  then have "fst ` set (note_policy (render_path st keys) (get_ensure_policy (tuple_marker (x # xs))) acc) \<subseteq> S"
    using note_policy_keys [of "render_path st keys" "get_ensure_policy (tuple_marker (x # xs))" acc] "2.prems"(1)
    by (metis insert_subset subset_trans)
  with "2.IH" \<open>set (visit_paths st keys x) \<subseteq> S\<close> show ?case by simp
next
  case (3 st keys d)
  have "fst ` set ((\<lambda>(k, v). ensure_policies st (keys @ [KStr k]) v) e acc) \<subseteq> S"
    if "e \<in> set d" "fst ` set acc \<subseteq> S" for e acc
  proof (cases e)
    case (Pair k v)
    have "set (visit_paths st (keys @ [KStr k]) v) \<subseteq> S" using "3.prems"(2) that(1) Pair by force
    with "3.IH" [OF that(1) Pair [symmetric] that(2)] Pair show ?thesis by simp
  qed
  then have "fst ` set (fold (\<lambda>(k, v). ensure_policies st (keys @ [KStr k]) v) d acc) \<subseteq> S"
    using "3.prems"(1) by (intro fold_keeps [where P = "\<lambda>acc. fst ` set acc \<subseteq> S"])
  then show ?case by simp
next
  case (6 st keys xs)
  have "fst ` set (ensure_policies st (keys @ [KStr ''[*]'']) x acc) \<subseteq> S"
    if "x \<in> set xs" "fst ` set acc \<subseteq> S" for x acc
    by (rule "6.IH" [OF that]) (use "6.prems"(2) that(1) in force)
  then have "fst ` set (fold (ensure_policies st (keys @ [KStr ''[*]''])) xs acc) \<subseteq> S"
    using "6.prems"(1) by (intro fold_keeps [where P = "\<lambda>acc. fst ` set acc \<subseteq> S"])
  then show ?case by simp
qed auto

text \<open>
  The traversals of an output schema agree.  The parsing order lists every possible path
  exactly once, and every path with an ensure policy is a possible path.
\<close>

theorem schema_traversals_agree:
  "distinct (extract_parsing_key_orders s st) \<and>
   set (extract_parsing_key_orders s st) = set (visit_paths st [] s) \<and>
   (schema_is_structure s \<longrightarrow>
      extract_possible_paths s st = Inr (remdups (visit_paths st [] s)) \<and>
      (\<exists>d. extract_ensure_path_policies s st = Inr d \<and>
         set (dict_keys d) \<subseteq> set (extract_parsing_key_orders s st)))"
proof (intro conjI impI)
  have k: "set (extract_parsing_key_orders s st) = set (visit_paths st [] s)"
    unfolding extract_parsing_key_orders_def key_order_set by simp
  show "distinct (extract_parsing_key_orders s st)"
    unfolding extract_parsing_key_orders_def by (rule key_order_distinct) simp
  show "set (extract_parsing_key_orders s st) = set (visit_paths st [] s)" by (rule k)
  assume s: "schema_is_structure s"
  then show "extract_possible_paths s st = Inr (remdups (visit_paths st [] s))"
    unfolding extract_possible_paths_def by simp
  have "fst ` set (ensure_policies st [] s []) \<subseteq> set (visit_paths st [] s)"
    by (rule ensure_policies_keys) simp_all
  then have "set (dict_keys (ensure_policies st [] s [])) \<subseteq> set (extract_parsing_key_orders s st)"
    unfolding k by simp
  with s show "\<exists>d. extract_ensure_path_policies s st = Inr d \<and>
      set (dict_keys d) \<subseteq> set (extract_parsing_key_orders s st)"
    unfolding extract_ensure_path_policies_def by simp
qed

definition sample_schema :: schema where
  "sample_schema = SDict [(''title'', STuple [SLeaf (PStr ''str''), SLeaf (PStr ''desc''), SLeaf (PBool True)]),
     (''items'', SList [SDict [(''id'', SGeneric (Some (SLeaf (PStr ''int''))))]])]"

theorem schema_traversals_agree_witness:
  "\<exists>d. extract_ensure_path_policies sample_schema Dot = Inr d \<and>
     set (dict_keys d) \<subseteq> set (extract_parsing_key_orders sample_schema Dot)"
proof -
  have "schema_is_structure sample_schema" by code_simp
  with schema_traversals_agree [of sample_schema Dot] show ?thesis by blast
qed

end
