(* ===== verification/BoardModel.thy ===== *)
theory BoardModel
  imports PyText
begin

text \<open>
  The data of a task board (\<open>agently/types/data/task_board.py\<close>): cards, graphs, card
  results, patches, revisions and schedule plans, with the normalisation of untrusted
  mappings, the export, and the numbering of revisions.
\<close>

section \<open>Errors and coercions\<close>

datatype board_error =
    NotAMapping string
  | MissingField string string
  | NotASequence string
  | ResultsNotMapping
  | BadRevisionNumber string
  | EmptyBoard
  | EmptyCardId
  | BadCardId string
  | DuplicateCards "string list"
  | MissingCard string string
  | NoRootCard
  | CardCycle "string list"
  | BoardKeyError string
  | UnknownResultCard string
  | ResultMismatch string string
  | RevisionMismatch string string
  | DuplicateCard string
  | UnknownCard string
  | NoOperationCard string
  | NoOperationDependency string
  | MetadataNotMapping
  | UnsupportedOperation string

definition board_schema_version :: string where
  "board_schema_version = ''task_board/v1''"

definition clean_str :: "pyval \<Rightarrow> string option" where
  "clean_str v =
     (if v = PNone then None
      else let t = str_strip v in if t = [] then None else Some t)"

definition opt_list :: "'a option \<Rightarrow> 'a list" where
  "opt_list x = (case x of None \<Rightarrow> [] | Some a \<Rightarrow> [a])"

text \<open>The loop of \<open>_str_tuple\<close>: the first occurrence of every non-empty text.\<close>

definition add_text :: "pyval \<Rightarrow> string list \<Rightarrow> string list" where
  "add_text item acc =
     (case clean_str item of
        None \<Rightarrow> acc
      | Some t \<Rightarrow> if t \<in> set acc then acc else acc @ [t])"

definition str_tuple :: "pyval \<Rightarrow> string list" where
  "str_tuple v =
     (if v = PNone then []
      else case seq_items v of
        Some items \<Rightarrow> fold add_text items []
      | None \<Rightarrow> opt_list (clean_str v))"

definition mapping_tuple :: "pyval \<Rightarrow> pydict list" where
  "mapping_tuple v =
     (if v = PNone then []
      else case v of
        PDict d \<Rightarrow> [d]
      | _ \<Rightarrow> (case seq_items v of
          Some items \<Rightarrow> map (\<lambda>i. case i of PDict d \<Rightarrow> d | _ \<Rightarrow> [(''value'', i)]) items
        | None \<Rightarrow> [[(''value'', v)]]))"

definition policy_aliases :: "(string, string) dict" where
  "policy_aliases =
     [(''must'', ''required''), (''mandatory'', ''required''), (''critical'', ''required''),
      (''nice_to_have'', ''optional''), (''best_effort'', ''optional''), (''non_blocking'', ''optional''),
      (''nonblocking'', ''optional''), (''soft'', ''degradable''), (''fallback'', ''degradable''),
      (''degrade'', ''degradable'')]"

definition policy_text :: "pyval \<Rightarrow> string" where
  "policy_text v = replace_char (CHR ''-'') (CHR ''_'') (lower (str_strip (py_or v (PStr ''required''))))"

definition failure_policy_of :: "pyval \<Rightarrow> string" where
  "failure_policy_of v =
     (let t = dict_get_or policy_aliases (policy_text v) (policy_text v)
      in if t \<in> {''required'', ''optional'', ''degradable''} then t else ''required'')"

text \<open>\<open>str(value.get(k) or default)\<close>.\<close>

definition text_or :: "pydict \<Rightarrow> string \<Rightarrow> string \<Rightarrow> string" where
  "text_or d k dflt = py_str (py_or (pget d k) (PStr dflt))"

section \<open>Cards\<close>

record board_card =
  c_id :: string
  c_objective :: string
  c_depends_on :: "string list"
  c_input_refs :: "string list"
  c_required_outputs :: "string list"
  c_shape :: string
  c_policy_scope_refs :: "string list"
  c_evidence :: pydict
  c_failure_policy :: string
  c_status :: string
  c_metadata :: pydict
  c_schema :: string

definition card_from_value :: "pyval \<Rightarrow> board_error + board_card" where
  "card_from_value value =
     (case value of
        PDict d \<Rightarrow>
          (case clean_str (py_or (pget d ''id'') (pget d ''card_id'')) of
             None \<Rightarrow> Inl (MissingField ''TaskBoardCard'' ''id'')
           | Some cid \<Rightarrow>
          (case clean_str (py_or (pget d ''objective'') (pget d ''goal'')) of
             None \<Rightarrow> Inl (MissingField ''TaskBoardCard'' ''objective'')
           | Some obj \<Rightarrow>
             let evidence = mapping_or_empty (pget d ''evidence_contract'');
                 metadata = mapping_or_empty (pget d ''metadata'')
             in Inr \<lparr> c_id = cid, c_objective = obj,
                  c_depends_on = str_tuple (pget d ''depends_on''),
                  c_input_refs = str_tuple (pget d ''input_refs''),
                  c_required_outputs = str_tuple (pget d ''required_outputs''),
                  c_shape = text_or d ''allowed_execution_shape'' ''auto'',
                  c_policy_scope_refs = str_tuple (pget d ''policy_scope_refs''),
                  c_evidence = evidence,
                  c_failure_policy = failure_policy_of
                    (py_or (py_or (pget d ''failure_policy'') (pget evidence ''failure_policy''))
                       (pget metadata ''failure_policy'')),
                  c_status = text_or d ''status'' ''pending'',
                  c_metadata = metadata,
                  c_schema = text_or d ''schema_version'' board_schema_version \<rparr>))
      | _ \<Rightarrow> Inl (NotAMapping ''TaskBoardCard''))"

definition with_status :: "string \<Rightarrow> board_card \<Rightarrow> board_card" where
  "with_status s c = c\<lparr>c_status := s\<rparr>"

definition with_dependencies :: "string list \<Rightarrow> board_card \<Rightarrow> board_card" where
  "with_dependencies ds c = c\<lparr>c_depends_on := str_tuple (PTuple (map PStr ds))\<rparr>"

definition card_to_dict :: "board_card \<Rightarrow> pydict" where
  "card_to_dict c =
     [(''schema_version'', PStr (c_schema c)), (''id'', PStr (c_id c)), (''objective'', PStr (c_objective c)),
      (''depends_on'', PList (map PStr (c_depends_on c))), (''input_refs'', PList (map PStr (c_input_refs c))),
      (''required_outputs'', PList (map PStr (c_required_outputs c))),
      (''allowed_execution_shape'', PStr (c_shape c)),
      (''policy_scope_refs'', PList (map PStr (c_policy_scope_refs c))),
      (''evidence_contract'', PDict (c_evidence c)), (''failure_policy'', PStr (c_failure_policy c)),
      (''status'', PStr (c_status c)), (''metadata'', PDict (c_metadata c))]"

section \<open>Graphs\<close>

record board_graph =
  bg_id :: string
  bg_cards :: "board_card list"
  bg_metadata :: pydict
  bg_schema :: string

text \<open>
  The random suffixes of new ids, numbered by use: the graph's, the revision's, the
  patch's and the next revision's.
\<close>

type_synonym fresh_ids = "nat \<Rightarrow> string"

definition graph_from_value :: "fresh_ids \<Rightarrow> pyval \<Rightarrow> board_error + board_graph" where
  "graph_from_value fresh value =
     (case value of
        PDict d \<Rightarrow>
          if pget d ''cards'' = PNone then Inl (MissingField ''TaskBoardGraph'' ''cards'')
          else (case seq_items (pget d ''cards'') of
             None \<Rightarrow> Inl (NotASequence ''cards'')
           | Some raw \<Rightarrow>
               let gid = (case clean_str (pget d ''graph_id'') of Some t \<Rightarrow> t | None \<Rightarrow> ''task_board_graph-'' @ fresh 0)
               in bindE (mapE card_from_value raw) (\<lambda>cards.
                    Inr \<lparr> bg_id = gid, bg_cards = cards, bg_metadata = mapping_or_empty (pget d ''metadata''),
                          bg_schema = text_or d ''schema_version'' board_schema_version \<rparr>))
      | _ \<Rightarrow> Inl (NotAMapping ''TaskBoardGraph''))"

definition card_by_id :: "board_graph \<Rightarrow> (string, board_card) dict" where
  "card_by_id g = fold (\<lambda>c. dict_set (c_id c) c) (bg_cards g) []"

definition with_cards :: "board_card list \<Rightarrow> board_graph \<Rightarrow> board_graph" where
  "with_cards cs g = g\<lparr>bg_cards := cs\<rparr>"

definition graph_to_dict :: "board_graph \<Rightarrow> pydict" where
  "graph_to_dict g =
     [(''schema_version'', PStr (bg_schema g)), (''graph_id'', PStr (bg_id g)),
      (''cards'', PList (map (PDict \<circ> card_to_dict) (bg_cards g))), (''metadata'', PDict (bg_metadata g))]"

section \<open>Results\<close>

record card_result =
  cr_card_id :: string
  cr_status :: string
  cr_digest :: "string option"
  cr_preview :: pyval
  cr_artifact_refs :: "pydict list"
  cr_file_refs :: "pydict list"
  cr_diagnostics :: "pydict list"
  cr_patch :: "pydict option"
  cr_metadata :: pydict
  cr_schema :: string

definition result_from_value :: "pyval \<Rightarrow> board_error + card_result" where
  "result_from_value value =
     (case value of
        PDict d \<Rightarrow>
          (case clean_str (pget d ''card_id'') of
             None \<Rightarrow> Inl (MissingField ''TaskBoardCardResult'' ''card_id'')
           | Some cid \<Rightarrow>
               Inr \<lparr> cr_card_id = cid,
                     cr_status = (case clean_str (pget d ''status'') of Some t \<Rightarrow> t | None \<Rightarrow> ''completed''),
                     cr_digest = clean_str (pget d ''output_digest''),
                     cr_preview = pget d ''preview'',
                     cr_artifact_refs = mapping_tuple (pget d ''artifact_refs''),
                     cr_file_refs = mapping_tuple (pget d ''file_refs''),
                     cr_diagnostics = mapping_tuple (pget d ''diagnostics''),
                     cr_patch = (case pget d ''patch_proposal'' of PDict p \<Rightarrow> Some p | _ \<Rightarrow> None),
                     cr_metadata = mapping_or_empty (pget d ''metadata''),
                     cr_schema = text_or d ''schema_version'' board_schema_version \<rparr>)
      | _ \<Rightarrow> Inl (NotAMapping ''TaskBoardCardResult''))"

definition opt_str :: "string option \<Rightarrow> pyval" where
  "opt_str t = (case t of None \<Rightarrow> PNone | Some s \<Rightarrow> PStr s)"

definition result_to_dict :: "card_result \<Rightarrow> pydict" where
  "result_to_dict r =
     [(''schema_version'', PStr (cr_schema r)), (''card_id'', PStr (cr_card_id r)), (''status'', PStr (cr_status r)),
      (''output_digest'', opt_str (cr_digest r)), (''preview'', cr_preview r),
      (''artifact_refs'', PList (map PDict (cr_artifact_refs r))), (''file_refs'', PList (map PDict (cr_file_refs r))),
      (''diagnostics'', PList (map PDict (cr_diagnostics r))),
      (''patch_proposal'', (case cr_patch r of None \<Rightarrow> PNone | Some p \<Rightarrow> PDict p)),
      (''metadata'', PDict (cr_metadata r))]"

section \<open>Patches\<close>

record board_patch =
  p_base :: string
  p_operations :: "pydict list"
  p_id :: string
  p_source :: string
  p_diagnostics :: "pydict list"
  p_evidence :: "pydict list"
  p_metadata :: pydict
  p_schema :: string

definition patch_from_value :: "fresh_ids \<Rightarrow> pyval \<Rightarrow> board_error + board_patch" where
  "patch_from_value fresh value =
     (case value of
        PDict d \<Rightarrow>
          (case clean_str (pget d ''base_revision'') of
             None \<Rightarrow> Inl (MissingField ''TaskBoardPatch'' ''base_revision'')
           | Some base \<Rightarrow>
             (case seq_items (pget d ''operations'') of
                None \<Rightarrow> Inl (NotASequence ''operations'')
              | Some ops \<Rightarrow>
                  Inr \<lparr> p_base = base,
                        p_operations = map (\<lambda>i. case i of PDict o' \<Rightarrow> o' | _ \<Rightarrow> [(''op'', PStr (py_str i))]) ops,
                        p_id = (case clean_str (pget d ''patch_id'') of Some t \<Rightarrow> t | None \<Rightarrow> ''patch-'' @ fresh 2),
                        p_source = text_or d ''source'' ''task_board'',
                        p_diagnostics = mapping_tuple (pget d ''diagnostics''),
                        p_evidence = mapping_tuple (pget d ''evidence_refs''),
                        p_metadata = mapping_or_empty (pget d ''metadata''),
                        p_schema = text_or d ''schema_version'' board_schema_version \<rparr>))
      | _ \<Rightarrow> Inl (NotAMapping ''TaskBoardPatch''))"

definition patch_to_dict :: "board_patch \<Rightarrow> pydict" where
  "patch_to_dict p =
     [(''schema_version'', PStr (p_schema p)), (''patch_id'', PStr (p_id p)), (''base_revision'', PStr (p_base p)),
      (''source'', PStr (p_source p)), (''operations'', PList (map PDict (p_operations p))),
      (''diagnostics'', PList (map PDict (p_diagnostics p))), (''evidence_refs'', PList (map PDict (p_evidence p))),
      (''metadata'', PDict (p_metadata p))]"

section \<open>Revisions\<close>

record board_revision =
  rv_board :: string
  rv_id :: string
  rv_graph :: board_graph
  rv_status :: string
  rv_results :: "(string, card_result) dict"
  rv_evidence :: "pydict list"
  rv_diagnostics :: "pydict list"
  rv_metadata :: pydict
  rv_schema :: string

definition revision_from_value :: "fresh_ids \<Rightarrow> pyval \<Rightarrow> board_error + board_revision" where
  "revision_from_value fresh value =
     (case value of
        PDict d \<Rightarrow>
          (case clean_str (pget d ''board_id'') of
             None \<Rightarrow> Inl (MissingField ''TaskBoardRevision'' ''board_id'')
           | Some bid \<Rightarrow>
             bindE (graph_from_value fresh (py_or (pget d ''graph'') (PDict []))) (\<lambda>g.
             (case py_or (pget d ''card_results'') (PDict []) of
                PDict raw \<Rightarrow>
                  bindE (mapE (\<lambda>(k, v). bindE (result_from_value v) (\<lambda>r. Inr (k, r)))
                           (filter (\<lambda>(k, v). is_mapping v) raw)) (\<lambda>results.
                    Inr \<lparr> rv_board = bid,
                          rv_id = (case clean_str (pget d ''revision_id'') of Some t \<Rightarrow> t | None \<Rightarrow> ''rev-'' @ fresh 1),
                          rv_graph = g,
                          rv_status = text_or d ''status'' ''running'',
                          rv_results = results,
                          rv_evidence = mapping_tuple (pget d ''evidence_refs''),
                          rv_diagnostics = mapping_tuple (pget d ''diagnostics''),
                          rv_metadata = mapping_or_empty (pget d ''metadata''),
                          rv_schema = text_or d ''schema_version'' board_schema_version \<rparr>)
              | _ \<Rightarrow> Inl ResultsNotMapping)))
      | _ \<Rightarrow> Inl (NotAMapping ''TaskBoardRevision''))"

definition create_revision :: "string \<Rightarrow> board_graph \<Rightarrow> string option \<Rightarrow> pydict \<Rightarrow> board_revision" where
  "create_revision bid g rid metadata =
     \<lparr> rv_board = bid, rv_id = (case rid of Some (c # cs) \<Rightarrow> c # cs | _ \<Rightarrow> ''rev-0''), rv_graph = g,
       rv_status = ''running'', rv_results = [], rv_evidence = [], rv_diagnostics = [], rv_metadata = metadata,
       rv_schema = board_schema_version \<rparr>"

text \<open>\<open>"2".isdigit()\<close> holds of superscript digits too, on which \<open>int\<close> then raises.\<close>

definition next_revision_id :: "fresh_ids \<Rightarrow> string \<Rightarrow> board_error + string" where
  "next_revision_id fresh rid =
     (if take 4 rid = ''rev-'' \<and> py_isdigit (drop 4 rid)
      then (case int_of_text (drop 4 rid) of
              None \<Rightarrow> Inl (BadRevisionNumber rid)
            | Some i \<Rightarrow> Inr (''rev-'' @ int_text (i + 1)))
      else Inr (''rev-'' @ fresh 3))"

definition next_revision ::
  "fresh_ids \<Rightarrow> board_graph \<Rightarrow> string \<Rightarrow> (string, card_result) dict \<Rightarrow> pydict list \<Rightarrow> pydict list \<Rightarrow> pydict
     \<Rightarrow> board_revision \<Rightarrow> board_error + board_revision" where
  "next_revision fresh g status results evidence diagnostics metadata rv =
     bindE (next_revision_id fresh (rv_id rv)) (\<lambda>rid.
       Inr \<lparr> rv_board = rv_board rv, rv_id = rid, rv_graph = g,
             rv_status = (if status = [] then rv_status rv else status), rv_results = results,
             rv_evidence = evidence, rv_diagnostics = diagnostics, rv_metadata = metadata,
             rv_schema = rv_schema rv \<rparr>)"

definition revision_to_dict :: "board_revision \<Rightarrow> pydict" where
  "revision_to_dict rv =
     [(''schema_version'', PStr (rv_schema rv)), (''board_id'', PStr (rv_board rv)), (''revision_id'', PStr (rv_id rv)),
      (''status'', PStr (rv_status rv)), (''graph'', PDict (graph_to_dict (rv_graph rv))),
      (''card_results'', PDict (map (\<lambda>(k, r). (k, PDict (result_to_dict r))) (rv_results rv))),
      (''evidence_refs'', PList (map PDict (rv_evidence rv))),
      (''diagnostics'', PList (map PDict (rv_diagnostics rv))), (''metadata'', PDict (rv_metadata rv))]"

section \<open>Schedule plans\<close>

record schedule_plan =
  sp_revision :: string
  sp_runnable :: "string list"
  sp_blocked :: "string list"
  sp_completed :: "string list"
  sp_diagnostics :: "pydict list"

definition plan_to_dict :: "schedule_plan \<Rightarrow> pydict" where
  "plan_to_dict p =
     [(''schema_version'', PStr board_schema_version), (''revision_id'', PStr (sp_revision p)),
      (''runnable_card_ids'', PList (map PStr (sp_runnable p))), (''blocked_card_ids'', PList (map PStr (sp_blocked p))),
      (''completed_card_ids'', PList (map PStr (sp_completed p))),
      (''diagnostics'', PList (map PDict (sp_diagnostics p))), (''metadata'', PDict [])]"

end
