(* ===== verification/BoardOps.thy ===== *)
theory BoardOps
  imports BoardModel DepGraph
begin

text \<open>
  The operations on a task board
  (\<open>agently/core/orchestration/TaskBoard/TaskBoardValidation.py\<close>): validation of a
  revision, the schedule of its runnable cards, the application of a patch, and the
  derivation of the board's status.
\<close>

section \<open>Failure policies and satisfied dependencies\<close>

definition terminal_statuses :: "string list" where
  "terminal_statuses = [''completed'', ''failed'', ''blocked'', ''skipped'']"

definition degraded_statuses :: "string list" where
  "degraded_statuses = [''failed'', ''blocked'', ''skipped'', ''setback'']"

text \<open>
  \<open>task_board_card_failure_policy\<close> on a card object, whose \<open>failure_policy\<close> is a string and
  so never \<open>None\<close>.
\<close>

definition card_policy :: "board_card \<Rightarrow> string" where
  "card_policy c =
     (let t = replace_char (CHR ''-'') (CHR ''_'')
                (lower (strip (if c_failure_policy c = [] then ''required'' else c_failure_policy c)))
      in if t \<in> {''nice_to_have'', ''best_effort'', ''non_blocking'', ''nonblocking''} then ''optional''
         else if t \<in> {''soft'', ''fallback'', ''degrade''} then ''degradable''
         else if t \<in> {''optional'', ''degradable''} then t
         else ''required'')"

definition card_required :: "board_card \<Rightarrow> bool" where
  "card_required c \<longleftrightarrow> card_policy c = ''required''"

definition dependency_satisfied :: "board_card \<Rightarrow> card_result option \<Rightarrow> bool" where
  "dependency_satisfied c r =
     (case r of
        None \<Rightarrow> lower (strip (c_status c)) = ''skipped'' \<and> \<not> card_required c
      | Some res \<Rightarrow>
          let status = lower (strip (cr_status res)) in
          if status = ''completed'' then True
          else if status \<in> set degraded_statuses \<and> \<not> card_required c then True
          else False)"

section \<open>Validation\<close>

definition valid_card_id :: "string \<Rightarrow> bool" where
  "valid_card_id s \<longleftrightarrow> s \<noteq> [] \<and>
     list_all (\<lambda>c. is_letter c \<or> is_dec_digit c \<or> c \<in> {CHR ''_'', CHR ''.'', CHR ''-''}) s"

fun check_card_ids :: "board_card list \<Rightarrow> string list \<Rightarrow> string list \<Rightarrow> board_error + string list" where
  "check_card_ids [] seen dups = Inr dups"
| "check_card_ids (c # cs) seen dups =
     (if c_id c = [] then Inl EmptyCardId
      else if \<not> valid_card_id (c_id c) then Inl (BadCardId (c_id c))
      else check_card_ids cs (c_id c # seen) (if c_id c \<in> set seen then dups @ [c_id c] else dups))"

definition check_card_deps :: "string list \<Rightarrow> board_card \<Rightarrow> unit \<Rightarrow> board_error + unit" where
  "check_card_deps ids c u =
     foldE (\<lambda>d u. guardE (d \<in> set ids) (MissingCard (c_id c) d)) (c_depends_on c) ()"

definition card_graph :: "board_card list \<Rightarrow> string depgraph" where
  "card_graph cs = map (\<lambda>c. (c_id c, c_depends_on c)) cs"

fun kahn_board_error :: "string kahn_error \<Rightarrow> board_error" where
  "kahn_board_error (KahnKeyError k) = BoardKeyError k"
| "kahn_board_error NoRoot = NoRootCard"
| "kahn_board_error (CycleError cs) = CardCycle cs"

definition board_order :: "board_card list \<Rightarrow> board_error + string list \<times> string list" where
  "board_order cs =
     (case topological_order (card_graph cs) of Inl e \<Rightarrow> Inl (kahn_board_error e) | Inr p \<Rightarrow> Inr p)"

definition check_result :: "string list \<Rightarrow> string \<times> card_result \<Rightarrow> unit \<Rightarrow> board_error + unit" where
  "check_result ids kr u =
     (case kr of (k, r) \<Rightarrow>
        if k \<notin> set ids then Inl (UnknownResultCard k)
        else if cr_card_id r \<noteq> k then Inl (ResultMismatch k (cr_card_id r))
        else Inr ())"

record board_validation =
  bv_revision :: board_revision
  bv_card_ids :: "string list"
  bv_roots :: "string list"
  bv_order :: "string list"
  bv_diagnostics :: "pydict list"

definition validate_board :: "board_revision \<Rightarrow> board_error + board_validation" where
  "validate_board rv =
     (let cards = bg_cards (rv_graph rv); ids = map c_id cards
      in if cards = [] then Inl EmptyBoard
         else bindE (check_card_ids cards [] []) (\<lambda>dups.
           if dups \<noteq> [] then Inl (DuplicateCards (sort (remdups dups)))
           else bindE (foldE (check_card_deps ids) cards ()) (\<lambda>_.
             bindE (board_order cards) (\<lambda>(roots, ordered).
             bindE (foldE (check_result ids) (rv_results rv) ()) (\<lambda>_.
               Inr \<lparr> bv_revision = rv, bv_card_ids = ids, bv_roots = roots, bv_order = ordered,
                     bv_diagnostics = rv_diagnostics rv \<rparr>)))))"

text \<open>A revision is passed as an object, which is returned as it is, or as a mapping.\<close>

datatype revision_input = RevisionObject board_revision | RevisionMapping pyval

definition coerce_revision :: "fresh_ids \<Rightarrow> revision_input \<Rightarrow> board_error + board_revision" where
  "coerce_revision fresh i =
     (case i of RevisionObject rv \<Rightarrow> Inr rv | RevisionMapping v \<Rightarrow> revision_from_value fresh v)"

definition validate_task_board_revision :: "fresh_ids \<Rightarrow> revision_input \<Rightarrow> board_error + board_validation" where
  "validate_task_board_revision fresh i = bindE (coerce_revision fresh i) validate_board"

section \<open>Scheduling\<close>

definition result_ids :: "string list \<Rightarrow> board_revision \<Rightarrow> string list" where
  "result_ids statuses rv =
     map fst (filter (\<lambda>(k, r). cr_status r \<in> set statuses) (rv_results rv))"

definition degraded_diagnostic :: "string \<Rightarrow> string \<Rightarrow> string \<Rightarrow> string \<Rightarrow> pydict" where
  "degraded_diagnostic cid dep status policy =
     [(''code'', PStr ''taskboard.degraded_dependency_satisfied''), (''card_id'', PStr cid),
      (''dependency'', PStr dep), (''dependency_status'', PStr status), (''failure_policy'', PStr policy),
      (''message'', PStr (''TaskBoardCard '' @ [CHR 0x27] @ cid @ [CHR 0x27] @ '' can run because dependency '' @
         [CHR 0x27] @ dep @ [CHR 0x27] @ '' is non-required and ended with status '' @
         [CHR 0x27] @ status @ [CHR 0x27] @ ''.''))]"

text \<open>The inner loop over a card's dependencies: the unsatisfied ones, and the diagnostics.\<close>

fun scan_deps ::
  "(string, board_card) dict \<Rightarrow> (string, card_result) dict \<Rightarrow> string \<Rightarrow> string list
     \<Rightarrow> board_error + string list \<times> pydict list" where
  "scan_deps cards results cid [] = Inr ([], [])"
| "scan_deps cards results cid (d # ds) =
     (case dict_get cards d of
        None \<Rightarrow> Inl (BoardKeyError d)
      | Some dc \<Rightarrow>
          let r = dict_get results d;
              status = (case r of Some res \<Rightarrow> cr_status res | None \<Rightarrow> c_status dc)
          in bindE (scan_deps cards results cid ds) (\<lambda>(missing, diags).
               if dependency_satisfied dc r
               then Inr (missing, (if status \<in> set degraded_statuses
                                   then [degraded_diagnostic cid d status (card_policy dc)] else []) @ diags)
               else Inr (d # missing, diags)))"

record schedule_state =
  ss_runnable :: "string list"
  ss_blocked :: "string list"
  ss_diagnostics :: "pydict list"

definition schedule_card ::
  "(string, board_card) dict \<Rightarrow> (string, card_result) dict \<Rightarrow> string list \<Rightarrow> string \<Rightarrow> schedule_state
     \<Rightarrow> board_error + schedule_state" where
  "schedule_card cards results terminal cid s =
     (case dict_get cards cid of
        None \<Rightarrow> Inl (BoardKeyError cid)
      | Some c \<Rightarrow>
          if cid \<in> set terminal \<or> c_status c \<in> set terminal_statuses then Inr s
          else bindE (scan_deps cards results cid (c_depends_on c)) (\<lambda>(missing, diags).
            let s' = s\<lparr>ss_diagnostics := ss_diagnostics s @ diags\<rparr>
            in if missing \<noteq> [] then Inr (s'\<lparr>ss_blocked := ss_blocked s @ [cid]\<rparr>)
               else Inr (s'\<lparr>ss_runnable := ss_runnable s @ [cid]\<rparr>)))"

definition schedule_board :: "board_revision \<Rightarrow> board_error + schedule_plan" where
  "schedule_board rv =
     bindE (validate_board rv) (\<lambda>v.
     bindE (foldE (schedule_card (card_by_id (rv_graph rv)) (rv_results rv) (result_ids terminal_statuses rv))
              (bv_order v) \<lparr>ss_runnable = [], ss_blocked = [], ss_diagnostics = []\<rparr>) (\<lambda>s.
       Inr \<lparr> sp_revision = rv_id rv, sp_runnable = ss_runnable s, sp_blocked = ss_blocked s,
             sp_completed = sort (remdups (result_ids [''completed''] rv)),
             sp_diagnostics = ss_diagnostics s \<rparr>))"

definition schedule_task_board_revision :: "fresh_ids \<Rightarrow> revision_input \<Rightarrow> board_error + schedule_plan" where
  "schedule_task_board_revision fresh i = bindE (coerce_revision fresh i) schedule_board"

text \<open>The validator class validates once more before it schedules.\<close>

definition validator_schedule :: "fresh_ids \<Rightarrow> revision_input \<Rightarrow> board_error + schedule_plan" where
  "validator_schedule fresh i =
     bindE (validate_task_board_revision fresh i) (\<lambda>v.
       schedule_task_board_revision fresh (RevisionObject (bv_revision v)))"
section \<open>Patches\<close>

record patch_state =
  bp_cards :: "board_card list"
  bp_results :: "(string, card_result) dict"
  bp_evidence :: "pydict list"
  bp_diagnostics :: "pydict list"
  bp_metadata :: pydict
  bp_status :: string
  bp_explicit :: bool

fun card_index :: "board_card list \<Rightarrow> string \<Rightarrow> board_error + nat" where
  "card_index [] cid = Inl (UnknownCard cid)"
| "card_index (c # cs) cid =
     (if c_id c = cid then Inr 0 else bindE (card_index cs cid) (\<lambda>i. Inr (Suc i)))"

text \<open>\<open>str(operation.get(k) or "")\<close>, stripped.\<close>

definition op_text :: "pydict \<Rightarrow> string \<Rightarrow> string" where
  "op_text op k = strip (text_or op k '''')"

definition operation_card_id :: "pydict \<Rightarrow> board_error + string" where
  "operation_card_id op =
     (let cid = op_text op ''card_id''
      in if cid = [] then Inl (NoOperationCard (py_str (pget op ''op''))) else Inr cid)"

definition operation_dependency :: "pydict \<Rightarrow> board_error + string" where
  "operation_dependency op =
     (let d = op_text op ''dependency''
      in if d = [] then Inl (NoOperationDependency (py_str (pget op ''op''))) else Inr d)"

text \<open>\<open>cards[index] = f(cards[index])\<close> at the card's index.\<close>

definition change_card :: "string \<Rightarrow> (board_card \<Rightarrow> board_card) \<Rightarrow> patch_state \<Rightarrow> board_error + patch_state" where
  "change_card cid f s =
     bindE (card_index (bp_cards s) cid) (\<lambda>i.
       Inr (s\<lparr>bp_cards := (bp_cards s)[i := f (bp_cards s ! i)]\<rparr>))"

definition apply_operation :: "pydict \<Rightarrow> patch_state \<Rightarrow> board_error + patch_state" where
  "apply_operation op s =
     (let name = op_text op ''op'' in
      if name = ''add_card'' then
        bindE (card_from_value (py_or (pget op ''card'') (PDict []))) (\<lambda>c.
          if c_id c \<in> set (map c_id (bp_cards s)) then Inl (DuplicateCard (c_id c))
          else Inr (s\<lparr>bp_cards := bp_cards s @ [c]\<rparr>))
      else if name = ''update_card'' then
        bindE (card_from_value (py_or (pget op ''card'') (PDict []))) (\<lambda>c. change_card (c_id c) (\<lambda>_. c) s)
      else if name = ''set_card_status'' then
        bindE (operation_card_id op) (\<lambda>cid. change_card cid (with_status (text_or op ''status'' ''pending'')) s)
      else if name = ''add_dependency'' then
        bindE (operation_card_id op) (\<lambda>cid. bindE (operation_dependency op) (\<lambda>d.
          change_card cid (\<lambda>c. with_dependencies (c_depends_on c @ [d]) c) s))
      else if name = ''remove_dependency'' then
        bindE (operation_card_id op) (\<lambda>cid. bindE (operation_dependency op) (\<lambda>d.
          change_card cid (\<lambda>c. with_dependencies (filter (\<lambda>x. x \<noteq> d) (c_depends_on c)) c) s))
      else if name = ''record_card_result'' then
        bindE (result_from_value (py_or (pget op ''result'') (PDict []))) (\<lambda>r.
        bindE (card_index (bp_cards s) (cr_card_id r)) (\<lambda>_.
          change_card (cr_card_id r) (with_status (cr_status r))
            (s\<lparr>bp_results := dict_set (cr_card_id r) r (bp_results s)\<rparr>)))
      else if name = ''append_evidence_ref'' then
        Inr (s\<lparr>bp_evidence := bp_evidence s @
          [case pget op ''ref'' of PDict d \<Rightarrow> d | v \<Rightarrow> [(''value'', v)]]\<rparr>)
      else if name = ''append_diagnostic'' then
        Inr (s\<lparr>bp_diagnostics := bp_diagnostics s @
          [case pget op ''diagnostic'' of PDict d \<Rightarrow> d | v \<Rightarrow> [(''message'', PStr (py_str v))]]\<rparr>)
      else if name = ''set_board_status'' then
        Inr (s\<lparr>bp_status := text_or op ''status'' (bp_status s), bp_explicit := True\<rparr>)
      else if name = ''update_metadata'' then
        (case py_or (pget op ''metadata'') (PDict []) of
           PDict d \<Rightarrow> Inr (s\<lparr>bp_metadata := dict_update (bp_metadata s) d\<rparr>)
         | _ \<Rightarrow> Inl MetadataNotMapping)
      else Inl (UnsupportedOperation name))"

text \<open>The status of every card: its result's when there is one, else its own.\<close>

definition effective_status :: "(string, card_result) dict \<Rightarrow> board_card \<Rightarrow> string" where
  "effective_status results c =
     lower (strip (case dict_get results (c_id c) of Some r \<Rightarrow> cr_status r | None \<Rightarrow> c_status c))"

definition status_table :: "board_card list \<Rightarrow> (string, card_result) dict \<Rightarrow> (string, string) dict" where
  "status_table cards results = fold (\<lambda>c. dict_set (c_id c) (effective_status results c)) cards []"

definition derive_board_status ::
  "board_card list \<Rightarrow> (string, card_result) dict \<Rightarrow> string \<Rightarrow> string" where
  "derive_board_status cards results current =
     (let table = status_table cards results;
          required = map (\<lambda>c. dict_get_or table (c_id c) ''pending'') (filter card_required cards)
      in if list_ex (\<lambda>st. st \<in> {''failed'', ''error''}) required then ''failed''
         else if list_ex (\<lambda>st. st = ''setback'') (map snd table) then ''running''
         else if list_ex (\<lambda>st. st = ''blocked'') required then ''blocked''
         else if list_all (\<lambda>st. st \<in> set terminal_statuses) (map snd table) \<and>
                 (required = [] \<or> list_all (\<lambda>st. st = ''completed'') required)
         then ''completed'' else current)"

text \<open>\<open>metadata.setdefault("applied_patches", [])\<close>, then the patch is noted when it is a list.\<close>

definition note_patch :: "string \<Rightarrow> pydict \<Rightarrow> pydict" where
  "note_patch pid metadata =
     (let md = dict_setdefault ''applied_patches'' (PList []) metadata
      in case pget md ''applied_patches'' of
           PList xs \<Rightarrow> dict_set ''applied_patches'' (PList (xs @ [PStr pid])) md
         | _ \<Rightarrow> md)"

datatype patch_input = PatchObject board_patch | PatchMapping pyval

definition coerce_patch :: "fresh_ids \<Rightarrow> patch_input \<Rightarrow> board_error + board_patch" where
  "coerce_patch fresh i =
     (case i of PatchObject p \<Rightarrow> Inr p | PatchMapping v \<Rightarrow> patch_from_value fresh v)"

definition patch_start :: "board_revision \<Rightarrow> patch_state" where
  "patch_start rv =
     \<lparr> bp_cards = bg_cards (rv_graph rv), bp_results = rv_results rv, bp_evidence = rv_evidence rv,
       bp_diagnostics = rv_diagnostics rv, bp_metadata = rv_metadata rv, bp_status = rv_status rv,
       bp_explicit = False \<rparr>"

definition patched_revision :: "fresh_ids \<Rightarrow> board_patch \<Rightarrow> board_revision \<Rightarrow> patch_state \<Rightarrow> board_error + board_revision" where
  "patched_revision fresh p rv s =
     (let status = (if bp_explicit s then bp_status s
                    else derive_board_status (bp_cards s) (bp_results s) (bp_status s))
      in next_revision fresh (with_cards (bp_cards s) (rv_graph rv)) status (bp_results s)
           (bp_evidence s @ p_evidence p) (bp_diagnostics s @ p_diagnostics p)
           (note_patch (p_id p) (bp_metadata s)) rv)"

definition apply_task_board_patch ::
  "fresh_ids \<Rightarrow> revision_input \<Rightarrow> patch_input \<Rightarrow> board_error + board_revision" where
  "apply_task_board_patch fresh i j =
     bindE (validate_task_board_revision fresh i) (\<lambda>v.
     bindE (coerce_patch fresh j) (\<lambda>p.
       let rv = bv_revision v in
       if p_base p \<noteq> rv_id rv then Inl (RevisionMismatch (rv_id rv) (p_base p))
       else bindE (foldE apply_operation (p_operations p) (patch_start rv)) (\<lambda>s.
         bindE (patched_revision fresh p rv s) (\<lambda>rv'.
         bindE (validate_board rv') (\<lambda>_. Inr rv')))))"

end
