(* ===== verification/BoardCorrect.thy ===== *)
theory BoardCorrect
  imports BoardOps
begin

text \<open>
  Correctness of the task board: which revisions validation accepts, what a schedule
  holds and when it makes progress, and how statuses are derived.
\<close>

section \<open>Validation\<close>

definition cards_closed :: "board_card list \<Rightarrow> bool" where
  "cards_closed cs \<longleftrightarrow> distinct (map c_id cs) \<and>
     (\<forall>c \<in> set cs. set (c_depends_on c) \<subseteq> c_id ` set cs)"

definition results_ok :: "board_revision \<Rightarrow> bool" where
  "results_ok rv \<longleftrightarrow>
     (\<forall>(k, r) \<in> set (rv_results rv). k \<in> c_id ` set (bg_cards (rv_graph rv)) \<and> cr_card_id r = k)"

definition board_ok :: "board_revision \<Rightarrow> bool" where
  "board_ok rv \<longleftrightarrow>
     (let cs = bg_cards (rv_graph rv)
      in cs \<noteq> [] \<and> cards_closed cs \<and> (\<forall>c \<in> set cs. valid_card_id (c_id c)) \<and>
         (\<exists>xs. is_topo (card_graph cs) xs) \<and> results_ok rv)"

lemma check_card_ids_iff:
  "check_card_ids cs seen dups = Inr dups' \<Longrightarrow>
     (\<forall>c \<in> set cs. valid_card_id (c_id c)) \<and>
     (dups' = [] \<longrightarrow> dups = [] \<and> distinct (map c_id cs) \<and> c_id ` set cs \<inter> set seen = {})"
proof (induction cs seen dups rule: check_card_ids.induct)
  case (2 c cs seen dups)
  then have ok: "c_id c \<noteq> []" "valid_card_id (c_id c)"
    "check_card_ids cs (c_id c # seen) (if c_id c \<in> set seen then dups @ [c_id c] else dups) = Inr dups'"
    by (auto split: if_splits)
  from "2.IH" [OF ok(1) _ ok(3)] ok(2) show ?case by (auto split: if_splits)
qed simp

lemma check_card_ids_ok:
  "(\<And>c. c \<in> set cs \<Longrightarrow> valid_card_id (c_id c)) \<Longrightarrow> distinct (map c_id cs) \<Longrightarrow>
     c_id ` set cs \<inter> set seen = {} \<Longrightarrow> check_card_ids cs seen dups = Inr dups"
  by (induction cs arbitrary: seen) (auto simp: valid_card_id_def)

lemma check_card_deps_iff:
  "foldE (check_card_deps ids) cs () = Inr u \<longleftrightarrow> (\<forall>c \<in> set cs. set (c_depends_on c) \<subseteq> set ids)"
  by (auto simp: foldE_unit check_card_deps_def)

lemma check_result_iff:
  "foldE (check_result ids) rs () = Inr u \<longleftrightarrow> (\<forall>(k, r) \<in> set rs. k \<in> set ids \<and> cr_card_id r = k)"
  by (auto simp: foldE_unit check_result_def split: if_splits)

lemma dict_keys_card_graph [simp]: "dict_keys (card_graph cs) = map c_id cs"
  by (simp add: card_graph_def)

lemma fst_card_graph [simp]: "fst ` set (card_graph cs) = c_id ` set cs"
  by (force simp: card_graph_def)

lemma card_graph_wf: "cards_closed cs \<Longrightarrow> graph_wf (card_graph cs)"
  by (force simp: graph_wf_def cards_closed_def card_graph_def comp_def)

lemma deps_of_card_graph:
  "cards_closed cs \<Longrightarrow> c \<in> set cs \<Longrightarrow> deps_of (card_graph cs) (c_id c) = c_depends_on c"
  by (rule deps_of_mem [OF card_graph_wf]) (auto simp: card_graph_def)

lemma roots_of_card_graph:
  "roots_of (card_graph cs) = map c_id (filter (\<lambda>c. c_depends_on c = []) cs)"
  by (induction cs) (auto simp: card_graph_def roots_of_def)

interpretation board: topo_sorter board_order card_graph cards_closed
proof unfold_locales
  fix cs rs xs ys
  assume c: "cards_closed cs"
  show "graph_wf (card_graph cs)" using c by (rule card_graph_wf)
  show "is_topo (card_graph cs) xs \<and> rs = roots_of (card_graph cs)" if "board_order cs = Inr (rs, xs)"
    using that kahn_sound [OF card_graph_wf [OF c]] by (simp add: board_order_def split: sum.splits)
  show "\<exists>xs. board_order cs = Inr (roots_of (card_graph cs), xs)"
    if "card_graph cs \<noteq> []" "is_topo (card_graph cs) ys"
    using kahn_complete [OF card_graph_wf [OF c] that] by (auto simp: board_order_def)
qed

lemma validate_board_Inr:
  assumes "validate_board rv = Inr v"
  shows "board_ok rv \<and> (\<exists>xs. board_order (bg_cards (rv_graph rv)) =
      Inr (roots_of (card_graph (bg_cards (rv_graph rv))), xs) \<and>
    v = \<lparr> bv_revision = rv, bv_card_ids = map c_id (bg_cards (rv_graph rv)),
          bv_roots = roots_of (card_graph (bg_cards (rv_graph rv))), bv_order = xs,
          bv_diagnostics = rv_diagnostics rv \<rparr>)"
proof -
  let ?cs = "bg_cards (rv_graph rv)" and ?ids = "map c_id (bg_cards (rv_graph rv))"
  from assms have ne: "?cs \<noteq> []" by (auto simp: validate_board_def)
  with assms obtain dups u roots ordered u' where
    ids: "check_card_ids ?cs [] [] = Inr dups" "dups = []" and
    deps: "foldE (check_card_deps ?ids) ?cs () = Inr u" and
    o: "board_order ?cs = Inr (roots, ordered)" and
    res: "foldE (check_result ?ids) (rv_results rv) () = Inr u'" and
    v: "v = \<lparr> bv_revision = rv, bv_card_ids = ?ids, bv_roots = roots, bv_order = ordered,
              bv_diagnostics = rv_diagnostics rv \<rparr>"
    by (auto simp: validate_board_def Let_def bindE_eq_Inr split: if_splits prod.splits)
  from check_card_ids_iff [OF ids(1)] ids(2) deps
  have closed: "cards_closed ?cs" and valid: "\<forall>c \<in> set ?cs. valid_card_id (c_id c)"
    by (auto simp: cards_closed_def check_card_deps_iff)
  from board.sorter_sound [OF closed o]
  have topo: "is_topo (card_graph ?cs) ordered" and roots: "roots = roots_of (card_graph ?cs)" by auto
  have "results_ok rv" using res by (auto simp: check_result_iff results_ok_def)
  with ne closed valid topo have "board_ok rv" by (auto simp: board_ok_def Let_def)
  with o v roots show ?thesis by simp
qed

lemma board_ok_validates:
  assumes "board_ok rv"
  shows "\<exists>xs. board_order (bg_cards (rv_graph rv)) =
      Inr (roots_of (card_graph (bg_cards (rv_graph rv))), xs) \<and>
    is_topo (card_graph (bg_cards (rv_graph rv))) xs \<and>
    validate_board rv = Inr \<lparr> bv_revision = rv, bv_card_ids = map c_id (bg_cards (rv_graph rv)),
          bv_roots = roots_of (card_graph (bg_cards (rv_graph rv))), bv_order = xs,
          bv_diagnostics = rv_diagnostics rv \<rparr>"
proof -
  let ?cs = "bg_cards (rv_graph rv)"
  from assms obtain ys where ne: "?cs \<noteq> []" and closed: "cards_closed ?cs"
    and valid: "\<forall>c \<in> set ?cs. valid_card_id (c_id c)" and topo: "is_topo (card_graph ?cs) ys"
    and res: "results_ok rv"
    by (auto simp: board_ok_def Let_def)
  have "card_graph ?cs \<noteq> []" using ne by (simp add: card_graph_def)
  from board.sorter_complete [OF closed this topo]
  obtain xs where o: "board_order ?cs = Inr (roots_of (card_graph ?cs), xs)" by blast
  have "check_card_ids ?cs [] [] = Inr []"
    using valid closed by (intro check_card_ids_ok) (auto simp: cards_closed_def)
  moreover have "foldE (check_card_deps (map c_id ?cs)) ?cs () = Inr ()"
    using closed by (auto simp: check_card_deps_iff cards_closed_def)
  moreover have "foldE (check_result (map c_id ?cs)) (rv_results rv) () = Inr ()"
    using res by (auto simp: check_result_iff results_ok_def)
  ultimately have "validate_board rv = Inr \<lparr> bv_revision = rv, bv_card_ids = map c_id ?cs,
          bv_roots = roots_of (card_graph ?cs), bv_order = xs, bv_diagnostics = rv_diagnostics rv \<rparr>"
    using ne o by (simp add: validate_board_def Let_def)
  with o board.sorter_sound [OF closed o] show ?thesis by blast
qed

section \<open>Scheduling\<close>

text \<open>
  The specification reads the cards directly: which are open, which dependencies are met.
\<close>

definition card_open :: "board_revision \<Rightarrow> board_card \<Rightarrow> bool" where
  "card_open rv c \<longleftrightarrow>
     c_status c \<notin> set terminal_statuses \<and>
     \<not> (\<exists>r. (c_id c, r) \<in> set (rv_results rv) \<and> cr_status r \<in> set terminal_statuses)"

definition card_settled :: "board_revision \<Rightarrow> board_card \<Rightarrow> bool" where
  "card_settled rv c \<longleftrightarrow> dependency_satisfied c (dict_get (rv_results rv) (c_id c))"

definition card_ready :: "board_revision \<Rightarrow> board_card \<Rightarrow> bool" where
  "card_ready rv c \<longleftrightarrow>
     (\<forall>d \<in> set (bg_cards (rv_graph rv)). c_id d \<in> set (c_depends_on c) \<longrightarrow> card_settled rv d)"

lemma card_by_id_get:
  assumes "distinct (map c_id (bg_cards g))" and "c \<in> set (bg_cards g)"
  shows "dict_get (card_by_id g) (c_id c) = Some c"
proof -
  have "dict_get (fold (\<lambda>c. dict_set (c_id c) c) cs d) (c_id c) = Some c"
    if "distinct (map c_id cs)" "c \<in> set cs" for cs d
    using that
  proof (induction cs arbitrary: d)
    case (Cons x xs)
    have other: "dict_get (fold (\<lambda>c. dict_set (c_id c) c) ys d) k = dict_get d k"
      if "k \<notin> c_id ` set ys" for ys d k
      using that by (induction ys arbitrary: d) auto
    from Cons show ?case using other [of "c_id c" xs] by auto
  qed simp
  with assms show ?thesis by (simp add: card_by_id_def)
qed

lemma result_ids_mem:
  "t \<in> set (result_ids sts rv) \<longleftrightarrow> (\<exists>r. (t, r) \<in> set (rv_results rv) \<and> cr_status r \<in> set sts)"
  by (force simp: result_ids_def)

lemma scan_deps_spec:
  assumes "\<And>d. d \<in> set ds \<Longrightarrow> \<exists>c. dict_get cards d = Some c"
  shows "\<exists>diags. scan_deps cards results cid ds =
    Inr (filter (\<lambda>d. \<not> dependency_satisfied (the (dict_get cards d)) (dict_get results d)) ds, diags)"
  using assms
proof (induction ds)
  case (Cons d ds)
  then obtain c diags where "dict_get cards d = Some c"
    "scan_deps cards results cid ds =
       Inr (filter (\<lambda>d. \<not> dependency_satisfied (the (dict_get cards d)) (dict_get results d)) ds, diags)"
    by fastforce
  then show ?case by (simp add: Let_def)
qed simp

lemma schedule_card_spec:
  assumes ok: "cards_closed (bg_cards (rv_graph rv))" and c: "c \<in> set (bg_cards (rv_graph rv))"
  shows "\<exists>diags. schedule_card (card_by_id (rv_graph rv)) (rv_results rv) (result_ids terminal_statuses rv) (c_id c) s =
    Inr \<lparr> ss_runnable = ss_runnable s @ (if card_open rv c \<and> card_ready rv c then [c_id c] else []),
          ss_blocked = ss_blocked s @ (if card_open rv c \<and> \<not> card_ready rv c then [c_id c] else []),
          ss_diagnostics = ss_diagnostics s @ diags \<rparr>"
proof -
  let ?cs = "bg_cards (rv_graph rv)" and ?by = "card_by_id (rv_graph rv)"
  from ok have dist: "distinct (map c_id ?cs)" by (simp add: cards_closed_def)
  note get = card_by_id_get [OF dist]
  have deps: "d \<in> c_id ` set ?cs" if "d \<in> set (c_depends_on c)" for d
    using ok c that by (auto simp: cards_closed_def)
  then have "\<exists>dc. dict_get ?by d = Some dc" if "d \<in> set (c_depends_on c)" for d
    using that get by fastforce
  from scan_deps_spec [of "c_depends_on c" ?by "rv_results rv" "c_id c", OF this]
  obtain diags where sc: "scan_deps ?by (rv_results rv) (c_id c) (c_depends_on c) =
      Inr (filter (\<lambda>d. \<not> dependency_satisfied (the (dict_get ?by d)) (dict_get (rv_results rv) d))
             (c_depends_on c), diags)" by blast
  have ready: "filter (\<lambda>d. \<not> dependency_satisfied (the (dict_get ?by d)) (dict_get (rv_results rv) d))
             (c_depends_on c) = [] \<longleftrightarrow> card_ready rv c"
    unfolding card_ready_def card_settled_def filter_empty_conv
    using deps get by fastforce
  show ?thesis
  proof (cases "card_open rv c")
    case True
    then have "\<not> (c_id c \<in> set (result_ids terminal_statuses rv) \<or> c_status c \<in> set terminal_statuses)"
      by (auto simp: card_open_def result_ids_mem)
    with True ready show ?thesis
      by (intro exI [of _ diags]) (simp add: schedule_card_def get [OF c] sc Let_def)
  next
    case False
    then have "c_id c \<in> set (result_ids terminal_statuses rv) \<or> c_status c \<in> set terminal_statuses"
      by (auto simp: card_open_def result_ids_mem)
    with False show ?thesis
      by (intro exI [of _ "[]"]) (simp add: schedule_card_def get [OF c])
  qed
qed
definition runnable_id :: "board_revision \<Rightarrow> string \<Rightarrow> bool" where
  "runnable_id rv t \<longleftrightarrow>
     (\<exists>c \<in> set (bg_cards (rv_graph rv)). c_id c = t \<and> card_open rv c \<and> card_ready rv c)"

definition waiting_id :: "board_revision \<Rightarrow> string \<Rightarrow> bool" where
  "waiting_id rv t \<longleftrightarrow>
     (\<exists>c \<in> set (bg_cards (rv_graph rv)). c_id c = t \<and> card_open rv c \<and> \<not> card_ready rv c)"

lemma card_unique:
  "cards_closed cs \<Longrightarrow> c \<in> set cs \<Longrightarrow> c' \<in> set cs \<Longrightarrow> c_id c = c_id c' \<Longrightarrow> c = c'"
  unfolding cards_closed_def by (metis inj_on_def distinct_map)

lemma runnable_id_card:
  assumes "cards_closed (bg_cards (rv_graph rv))" and "c \<in> set (bg_cards (rv_graph rv))"
  shows "runnable_id rv (c_id c) \<longleftrightarrow> card_open rv c \<and> card_ready rv c"
    and "waiting_id rv (c_id c) \<longleftrightarrow> card_open rv c \<and> \<not> card_ready rv c"
  using assms(2) card_unique [OF assms(1)] by (fastforce simp: runnable_id_def waiting_id_def)+

lemma schedule_fold:
  assumes "cards_closed (bg_cards (rv_graph rv))" and "set xs \<subseteq> c_id ` set (bg_cards (rv_graph rv))"
  shows "\<exists>diags. foldE (schedule_card (card_by_id (rv_graph rv)) (rv_results rv)
      (result_ids terminal_statuses rv)) xs s =
    Inr \<lparr> ss_runnable = ss_runnable s @ filter (runnable_id rv) xs,
          ss_blocked = ss_blocked s @ filter (waiting_id rv) xs,
          ss_diagnostics = ss_diagnostics s @ diags \<rparr>"
  using assms(2)
proof (induction xs arbitrary: s)
  case Nil
  have "foldE f [] s = Inr \<lparr> ss_runnable = ss_runnable s, ss_blocked = ss_blocked s,
      ss_diagnostics = ss_diagnostics s @ [] \<rparr>" for f :: "string \<Rightarrow> _ \<Rightarrow> board_error + _" by simp
  then show ?case by (intro exI [of _ "[]"]) simp
next
  case (Cons x xs)
  then obtain c where c: "c \<in> set (bg_cards (rv_graph rv))" "x = c_id c" by auto
  from schedule_card_spec [OF assms(1) c(1), of s] runnable_id_card [OF assms(1) c(1)] c(2)
  obtain diags where s: "schedule_card (card_by_id (rv_graph rv)) (rv_results rv)
      (result_ids terminal_statuses rv) x s =
    Inr \<lparr> ss_runnable = ss_runnable s @ (if runnable_id rv x then [x] else []),
          ss_blocked = ss_blocked s @ (if waiting_id rv x then [x] else []),
          ss_diagnostics = ss_diagnostics s @ diags \<rparr>" (is "_ = Inr ?s") by auto
  from Cons.prems have "set xs \<subseteq> c_id ` set (bg_cards (rv_graph rv))" by simp
  from Cons.IH [OF this, of ?s] obtain diags' where
    "foldE (schedule_card (card_by_id (rv_graph rv)) (rv_results rv)
      (result_ids terminal_statuses rv)) xs ?s =
    Inr \<lparr> ss_runnable = ss_runnable ?s @ filter (runnable_id rv) xs,
          ss_blocked = ss_blocked ?s @ filter (waiting_id rv) xs,
          ss_diagnostics = ss_diagnostics ?s @ diags' \<rparr>" by blast
  with s show ?case by (intro exI [of _ "diags @ diags'"]) simp
qed

lemma schedule_board_ok:
  assumes "board_ok rv"
  shows "\<exists>p xs. schedule_board rv = Inr p \<and> is_topo (card_graph (bg_cards (rv_graph rv))) xs \<and>
    sp_revision p = rv_id rv \<and> sp_runnable p = filter (runnable_id rv) xs \<and>
    sp_blocked p = filter (waiting_id rv) xs \<and>
    sp_completed p = sort (remdups (result_ids [''completed''] rv))"
proof -
  from board_ok_validates [OF assms] obtain xs where
    topo: "is_topo (card_graph (bg_cards (rv_graph rv))) xs" and
    v: "validate_board rv = Inr \<lparr> bv_revision = rv, bv_card_ids = map c_id (bg_cards (rv_graph rv)),
          bv_roots = roots_of (card_graph (bg_cards (rv_graph rv))), bv_order = xs,
          bv_diagnostics = rv_diagnostics rv \<rparr>" by blast
  from assms have closed: "cards_closed (bg_cards (rv_graph rv))" by (simp add: board_ok_def Let_def)
  have "set xs \<subseteq> c_id ` set (bg_cards (rv_graph rv))" using topo by (simp add: is_topo_def)
  from schedule_fold [OF closed this, of "\<lparr>ss_runnable = [], ss_blocked = [], ss_diagnostics = []\<rparr>"]
  show ?thesis using v topo by (auto simp: schedule_board_def)
qed

lemma first_open:
  assumes "\<exists>x \<in> set xs. P x"
  obtains ys x zs where "xs = ys @ x # zs" and "P x" and "\<And>y. y \<in> set ys \<Longrightarrow> \<not> P y"
  using split_list_first_prop [OF assms] by metis

lemma open_card_runnable:
  assumes ok: "board_ok rv" and "\<exists>c \<in> set (bg_cards (rv_graph rv)). card_open rv c"
    and settled: "\<And>c. c \<in> set (bg_cards (rv_graph rv)) \<Longrightarrow> \<not> card_open rv c \<Longrightarrow> card_settled rv c"
  shows "\<exists>c \<in> set (bg_cards (rv_graph rv)). card_open rv c \<and> card_ready rv c"
proof -
  let ?cs = "bg_cards (rv_graph rv)" and ?open = "\<lambda>t. \<exists>c \<in> set (bg_cards (rv_graph rv)). c_id c = t \<and> card_open rv c"
  from ok obtain xs where closed: "cards_closed ?cs" and topo: "is_topo (card_graph ?cs) xs"
    by (auto simp: board_ok_def Let_def)
  have "\<exists>t \<in> set xs. ?open t" using assms(2) topo by (auto simp: is_topo_def)
  then obtain ys t zs where xs: "xs = ys @ t # zs" and t: "?open t" and
    before: "\<And>y. y \<in> set ys \<Longrightarrow> \<not> ?open y"
    by (rule first_open) blast
  from t obtain c where c: "c \<in> set ?cs" "c_id c = t" "card_open rv c" by blast
  have "card_settled rv d" if d: "d \<in> set ?cs" "c_id d \<in> set (c_depends_on c)" for d
  proof -
    have "c_id d \<in> set (deps_of (card_graph ?cs) t)"
      using deps_of_card_graph [OF closed c(1)] c(2) d(2) by simp
    then have "c_id d \<in> set ys"
      using dep_ordered_prefix_dep [OF _ xs, of "deps_of (card_graph ?cs)" "{}"] topo
      by (auto simp: is_topo_def)
    with before d(1) have "\<not> card_open rv d" by blast
    with settled d(1) show ?thesis by blast
  qed
  with c show ?thesis by (auto simp: card_ready_def)
qed

end
