(* ===== verification/BoardTheorems.thy ===== *)
theory BoardTheorems
  imports BoardCorrect
begin

text \<open>
  The properties of task board validation, scheduling and status derivation, each with a
  concrete board on which it applies.
\<close>

section \<open>A sample board\<close>

text \<open>Card \<open>b\<close> depends on \<open>a\<close>, card \<open>c\<close> on both; \<open>b\<close> is optional.\<close>

definition sample_card :: "string \<Rightarrow> string list \<Rightarrow> string \<Rightarrow> string \<Rightarrow> board_card" where
  "sample_card cid deps policy status =
     \<lparr> c_id = cid, c_objective = ''do'', c_depends_on = deps, c_input_refs = [], c_required_outputs = [],
       c_shape = ''auto'', c_policy_scope_refs = [], c_evidence = [], c_failure_policy = policy,
       c_status = status, c_metadata = [], c_schema = board_schema_version \<rparr>"

definition sample_result :: "string \<Rightarrow> string \<Rightarrow> card_result" where
  "sample_result cid status =
     \<lparr> cr_card_id = cid, cr_status = status, cr_digest = None, cr_preview = PNone, cr_artifact_refs = [],
       cr_file_refs = [], cr_diagnostics = [], cr_patch = None, cr_metadata = [],
       cr_schema = board_schema_version \<rparr>"

definition sample_board :: "board_card list \<Rightarrow> card_result list \<Rightarrow> board_revision" where
  "sample_board cards results =
     (create_revision ''board'' \<lparr>bg_id = ''g'', bg_cards = cards, bg_metadata = [], bg_schema = board_schema_version\<rparr>
        None [])\<lparr>rv_results := map (\<lambda>r. (cr_card_id r, r)) results\<rparr>"

definition abc_cards :: "string \<Rightarrow> board_card list" where
  "abc_cards st =
     [sample_card ''c'' [''a'', ''b''] ''required'' ''pending'', sample_card ''a'' [] ''required'' st,
      sample_card ''b'' [''a''] ''optional'' ''pending'']"

lemmas sample_defs = sample_card_def sample_result_def sample_board_def abc_cards_def create_revision_def

lemma abc_topo: "is_topo (card_graph (abc_cards st)) [''a'', ''b'', ''c'']"
  by (auto simp: is_topo_def card_graph_def deps_of_def dict_get_or_def sample_defs)

lemma sample_board_ok:
  assumes "\<forall>r \<in> set rs. cr_card_id r \<in> {''a'', ''b'', ''c''}"
  shows "board_ok (sample_board (abc_cards st) rs)"
proof -
  have cards: "bg_cards (rv_graph (sample_board (abc_cards st) rs)) = abc_cards st"
    by (simp add: sample_board_def create_revision_def)
  have "cards_closed (abc_cards st)" by (simp add: cards_closed_def sample_defs)
  moreover have "\<forall>c \<in> set (abc_cards st). valid_card_id (c_id c)"
    by (simp add: valid_card_id_def is_letter_def code_in_def sample_defs)
  moreover have "results_ok (sample_board (abc_cards st) rs)"
    using assms unfolding results_ok_def cards by (auto simp: sample_defs)
  ultimately show ?thesis using abc_topo unfolding board_ok_def Let_def cards
    by (auto simp: abc_cards_def)
qed

text \<open>A board of one card.\<close>

lemma solo_board_ok:
  assumes "bg_cards (rv_graph rv) = [c]" and "c_depends_on c = []" and "valid_card_id (c_id c)"
    and "\<forall>(k, r) \<in> set (rv_results rv). k = c_id c \<and> cr_card_id r = k"
  shows "board_ok rv"
proof -
  have "is_topo (card_graph [c]) [c_id c]"
    using assms(2) by (simp add: is_topo_def card_graph_def deps_of_def dict_get_or_def)
  with assms show ?thesis by (auto simp: board_ok_def cards_closed_def results_ok_def Let_def)
qed

section \<open>Validation\<close>

text \<open>
C7: Validation accepts exactly the well-formed boards: there is a card, ids are distinct
and match the pattern, every dependency is a card, the dependency graph has a topological
order, and every result belongs to its card.  What it returns is the revision itself, the
cards without dependencies as roots, and a topological order of the cards.
\<close>

theorem validate_board_exact:
  "((\<exists>v. validate_board rv = Inr v) = board_ok rv) \<and>
   (validate_board rv = Inr v \<longrightarrow>
      bv_revision v = rv \<and>
      bv_roots v = map c_id (filter (\<lambda>c. c_depends_on c = []) (bg_cards (rv_graph rv))) \<and>
      is_topo (card_graph (bg_cards (rv_graph rv))) (bv_order v))"
proof -
  have "bv_revision v = rv \<and>
      bv_roots v = map c_id (filter (\<lambda>c. c_depends_on c = []) (bg_cards (rv_graph rv))) \<and>
      is_topo (card_graph (bg_cards (rv_graph rv))) (bv_order v)" if v: "validate_board rv = Inr v"
  proof -
    from validate_board_Inr [OF v] obtain xs where ok: "board_ok rv" and
      o: "board_order (bg_cards (rv_graph rv)) = Inr (roots_of (card_graph (bg_cards (rv_graph rv))), xs)" and
      "bv_revision v = rv" "bv_roots v = roots_of (card_graph (bg_cards (rv_graph rv)))" "bv_order v = xs"
      by auto
    moreover from ok have "cards_closed (bg_cards (rv_graph rv))" by (simp add: board_ok_def Let_def)
    ultimately show ?thesis using board.sorter_sound [OF _ o] by (simp add: roots_of_card_graph)
  qed
  then show ?thesis using validate_board_Inr [of rv] board_ok_validates [of rv] by blast
qed

lemma validate_board_exact_witness:
  "\<exists>v. validate_board (sample_board (abc_cards ''pending'') []) = Inr v \<and> bv_roots v = [''a'']"
proof -
  have "board_ok (sample_board (abc_cards ''pending'') [])" by (rule sample_board_ok) simp
  then obtain v where v: "validate_board (sample_board (abc_cards ''pending'') []) = Inr v"
    using validate_board_exact [of "sample_board (abc_cards ''pending'') []" undefined] by blast
  with validate_board_exact [of "sample_board (abc_cards ''pending'') []" v]
  have "bv_roots v = [''a'']" by (simp add: sample_defs)
  with v show ?thesis by blast
qed

section \<open>Scheduling\<close>

text \<open>
C8: A schedule of a well-formed board always exists.  Along one topological order of the
cards, the runnable cards are exactly the open ones all of whose dependencies are settled,
the blocked ones the other open cards; the completed ids are the sorted ids of results
with status \<open>completed\<close>.
\<close>

theorem schedule_exact:
  assumes "board_ok rv"
  shows "\<exists>p xs. schedule_task_board_revision fresh (RevisionObject rv) = Inr p \<and>
     is_topo (card_graph (bg_cards (rv_graph rv))) xs \<and>
     sp_runnable p = filter (runnable_id rv) xs \<and> sp_blocked p = filter (waiting_id rv) xs \<and>
     set (sp_completed p) = {t. \<exists>r. (t, r) \<in> set (rv_results rv) \<and> cr_status r = ''completed''} \<and>
     sorted (sp_completed p) \<and> distinct (sp_completed p)"
proof -
  from schedule_board_ok [OF assms] obtain p xs where p: "schedule_board rv = Inr p"
    "is_topo (card_graph (bg_cards (rv_graph rv))) xs" "sp_runnable p = filter (runnable_id rv) xs"
    "sp_blocked p = filter (waiting_id rv) xs" "sp_completed p = sort (remdups (result_ids [''completed''] rv))"
    by blast
  have "set (result_ids [''completed''] rv) =
      {t. \<exists>r. (t, r) \<in> set (rv_results rv) \<and> cr_status r = ''completed''}"
    by (rule set_eqI) (simp add: result_ids_mem)
  with p show ?thesis
    by (intro exI [of _ p] exI [of _ xs]) (simp add: schedule_task_board_revision_def coerce_revision_def)
qed

lemma schedule_exact_witness:
  "\<exists>p. schedule_task_board_revision (\<lambda>_. ''0'')
     (RevisionObject (sample_board (abc_cards ''pending'') [sample_result ''a'' ''completed''])) = Inr p \<and>
     ''b'' \<in> set (sp_runnable p)"
proof -
  let ?rv = "sample_board (abc_cards ''pending'') [sample_result ''a'' ''completed'']"
  have ok: "board_ok ?rv" by (rule sample_board_ok) (simp add: sample_result_def)
  from schedule_exact [OF this, of "\<lambda>_. ''0''"] obtain p xs where
    p: "schedule_task_board_revision (\<lambda>_. ''0'') (RevisionObject ?rv) = Inr p"
    and t: "is_topo (card_graph (bg_cards (rv_graph ?rv))) xs"
    and r: "sp_runnable p = filter (runnable_id ?rv) xs" by blast
  have "runnable_id ?rv ''b''"
    by (simp add: runnable_id_def card_open_def card_ready_def card_settled_def dependency_satisfied_def
        terminal_statuses_def lower_def lower_char_def strip_def lstrip_def rstrip_def
        is_space_def code_in_def sample_defs)
  moreover have "''b'' \<in> set xs" using t by (simp add: is_topo_def sample_defs)
  ultimately have "''b'' \<in> set (sp_runnable p)" unfolding r by simp
  with p show ?thesis by blast
qed

text \<open>
C18: Progress.  As long as a card is open and every card that is no longer open counts as
settled for its dependents, a schedule offers at least one card to run.
\<close>

theorem schedule_progress:
  assumes "board_ok rv" and "\<exists>c \<in> set (bg_cards (rv_graph rv)). card_open rv c"
    and "\<forall>c \<in> set (bg_cards (rv_graph rv)). \<not> card_open rv c \<longrightarrow> card_settled rv c"
  shows "\<exists>p. schedule_task_board_revision fresh (RevisionObject rv) = Inr p \<and> sp_runnable p \<noteq> []"
proof -
  from schedule_board_ok [OF assms(1)] obtain p xs where p: "schedule_board rv = Inr p"
    and t: "is_topo (card_graph (bg_cards (rv_graph rv))) xs"
    and r: "sp_runnable p = filter (runnable_id rv) xs" by blast
  from open_card_runnable [OF assms(1,2)] assms(3) obtain c where
    c: "c \<in> set (bg_cards (rv_graph rv))" "card_open rv c" "card_ready rv c" by blast
  then have "c_id c \<in> set xs" "runnable_id rv (c_id c)"
    using t by (auto simp: is_topo_def runnable_id_def)
  with r have "sp_runnable p \<noteq> []" by (auto simp: filter_empty_conv)
  with p show ?thesis by (simp add: schedule_task_board_revision_def coerce_revision_def)
qed

lemma schedule_progress_witness:
  "\<exists>p. schedule_task_board_revision (\<lambda>_. ''0'') (RevisionObject (sample_board (abc_cards ''pending'') [])) = Inr p \<and>
     sp_runnable p \<noteq> []"
proof (rule schedule_progress)
  show "board_ok (sample_board (abc_cards ''pending'') [])" by (rule sample_board_ok) simp
  show "\<exists>c \<in> set (bg_cards (rv_graph (sample_board (abc_cards ''pending'') []))).
      card_open (sample_board (abc_cards ''pending'') []) c"
    and "\<forall>c \<in> set (bg_cards (rv_graph (sample_board (abc_cards ''pending'') []))).
      \<not> card_open (sample_board (abc_cards ''pending'') []) c \<longrightarrow>
      card_settled (sample_board (abc_cards ''pending'') []) c"
    by (simp_all add: card_open_def terminal_statuses_def sample_defs)
qed
section \<open>The status of the board\<close>

lemma fold_dict_set_distinct:
  "distinct (map f cs) \<Longrightarrow> f ` set cs \<inter> fst ` set d = {} \<Longrightarrow>
     fold (\<lambda>c. dict_set (f c) (g c)) cs d = d @ map (\<lambda>c. (f c, g c)) cs"
proof (induction cs arbitrary: d)
  case (Cons c cs)
  then have "dict_set (f c) (g c) d = d @ [(f c, g c)]" by (intro dict_set_append) auto
  with Cons show ?case by auto
qed simp

lemma status_table_map:
  "distinct (map c_id cs) \<Longrightarrow> status_table cs results = map (\<lambda>c. (c_id c, effective_status results c)) cs"
  by (simp add: status_table_def fold_dict_set_distinct)

lemma status_table_get:
  assumes "distinct (map c_id cs)" and "c \<in> set cs"
  shows "dict_get_or (status_table cs results) (c_id c) x = effective_status results c"
proof -
  have "dict_get (status_table cs results) (c_id c) = Some (effective_status results c)"
    unfolding status_table_map [OF assms(1)]
    using assms by (intro dict_get_SomeI) (auto simp: comp_def)
  then show ?thesis by (simp add: dict_get_or_def)
qed

lemma derive_status_cases:
  assumes "distinct (map c_id cs)"
  shows "derive_board_status cs results current =
    (if \<exists>c \<in> set cs. card_required c \<and> effective_status results c \<in> {''failed'', ''error''} then ''failed''
     else if \<exists>c \<in> set cs. effective_status results c = ''setback'' then ''running''
     else if \<exists>c \<in> set cs. card_required c \<and> effective_status results c = ''blocked'' then ''blocked''
     else if (\<forall>c \<in> set cs. effective_status results c \<in> set terminal_statuses) \<and>
             (\<forall>c \<in> set cs. \<not> card_required c \<or> effective_status results c = ''completed'')
     then ''completed'' else current)"
proof -
  let ?required = "map (\<lambda>c. dict_get_or (status_table cs results) (c_id c) ''pending'') (filter card_required cs)"
  have required: "?required = map (effective_status results) (filter card_required cs)"
    using status_table_get [OF assms] by (intro map_cong) auto
  have all: "map snd (status_table cs results) = map (effective_status results) cs"
    unfolding status_table_map [OF assms] by simp
  let ?E = "effective_status results"
  have ex: "list_ex P (map ?E (filter card_required cs)) \<longleftrightarrow> (\<exists>c \<in> set cs. card_required c \<and> P (?E c))"
    and any: "list_ex P (map ?E cs) \<longleftrightarrow> (\<exists>c \<in> set cs. P (?E c))"
    and every: "list_all P (map ?E cs) \<longleftrightarrow> (\<forall>c \<in> set cs. P (?E c))" for P
    by (auto simp: list_ex_iff list_all_iff)
  have req: "map ?E (filter card_required cs) = [] \<or> list_all P (map ?E (filter card_required cs)) \<longleftrightarrow>
      (\<forall>c \<in> set cs. \<not> card_required c \<or> P (?E c))" for P
    by (auto simp: list_all_iff filter_empty_conv)
  show ?thesis
    unfolding derive_board_status_def Let_def required all ex any every req by (rule refl)
qed

text \<open>
The derived status of a board, in the order of precedence: failed as soon as a
required card failed, running while a card is set back, blocked when a required card is
blocked, completed when every card has ended and the required ones completed, and
otherwise unchanged.  Optional cards neither fail nor block a board.
\<close>

theorem derive_status_exact:
  assumes "board_ok rv"
  shows "derive_board_status (bg_cards (rv_graph rv)) (rv_results rv) current =
    (let cs = set (bg_cards (rv_graph rv)); st = effective_status (rv_results rv) in
     if \<exists>c \<in> cs. card_required c \<and> st c \<in> {''failed'', ''error''} then ''failed''
     else if \<exists>c \<in> cs. st c = ''setback'' then ''running''
     else if \<exists>c \<in> cs. card_required c \<and> st c = ''blocked'' then ''blocked''
     else if (\<forall>c \<in> cs. st c \<in> set terminal_statuses) \<and> (\<forall>c \<in> cs. \<not> card_required c \<or> st c = ''completed'')
     then ''completed'' else current)"
proof -
  from assms have "distinct (map c_id (bg_cards (rv_graph rv)))"
    by (simp add: board_ok_def cards_closed_def Let_def)
  then show ?thesis unfolding Let_def by (rule derive_status_cases)
qed

lemma derive_status_exact_witness:
  "derive_board_status [sample_card ''a'' [] ''required'' ''pending''] [(''a'', sample_result ''a'' ''Failed'')]
     ''running'' = ''failed''"
proof -
  let ?c = "sample_card ''a'' [] ''required'' ''pending''" and ?r = "sample_result ''a'' ''Failed''"
  let ?rv = "sample_board [?c] [?r]"
  have rv: "bg_cards (rv_graph ?rv) = [?c]" "rv_results ?rv = [(''a'', ?r)]"
    by (simp_all add: sample_defs)
  have "board_ok ?rv"
    by (rule solo_board_ok [OF rv(1)])
      (simp_all add: valid_card_id_def is_letter_def code_in_def sample_defs)
  moreover have "card_required ?c" "effective_status [(''a'', ?r)] ?c = ''failed''" by code_simp+
  ultimately show ?thesis using derive_status_exact [of ?rv "''running''"]
    unfolding rv by (simp add: Let_def)
qed

section \<open>Where the scheduler and its helpers disagree\<close>

text \<open>
The scheduler compares result statuses as they are written, while the dependency
check and the derived board status ignore case and surrounding space.  When every card has
a result whose status is a variant of \<open>completed\<close> that is not written exactly so, the
derived board status is \<open>completed\<close>, and yet the schedule offers every card again, in
topological order, and lists none as completed.
\<close>

theorem schedule_status_variants:
  assumes "board_ok rv" and "dict_wf (rv_results rv)"
    and "\<forall>c \<in> set (bg_cards (rv_graph rv)). c_status c \<notin> set terminal_statuses \<and>
      (\<exists>r. dict_get (rv_results rv) (c_id c) = Some r \<and> lower (strip (cr_status r)) = ''completed'' \<and>
           cr_status r \<notin> set terminal_statuses)"
  shows "derive_board_status (bg_cards (rv_graph rv)) (rv_results rv) current = ''completed'' \<and>
    (\<exists>p. schedule_task_board_revision fresh (RevisionObject rv) = Inr p \<and>
       is_topo (card_graph (bg_cards (rv_graph rv))) (sp_runnable p) \<and> sp_blocked p = [] \<and> sp_completed p = [])"
proof -
  let ?cs = "bg_cards (rv_graph rv)"
  from assms(1) have closed: "cards_closed ?cs" by (simp add: board_ok_def Let_def)
  have done': "effective_status (rv_results rv) c = ''completed'' \<and> card_settled rv c \<and> card_open rv c"
    if "c \<in> set ?cs" for c
    using assms(3) that dict_get_SomeI [OF assms(2)]
    by (fastforce simp: effective_status_def card_settled_def dependency_satisfied_def card_open_def)
  have 1: "derive_board_status ?cs (rv_results rv) current = ''completed''"
    using done' closed by (auto simp: derive_status_cases cards_closed_def terminal_statuses_def)
  from schedule_board_ok [OF assms(1)] obtain p xs where p: "schedule_board rv = Inr p"
    "is_topo (card_graph ?cs) xs" "sp_runnable p = filter (runnable_id rv) xs"
    "sp_blocked p = filter (waiting_id rv) xs" "sp_completed p = sort (remdups (result_ids [''completed''] rv))"
    by blast
  have all: "runnable_id rv t \<and> \<not> waiting_id rv t" if "t \<in> set xs" for t
    using that p(2) done' by (auto simp: is_topo_def runnable_id_def waiting_id_def card_ready_def)
  have "r \<noteq> ''completed''" if "(k, res) \<in> set (rv_results rv)" "cr_status res = r" for k res r
  proof -
    from that(1) assms(1) obtain c where "c \<in> set ?cs" "c_id c = k"
      by (auto simp: board_ok_def results_ok_def Let_def)
    with assms(3) dict_get_SomeI [OF assms(2) that(1)] that(2) show ?thesis
      by (fastforce simp: terminal_statuses_def)
  qed
  then have "result_ids [''completed''] rv = []" by (auto simp: result_ids_def filter_empty_conv)
  with p all 1 show ?thesis
    by (simp add: schedule_task_board_revision_def coerce_revision_def filter_empty_conv filter_True)
qed

lemma schedule_status_variants_witness:
  "\<exists>p. schedule_task_board_revision (\<lambda>_. ''0'')
     (RevisionObject (sample_board [sample_card ''a'' [] ''required'' ''pending''] [sample_result ''a'' ''Completed''])) = Inr p \<and>
     sp_completed p = []"
proof -
  let ?rv = "sample_board [sample_card ''a'' [] ''required'' ''pending''] [sample_result ''a'' ''Completed'']"
  have "board_ok ?rv"
    by (rule solo_board_ok [of _ "sample_card ''a'' [] ''required'' ''pending''"])
      (simp_all add: valid_card_id_def is_letter_def code_in_def sample_defs)
  moreover have text_variant: "lower (strip ''Completed'') = ''completed''" by code_simp
  moreover have "dict_wf (rv_results ?rv)" by (simp add: sample_defs)
  moreover have "\<forall>c \<in> set (bg_cards (rv_graph ?rv)). c_status c \<notin> set terminal_statuses \<and>
      (\<exists>r. dict_get (rv_results ?rv) (c_id c) = Some r \<and> lower (strip (cr_status r)) = ''completed'' \<and>
           cr_status r \<notin> set terminal_statuses)"
    using text_variant by (simp add: terminal_statuses_def sample_defs)
  ultimately show ?thesis using schedule_status_variants [of ?rv "''running''" "\<lambda>_. ''0''"] by blast
qed

text \<open>
A card whose own status is \<open>completed\<close> but that has no recorded result is never
offered again, and is never settled for its dependents: every open card that depends on
it stays blocked.
\<close>

theorem completed_without_result:
  assumes "board_ok rv" and "c \<in> set (bg_cards (rv_graph rv))" and "c_status c = ''completed''"
    and "dict_get (rv_results rv) (c_id c) = None"
    and "t \<in> set (bg_cards (rv_graph rv))" and "card_open rv t" and "c_id c \<in> set (c_depends_on t)"
  shows "\<exists>p. schedule_task_board_revision fresh (RevisionObject rv) = Inr p \<and>
    c_id t \<in> set (sp_blocked p) \<and> c_id c \<notin> set (sp_runnable p) \<and> c_id c \<notin> set (sp_completed p)"
proof -
  let ?cs = "bg_cards (rv_graph rv)"
  from assms(1) have closed: "cards_closed ?cs" by (simp add: board_ok_def Let_def)
  from schedule_board_ok [OF assms(1)] obtain p xs where p: "schedule_board rv = Inr p"
    "is_topo (card_graph ?cs) xs" "sp_runnable p = filter (runnable_id rv) xs"
    "sp_blocked p = filter (waiting_id rv) xs" "sp_completed p = sort (remdups (result_ids [''completed''] rv))"
    by blast
  have "lower (strip (c_status c)) = ''completed''"
    unfolding assms(3) by code_simp
  then have "\<not> card_settled rv c"
    using assms(4) by (simp add: card_settled_def dependency_satisfied_def)
  then have "\<not> card_ready rv t" using assms(2,7) by (auto simp: card_ready_def)
  then have "waiting_id rv (c_id t)" using runnable_id_card [OF closed assms(5)] assms(6) by simp
  moreover have "\<not> runnable_id rv (c_id c)"
    using runnable_id_card [OF closed assms(2)] assms(3) by (simp add: card_open_def terminal_statuses_def)
  moreover have "c_id c \<notin> set (result_ids [''completed''] rv)"
    using assms(4) by (auto simp: result_ids_mem map_of_eq_None_iff image_iff)
  moreover have "c_id t \<in> set xs" using p(2) assms(5) by (simp add: is_topo_def)
  ultimately show ?thesis using p
    by (simp add: schedule_task_board_revision_def coerce_revision_def)
qed

lemma completed_without_result_witness:
  "\<exists>p. schedule_task_board_revision (\<lambda>_. ''0'') (RevisionObject (sample_board (abc_cards ''completed'') [])) = Inr p \<and>
     ''b'' \<in> set (sp_blocked p)"
proof -
  let ?rv = "sample_board (abc_cards ''completed'') []"
  let ?a = "sample_card ''a'' [] ''required'' ''completed''" and ?b = "sample_card ''b'' [''a''] ''optional'' ''pending''"
  have "board_ok ?rv" by (rule sample_board_ok) simp
  moreover have "card_open ?rv ?b" "?a \<in> set (bg_cards (rv_graph ?rv))" "?b \<in> set (bg_cards (rv_graph ?rv))"
    "c_status ?a = ''completed''" "dict_get (rv_results ?rv) (c_id ?a) = None" "c_id ?a \<in> set (c_depends_on ?b)"
    by (simp_all add: card_open_def terminal_statuses_def sample_defs)
  ultimately show ?thesis using completed_without_result [of ?rv ?a ?b "\<lambda>_. ''0''"]
    by (auto simp: sample_card_def)
qed

end
