(* ===== verification/BoardPatch.thy ===== *)
theory BoardPatch
  imports BoardTheorems "HOL-Library.Sublist"
begin

text \<open>
  Patches of a task board: what every operation keeps, the numbering of revisions, the
  normal form of board data that parsing establishes and patching keeps, and the round
  trip of a revision through its exported mapping.
\<close>

section \<open>What an operation keeps\<close>

definition patch_grows :: "patch_state \<Rightarrow> patch_state \<Rightarrow> bool" where
  "patch_grows s s' \<longleftrightarrow>
     prefix (map c_id (bp_cards s)) (map c_id (bp_cards s')) \<and>
     fst ` set (bp_results s) \<subseteq> fst ` set (bp_results s') \<and>
     prefix (bp_evidence s) (bp_evidence s') \<and> prefix (bp_diagnostics s) (bp_diagnostics s')"

lemma patch_grows_refl [simp]: "patch_grows s s"
  by (simp add: patch_grows_def)

lemma patch_grows_trans: "patch_grows s t \<Longrightarrow> patch_grows t u \<Longrightarrow> patch_grows s u"
  unfolding patch_grows_def by (meson prefix_order.trans subset_trans)

lemma card_index_Inr:
  "card_index cs cid = Inr i \<Longrightarrow> i < length cs \<and> c_id (cs ! i) = cid"
  by (induction cs arbitrary: i) (auto simp: bindE_eq_Inr split: if_splits)

lemma card_index_mem: "c \<in> set cs \<Longrightarrow> \<exists>i. card_index cs (c_id c) = Inr i"
  by (induction cs) auto

lemma card_index_missing: "card_index cs cid = Inl e \<Longrightarrow> e = UnknownCard cid \<and> cid \<notin> c_id ` set cs"
  by (induction cs) (auto simp: bindE_eq_Inl split: if_splits)

lemma change_card_Inr:
  assumes "change_card cid f s = Inr s'" and "\<And>c. c_id c = cid \<Longrightarrow> c_id (f c) = cid"
  shows "map c_id (bp_cards s') = map c_id (bp_cards s) \<and>
    (\<exists>i < length (bp_cards s). s' = s\<lparr>bp_cards := (bp_cards s)[i := f (bp_cards s ! i)]\<rparr>)"
proof -
  from assms(1) obtain i where i: "card_index (bp_cards s) cid = Inr i"
    and s': "s' = s\<lparr>bp_cards := (bp_cards s)[i := f (bp_cards s ! i)]\<rparr>"
    by (auto simp: change_card_def bindE_eq_Inr)
  from card_index_Inr [OF i] have "i < length (bp_cards s)" "c_id (bp_cards s ! i) = cid" by auto
  moreover have "(map c_id (bp_cards s))[i := cid] = map c_id (bp_cards s)"
    by (metis \<open>i < _\<close> \<open>c_id _ = cid\<close> list_update_id nth_map)
  ultimately have "map c_id (bp_cards s') = map c_id (bp_cards s)"
    using assms(2) unfolding s' by (simp add: map_update)
  with \<open>i < _\<close> s' show ?thesis by blast
qed

lemma change_card_grows:
  "change_card cid f s = Inr s' \<Longrightarrow> (\<And>c. c_id c = cid \<Longrightarrow> c_id (f c) = cid) \<Longrightarrow> patch_grows s s'"
  using change_card_Inr [of cid f s s'] by (auto simp: patch_grows_def)

lemma with_status_id [simp]: "c_id (with_status st c) = c_id c"
  by (simp add: with_status_def)

lemma with_dependencies_id [simp]: "c_id (with_dependencies ds c) = c_id c"
  by (simp add: with_dependencies_def)

text \<open>The operations of a patch, as the cases the proofs go through.\<close>

lemma apply_operation_cases [consumes 1, case_names add change result evidence diagnostic status metadata]:
  assumes "apply_operation op s = Inr s'"
  obtains c where "card_from_value (py_or (pget op ''card'') (PDict [])) = Inr c"
      "c_id c \<notin> c_id ` set (bp_cards s)" "s' = s\<lparr>bp_cards := bp_cards s @ [c]\<rparr>"
  | cid f where "change_card cid f s = Inr s'" "\<And>c. c_id c = cid \<Longrightarrow> c_id (f c) = cid"
      "(\<exists>c. card_from_value (py_or (pget op ''card'') (PDict [])) = Inr c \<and> f = (\<lambda>_. c)) \<or>
       f = with_status (text_or op ''status'' ''pending'') \<or>
       (\<exists>g. f = (\<lambda>c. with_dependencies (g c) c))"
  | r where "result_from_value (py_or (pget op ''result'') (PDict [])) = Inr r"
      "change_card (cr_card_id r) (with_status (cr_status r))
         (s\<lparr>bp_results := dict_set (cr_card_id r) r (bp_results s)\<rparr>) = Inr s'"
  | d where "s' = s\<lparr>bp_evidence := bp_evidence s @ [d]\<rparr>"
  | d where "s' = s\<lparr>bp_diagnostics := bp_diagnostics s @ [d]\<rparr>"
  | "s' = s\<lparr>bp_status := text_or op ''status'' (bp_status s), bp_explicit := True\<rparr>"
  | d where "s' = s\<lparr>bp_metadata := d\<rparr>"
proof -
  let ?name = "op_text op ''op''"
  note u = assms [unfolded apply_operation_def Let_def]
  consider "?name = ''add_card''" | "?name = ''update_card''" | "?name = ''set_card_status''"
    | "?name = ''add_dependency''" | "?name = ''remove_dependency''" | "?name = ''record_card_result''"
    | "?name = ''append_evidence_ref''" | "?name = ''append_diagnostic''" | "?name = ''set_board_status''"
    | "?name = ''update_metadata''"
    using u by (auto split: if_split_asm)
  then show thesis
  proof cases
    case 1
    with u that(1) show ?thesis by (auto simp: bindE_eq_Inr split: if_split_asm)
  next
    case 2
    with u obtain c where c: "card_from_value (py_or (pget op ''card'') (PDict [])) = Inr c"
      "change_card (c_id c) (\<lambda>_. c) s = Inr s'" by (auto simp: bindE_eq_Inr)
    show ?thesis by (rule that(2) [OF c(2)]) (use c(1) in auto)
  next
    case 3
    with u obtain cid where "change_card cid (with_status (text_or op ''status'' ''pending'')) s = Inr s'"
      by (auto simp: bindE_eq_Inr)
    then show ?thesis by (rule that(2)) auto
  next
    case 4
    with u obtain cid d where "change_card cid (\<lambda>c. with_dependencies (c_depends_on c @ [d]) c) s = Inr s'"
      by (auto simp: bindE_eq_Inr)
    then show ?thesis by (rule that(2)) auto
  next
    case 5
    with u obtain cid d where
      "change_card cid (\<lambda>c. with_dependencies (filter (\<lambda>x. x \<noteq> d) (c_depends_on c)) c) s = Inr s'"
      by (auto simp: bindE_eq_Inr)
    then show ?thesis by (rule that(2)) auto
  next
    case 6
    with u that(3) show ?thesis by (auto simp: bindE_eq_Inr)
  next
    case 7
    with u that(4) show ?thesis by auto
  next
    case 8
    with u that(5) show ?thesis by auto
  next
    case 9
    with u that(6) show ?thesis by auto
  next
    case 10
    with u that(7) show ?thesis by (auto split: pyval.splits)
  qed
qed

lemma apply_operation_grows:
  assumes "apply_operation op s = Inr s'"
  shows "patch_grows s s'"
  using assms
proof (cases rule: apply_operation_cases)
  case (change cid f)
  then show ?thesis by (intro change_card_grows)
next
  case (result r)
  have "patch_grows s (s\<lparr>bp_results := dict_set (cr_card_id r) r (bp_results s)\<rparr>)"
    by (auto simp: patch_grows_def)
  moreover have "patch_grows (s\<lparr>bp_results := dict_set (cr_card_id r) r (bp_results s)\<rparr>) s'"
    by (rule change_card_grows [OF result(2)]) simp
  ultimately show ?thesis by (rule patch_grows_trans)
qed (auto simp: patch_grows_def)

lemma apply_operations_grow:
  assumes "foldE apply_operation ops s = Inr s'"
  shows "patch_grows s s'"
  by (rule foldE_invariant [OF assms, where P = "patch_grows s"])
    (auto intro: patch_grows_trans apply_operation_grows)

lemma apply_patch_Inr:
  assumes "apply_task_board_patch fresh i j = Inr rv'"
  obtains rv p s where "coerce_revision fresh i = Inr rv" and "board_ok rv" and "coerce_patch fresh j = Inr p"
    and "p_base p = rv_id rv" and "foldE apply_operation (p_operations p) (patch_start rv) = Inr s"
    and "patched_revision fresh p rv s = Inr rv'" and "board_ok rv'"
proof -
  from assms obtain v p where v: "validate_task_board_revision fresh i = Inr v" and p: "coerce_patch fresh j = Inr p"
    and rest: "(if p_base p \<noteq> rv_id (bv_revision v) then Inl (RevisionMismatch (rv_id (bv_revision v)) (p_base p))
       else bindE (foldE apply_operation (p_operations p) (patch_start (bv_revision v))) (\<lambda>s.
         bindE (patched_revision fresh p (bv_revision v) s) (\<lambda>rv'.
         bindE (validate_board rv') (\<lambda>_. Inr rv')))) = Inr rv'"
    by (auto simp: apply_task_board_patch_def bindE_eq_Inr Let_def)
  from v obtain rv where rv: "coerce_revision fresh i = Inr rv" "validate_board rv = Inr v"
    by (auto simp: validate_task_board_revision_def bindE_eq_Inr)
  from validate_board_Inr [OF rv(2)] have "board_ok rv" "bv_revision v = rv" by auto
  with rest obtain s v' where "p_base p = rv_id rv"
    "foldE apply_operation (p_operations p) (patch_start rv) = Inr s"
    "patched_revision fresh p rv s = Inr rv'" "validate_board rv' = Inr v'"
    by (auto simp: bindE_eq_Inr split: if_split_asm)
  with that rv(1) \<open>board_ok rv\<close> p validate_board_Inr show thesis by blast
qed
lemma patch_applies:
  assumes "board_ok rv" and "coerce_patch fresh j = Inr p" and "p_base p = rv_id rv"
    and "foldE apply_operation (p_operations p) (patch_start rv) = Inr s"
    and "patched_revision fresh p rv s = Inr rv'" and "board_ok rv'"
  shows "apply_task_board_patch fresh (RevisionObject rv) j = Inr rv'"
proof -
  from board_ok_validates [OF assms(1)] obtain v where "validate_board rv = Inr v" "bv_revision v = rv" by auto
  moreover from board_ok_validates [OF assms(6)] obtain v' where "validate_board rv' = Inr v'" by blast
  ultimately show ?thesis using assms
    by (simp add: apply_task_board_patch_def validate_task_board_revision_def coerce_revision_def)
qed

section \<open>The history of a board\<close>

lemma int_text_Suc: "int_text (int n + 1) = nat_text (Suc n)"
  by (simp add: int_text_def nat_add_distrib)

lemma next_revision_id_rev:
  "next_revision_id fresh (''rev-'' @ nat_text n) = Inr (''rev-'' @ nat_text (Suc n))"
  by (simp add: next_revision_id_def int_of_text_nat_text int_text_Suc)

lemma nat_text_inject: "nat_text m = nat_text n \<Longrightarrow> m = n"
  using digits_val_nat_text by (metis option.inject)

definition revision_grows :: "board_revision \<Rightarrow> board_revision \<Rightarrow> bool" where
  "revision_grows rv rv' \<longleftrightarrow> rv_board rv' = rv_board rv \<and>
     prefix (map c_id (bg_cards (rv_graph rv))) (map c_id (bg_cards (rv_graph rv'))) \<and>
     fst ` set (rv_results rv) \<subseteq> fst ` set (rv_results rv') \<and>
     prefix (rv_evidence rv) (rv_evidence rv') \<and> prefix (rv_diagnostics rv) (rv_diagnostics rv')"

lemma revision_grows_refl [simp]: "revision_grows rv rv"
  by (simp add: revision_grows_def)

lemma revision_grows_trans: "revision_grows a b \<Longrightarrow> revision_grows b c \<Longrightarrow> revision_grows a c"
  unfolding revision_grows_def by (auto intro: prefix_order.trans)

lemma patched_revision_Inr:
  assumes "patched_revision fresh p rv s = Inr rv'"
  shows "next_revision_id fresh (rv_id rv) = Inr (rv_id rv')" and "rv_board rv' = rv_board rv"
    and "rv_graph rv' = (rv_graph rv)\<lparr>bg_cards := bp_cards s\<rparr>" and "rv_results rv' = bp_results s"
    and "rv_evidence rv' = bp_evidence s @ p_evidence p"
    and "rv_diagnostics rv' = bp_diagnostics s @ p_diagnostics p"
    and "rv_metadata rv' = note_patch (p_id p) (bp_metadata s)" and "rv_schema rv' = rv_schema rv"
    and "rv_status rv' =
      (let st = (if bp_explicit s then bp_status s
                 else derive_board_status (bp_cards s) (bp_results s) (bp_status s))
       in if st = [] then rv_status rv else st)"
  using assms by (auto simp: patched_revision_def next_revision_def bindE_eq_Inr with_cards_def Let_def)

lemma apply_patch_grows:
  assumes "apply_task_board_patch fresh (RevisionObject rv) j = Inr rv'"
  shows "revision_grows rv rv' \<and> board_ok rv' \<and> next_revision_id fresh (rv_id rv) = Inr (rv_id rv')"
proof -
  from apply_patch_Inr [OF assms] obtain p s where
    s: "foldE apply_operation (p_operations p) (patch_start rv) = Inr s"
    and rv': "patched_revision fresh p rv s = Inr rv'" and ok: "board_ok rv'"
    by (metis coerce_revision_def revision_input.simps(5) sum.inject(2))
  from apply_operations_grow [OF s] patched_revision_Inr [OF rv'] ok show ?thesis
    by (auto simp: patch_grows_def revision_grows_def patch_start_def)
qed

definition apply_patches :: "fresh_ids \<Rightarrow> patch_input list \<Rightarrow> board_revision \<Rightarrow> board_error + board_revision" where
  "apply_patches fresh ps = foldE (\<lambda>j rv. apply_task_board_patch fresh (RevisionObject rv) j) ps"

lemma apply_patches_history:
  assumes "apply_patches fresh ps rv = Inr rv'" and "rv_id rv = ''rev-'' @ nat_text n"
  shows "revision_grows rv rv' \<and> rv_id rv' = ''rev-'' @ nat_text (n + length ps) \<and> (ps = [] \<or> board_ok rv')"
  using assms
proof (induction ps arbitrary: rv n)
  case (Cons j ps)
  from Cons.prems(1) obtain rv1 where
    rv1: "apply_task_board_patch fresh (RevisionObject rv) j = Inr rv1" "apply_patches fresh ps rv1 = Inr rv'"
    by (auto simp: apply_patches_def bindE_eq_Inr)
  from apply_patch_grows [OF rv1(1)] Cons.prems(2)
  have g: "revision_grows rv rv1" "board_ok rv1" "rv_id rv1 = ''rev-'' @ nat_text (Suc n)"
    by (auto simp: next_revision_id_rev simp del: nat_text.simps append.simps)
  from Cons.IH [OF rv1(2) g(3)] g show ?case
    using rv1(2) revision_grows_trans [of rv rv1 rv'] by (cases ps) (auto simp: apply_patches_def)
qed (simp add: apply_patches_def)

lemma stale_patch:
  assumes "coerce_patch fresh j = Inr p" and "p_base p \<noteq> rv_id rv" and "board_ok rv"
  shows "apply_task_board_patch fresh (RevisionObject rv) j = Inl (RevisionMismatch (rv_id rv) (p_base p))"
proof -
  from board_ok_validates [OF assms(3)] obtain v where "validate_board rv = Inr v" "bv_revision v = rv" by auto
  with assms(1,2) show ?thesis
    by (simp add: apply_task_board_patch_def validate_task_board_revision_def coerce_revision_def)
qed

text \<open>
C4: The history of a board.  Patches applied one after the other to a revision numbered
\<open>n\<close> give the revision numbered by how many there were, which is well formed; no card,
recorded result, evidence reference or diagnostic is ever lost, and cards keep their
places; and a patch written against any earlier revision is refused.
\<close>

theorem patch_history:
  assumes "apply_patches fresh ps rv = Inr rv'" and "rv_id rv = ''rev-'' @ nat_text n" and "ps \<noteq> []"
  shows "rv_id rv' = ''rev-'' @ nat_text (n + length ps) \<and> board_ok rv' \<and> revision_grows rv rv' \<and>
    (\<forall>m < n + length ps. \<forall>j p. coerce_patch fresh j = Inr p \<and> p_base p = ''rev-'' @ nat_text m \<longrightarrow>
       apply_task_board_patch fresh (RevisionObject rv') j = Inl (RevisionMismatch (rv_id rv') (p_base p)))"
proof -
  from apply_patches_history [OF assms(1,2)] assms(3)
  have h: "revision_grows rv rv'" "rv_id rv' = ''rev-'' @ nat_text (n + length ps)" "board_ok rv'" by auto
  moreover have "p_base p \<noteq> rv_id rv'" if "m < n + length ps" "p_base p = ''rev-'' @ nat_text m" for m and p :: board_patch
    using that h(2) nat_text_inject by fastforce
  ultimately show ?thesis using stale_patch by blast
qed

definition sample_patch :: "string \<Rightarrow> pydict list \<Rightarrow> patch_input" where
  "sample_patch base ops = PatchMapping (PDict [(''base_revision'', PStr base), (''operations'', PList (map PDict ops))])"

lemma sample_patch_applies:
  "\<exists>rv'. apply_task_board_patch (\<lambda>_. ''0'') (RevisionObject (sample_board [sample_card ''a'' [] ''required'' ''pending''] []))
      (sample_patch ''rev-0'' [[(''op'', PStr ''append_diagnostic''), (''diagnostic'', PStr ''x'')]]) = Inr rv'"
proof -
  let ?c = "sample_card ''a'' [] ''required'' ''pending''"
  let ?rv = "sample_board [?c] []" and ?ops = "[[(''op'', PStr ''append_diagnostic''), (''diagnostic'', PStr ''x'')]]"
  let ?s = "(patch_start ?rv)\<lparr>bp_diagnostics := [[(''message'', PStr ''x'')]]\<rparr>"
  have id: "valid_card_id (c_id ?c)" by code_simp
  have ok: "board_ok rv" if "bg_cards (rv_graph rv) = [?c]" "rv_results rv = []" for rv
    using solo_board_ok [OF that(1) _ id] that(2) by (simp add: sample_card_def)
  have "coerce_patch (\<lambda>_. ''0'') (sample_patch ''rev-0'' ?ops) =
      Inr \<lparr> p_base = ''rev-0'', p_operations = ?ops, p_id = ''patch-0'', p_source = ''task_board'',
            p_diagnostics = [], p_evidence = [], p_metadata = [], p_schema = board_schema_version \<rparr>"
    (is "_ = Inr ?p") by code_simp
  moreover have "foldE apply_operation (p_operations ?p) (patch_start ?rv) = Inr ?s" by code_simp
  moreover have "next_revision_id (\<lambda>_. ''0'') (rv_id ?rv) = Inr ''rev-1''" by code_simp
  then obtain rv' where rv': "patched_revision (\<lambda>_. ''0'') ?p ?rv ?s = Inr rv'"
    by (simp add: patched_revision_def next_revision_def Let_def)
  moreover have "board_ok rv'"
    using patched_revision_Inr(3,4) [OF rv'] by (intro ok) (simp_all add: patch_start_def sample_defs)
  moreover have "board_ok ?rv" by (rule ok) (simp_all add: sample_defs)
  moreover have "p_base ?p = rv_id ?rv" by (simp add: sample_defs)
  ultimately show ?thesis using patch_applies by blast
qed

lemma patch_history_witness:
  "\<exists>rv'. apply_patches (\<lambda>_. ''0'')
     [sample_patch ''rev-0'' [[(''op'', PStr ''append_diagnostic''), (''diagnostic'', PStr ''x'')]]]
     (sample_board [sample_card ''a'' [] ''required'' ''pending''] []) = Inr rv' \<and> rv_id rv' = ''rev-1''"
proof -
  let ?rv = "sample_board [sample_card ''a'' [] ''required'' ''pending''] []"
  from sample_patch_applies obtain rv' where rv': "apply_patches (\<lambda>_. ''0'')
     [sample_patch ''rev-0'' [[(''op'', PStr ''append_diagnostic''), (''diagnostic'', PStr ''x'')]]] ?rv = Inr rv'"
    by (auto simp: apply_patches_def split: sum.splits)
  have "rv_id ?rv = ''rev-'' @ nat_text 0" by code_simp
  from patch_history [OF rv' this] have "rv_id rv' = ''rev-'' @ nat_text 1" by simp
  moreover have "''rev-'' @ nat_text 1 = ''rev-1''" by code_simp
  ultimately show ?thesis using rv' by auto
qed

end
