(* ===== verification/BoardData.thy ===== *)
theory BoardData
  imports BoardPatch
begin

text \<open>
  The typing of task board data: the normal form that parsing establishes, that every patch
  keeps, and on which exporting and parsing again is the identity.
\<close>

section \<open>Normal texts\<close>

definition clean_text :: "string \<Rightarrow> bool" where
  "clean_text s \<longleftrightarrow> s \<noteq> [] \<and> strip s = s"

definition text_list :: "string list \<Rightarrow> bool" where
  "text_list ds \<longleftrightarrow> distinct ds \<and> list_all clean_text ds"

text \<open>Every object inside the value prints as some text.\<close>

fun shown :: "pyval \<Rightarrow> bool" where
  "shown (PList xs) = (\<forall>x \<in> set xs. shown x)"
| "shown (PTuple xs) = (\<forall>x \<in> set xs. shown x)"
| "shown (PSet xs) = (\<forall>x \<in> set xs. shown x)"
| "shown (PDict d) = (\<forall>(k, v) \<in> set d. shown v)"
| "shown (PObj j t) = (t \<noteq> [])"
| "shown v = True"

abbreviation shown_dict :: "pydict \<Rightarrow> bool" where
  "shown_dict d \<equiv> shown (PDict d)"

lemma shown_get: "shown_dict d \<Longrightarrow> shown (pget d k)"
  by (auto simp: pget_def dict_get_or_def split: option.splits dest!: dict_get_Some_mem)

lemma shown_items: "shown v \<Longrightarrow> seq_items v = Some xs \<Longrightarrow> x \<in> set xs \<Longrightarrow> shown x"
  by (cases v) auto

lemma shown_or: "shown a \<Longrightarrow> shown b \<Longrightarrow> shown (py_or a b)"
  by (simp add: py_or_def)

lemma py_str_nonempty: "truthy v \<Longrightarrow> shown v \<Longrightarrow> py_str v \<noteq> []"
  by (cases v) (auto simp: int_text_def float_text_def Let_def split: list.splits)

lemma text_or_nonempty: "shown_dict d \<Longrightarrow> dflt \<noteq> [] \<Longrightarrow> text_or d k dflt \<noteq> []"
  unfolding text_or_def by (intro py_str_nonempty shown_or shown_get) (auto simp: py_or_def)

lemma text_or_text: "pget d k = PStr s \<Longrightarrow> s \<noteq> [] \<Longrightarrow> text_or d k dflt = s"
  by (simp add: text_or_def py_or_def)

lemma clean_str_clean: "clean_str v = Some t \<Longrightarrow> clean_text t"
  by (auto simp: clean_str_def clean_text_def str_strip_def Let_def split: if_splits)

lemma clean_str_text: "clean_text s \<Longrightarrow> clean_str (PStr s) = Some s"
  by (auto simp: clean_str_def clean_text_def str_strip_def)

lemma clean_str_opt: "(case t of None \<Rightarrow> True | Some s \<Rightarrow> clean_text s) \<Longrightarrow> clean_str (opt_str t) = t"
proof (cases t)
  case None
  then show ?thesis by (simp add: opt_str_def clean_str_def)
qed (simp add: opt_str_def clean_str_text)

lemma add_text_list: "text_list acc \<Longrightarrow> text_list (add_text v acc)"
  by (auto simp: add_text_def text_list_def dest: clean_str_clean split: option.splits)

lemma str_tuple_list: "text_list (str_tuple v)"
proof -
  have "text_list (fold add_text items acc)" if "text_list acc" for items acc
    using that by (induction items arbitrary: acc) (auto intro: add_text_list)
  moreover have "text_list []" by (simp add: text_list_def)
  moreover have "text_list (opt_list (clean_str v))"
    by (auto simp: text_list_def opt_list_def dest: clean_str_clean split: option.splits)
  ultimately show ?thesis by (auto simp: str_tuple_def split: option.splits)
qed

lemma fold_add_text:
  "text_list (acc @ ds) \<Longrightarrow> fold add_text (map PStr ds) acc = acc @ ds"
proof (induction ds arbitrary: acc)
  case (Cons d ds)
  then have "add_text (PStr d) acc = acc @ [d]"
    by (auto simp: add_text_def text_list_def clean_str_text)
  with Cons show ?case by simp
qed simp

lemma str_tuple_texts [simp]: "text_list ds \<Longrightarrow> str_tuple (PList (map PStr ds)) = ds"
  using fold_add_text [of "[]" ds] by (simp add: str_tuple_def)

definition policies :: "string set" where
  "policies = {''required'', ''optional'', ''degradable''}"

lemma failure_policy_of_mem: "failure_policy_of v \<in> policies"
  by (auto simp: failure_policy_of_def policies_def Let_def)

lemma failure_policy_of_fix:
  assumes "p \<in> policies"
  shows "failure_policy_of (PStr p) = p"
proof -
  have "failure_policy_of (PStr ''required'') = ''required''" "failure_policy_of (PStr ''optional'') = ''optional''"
    "failure_policy_of (PStr ''degradable'') = ''degradable''" by code_simp+
  with assms show ?thesis by (auto simp: policies_def)
qed

lemma card_policy_fix:
  assumes "c_failure_policy c \<in> policies"
  shows "card_policy c = c_failure_policy c"
proof -
  have "lower (strip ''required'') = ''required''" "lower (strip ''optional'') = ''optional''"
    "lower (strip ''degradable'') = ''degradable''" by code_simp+
  with assms show ?thesis
    by (auto simp: policies_def card_policy_def replace_char_def Let_def)
qed

lemma mapping_tuple_dicts [simp]: "mapping_tuple (PList (map PDict ds)) = ds"
  by (simp add: mapping_tuple_def comp_def)

section \<open>Normal board data\<close>

definition card_normal :: "board_card \<Rightarrow> bool" where
  "card_normal c \<longleftrightarrow> clean_text (c_id c) \<and> clean_text (c_objective c) \<and> text_list (c_depends_on c) \<and>
     text_list (c_input_refs c) \<and> text_list (c_required_outputs c) \<and> text_list (c_policy_scope_refs c) \<and>
     c_shape c \<noteq> [] \<and> c_failure_policy c \<in> policies \<and> c_status c \<noteq> [] \<and> c_schema c \<noteq> []"

definition result_normal :: "card_result \<Rightarrow> bool" where
  "result_normal r \<longleftrightarrow> clean_text (cr_card_id r) \<and> clean_text (cr_status r) \<and>
     (case cr_digest r of None \<Rightarrow> True | Some t \<Rightarrow> clean_text t) \<and> cr_schema r \<noteq> []"

definition graph_normal :: "board_graph \<Rightarrow> bool" where
  "graph_normal g \<longleftrightarrow> clean_text (bg_id g) \<and> list_all card_normal (bg_cards g) \<and> bg_schema g \<noteq> []"

definition revision_normal :: "board_revision \<Rightarrow> bool" where
  "revision_normal rv \<longleftrightarrow> clean_text (rv_board rv) \<and> clean_text (rv_id rv) \<and> graph_normal (rv_graph rv) \<and>
     (\<forall>(k, r) \<in> set (rv_results rv). result_normal r) \<and> rv_status rv \<noteq> [] \<and> rv_schema rv \<noteq> []"

lemma schema_nonempty [simp]: "board_schema_version \<noteq> []"
  by (simp add: board_schema_version_def)

lemma card_from_value_normal:
  assumes "card_from_value v = Inr c" and "shown v"
  shows "card_normal c"
proof -
  from assms(1) obtain d where v: "v = PDict d" by (cases v) (auto simp: card_from_value_def)
  note t = text_or_nonempty [OF assms(2) [unfolded v]]
  from assms(1) v show ?thesis
    by (auto simp: card_from_value_def card_normal_def Let_def t str_tuple_list failure_policy_of_mem
        dest: clean_str_clean split: option.splits)
qed

lemma result_from_value_normal:
  assumes "result_from_value v = Inr r" and "shown v"
  shows "result_normal r"
proof -
  from assms(1) obtain d where v: "v = PDict d" by (cases v) (auto simp: result_from_value_def)
  note t = text_or_nonempty [OF assms(2) [unfolded v]]
  have completed: "clean_text ''completed''" unfolding clean_text_def by code_simp
  from assms(1) v show ?thesis
    by (auto simp: result_from_value_def result_normal_def t completed dest: clean_str_clean split: option.splits)
qed
definition fresh_texts :: "fresh_ids \<Rightarrow> bool" where
  "fresh_texts fresh \<longleftrightarrow> (\<forall>i. \<forall>c \<in> set (fresh i). \<not> is_space c)"

lemma clean_text_no_space: "s \<noteq> [] \<Longrightarrow> (\<And>c. c \<in> set s \<Longrightarrow> \<not> is_space c) \<Longrightarrow> clean_text s"
  by (simp add: clean_text_def strip_no_space)

lemma prefix_no_space:
  "\<forall>c \<in> set ''rev-''. \<not> is_space c" "\<forall>c \<in> set ''task_board_graph-''. \<not> is_space c"
  by (simp_all add: is_space_def code_in_def)

lemma fresh_clean:
  assumes "fresh_texts fresh"
  shows "clean_text (''rev-'' @ fresh i)" and "clean_text (''task_board_graph-'' @ fresh i)"
  using assms prefix_no_space by (auto intro!: clean_text_no_space simp: fresh_texts_def)

lemma mapE_list_all:
  "mapE f xs = Inr ys \<Longrightarrow> (\<And>x y. x \<in> set xs \<Longrightarrow> f x = Inr y \<Longrightarrow> P y) \<Longrightarrow> list_all P ys"
  using mapE_Inr_mem [of f xs ys] by (fastforce simp: list_all_iff)

lemma graph_from_value_normal:
  assumes "graph_from_value fresh v = Inr g" and "shown v" and "fresh_texts fresh"
  shows "graph_normal g"
proof -
  from assms(1) obtain d where v: "v = PDict d" by (cases v) (auto simp: graph_from_value_def)
  with assms(1) obtain raw cards where
    raw: "seq_items (pget d ''cards'') = Some raw" "mapE card_from_value raw = Inr cards" and
    g: "bg_cards g = cards" "bg_schema g = text_or d ''schema_version'' board_schema_version"
      "bg_id g = (case clean_str (pget d ''graph_id'') of Some t \<Rightarrow> t | None \<Rightarrow> ''task_board_graph-'' @ fresh 0)"
    by (auto simp: graph_from_value_def bindE_eq_Inr Let_def split: if_splits option.splits)
  note d = assms(2) [unfolded v]
  have "list_all card_normal cards"
    using card_from_value_normal shown_items [OF shown_get [OF d] raw(1)]
    by (intro mapE_list_all [OF raw(2)]) blast
  moreover have "clean_text (bg_id g)"
    unfolding g using fresh_clean [OF assms(3)] by (auto dest: clean_str_clean split: option.splits)
  ultimately show ?thesis using text_or_nonempty [OF d] by (simp add: graph_normal_def g)
qed

lemma revision_from_value_normal:
  assumes "revision_from_value fresh v = Inr rv" and "shown v" and "fresh_texts fresh"
  shows "revision_normal rv"
proof -
  from assms(1) obtain d where v: "v = PDict d" by (cases v) (auto simp: revision_from_value_def)
  note d = assms(2) [unfolded v]
  from assms(1) v obtain raw where raw: "py_or (pget d ''card_results'') (PDict []) = PDict raw"
    by (cases "py_or (pget d ''card_results'') (PDict [])")
      (simp_all add: revision_from_value_def bindE_eq_Inr split: option.split_asm)
  from assms(1) v have
    graph: "graph_from_value fresh (py_or (pget d ''graph'') (PDict [])) = Inr (rv_graph rv)" and
    results: "mapE (\<lambda>(k, v). bindE (result_from_value v) (\<lambda>r. Inr (k, r)))
      (filter (\<lambda>(k, v). is_mapping v) raw) = Inr (rv_results rv)" and
    rv: "clean_str (pget d ''board_id'') = Some (rv_board rv)"
      "rv_id rv = (case clean_str (pget d ''revision_id'') of Some t \<Rightarrow> t | None \<Rightarrow> ''rev-'' @ fresh 1)"
      "rv_status rv = text_or d ''status'' ''running''"
      "rv_schema rv = text_or d ''schema_version'' board_schema_version"
    by (auto simp: revision_from_value_def raw bindE_eq_Inr split: option.split_asm)
  have "shown (PDict raw)" unfolding raw [symmetric] by (intro shown_or shown_get d) simp
  then have "shown x" if "(k, x) \<in> set raw" for k x using that by auto
  then have "list_all (\<lambda>(k, r). result_normal r) (rv_results rv)"
    by (intro mapE_list_all [OF results]) (auto simp: bindE_eq_Inr intro: result_from_value_normal)
  moreover have "graph_normal (rv_graph rv)"
    by (rule graph_from_value_normal [OF graph _ assms(3)]) (intro shown_or shown_get d, simp)
  moreover have "clean_text (rv_id rv)"
    unfolding rv using fresh_clean [OF assms(3)] by (auto dest: clean_str_clean split: option.splits)
  ultimately show ?thesis using text_or_nonempty [OF d] clean_str_clean [OF rv(1)]
    by (auto simp: revision_normal_def rv list_all_iff)
qed

section \<open>Patches keep data normal\<close>

definition state_normal :: "patch_state \<Rightarrow> bool" where
  "state_normal s \<longleftrightarrow> list_all card_normal (bp_cards s) \<and>
     (\<forall>(k, r) \<in> set (bp_results s). result_normal r) \<and> bp_status s \<noteq> []"

lemma dict_set_mem: "(k', v') \<in> set (dict_set k v d) \<Longrightarrow> (k', v') = (k, v) \<or> (k', v') \<in> set d"
  by (induction d) (auto split: if_splits)

lemma with_status_normal: "card_normal c \<Longrightarrow> st \<noteq> [] \<Longrightarrow> card_normal (with_status st c)"
  by (simp add: card_normal_def with_status_def)

lemma with_dependencies_normal: "card_normal c \<Longrightarrow> card_normal (with_dependencies ds c)"
  by (simp add: card_normal_def with_dependencies_def str_tuple_list)

lemma change_card_normal:
  assumes "change_card cid f s = Inr s'" and "state_normal s" and "\<And>c. card_normal c \<Longrightarrow> card_normal (f c)"
  shows "state_normal s'"
proof -
  from assms(1) obtain i where i: "card_index (bp_cards s) cid = Inr i"
    and s': "s' = s\<lparr>bp_cards := (bp_cards s)[i := f (bp_cards s ! i)]\<rparr>"
    by (auto simp: change_card_def bindE_eq_Inr)
  from card_index_Inr [OF i] assms(2) have "card_normal (bp_cards s ! i)"
    by (simp add: state_normal_def list_all_length)
  with assms(2,3) show ?thesis unfolding s' state_normal_def list_all_iff
    by (auto dest!: set_update_subset_insert [THEN subsetD])
qed

lemma apply_operation_normal:
  assumes "apply_operation op s = Inr s'" and "shown_dict op" and "state_normal s"
  shows "state_normal s'"
  using assms(1)
proof (cases rule: apply_operation_cases)
  case (add c)
  have "card_normal c" by (rule card_from_value_normal [OF add(1)]) (intro shown_or shown_get assms(2), simp)
  with add(3) assms(3) show ?thesis by (simp add: state_normal_def)
next
  case (change cid f)
  have "card_normal c" if "card_from_value (py_or (pget op ''card'') (PDict [])) = Inr c" for c
    by (rule card_from_value_normal [OF that]) (intro shown_or shown_get assms(2), simp)
  with change(3) text_or_nonempty [OF assms(2)] show ?thesis
    by (intro change_card_normal [OF change(1) assms(3)])
      (auto intro: with_status_normal with_dependencies_normal)
next
  case (result r)
  have r: "result_normal r"
    by (rule result_from_value_normal [OF result(1)]) (intro shown_or shown_get assms(2), simp)
  then have "state_normal (s\<lparr>bp_results := dict_set (cr_card_id r) r (bp_results s)\<rparr>)"
    using assms(3) by (fastforce simp: state_normal_def dest: dict_set_mem)
  moreover have "cr_status r \<noteq> []" using r by (simp add: result_normal_def clean_text_def)
  ultimately show ?thesis
    by (intro change_card_normal [OF result(2)]) (auto intro: with_status_normal)
next
  case status
  with assms(2,3) text_or_nonempty show ?thesis by (simp add: state_normal_def)
qed (use assms(3) in \<open>simp_all add: state_normal_def\<close>)
definition input_shown :: "patch_input \<Rightarrow> bool" where
  "input_shown j = (case j of PatchObject p \<Rightarrow> list_all shown_dict (p_operations p) | PatchMapping v \<Rightarrow> shown v)"

lemma coerce_patch_shown:
  assumes "coerce_patch fresh j = Inr p" and "input_shown j"
  shows "list_all shown_dict (p_operations p)"
proof (cases j)
  case (PatchMapping v)
  with assms(1) obtain d where v: "v = PDict d" by (cases v) (auto simp: coerce_patch_def patch_from_value_def)
  from assms(1) PatchMapping v obtain ops where ops: "seq_items (pget d ''operations'') = Some ops"
    and p: "p_operations p = map (\<lambda>i. case i of PDict o' \<Rightarrow> o' | _ \<Rightarrow> [(''op'', PStr (py_str i))]) ops"
    by (auto simp: coerce_patch_def patch_from_value_def split: option.split_asm)
  have "shown_dict d" using assms(2) PatchMapping v by (simp add: input_shown_def)
  from shown_items [OF shown_get [OF this] ops]
  have "shown_dict (case i of PDict o' \<Rightarrow> o' | _ \<Rightarrow> [(''op'', PStr (py_str i))])" if "i \<in> set ops" for i
    using that by (cases i) fastforce+
  then show ?thesis unfolding p by (simp add: list_all_iff del: shown.simps)
qed (use assms in \<open>auto simp: coerce_patch_def input_shown_def\<close>)

lemma next_revision_id_clean:
  assumes "next_revision_id fresh rid = Inr rid'" and "fresh_texts fresh"
  shows "clean_text rid'"
proof -
  have "\<not> is_space c" if "c \<in> set (int_text i)" for c i
  proof -
    from that consider "c = CHR ''-''" | n where "c \<in> set (nat_text n)"
      by (auto simp: int_text_def split: if_splits)
    then show ?thesis
    proof cases
      case 1
      then show ?thesis by (simp add: is_space_def code_in_def)
    next
      case 2
      then show ?thesis by (blast dest: nat_text_digits dec_digit_not_space)
    qed
  qed
  then have "clean_text (''rev-'' @ int_text i)" for i
    using prefix_no_space(1) by (intro clean_text_no_space) auto
  with assms(1) fresh_clean(1) [OF assms(2)] show ?thesis
    by (auto simp: next_revision_id_def simp del: append.simps split: if_splits option.splits)
qed

lemma apply_patch_normal:
  assumes "apply_task_board_patch fresh (RevisionObject rv) j = Inr rv'"
    and "revision_normal rv" and "input_shown j" and "fresh_texts fresh"
  shows "revision_normal rv'"
proof -
  from apply_patch_Inr [OF assms(1)] obtain p s where p: "coerce_patch fresh j = Inr p" and
    s: "foldE apply_operation (p_operations p) (patch_start rv) = Inr s" and
    rv': "patched_revision fresh p rv s = Inr rv'"
    by (metis coerce_revision_def revision_input.simps(5) sum.inject(2))
  have "state_normal (patch_start rv)"
    using assms(2) by (simp add: state_normal_def patch_start_def revision_normal_def graph_normal_def)
  then have "state_normal s"
    by (rule foldE_invariant [OF s])
      (use coerce_patch_shown [OF p assms(3)] apply_operation_normal in \<open>auto simp: list_all_iff\<close>)
  with patched_revision_Inr [OF rv'] next_revision_id_clean [OF _ assms(4)] assms(2) show ?thesis
    by (auto simp: revision_normal_def graph_normal_def state_normal_def Let_def)
qed

lemma apply_patches_normal:
  assumes "apply_patches fresh ps rv = Inr rv'" and "revision_normal rv" and "list_all input_shown ps"
    and "fresh_texts fresh"
  shows "revision_normal rv'"
  using assms(1) unfolding apply_patches_def
  by (rule foldE_invariant [where P = revision_normal])
    (use assms apply_patch_normal in \<open>auto simp: list_all_iff\<close>)

section \<open>Exporting and parsing again\<close>

lemma pget_simps:
  "pget ((k, v) # d) k' = (if k' = k then v else pget d k')" "pget [] k' = PNone"
  by (simp_all add: pget_def dict_get_or_def)

lemma py_or_text: "s \<noteq> [] \<Longrightarrow> py_or (PStr s) v = PStr s"
  by (simp add: py_or_def)

lemma mapping_or_empty_dict [simp]: "mapping_or_empty (PDict d) = d"
  by (simp add: mapping_or_empty_def)

lemma card_roundtrip:
  assumes "card_normal c"
  shows "card_from_value (PDict (card_to_dict c)) = Inr c"
proof -
  have g: "pget (card_to_dict c) ''id'' = PStr (c_id c)" "pget (card_to_dict c) ''objective'' = PStr (c_objective c)"
    "pget (card_to_dict c) ''depends_on'' = PList (map PStr (c_depends_on c))"
    "pget (card_to_dict c) ''input_refs'' = PList (map PStr (c_input_refs c))"
    "pget (card_to_dict c) ''required_outputs'' = PList (map PStr (c_required_outputs c))"
    "pget (card_to_dict c) ''allowed_execution_shape'' = PStr (c_shape c)"
    "pget (card_to_dict c) ''policy_scope_refs'' = PList (map PStr (c_policy_scope_refs c))"
    "pget (card_to_dict c) ''evidence_contract'' = PDict (c_evidence c)"
    "pget (card_to_dict c) ''failure_policy'' = PStr (c_failure_policy c)"
    "pget (card_to_dict c) ''status'' = PStr (c_status c)" "pget (card_to_dict c) ''metadata'' = PDict (c_metadata c)"
    "pget (card_to_dict c) ''schema_version'' = PStr (c_schema c)"
    by (simp_all add: card_to_dict_def pget_simps)
  from assms have n: "c_id c \<noteq> []" "c_objective c \<noteq> []" "c_failure_policy c \<noteq> []"
    by (auto simp: card_normal_def clean_text_def policies_def)
  from assms show ?thesis
    by (simp add: card_normal_def card_from_value_def g py_or_text n clean_str_text Let_def
        failure_policy_of_fix text_or_text [OF g(6)] text_or_text [OF g(10)] text_or_text [OF g(12)])
qed

lemma result_roundtrip:
  assumes "result_normal r"
  shows "result_from_value (PDict (result_to_dict r)) = Inr r"
proof -
  have g: "pget (result_to_dict r) ''card_id'' = PStr (cr_card_id r)"
    "pget (result_to_dict r) ''status'' = PStr (cr_status r)"
    "pget (result_to_dict r) ''output_digest'' = opt_str (cr_digest r)"
    "pget (result_to_dict r) ''preview'' = cr_preview r"
    "pget (result_to_dict r) ''artifact_refs'' = PList (map PDict (cr_artifact_refs r))"
    "pget (result_to_dict r) ''file_refs'' = PList (map PDict (cr_file_refs r))"
    "pget (result_to_dict r) ''diagnostics'' = PList (map PDict (cr_diagnostics r))"
    "pget (result_to_dict r) ''patch_proposal'' = (case cr_patch r of None \<Rightarrow> PNone | Some p \<Rightarrow> PDict p)"
    "pget (result_to_dict r) ''metadata'' = PDict (cr_metadata r)"
    "pget (result_to_dict r) ''schema_version'' = PStr (cr_schema r)"
    by (simp_all add: result_to_dict_def pget_simps)
  from assms show ?thesis
    by (simp add: result_normal_def result_from_value_def g clean_str_text clean_str_opt
        text_or_text [OF g(10)] split: option.split)
qed

lemma graph_roundtrip:
  assumes "graph_normal g"
  shows "graph_from_value fresh (PDict (graph_to_dict g)) = Inr g"
proof -
  have s: "pget (graph_to_dict g) ''cards'' = PList (map (PDict \<circ> card_to_dict) (bg_cards g))"
    "pget (graph_to_dict g) ''graph_id'' = PStr (bg_id g)" "pget (graph_to_dict g) ''metadata'' = PDict (bg_metadata g)"
    "pget (graph_to_dict g) ''schema_version'' = PStr (bg_schema g)"
    by (simp_all add: graph_to_dict_def pget_simps)
  have "mapE card_from_value (map (PDict \<circ> card_to_dict) (bg_cards g)) = Inr (bg_cards g)"
    using assms by (intro mapE_inverse) (simp add: graph_normal_def list_all_iff card_roundtrip)
  with assms show ?thesis
    by (simp add: graph_normal_def graph_from_value_def s clean_str_text text_or_text [OF s(4)])
qed

lemma revision_roundtrip:
  assumes "revision_normal rv"
  shows "revision_from_value fresh (PDict (revision_to_dict rv)) = Inr rv"
proof -
  let ?res = "map (\<lambda>(k, r). (k, PDict (result_to_dict r))) (rv_results rv)"
  have s: "pget (revision_to_dict rv) ''board_id'' = PStr (rv_board rv)"
    "pget (revision_to_dict rv) ''revision_id'' = PStr (rv_id rv)"
    "pget (revision_to_dict rv) ''status'' = PStr (rv_status rv)"
    "pget (revision_to_dict rv) ''graph'' = PDict (graph_to_dict (rv_graph rv))"
    "pget (revision_to_dict rv) ''card_results'' = PDict ?res"
    "pget (revision_to_dict rv) ''evidence_refs'' = PList (map PDict (rv_evidence rv))"
    "pget (revision_to_dict rv) ''diagnostics'' = PList (map PDict (rv_diagnostics rv))"
    "pget (revision_to_dict rv) ''metadata'' = PDict (rv_metadata rv)"
    "pget (revision_to_dict rv) ''schema_version'' = PStr (rv_schema rv)"
    by (simp_all add: revision_to_dict_def pget_simps)
  have all: "filter (\<lambda>(k, v). is_mapping v) ?res = ?res" by (auto simp: filter_id_conv)
  have "mapE (\<lambda>(k, v). bindE (result_from_value v) (\<lambda>r. Inr (k, r))) ?res = Inr (rv_results rv)"
    using assms by (intro mapE_inverse) (auto simp: revision_normal_def result_roundtrip)
  moreover have "py_or (PDict ?res) (PDict []) = PDict ?res" by (simp add: py_or_def)
  moreover have "py_or (PDict (graph_to_dict (rv_graph rv))) (PDict []) = PDict (graph_to_dict (rv_graph rv))"
    by (simp add: py_or_def graph_to_dict_def)
  ultimately show ?thesis using assms
    by (simp add: revision_normal_def revision_from_value_def s graph_roundtrip all clean_str_text
        text_or_text [OF s(3)] text_or_text [OF s(9)])
qed

lemma sample_parsed:
  obtains v rv rv' where "revision_from_value (\<lambda>_. ''0'') v = Inr rv" and "shown v" and "fresh_texts (\<lambda>_. ''0'')"
    and "apply_patches (\<lambda>_. ''0'')
      [sample_patch ''rev-0'' [[(''op'', PStr ''append_diagnostic''), (''diagnostic'', PStr ''x'')]]] rv = Inr rv'"
    and "list_all input_shown [sample_patch ''rev-0'' [[(''op'', PStr ''append_diagnostic''), (''diagnostic'', PStr ''x'')]]]"
    and "rv_id rv = ''rev-0''"
proof -
  let ?rv = "sample_board [sample_card ''a'' [] ''required'' ''pending''] []"
  have texts: "clean_text ''a''" "clean_text ''do''" "clean_text ''g''" "clean_text ''board''" "clean_text ''rev-0''"
    unfolding clean_text_def by code_simp+
  then have "revision_normal ?rv"
    by (simp add: revision_normal_def graph_normal_def card_normal_def text_list_def policies_def sample_defs)
  from revision_roundtrip [OF this]
  have "revision_from_value (\<lambda>_. ''0'') (PDict (revision_to_dict ?rv)) = Inr ?rv" .
  moreover have "shown (PDict (revision_to_dict ?rv))"
    by (simp add: revision_to_dict_def graph_to_dict_def card_to_dict_def sample_defs)
  moreover have "fresh_texts (\<lambda>_. ''0'')" by (simp add: fresh_texts_def is_space_def code_in_def)
  moreover obtain rv' where "apply_patches (\<lambda>_. ''0'')
      [sample_patch ''rev-0'' [[(''op'', PStr ''append_diagnostic''), (''diagnostic'', PStr ''x'')]]] ?rv = Inr rv'"
    using sample_patch_applies by (auto simp: apply_patches_def)
  moreover have "list_all input_shown [sample_patch ''rev-0'' [[(''op'', PStr ''append_diagnostic''), (''diagnostic'', PStr ''x'')]]]"
    by (simp add: sample_patch_def input_shown_def)
  moreover have "rv_id ?rv = ''rev-0''" by (simp add: sample_defs)
  ultimately show thesis by (rule that)
qed

text \<open>
C21: Types.  What parsing returns is in normal form: identifiers and statuses are non-empty
and stripped, reference lists hold distinct non-empty texts, failure policies are one of
the three, and the scheduler's reading of a card's failure policy is the parsed one; and
no sequence of patches leaves the normal form.
\<close>

theorem board_data_typed:
  assumes "revision_from_value fresh v = Inr rv" and "shown v" and "fresh_texts fresh"
    and "apply_patches fresh ps rv = Inr rv'" and "list_all input_shown ps"
  shows "revision_normal rv \<and> revision_normal rv' \<and>
    (\<forall>c \<in> set (bg_cards (rv_graph rv')). c_failure_policy c \<in> policies \<and> card_policy c = c_failure_policy c)"
proof -
  have rv: "revision_normal rv" by (rule revision_from_value_normal [OF assms(1-3)])
  have rv': "revision_normal rv'" by (rule apply_patches_normal [OF assms(4) rv assms(5,3)])
  then have "c_failure_policy c \<in> policies" if "c \<in> set (bg_cards (rv_graph rv'))" for c
    using that by (auto simp: revision_normal_def graph_normal_def card_normal_def list_all_iff)
  with rv rv' card_policy_fix show ?thesis by blast
qed

lemma board_data_typed_witness:
  "\<exists>v rv. revision_from_value (\<lambda>_. ''0'') v = Inr rv \<and> rv_id rv = ''rev-0'' \<and> revision_normal rv"
proof -
  from sample_parsed obtain v rv rv' where
    s: "revision_from_value (\<lambda>_. ''0'') v = Inr rv" "shown v" "fresh_texts (\<lambda>_. ''0'')"
      "apply_patches (\<lambda>_. ''0'')
        [sample_patch ''rev-0'' [[(''op'', PStr ''append_diagnostic''), (''diagnostic'', PStr ''x'')]]] rv = Inr rv'"
      "list_all input_shown [sample_patch ''rev-0'' [[(''op'', PStr ''append_diagnostic''), (''diagnostic'', PStr ''x'')]]]"
    and "rv_id rv = ''rev-0''" .
  with board_data_typed [OF s] show ?thesis by blast
qed

text \<open>
C23: Every revision the program builds, by parsing and any number of patches, survives its
export: parsing the exported mapping gives the same revision.
\<close>

theorem board_data_roundtrip:
  assumes "revision_from_value fresh v = Inr rv" and "shown v" and "fresh_texts fresh"
    and "apply_patches fresh ps rv = Inr rv'" and "list_all input_shown ps"
  shows "revision_from_value fresh' (PDict (revision_to_dict rv')) = Inr rv'"
  by (intro revision_roundtrip apply_patches_normal [OF assms(4) _ assms(5,3)]
      revision_from_value_normal [OF assms(1-3)])

lemma board_data_roundtrip_witness:
  "\<exists>rv rv'. apply_patches (\<lambda>_. ''0'')
      [sample_patch ''rev-0'' [[(''op'', PStr ''append_diagnostic''), (''diagnostic'', PStr ''x'')]]] rv = Inr rv' \<and>
     rv_id rv = ''rev-0'' \<and> revision_from_value (\<lambda>_. ''1'') (PDict (revision_to_dict rv')) = Inr rv'"
proof -
  from sample_parsed obtain v rv rv' where
    s: "revision_from_value (\<lambda>_. ''0'') v = Inr rv" "shown v" "fresh_texts (\<lambda>_. ''0'')"
      "apply_patches (\<lambda>_. ''0'')
        [sample_patch ''rev-0'' [[(''op'', PStr ''append_diagnostic''), (''diagnostic'', PStr ''x'')]]] rv = Inr rv'"
      "list_all input_shown [sample_patch ''rev-0'' [[(''op'', PStr ''append_diagnostic''), (''diagnostic'', PStr ''x'')]]]"
    and "rv_id rv = ''rev-0''" .
  with board_data_roundtrip [OF s, of "\<lambda>_. ''1''"] show ?thesis by blast
qed

end
