(* ===== verification/StateStore.thy ===== *)
theory StateStore
  imports PyText "HOL-Library.Sublist"
begin

text \<open>
  The state store (\<open>agently/utils/StateData.py\<close>, \<open>SerializableStateData.py\<close>): nested
  dictionaries addressed by dotted keys, inheritance of a parent's data, recursive merging,
  and namespaces, which are views of one dotted key.  An exception is the left side of a
  sum; the model does not describe the store an exception leaves half changed.
\<close>

section \<open>Stores\<close>

datatype state_error = NotADictionary string string | Unhashable pyval | TypeMismatch pyval | NotLoadable pyval

text \<open>A store has its own data and, unless it is the root, a parent.\<close>

datatype state_data = StateData pydict "state_data option"

fun own_data :: "state_data \<Rightarrow> pydict" where
  "own_data (StateData d p) = d"

fun with_data :: "pydict \<Rightarrow> state_data \<Rightarrow> state_data" where
  "with_data d (StateData _ p) = StateData d p"

definition is_dotted :: "string \<Rightarrow> bool" where
  "is_dotted key \<longleftrightarrow> CHR ''.'' \<in> set key"

abbreviation path_list :: "string \<Rightarrow> string list" where
  "path_list key \<equiv> split_on (CHR ''.'') key"

section \<open>Collections that keep each value once\<close>

text \<open>\<open>if item not in xs: xs.append(item)\<close>, item by item.\<close>

definition append_new :: "pyval \<Rightarrow> pyval list \<Rightarrow> pyval list" where
  "append_new item xs = (if py_in item xs then xs else xs @ [item])"

definition add_to_set :: "pyval \<Rightarrow> pyval list \<Rightarrow> state_error + pyval list" where
  "add_to_set item xs = (if hashable item then Inr (append_new item xs) else Inl (Unhashable item))"

text \<open>What a parent's or a new value contributes to a list.\<close>

definition collection_items :: "pyval \<Rightarrow> pyval list" where
  "collection_items v =
     (case v of PList xs \<Rightarrow> xs | PTuple xs \<Rightarrow> xs | PSet xs \<Rightarrow> xs | _ \<Rightarrow> [v])"

section \<open>The inherited view\<close>

fun merge_value :: "pyval \<Rightarrow> pyval \<Rightarrow> state_error + pyval"
  and merge_entries :: "pydict \<Rightarrow> pydict \<Rightarrow> pydict \<Rightarrow> state_error + pydict" where
  "merge_value (PDict c) pv =
     (case pv of PDict p \<Rightarrow> bindE (merge_entries c p p) (\<lambda>m. Inr (PDict m)) | _ \<Rightarrow> Inr (PDict c))"
| "merge_value (PList xs) pv = Inr (PList (fold append_new (collection_items pv) xs))"
| "merge_value (PSet xs) pv =
     bindE (foldE add_to_set (collection_items pv) xs) (\<lambda>ys. Inr (PSet ys))"
| "merge_value v pv = Inr v"
| "merge_entries [] p r = Inr r"
| "merge_entries ((k, v) # c) p r =
     (case dict_get p k of
        None \<Rightarrow> merge_entries c p (dict_set k v r)
      | Some pv \<Rightarrow> bindE (merge_value v pv) (\<lambda>m. merge_entries c p (dict_set k m r)))"

definition merge_view :: "pydict \<Rightarrow> pydict \<Rightarrow> state_error + pydict" where
  "merge_view child parent = merge_entries child parent parent"

fun inherited_view :: "state_data \<Rightarrow> pydict \<Rightarrow> state_error + pydict" where
  "inherited_view (StateData d par) r =
     bindE (merge_view r d) (\<lambda>r'. case par of None \<Rightarrow> Inr r' | Some q \<Rightarrow> inherited_view q r')"

definition state_view :: "state_data \<Rightarrow> state_error + pydict" where
  "state_view s = inherited_view s []"

section \<open>Reading\<close>

fun walk :: "string list \<Rightarrow> pyval \<Rightarrow> pyval option" where
  "walk [] v = Some v"
| "walk (p # ps) v =
     (case v of
        PDict d \<Rightarrow> (case dict_get d p of None \<Rightarrow> None | Some w \<Rightarrow> walk ps w)
      | _ \<Rightarrow> None)"

definition visible_data :: "bool \<Rightarrow> state_data \<Rightarrow> state_error + pydict" where
  "visible_data inherit s = (if inherit then state_view s else Inr (own_data s))"

definition state_get :: "bool \<Rightarrow> string \<Rightarrow> pyval \<Rightarrow> state_data \<Rightarrow> state_error + pyval" where
  "state_get inherit key dflt s =
     bindE (visible_data inherit s) (\<lambda>data.
       Inr (if is_dotted key
            then (case walk (path_list key) (PDict data) of None \<Rightarrow> dflt | Some v \<Rightarrow> v)
            else dict_get_or data key dflt))"

text \<open>
  \<open>_get_item_by_dot_path\<close> tests \<open>path in current\<close> and subscripts without looking at the
  type: on a list or a string this finds an element or a substring and then fails.
\<close>

fun walk_item :: "string list \<Rightarrow> pyval \<Rightarrow> state_error + pyval" where
  "walk_item [] v = Inr v"
| "walk_item (p # ps) v =
     (case v of
        PDict d \<Rightarrow> (case dict_get d p of None \<Rightarrow> Inr PNone | Some w \<Rightarrow> walk_item ps w)
      | PStr s \<Rightarrow> if sublist p s then Inl (TypeMismatch v) else Inr PNone
      | PList xs \<Rightarrow> if py_in (PStr p) xs then Inl (TypeMismatch v) else Inr PNone
      | PTuple xs \<Rightarrow> if py_in (PStr p) xs then Inl (TypeMismatch v) else Inr PNone
      | PSet xs \<Rightarrow> if py_in (PStr p) xs then Inl (TypeMismatch v) else Inr PNone
      | _ \<Rightarrow> Inl (TypeMismatch v))"

definition state_item :: "string \<Rightarrow> state_data \<Rightarrow> state_error + pyval" where
  "state_item key s =
     bindE (state_view s) (\<lambda>data.
       if is_dotted key then walk_item (path_list key) (PDict data)
       else Inr (dict_get_or data key PNone))"

definition state_contains :: "string \<Rightarrow> state_data \<Rightarrow> state_error + bool" where
  "state_contains key s = bindE (state_view s) (\<lambda>data. Inr (dict_has data key))"

definition state_keys :: "state_data \<Rightarrow> state_error + string list" where
  "state_keys s = bindE (state_view s) (\<lambda>data. Inr (dict_keys data))"

section \<open>Writing\<close>

text \<open>\<open>_set_item\<close>: merge a value into an existing one.\<close>

fun set_item :: "pyval \<Rightarrow> pyval \<Rightarrow> state_error + pyval"
  and set_entries :: "pydict \<Rightarrow> pydict \<Rightarrow> state_error + pydict" where
  "set_item (PDict e) (PDict n) = bindE (set_entries n e) (\<lambda>m. Inr (PDict m))"
| "set_item (PList xs) v =
     Inr (PList (fold append_new (case seq_items v of Some ys \<Rightarrow> ys | None \<Rightarrow> [v]) xs))"
| "set_item (PSet xs) v =
     bindE (foldE add_to_set
        (case v of PStr _ \<Rightarrow> [v] | _ \<Rightarrow> (case py_iter v of Some ys \<Rightarrow> ys | None \<Rightarrow> [v])) xs)
       (\<lambda>ys. Inr (PSet ys))"
| "set_item e v = Inr v"
| "set_entries [] e = Inr e"
| "set_entries ((k, v) # n) e =
     (case dict_get e k of
        None \<Rightarrow> set_entries n (dict_set k v e)
      | Some w \<Rightarrow> bindE (set_item w v) (\<lambda>m. set_entries n (dict_set k m e)))"

text \<open>
  The loop of \<open>_set_item_by_dot_path\<close>: missing levels are created as empty dictionaries,
  and \<open>f\<close> changes the value found at the end.
\<close>

fun change_at :: "string \<Rightarrow> string list \<Rightarrow> string list \<Rightarrow> (pyval \<Rightarrow> state_error + pyval) \<Rightarrow> pyval \<Rightarrow> state_error + pyval" where
  "change_at full walked [] f v = f v"
| "change_at full walked (p # ps) f v =
     (case v of
        PDict d \<Rightarrow>
          bindE (change_at full (walked @ [p]) ps f (dict_get_or d p (PDict []))) (\<lambda>w.
            Inr (PDict (dict_set p w d)))
      | _ \<Rightarrow> Inl (NotADictionary full (join ''.'' walked)))"

definition change_data :: "string \<Rightarrow> (pyval \<Rightarrow> state_error + pyval) \<Rightarrow> state_data \<Rightarrow> state_error + state_data" where
  "change_data key f s =
     bindE (change_at key [] (path_list key) f (PDict (own_data s))) (\<lambda>v.
       Inr (with_data (mapping_or_empty v) s))"

definition set_by_path :: "string \<Rightarrow> pyval \<Rightarrow> bool \<Rightarrow> state_data \<Rightarrow> state_error + state_data" where
  "set_by_path key v cover s =
     change_data key (if cover then (\<lambda>_. Inr v) else (\<lambda>old. set_item old v)) s"

definition state_set :: "string \<Rightarrow> pyval \<Rightarrow> state_data \<Rightarrow> state_error + state_data" where
  "state_set key v s =
     (if is_dotted key then set_by_path key v True s
      else Inr (with_data (dict_set key v (own_data s)) s))"

definition state_setdefault :: "bool \<Rightarrow> string \<Rightarrow> pyval \<Rightarrow> state_data \<Rightarrow> state_error + pyval \<times> state_data" where
  "state_setdefault inherit key v s =
     bindE (state_get inherit key PNone s) (\<lambda>current.
     bindE (if current = PNone then state_set key v s else Inr s) (\<lambda>s'.
     bindE (state_get inherit key PNone s') (\<lambda>w. Inr (w, s'))))"

definition update_entry :: "string \<times> pyval \<Rightarrow> state_data \<Rightarrow> state_error + state_data" where
  "update_entry kv s =
     (case kv of (key, v) \<Rightarrow>
        if is_dotted key then set_by_path key v False s
        else case dict_get (own_data s) key of
               Some w \<Rightarrow> bindE (set_item w v) (\<lambda>m. Inr (with_data (dict_set key m (own_data s)) s))
             | None \<Rightarrow> Inr (with_data (dict_set key v (own_data s)) s))"

definition state_update :: "pydict \<Rightarrow> state_data \<Rightarrow> state_error + state_data" where
  "state_update new s = foldE update_entry new s"

text \<open>\<open>load\<close> after parsing: \<open>data\<close> is what the parser returned.\<close>

definition load_parsed :: "pyval \<Rightarrow> state_data \<Rightarrow> state_error + state_data" where
  "load_parsed data s =
     (case data of
        PDict d \<Rightarrow> if d \<noteq> [] then state_update d s else Inl (NotLoadable data)
      | _ \<Rightarrow> Inl (NotLoadable data))"

fun delete_at :: "string list \<Rightarrow> pydict \<Rightarrow> pydict" where
  "delete_at [] d = d"
| "delete_at [k] d = dict_del k d"
| "delete_at (p # q # ps) d =
     (case dict_get d p of Some (PDict e) \<Rightarrow> dict_set p (PDict (delete_at (q # ps) e)) d | _ \<Rightarrow> d)"

definition state_delete :: "string \<Rightarrow> state_data \<Rightarrow> state_data" where
  "state_delete key s =
     with_data (if is_dotted key then delete_at (path_list key) (own_data s) else dict_del key (own_data s)) s"

definition state_pop :: "string \<Rightarrow> pyval \<Rightarrow> state_data \<Rightarrow> pyval \<times> state_data" where
  "state_pop key dflt s =
     (if is_dotted key then
        (case walk (path_list key) (PDict (own_data s)) of
           None \<Rightarrow> (dflt, s)
         | Some v \<Rightarrow> if v = PNone then (dflt, s) else (v, state_delete key s))
      else (case dict_get (own_data s) key of
              None \<Rightarrow> (dflt, s)
            | Some v \<Rightarrow> (v, with_data (dict_del key (own_data s)) s)))"

definition state_clear :: "state_data \<Rightarrow> state_data" where
  "state_clear s = with_data [] s"

text \<open>The value \<open>append\<close> and \<open>extend\<close> start from.\<close>

definition own_item :: "string \<Rightarrow> state_data \<Rightarrow> state_error + pyval" where
  "own_item key s =
     (if is_dotted key then walk_item (path_list key) (PDict (own_data s))
      else Inr (dict_get_or (own_data s) key PNone))"

definition appended :: "pyval \<Rightarrow> pyval \<Rightarrow> state_error + pyval" where
  "appended current v =
     (case current of
        PNone \<Rightarrow> Inr (PList [v])
      | PSet xs \<Rightarrow> bindE (add_to_set v xs) (\<lambda>ys. Inr (PSet ys))
      | PList xs \<Rightarrow> Inr (PList (xs @ [v]))
      | _ \<Rightarrow> Inr (PList [current, v]))"

definition extended :: "pyval \<Rightarrow> pyval list \<Rightarrow> pyval" where
  "extended current vs =
     (case current of
        PNone \<Rightarrow> PList vs
      | PList xs \<Rightarrow> PList (xs @ vs)
      | _ \<Rightarrow> PList (current # vs))"

definition state_append :: "string \<Rightarrow> pyval \<Rightarrow> state_data \<Rightarrow> state_error + state_data" where
  "state_append key v s =
     bindE (own_item key s) (\<lambda>current. bindE (appended current v) (\<lambda>new. state_set key new s))"

definition state_extend :: "string \<Rightarrow> pyval \<Rightarrow> state_data \<Rightarrow> state_error + state_data" where
  "state_extend key vs s =
     bindE (own_item key s) (\<lambda>current.
       case py_iter vs of
         None \<Rightarrow> Inl (TypeMismatch vs)
       | Some items \<Rightarrow> state_set key (extended current items) s)"

section \<open>Serialisation\<close>

text \<open>\<open>_get_serializable_data\<close> on builtin values and on objects without attributes.\<close>

fun serializable_data :: "pyval \<Rightarrow> pyval" where
  "serializable_data (PDict d) = PDict (map (\<lambda>(k, v). (k, serializable_data v)) d)"
| "serializable_data (PList xs) = PList (map serializable_data xs)"
| "serializable_data (PTuple xs) = PList (map serializable_data xs)"
| "serializable_data (PSet xs) = PList (map serializable_data xs)"
| "serializable_data (PObj i t) = PStr t"
| "serializable_data v = v"

section \<open>Namespaces\<close>

text \<open>A namespace of a store is the store and a dotted or plain key.\<close>

definition ns_key :: "string \<Rightarrow> string \<Rightarrow> string" where
  "ns_key ns key = ns @ ''.'' @ key"

definition ns_data :: "string \<Rightarrow> state_data \<Rightarrow> state_error + pyval" where
  "ns_data ns s = state_get True ns PNone s"

definition ns_item :: "string \<Rightarrow> string \<Rightarrow> state_data \<Rightarrow> state_error + pyval" where
  "ns_item ns key s =
     (if is_dotted key then state_get True (ns_key ns key) PNone s
      else bindE (ns_data ns s) (\<lambda>v. Inr (case v of PDict d \<Rightarrow> pget d key | _ \<Rightarrow> PNone)))"

definition ns_get :: "bool \<Rightarrow> string \<Rightarrow> string \<Rightarrow> pyval \<Rightarrow> state_data \<Rightarrow> state_error + pyval" where
  "ns_get inherit ns key dflt s =
     (if inherit then bindE (ns_item ns key s) (\<lambda>v. Inr (if v = PNone then dflt else v))
      else bindE (state_get False ns PNone s) (\<lambda>v.
        Inr (case v of
               PDict d \<Rightarrow>
                 if is_dotted key then (case walk (path_list key) v of None \<Rightarrow> dflt | Some w \<Rightarrow> w)
                 else pget d key
             | _ \<Rightarrow> PNone)))"

definition ns_set :: "string \<Rightarrow> string \<Rightarrow> pyval \<Rightarrow> state_data \<Rightarrow> state_error + state_data" where
  "ns_set ns key v s =
     (if is_dotted key then state_set (ns_key ns key) v s
      else bindE (state_get False ns PNone s) (\<lambda>current.
        state_set (ns_key ns key) v
          (if current = PNone then with_data (dict_set ns (PDict []) (own_data s)) s else s)))"

text \<open>
  Deleting a plain key changes the namespace's dictionary in place and stores it again
  under the namespace's name as one plain key.
\<close>

definition restore_ns :: "string \<Rightarrow> pydict \<Rightarrow> state_data \<Rightarrow> state_error + state_data" where
  "restore_ns ns d s =
     bindE (change_data ns (\<lambda>_. Inr (PDict d)) s) (\<lambda>s'.
       Inr (with_data (dict_set ns (PDict d) (own_data s')) s'))"

definition ns_del_item :: "string \<Rightarrow> string \<Rightarrow> state_data \<Rightarrow> state_error + state_data" where
  "ns_del_item ns key s =
     (if is_dotted key then Inr (state_delete (ns_key ns key) s)
      else bindE (state_get False ns PNone s) (\<lambda>v.
        case v of
          PDict d \<Rightarrow> if dict_has d key then restore_ns ns (dict_del key d) s else Inr s
        | _ \<Rightarrow> Inr s))"

definition ns_pop :: "string \<Rightarrow> string \<Rightarrow> pyval \<Rightarrow> state_data \<Rightarrow> state_error + pyval \<times> state_data" where
  "ns_pop ns key dflt s =
     (if is_dotted key then Inr (state_pop (ns_key ns key) dflt s)
      else bindE (state_get False ns PNone s) (\<lambda>v.
        case v of
          PDict d \<Rightarrow>
            (case dict_get d key of
               None \<Rightarrow> Inr (dflt, s)
             | Some w \<Rightarrow> bindE (restore_ns ns (dict_del key d) s) (\<lambda>s'. Inr (w, s')))
        | _ \<Rightarrow> Inr (dflt, s)))"

text \<open>The serializable namespace's \<open>pop\<close> calls \<open>get\<close>.\<close>

definition serializable_ns_pop :: "string \<Rightarrow> string \<Rightarrow> pyval \<Rightarrow> state_data \<Rightarrow> state_error + pyval \<times> state_data" where
  "serializable_ns_pop ns key dflt s = bindE (ns_get True ns key dflt s) (\<lambda>v. Inr (v, s))"

definition ns_clear :: "string \<Rightarrow> state_data \<Rightarrow> state_data" where
  "ns_clear ns s = with_data (dict_set ns (PDict []) (own_data s)) s"

definition ns_setdefault ::
  "bool \<Rightarrow> string \<Rightarrow> string \<Rightarrow> pyval \<Rightarrow> state_data \<Rightarrow> state_error + pyval \<times> state_data" where
  "ns_setdefault inherit ns key v s =
     bindE (ns_get inherit ns key PNone s) (\<lambda>current.
     bindE (if current = PNone then ns_set ns key v s else Inr s) (\<lambda>s'.
     bindE (ns_get inherit ns key PNone s') (\<lambda>w. Inr (w, s'))))"

definition ns_update :: "string \<Rightarrow> pydict \<Rightarrow> state_data \<Rightarrow> state_error + state_data" where
  "ns_update ns new s = foldE (\<lambda>(key, v) s. state_update [(ns_key ns key, v)] s) new s"

definition ns_append :: "string \<Rightarrow> string \<Rightarrow> pyval \<Rightarrow> state_data \<Rightarrow> state_error + state_data" where
  "ns_append ns key v s = state_append (ns_key ns key) v s"

definition ns_extend :: "string \<Rightarrow> string \<Rightarrow> pyval \<Rightarrow> state_data \<Rightarrow> state_error + state_data" where
  "ns_extend ns key vs s = state_extend (ns_key ns key) vs s"

definition ns_delete :: "string \<Rightarrow> string \<Rightarrow> state_data \<Rightarrow> state_data" where
  "ns_delete ns key s = state_delete (ns_key ns key) s"

end
