(* ===== verification/StateCorrect.thy ===== *)
theory StateCorrect
  imports StateStore
begin

text \<open>
  Laws of the state store.  The contract of a store addressed by paths is a locale, and the
  store itself, its namespaces and plain dictionaries provide it.
\<close>

section \<open>The contract of a store addressed by paths\<close>

locale path_store =
  fixes read :: "'s \<Rightarrow> 'p \<Rightarrow> 'v option"
    and store :: "'p \<Rightarrow> 'v \<Rightarrow> 's \<Rightarrow> 'e + 's"
    and remove :: "'p \<Rightarrow> 's \<Rightarrow> 's"
    and apart :: "'p \<Rightarrow> 'p \<Rightarrow> bool"
  assumes read_write: "store p v s = Inr s' \<Longrightarrow> read s' p = Some v"
    and read_write_apart: "apart p q \<Longrightarrow> store p v s = Inr s' \<Longrightarrow> read s' q = read s q"
    and read_remove: "read (remove p s) p = None"
    and read_remove_apart: "apart p q \<Longrightarrow> read (remove p s) q = read s q"
    and restore: "read s p \<noteq> None \<Longrightarrow> \<exists>s'. store p v s = Inr s'"
    and apart_sym: "apart p q \<Longrightarrow> apart q p"
begin

text \<open>A batch of writes at pairwise apart paths can be read back entirely.\<close>

lemma read_write_all:
  assumes "foldE (\<lambda>(p, v) s. store p v s) pvs s = Inr s'" and "sorted_wrt apart (map fst pvs)"
  shows "(\<forall>(p, v) \<in> set pvs. read s' p = Some v) \<and>
    (\<forall>q. (\<forall>p \<in> fst ` set pvs. apart p q) \<longrightarrow> read s' q = read s q)"
  using assms
proof (induction pvs arbitrary: s)
  case (Cons pv pvs)
  obtain p v where pv: "pv = (p, v)" by force
  from Cons.prems(1) pv obtain s1 where s1: "store p v s = Inr s1"
    and rest: "foldE (\<lambda>(p, v) s. store p v s) pvs s1 = Inr s'" by (auto simp: bindE_eq_Inr)
  from Cons.prems(2) pv have apart: "\<forall>q \<in> fst ` set pvs. apart p q" "sorted_wrt apart (map fst pvs)" by auto
  note IH = Cons.IH [OF rest apart(2)]
  have "read s' p = Some v" using IH apart(1) apart_sym read_write [OF s1] by metis
  moreover have "read s' q = read s q" if "\<forall>p \<in> fst ` set (pv # pvs). apart p q" for q
    using IH that pv read_write_apart [OF _ s1] by auto
  ultimately show ?case using IH pv by auto
qed simp

lemma write_twice:
  "store p v s = Inr s1 \<Longrightarrow> \<exists>s2. store p w s1 = Inr s2 \<and> read s2 p = Some w"
  using restore [of s1 p w] read_write by fastforce

lemma remove_twice: "apart p q \<Longrightarrow> read (remove p (remove q s)) q = None"
  using read_remove_apart read_remove by metis

end

interpretation dict_store: path_store dict_get "\<lambda>k v d. Inr (dict_set k v d)" dict_del "(\<noteq>)"
  by unfold_locales auto

section \<open>Paths\<close>

lemma path_list_plain: "\<not> is_dotted key \<Longrightarrow> path_list key = [key]"
  by (simp add: is_dotted_def split_on_single)

lemma path_list_nonempty [simp]: "path_list key \<noteq> []"
  by simp

definition own_read :: "state_data \<Rightarrow> string \<Rightarrow> pyval option" where
  "own_read s key = walk (path_list key) (PDict (own_data s))"

lemma own_read_plain: "\<not> is_dotted key \<Longrightarrow> own_read s key = dict_get (own_data s) key"
  by (simp add: own_read_def path_list_plain split: option.split)

lemma state_get_own: "state_get False key dflt s = Inr (case own_read s key of None \<Rightarrow> dflt | Some v \<Rightarrow> v)"
  by (cases "is_dotted key")
    (simp_all add: state_get_def visible_data_def own_read_plain dict_get_or_def, simp add: own_read_def)

lemma walk_append: "walk (ps @ qs) v = (case walk ps v of None \<Rightarrow> None | Some w \<Rightarrow> walk qs w)"
  by (induction ps v rule: walk.induct) (auto split: pyval.splits option.splits)

lemma walk_empty_dict: "ps \<noteq> [] \<Longrightarrow> walk ps (PDict []) = None"
  by (cases ps) auto

lemma change_at_same:
  assumes "change_at full ws ps f v = Inr v'"
  shows "\<exists>old new. f old = Inr new \<and> walk ps v' = Some new \<and>
    (walk ps v = Some old \<or> walk ps v = None \<and> old = PDict [])"
  using assms
proof (induction ps arbitrary: ws v v')
  case (Cons p ps)
  then obtain d w where d: "v = PDict d" "v' = PDict (dict_set p w d)"
    and w: "change_at full (ws @ [p]) ps f (dict_get_or d p (PDict [])) = Inr w"
    by (auto simp: bindE_eq_Inr split: pyval.splits)
  from Cons.IH [OF w] obtain old new where on: "f old = Inr new" "walk ps w = Some new"
    "walk ps (dict_get_or d p (PDict [])) = Some old \<or>
     walk ps (dict_get_or d p (PDict [])) = None \<and> old = PDict []" by blast
  show ?case
  proof (cases "dict_get d p")
    case None
    with on(3) have "old = PDict []" by (cases ps) (auto simp: dict_get_or_def)
    with None on d show ?thesis by auto
  next
    case (Some u)
    with on d show ?thesis by (auto simp: dict_get_or_def)
  qed
qed auto

lemma parallel_Cons_same [simp]: "p # ps \<parallel> p # qs \<longleftrightarrow> ps \<parallel> qs"
  by (simp add: parallel_def)

lemma change_at_parallel:
  "change_at full ws ps f v = Inr v' \<Longrightarrow> ps \<parallel> qs \<Longrightarrow> walk qs v' = walk qs v"
proof (induction ps arbitrary: ws v v' qs)
  case (Cons p ps)
  then obtain d w where d: "v = PDict d" "v' = PDict (dict_set p w d)"
    and w: "change_at full (ws @ [p]) ps f (dict_get_or d p (PDict [])) = Inr w"
    by (auto simp: bindE_eq_Inr split: pyval.splits)
  from Cons.prems(2) obtain q qs' where q: "qs = q # qs'" by (cases qs) auto
  show ?case
  proof (cases "p = q")
    case True
    with Cons.prems(2) q have par: "ps \<parallel> qs'" by auto
    then have "qs' \<noteq> []" by auto
    with Cons.IH [OF w par] d q True show ?thesis
      by (auto simp: dict_get_or_def walk_empty_dict split: option.splits)
  qed (use d q in auto)
qed auto

text \<open>Writing fails exactly when a value on the way is not a dictionary.\<close>

lemma change_at_error:
  "(\<exists>e. change_at full ws ps (\<lambda>_. Inr x) v = Inl e) \<longleftrightarrow>
     (\<exists>n < length ps. \<exists>u. walk (take n ps) v = Some u \<and> \<not> is_mapping u)"
proof (induction ps arbitrary: ws v)
  case (Cons p ps)
  show ?case
  proof (cases "is_mapping v")
    case True
    then obtain d where d: "v = PDict d" by (cases v) auto
    have "(\<exists>n < length (p # ps). \<exists>u. walk (take n (p # ps)) v = Some u \<and> \<not> is_mapping u) \<longleftrightarrow>
        (\<exists>n < length ps. \<exists>u. walk (take (Suc n) (p # ps)) v = Some u \<and> \<not> is_mapping u)"
      using True by (auto simp: less_Suc_eq_0_disj)
    also have "\<dots> \<longleftrightarrow> (\<exists>n < length ps. \<exists>u. walk (take n ps) (dict_get_or d p (PDict [])) = Some u \<and> \<not> is_mapping u)"
    proof (cases "dict_get d p")
      case None
      have "walk (take n ps) (PDict []) = Some u \<Longrightarrow> is_mapping u" for n u
        by (cases "take n ps") auto
      with None d show ?thesis by (auto simp: dict_get_or_def)
    qed (simp add: d dict_get_or_def)
    also have "\<dots> \<longleftrightarrow> (\<exists>e. change_at full (ws @ [p]) ps (\<lambda>_. Inr x) (dict_get_or d p (PDict [])) = Inl e)"
      using Cons.IH by blast
    finally show ?thesis using d by (simp add: bindE_eq_Inl)
  next
    case False
    then have "\<exists>e. change_at full ws (p # ps) (\<lambda>_. Inr x) v = Inl e" by (cases v) auto
    moreover have "walk (take 0 (p # ps)) v = Some v" by simp
    ultimately show ?thesis using False by blast
  qed
qed auto

lemma change_at_mapping: "change_at full ws ps f (PDict d) = Inr v \<Longrightarrow> ps \<noteq> [] \<Longrightarrow> is_mapping v"
  by (cases ps) (auto simp: bindE_eq_Inr)

lemma change_data_Inr:
  assumes "change_data key f s = Inr s'"
  shows "change_at key [] (path_list key) f (PDict (own_data s)) = Inr (PDict (own_data s'))"
proof -
  from assms obtain v where v: "change_at key [] (path_list key) f (PDict (own_data s)) = Inr v"
    and s': "s' = with_data (mapping_or_empty v) s" by (auto simp: change_data_def bindE_eq_Inr)
  from change_at_mapping [OF v] have "PDict (mapping_or_empty v) = v"
    by (cases v) (auto simp: mapping_or_empty_def)
  with v s' show ?thesis by (cases s) simp
qed

lemma own_data_with_data [simp]: "own_data (with_data d s) = d"
  by (cases s) simp

lemma state_set_change: "state_set key v s = change_data key (\<lambda>_. Inr v) s"
proof (cases "is_dotted key")
  case False
  then show ?thesis
    by (cases s) (simp add: state_set_def change_data_def path_list_plain mapping_or_empty_def)
qed (simp add: state_set_def set_by_path_def)

lemma delete_at_same: "ps \<noteq> [] \<Longrightarrow> walk ps (PDict (delete_at ps d)) = None"
  by (induction ps d rule: delete_at.induct) (auto split: option.splits pyval.splits)

lemma delete_at_parallel: "ps \<parallel> qs \<Longrightarrow> walk qs (PDict (delete_at ps d)) = walk qs (PDict d)"
proof (induction ps d arbitrary: qs rule: delete_at.induct)
  case (2 k d)
  then show ?case by (cases qs) (auto split: option.splits)
next
  case (3 p q ps d)
  then obtain r rs where r: "qs = r # rs" by (cases qs) auto
  show ?case
  proof (cases "\<exists>e. dict_get d p = Some (PDict e)")
    case True
    then obtain e where e: "dict_get d p = Some (PDict e)" by blast
    show ?thesis
    proof (cases "p = r")
      case True
      with "3.prems" r have "q # ps \<parallel> rs" by auto
      with "3.IH" [OF e refl] e r True show ?thesis by simp
    qed (use e r in simp)
  qed (auto split: option.splits pyval.splits)
qed auto

lemma state_delete_at: "own_data (state_delete key s) = delete_at (path_list key) (own_data s)"
  by (simp add: state_delete_def path_list_plain)

interpretation state: path_store own_read state_set state_delete "\<lambda>p q. path_list p \<parallel> path_list q"
proof unfold_locales
  fix p q v s s'
  show "own_read s' p = Some v" if "state_set p v s = Inr s'"
    using change_at_same [OF change_data_Inr] that by (fastforce simp: state_set_change own_read_def)
  show "own_read s' q = own_read s q" if "path_list p \<parallel> path_list q" "state_set p v s = Inr s'"
    using change_at_parallel [OF change_data_Inr that(1)] that(2) by (simp add: state_set_change own_read_def)
  show "own_read (state_delete p s) p = None"
    by (simp add: own_read_def state_delete_at delete_at_same)
  show "own_read (state_delete p s) q = own_read s q" if "path_list p \<parallel> path_list q"
    using that by (simp add: own_read_def state_delete_at delete_at_parallel)
  show "path_list q \<parallel> path_list p" if "path_list p \<parallel> path_list q"
    using that by (rule parallel_commute [THEN iffD1, rotated 0])
next
  fix p s and v :: pyval
  assume r: "own_read s p \<noteq> None"
  have "is_mapping u" if n: "n < length (path_list p)" "walk (take n (path_list p)) (PDict (own_data s)) = Some u" for n u
  proof -
    have "walk (drop n (path_list p)) u \<noteq> None"
      using r n(2) walk_append [of "take n (path_list p)" "drop n (path_list p)" "PDict (own_data s)"]
      by (simp add: own_read_def)
    moreover have "drop n (path_list p) \<noteq> []" using n(1) by simp
    ultimately show ?thesis by (cases "drop n (path_list p)"; cases u) auto
  qed
  then have "\<nexists>e. change_at p [] (path_list p) (\<lambda>_. Inr v) (PDict (own_data s)) = Inl e"
    using change_at_error [of p "[]" "path_list p" v "PDict (own_data s)"] by blast
  then obtain w where "change_at p [] (path_list p) (\<lambda>_. Inr v) (PDict (own_data s)) = Inr w"
    by (cases "change_at p [] (path_list p) (\<lambda>_. Inr v) (PDict (own_data s))") auto
  then show "\<exists>s'. state_set p v s = Inr s'" by (simp add: state_set_change change_data_def)
qed
section \<open>Namespaces\<close>

lemma split_on_join_parts: "split_on c (xs @ c # ys) = split_on c xs @ split_on c ys"
proof (induction xs)
  case (Cons x xs)
  then show ?case by (cases "split_on c xs") auto
qed simp

lemma path_list_ns_key [simp]: "path_list (ns_key ns key) = path_list ns @ path_list key"
  by (simp add: ns_key_def split_on_join_parts)

lemma ns_key_dotted [simp]: "is_dotted (ns_key ns key)"
  by (simp add: is_dotted_def ns_key_def)

lemma own_read_ns:
  "own_read s (ns_key ns key) = (case own_read s ns of None \<Rightarrow> None | Some v \<Rightarrow> walk (path_list key) v)"
  by (simp add: own_read_def walk_append)

lemma own_read_other_key:
  assumes "\<And>p. p \<in> set (path_list q) \<Longrightarrow> p \<noteq> k"
  shows "own_read (with_data (dict_set k v (own_data s)) s) q = own_read s q"
proof -
  obtain p ps where "path_list q = p # ps" by (meson neq_Nil_conv split_on_nonempty)
  with assms show ?thesis by (auto simp: own_read_def)
qed

text \<open>Storing under a dotted name as one plain key is not seen by any path.\<close>

lemma own_read_literal: "is_dotted k \<Longrightarrow> own_read (with_data (dict_set k v (own_data s)) s) q = own_read s q"
  by (rule own_read_other_key) (auto simp: is_dotted_def dest: split_on_parts)

lemma walk_not_mapping: "\<not> is_mapping v \<Longrightarrow> ps \<noteq> [] \<Longrightarrow> walk ps v = None"
  by (cases v; cases ps) auto

lemma state_get_own_None: "state_get False ns PNone s = Inr PNone \<longleftrightarrow> own_read s ns \<in> {None, Some PNone}"
  by (auto simp: state_get_own split: option.splits)

lemma ns_prepared:
  assumes "state_get False ns PNone s = Inr PNone"
  shows "own_read (with_data (dict_set ns (PDict []) (own_data s)) s) (ns_key ns key) = own_read s (ns_key ns key)"
proof (cases "is_dotted ns")
  case True
  then show ?thesis by (rule own_read_literal)
next
  case False
  with assms show ?thesis
    by (auto simp: state_get_own_None own_read_ns own_read_plain walk_empty_dict walk_not_mapping)
qed

lemma ns_set_cases:
  assumes "ns_set ns key v s = Inr s'"
  obtains s1 where "state_set (ns_key ns key) v s1 = Inr s'"
    and "\<And>k. own_read s1 (ns_key ns k) = own_read s (ns_key ns k)"
proof (cases "\<not> is_dotted key \<and> state_get False ns PNone s = Inr PNone")
  case True
  with assms that ns_prepared show ?thesis by (simp add: ns_set_def)
next
  case False
  obtain w where "state_get False ns PNone s = Inr w" by (simp add: state_get_own)
  with False assms that [of s] show ?thesis by (auto simp: ns_set_def split: if_splits)
qed

interpretation namespace: path_store "\<lambda>s k. own_read s (ns_key ns k)" "ns_set ns" "ns_delete ns"
    "\<lambda>p q. path_list p \<parallel> path_list q" for ns
proof unfold_locales
  fix p q v s s'
  note state.read_write [of "ns_key ns p"] state.read_write_apart [of "ns_key ns p" "ns_key ns q"]
  then show "own_read s' (ns_key ns p) = Some v" if "ns_set ns p v s = Inr s'"
    using ns_set_cases [OF that] by metis
  have apart: "path_list (ns_key ns p) \<parallel> path_list (ns_key ns q)" if "path_list p \<parallel> path_list q"
    using that by (simp add: parallel_def)
  show "own_read s' (ns_key ns q) = own_read s (ns_key ns q)"
    if par: "path_list p \<parallel> path_list q" and "ns_set ns p v s = Inr s'"
    using ns_set_cases [OF that(2)] state.read_write_apart [OF apart [OF par]] by metis
  show "own_read (ns_delete ns p s) (ns_key ns p) = None"
    unfolding ns_delete_def by (rule state.read_remove)
  show "own_read (ns_delete ns p s) (ns_key ns q) = own_read s (ns_key ns q)" if "path_list p \<parallel> path_list q"
    unfolding ns_delete_def by (rule state.read_remove_apart [OF apart [OF that]])
  show "path_list q \<parallel> path_list p" if "path_list p \<parallel> path_list q"
    using that by (simp add: parallel_def)
next
  fix p s and v :: pyval
  assume r: "own_read s (ns_key ns p) \<noteq> None"
  then have "own_read s ns \<notin> {None, Some PNone}"
    by (cases "own_read s ns") (auto simp: own_read_ns walk_not_mapping)
  then have "state_get False ns PNone s \<noteq> Inr PNone" by (simp add: state_get_own_None)
  moreover obtain w where "state_get False ns PNone s = Inr w" by (simp add: state_get_own)
  ultimately have "ns_set ns p v s = state_set (ns_key ns p) v s" by (simp add: ns_set_def)
  with state.restore [OF r] show "\<exists>s'. ns_set ns p v s = Inr s'" by simp
qed

end
