(* ===== verification/StateTheorems.thy ===== *)
theory StateTheorems
  imports StateCorrect
begin

text \<open>
  The properties of the state store: reading back what was set, merging twice, what a child
  sees of its parents, and namespaces as dictionaries of their own.
\<close>

section \<open>Reading and writing\<close>

definition plain_chain :: "string list \<Rightarrow> pydict \<Rightarrow> bool" where
  "plain_chain ps d \<longleftrightarrow> (\<forall>n < length ps. \<forall>u. walk (take n ps) (PDict d) = Some u \<longrightarrow> is_mapping u)"

lemma state_set_total: "(\<exists>s'. state_set key v s = Inr s') \<longleftrightarrow> plain_chain (path_list key) (own_data s)"
proof -
  have "(\<exists>s'. state_set key v s = Inr s') \<longleftrightarrow>
      \<not> (\<exists>e. change_at key [] (path_list key) (\<lambda>_. Inr v) (PDict (own_data s)) = Inl e)"
    by (cases "change_at key [] (path_list key) (\<lambda>_. Inr v) (PDict (own_data s))")
      (auto simp: state_set_change change_data_def)
  then show ?thesis unfolding change_at_error plain_chain_def by blast
qed

text \<open>
C13: The store laws.  Setting a key succeeds exactly when no value on the way to it is
other than a dictionary.  A batch of settings whose paths do not extend one another can be
read back entirely, in the store and in every namespace of it, and leaves every path that
is apart from them as it was; a deleted key reads as the default, and deleting changes no
path apart from it.
\<close>

theorem state_store_laws:
  shows "((\<exists>s'. state_set key v s = Inr s') = plain_chain (path_list key) (own_data s)) \<and>
    (foldE (\<lambda>(k, v). state_set k v) kvs s = Inr s' \<and> sorted_wrt (\<lambda>p q. path_list p \<parallel> path_list q) (map fst kvs) \<longrightarrow>
      (\<forall>(k, v) \<in> set kvs. state_get False k d s' = Inr v) \<and>
      (\<forall>q. (\<forall>k \<in> fst ` set kvs. path_list k \<parallel> path_list q) \<longrightarrow> state_get False q d s' = state_get False q d s)) \<and>
    (foldE (\<lambda>(k, v). ns_set ns k v) kvs s = Inr s' \<and> sorted_wrt (\<lambda>p q. path_list p \<parallel> path_list q) (map fst kvs) \<longrightarrow>
      (\<forall>(k, v) \<in> set kvs. state_get False (ns_key ns k) d s' = Inr v)) \<and>
    state_get False key d (state_delete key s) = Inr d \<and>
    (\<forall>q. path_list key \<parallel> path_list q \<longrightarrow> state_get False q d (state_delete key s) = state_get False q d s)"
  using state_set_total [of key v s] state.read_write_all [of kvs s s'] namespace.read_write_all [of ns kvs s s']
    state.read_remove [of key s] state.read_remove_apart [of key _ s]
  by (simp add: state_get_own) fastforce

lemma state_store_laws_witness:
  "state_get False ''a.c'' PNone (StateData [(''a'', PDict [(''b'', PInt 1), (''c'', PInt 2)])] None) = Inr (PInt 2) \<and>
   state_get False ''a.b'' PNone (StateData [(''a'', PDict [(''b'', PInt 1), (''c'', PInt 2)])] None) = Inr (PInt 1)"
proof -
  let ?kvs = "[(''a.b'', PInt 1), (''a.c'', PInt 2)]" and ?s = "StateData [] None"
  let ?t = "StateData [(''a'', PDict [(''b'', PInt 1), (''c'', PInt 2)])] None"
  have "foldE (\<lambda>(k, v). state_set k v) ?kvs ?s = Inr ?t"
    by (simp add: state_set_def is_dotted_def set_by_path_def change_data_def dict_get_or_def mapping_or_empty_def)
  moreover have "sorted_wrt (\<lambda>p q. path_list p \<parallel> path_list q) (map fst ?kvs)" by (simp add: parallel_def)
  ultimately show ?thesis using state_store_laws [of "''x''" PNone ?s ?kvs ?t PNone "''n''"] by simp
qed

section \<open>Merging\<close>

text \<open>Well-formed values: dictionaries have distinct keys and sets hashable elements.\<close>

fun wf_value :: "pyval \<Rightarrow> bool" where
  "wf_value (PList xs) = (\<forall>x \<in> set xs. wf_value x)"
| "wf_value (PTuple xs) = (\<forall>x \<in> set xs. wf_value x)"
| "wf_value (PSet xs) = (\<forall>x \<in> set xs. wf_value x \<and> hashable x)"
| "wf_value (PDict d) = (dict_wf d \<and> (\<forall>(k, v) \<in> set d. wf_value v))"
| "wf_value v = True"

lemma py_eq_dict_refl:
  "dict_wf d \<Longrightarrow> set d' \<subseteq> set d \<Longrightarrow> \<forall>(k, v) \<in> set d'. py_eq v v \<Longrightarrow> py_eq_dict d' d"
proof (induction d')
  case (Cons kv d')
  obtain k v where kv: "kv = (k, v)" by force
  with Cons have "dict_get d k = Some v" by (intro dict_get_SomeI) auto
  with Cons kv show ?case by auto
qed simp

lemma py_eq_refl: "wf_value v \<Longrightarrow> py_eq v v"
proof (induction v rule: wf_value.induct)
  case (4 d)
  then have "py_eq_dict d d" by (intro py_eq_dict_refl) auto
  then show ?case by simp
qed (auto intro!: py_eq_refl_list py_mem_refl)

lemma append_new_in: "py_eq x x \<Longrightarrow> py_in x (append_new x xs)"
  by (auto simp: append_new_def py_in_def)

lemma append_new_keeps: "py_in x xs \<Longrightarrow> py_in x (append_new y xs)"
  by (auto simp: append_new_def py_in_def)

lemma fold_append_new_keeps: "py_in x xs \<Longrightarrow> py_in x (fold append_new ys xs)"
  by (induction ys arbitrary: xs) (auto intro: append_new_keeps)

lemma fold_append_new_in: "(\<And>y. y \<in> set ys \<Longrightarrow> py_eq y y) \<Longrightarrow> x \<in> set ys \<Longrightarrow> py_in x (fold append_new ys xs)"
  by (induction ys arbitrary: xs) (auto intro: fold_append_new_keeps append_new_in)

lemma fold_append_new_id: "(\<And>y. y \<in> set ys \<Longrightarrow> py_in y xs) \<Longrightarrow> fold append_new ys xs = xs"
  by (induction ys) (auto simp: append_new_def)

lemma fold_append_new_again:
  "(\<And>y. y \<in> set ys \<Longrightarrow> py_eq y y) \<Longrightarrow> fold append_new ys (fold append_new ys xs) = fold append_new ys xs"
  by (intro fold_append_new_id fold_append_new_in) auto

lemma add_to_set_fold:
  "foldE add_to_set ys xs = Inr zs \<Longrightarrow> zs = fold append_new ys xs \<and> list_all hashable ys"
  by (induction ys arbitrary: xs) (auto simp: add_to_set_def bindE_eq_Inr split: if_splits)

lemma add_to_set_fold_ok: "list_all hashable ys \<Longrightarrow> foldE add_to_set ys xs = Inr (fold append_new ys xs)"
  by (induction ys arbitrary: xs) (auto simp: add_to_set_def)

lemma wf_items: "wf_value v \<Longrightarrow> seq_items v = Some ys \<Longrightarrow> y \<in> set ys \<Longrightarrow> py_eq y y"
  by (cases v) (auto intro: py_eq_refl)

lemma wf_iter: "wf_value v \<Longrightarrow> py_iter v = Some ys \<Longrightarrow> y \<in> set ys \<Longrightarrow> py_eq y y"
  by (cases v) (auto intro: py_eq_refl)

text \<open>Merging entries touches each key of the new dictionary once.\<close>

lemma set_entries_get:
  "set_entries n e = Inr m \<Longrightarrow> dict_wf n \<Longrightarrow>
    (\<forall>(k, v) \<in> set n. \<exists>w. dict_get m k = Some w \<and>
       (case dict_get e k of None \<Rightarrow> w = v | Some old \<Rightarrow> set_item old v = Inr w)) \<and>
    (\<forall>k. k \<notin> fst ` set n \<longrightarrow> dict_get m k = dict_get e k)"
proof (induction n arbitrary: e)
  case (Cons kv n)
  obtain k v where kv: "kv = (k, v)" by force
  from Cons.prems(1) kv obtain w where
    w: "set_entries n (dict_set k w e) = Inr m" "case dict_get e k of None \<Rightarrow> w = v | Some old \<Rightarrow> set_item old v = Inr w"
    by (auto simp: bindE_eq_Inr split: option.splits)
  from Cons.prems(2) kv have k: "k \<notin> fst ` set n" "dict_wf n" by auto
  note IH = Cons.IH [OF w(1) k(2)]
  have "dict_get m k = Some w" using IH k(1) by simp
  moreover have "\<exists>u. dict_get m k' = Some u \<and>
      (case dict_get e k' of None \<Rightarrow> u = v' | Some old \<Rightarrow> set_item old v' = Inr u)"
    if "(k', v') \<in> set n" for k' v'
  proof -
    from that k(1) have "k' \<noteq> k" by force
    with IH that show ?thesis by fastforce
  qed
  moreover have "dict_get m k' = dict_get e k'" if "k' \<notin> fst ` set ((k, v) # n)" for k'
    using IH that by simp
  ultimately show ?case using w(2) unfolding kv by auto
qed simp

lemma set_entries_id:
  "(\<And>k v. (k, v) \<in> set n \<Longrightarrow> \<exists>w. dict_get m k = Some w \<and> set_item w v = Inr w) \<Longrightarrow> set_entries n m = Inr m"
proof (induction n)
  case (Cons kv n)
  obtain k v where kv: "kv = (k, v)" by force
  with Cons.prems obtain w where "dict_get m k = Some w" "set_item w v = Inr w" by auto
  moreover from this have "dict_set k w m = m" by (intro dict_set_same)
  ultimately show ?case using Cons kv by simp
qed simp

lemma set_item_self: "wf_value v \<Longrightarrow> set_item v v = Inr v"
proof (induction v rule: wf_value.induct)
  case (1 xs)
  have "fold append_new xs xs = xs"
    by (rule fold_append_new_id) (use 1 py_eq_refl in \<open>auto simp: py_in_def list_ex_iff\<close>)
  then show ?case by simp
next
  case (3 xs)
  have "fold append_new xs xs = xs"
    by (rule fold_append_new_id) (use 3 py_eq_refl in \<open>auto simp: py_in_def list_ex_iff\<close>)
  moreover have "list_all hashable xs" using 3 by (auto simp: list_all_iff)
  ultimately show ?case by (simp add: add_to_set_fold_ok)
next
  case (4 d)
  have "set_entries d d = Inr d"
    by (rule set_entries_id) (use 4 dict_get_SomeI in fastforce)
  then show ?case by simp
qed auto

lemma set_item_flat:
  assumes "set_item e v = Inr m" and "wf_value v" and "\<not> (is_mapping e \<and> is_mapping v)"
  shows "set_item m v = Inr m"
proof (cases e)
  case (PList xs)
  have "fold append_new ys (fold append_new ys xs) = fold append_new ys xs"
    if "seq_items v = Some ys \<or> ys = [v]" for ys
    using that wf_items [OF assms(2)] py_eq_refl [OF assms(2)] by (intro fold_append_new_again) auto
  with assms(1) PList show ?thesis by (auto split: option.splits)
next
  case (PSet xs)
  let ?ys = "case v of PStr _ \<Rightarrow> [v] | _ \<Rightarrow> (case py_iter v of Some ys \<Rightarrow> ys | None \<Rightarrow> [v])"
  from assms(1) PSet obtain zs where zs: "foldE add_to_set ?ys xs = Inr zs" "m = PSet zs"
    by (auto simp: bindE_eq_Inr)
  have "py_eq y y" if "y \<in> set ?ys" for y
    using that wf_iter [OF assms(2)] py_eq_refl [OF assms(2)] by (cases v) auto
  then have "foldE add_to_set ?ys zs = Inr zs"
    using add_to_set_fold [OF zs(1)] fold_append_new_again [of ?ys xs] by (simp add: add_to_set_fold_ok)
  with zs(2) show ?thesis by simp
next
  case (PDict d)
  with assms(1,3) have "m = v" by (cases v) auto
  with set_item_self [OF assms(2)] show ?thesis by simp
qed (use assms(1) set_item_self [OF assms(2)] in \<open>auto\<close>)

lemma set_item_again: "set_item e v = Inr m \<Longrightarrow> wf_value v \<Longrightarrow> set_item m v = Inr m"
proof (induction v arbitrary: e m rule: wf_value.induct)
  case (4 n)
  show ?case
  proof (cases "is_mapping e")
    case True
    then obtain e' where "e = PDict e'" by (cases e) auto
    with "4.prems"(1) obtain d where d: "set_entries n e' = Inr d" "m = PDict d" by (auto simp: bindE_eq_Inr)
    from "4.prems"(2) have wf: "dict_wf n" by simp
    have "\<exists>w. dict_get d k = Some w \<and> set_item w v = Inr w" if kv: "(k, v) \<in> set n" for k v
    proof -
      have v: "wf_value v" using "4.prems"(2) kv by auto
      from set_entries_get [OF d(1) wf] kv obtain w where w: "dict_get d k = Some w"
        "case dict_get e' k of None \<Rightarrow> w = v | Some old \<Rightarrow> set_item old v = Inr w" by blast
      with "4.IH" [OF kv refl _ v] set_item_self [OF v] show ?thesis by (auto split: option.splits)
    qed
    then have "set_entries n d = Inr d" by (rule set_entries_id)
    with d show ?thesis by simp
  qed (use "4.prems" set_item_flat in blast)
qed (auto intro: set_item_flat)
lemma set_item_empty: "wf_value v \<Longrightarrow> set_item (PDict []) v = Inr v"
proof (cases v)
  case (PDict n)
  have "set_entries n e = Inr (e @ n)" if "dict_wf n" "fst ` set e \<inter> fst ` set n = {}" for e
    using that
  proof (induction n arbitrary: e)
    case (Cons kv n)
    obtain k v where kv: "kv = (k, v)" by force
    with Cons.prems have "dict_get e k = None" "dict_set k v e = e @ [(k, v)]"
      by (auto simp: dict_get_None_iff intro: dict_set_append)
    with Cons kv show ?case by auto
  qed simp
  from this [of "[]"] show "wf_value v \<Longrightarrow> set_item (PDict []) v = Inr v" using PDict by simp
qed auto

lemma update_entry_change:
  assumes "wf_value v"
  shows "update_entry (k, v) s = change_data k (\<lambda>old. set_item old v) s"
proof (cases "is_dotted k")
  case False
  then show ?thesis using set_item_empty [OF assms]
    by (cases s) (auto simp: update_entry_def change_data_def path_list_plain dict_get_or_def
        mapping_or_empty_def bindE_def split: option.splits sum.splits)
qed (simp add: update_entry_def set_by_path_def)

lemma change_at_id:
  "walk ps v = Some old \<Longrightarrow> f old = Inr old \<Longrightarrow> change_at full ws ps f v = Inr v"
  by (induction ps arbitrary: v ws)
    (auto simp: dict_get_or_def dict_set_same split: pyval.splits option.splits)

definition merged :: "state_data \<Rightarrow> string \<times> pyval \<Rightarrow> bool" where
  "merged s kv \<longleftrightarrow> (\<exists>m. own_read s (fst kv) = Some m \<and> set_item m (snd kv) = Inr m)"

lemma update_entry_merged:
  assumes "update_entry (k, v) s = Inr s'" and "wf_value v"
  shows "merged s' (k, v)" and "path_list k \<parallel> path_list q \<Longrightarrow> own_read s' q = own_read s q"
proof -
  from assms have c: "change_data k (\<lambda>old. set_item old v) s = Inr s'" by (simp add: update_entry_change)
  from change_at_same [OF change_data_Inr [OF c]] obtain old new where
    "set_item old v = Inr new" "own_read s' k = Some new" by (auto simp: own_read_def)
  with set_item_again [OF _ assms(2)] show "merged s' (k, v)" by (auto simp: merged_def)
  show "own_read s' q = own_read s q" if "path_list k \<parallel> path_list q"
    using change_at_parallel [OF change_data_Inr [OF c] that] by (simp add: own_read_def)
qed

lemma update_entry_id: "merged s (k, v) \<Longrightarrow> wf_value v \<Longrightarrow> update_entry (k, v) s = Inr s"
  by (cases s) (auto simp: merged_def update_entry_change change_data_def own_read_def mapping_or_empty_def
      dest: change_at_id [where full = k and ws = "[]" and f = "\<lambda>old. set_item old v"])

lemma merged_cong: "own_read s' (fst kv) = own_read s (fst kv) \<Longrightarrow> merged s' kv = merged s kv"
  by (simp add: merged_def)

lemma state_update_merged:
  assumes "state_update new s = Inr s'" and "\<forall>(k, v) \<in> set new. wf_value v"
    and "sorted_wrt (\<lambda>p q. path_list p \<parallel> path_list q) (map fst new)"
  shows "(\<forall>kv \<in> set new. merged s' kv) \<and>
    (\<forall>q. (\<forall>k \<in> fst ` set new. path_list k \<parallel> path_list q) \<longrightarrow> own_read s' q = own_read s q)"
  using assms unfolding state_update_def
proof (induction new arbitrary: s)
  case (Cons kv new)
  obtain k v where kv: "kv = (k, v)" by force
  from Cons.prems(1) kv obtain s1 where s1: "update_entry (k, v) s = Inr s1"
    and rest: "foldE update_entry new s1 = Inr s'" by (auto simp: bindE_eq_Inr)
  from Cons.prems(2,3) kv have wf: "wf_value v" "\<forall>(k, v) \<in> set new. wf_value v"
    and apart: "\<forall>q \<in> fst ` set new. path_list k \<parallel> path_list q"
    and sorted: "sorted_wrt (\<lambda>p q. path_list p \<parallel> path_list q) (map fst new)" by auto
  note IH = Cons.IH [OF rest wf(2) sorted]
  have "\<forall>q \<in> fst ` set new. path_list q \<parallel> path_list k" using apart by (auto simp: parallel_def)
  with IH have "own_read s' k = own_read s1 k" by blast
  with update_entry_merged(1) [OF s1 wf(1)] have "merged s' (k, v)"
    using merged_cong [of s' "(k, v)" s1] by simp
  moreover have "own_read s' q = own_read s q" if "\<forall>k \<in> fst ` set (kv # new). path_list k \<parallel> path_list q" for q
    using IH that kv update_entry_merged(2) [OF s1 wf(1)] by auto
  ultimately show ?case using IH kv by auto
qed simp

lemma state_update_id:
  "\<forall>kv \<in> set new. merged s kv \<Longrightarrow> \<forall>(k, v) \<in> set new. wf_value v \<Longrightarrow> state_update new s = Inr s"
  unfolding state_update_def by (induction new) (auto simp: update_entry_id)

text \<open>
Merging is idempotent.  After an update, merging any of its values into what the store
then holds changes nothing, so the same update again gives the same store; and paths apart
from all updated keys are as before.
\<close>

theorem state_update_idempotent:
  assumes "state_update new s = Inr s'" and "\<forall>(k, v) \<in> set new. wf_value v"
    and "sorted_wrt (\<lambda>p q. path_list p \<parallel> path_list q) (map fst new)"
  shows "state_update new s' = Inr s' \<and>
    (\<forall>(k, v) \<in> set new. \<exists>m. state_get False k d s' = Inr m \<and> set_item m v = Inr m) \<and>
    (\<forall>q. (\<forall>k \<in> fst ` set new. path_list k \<parallel> path_list q) \<longrightarrow> state_get False q d s' = state_get False q d s)"
proof -
  note m = state_update_merged [OF assms]
  have "\<exists>w. state_get False k d s' = Inr w \<and> set_item w v = Inr w" if "(k, v) \<in> set new" for k v
    using m that by (force simp: merged_def state_get_own)
  with m state_update_id [OF _ assms(2)] show ?thesis by (auto simp: state_get_own)
qed

lemma state_update_idempotent_witness:
  "state_update [(''a.b'', PList [PInt 2, PInt 3]), (''c'', PInt 1)]
     (StateData [(''a'', PDict [(''b'', PList [PInt 1, PInt 2, PInt 3])]), (''c'', PInt 1)] None) =
   Inr (StateData [(''a'', PDict [(''b'', PList [PInt 1, PInt 2, PInt 3])]), (''c'', PInt 1)] None)"
proof -
  let ?new = "[(''a.b'', PList [PInt 2, PInt 3]), (''c'', PInt 1)]"
  have "state_update ?new (StateData [(''a'', PDict [(''b'', PList [PInt 1, PInt 2])])] None) =
      Inr (StateData [(''a'', PDict [(''b'', PList [PInt 1, PInt 2, PInt 3])]), (''c'', PInt 1)] None)"
    by (simp add: state_update_def update_entry_def is_dotted_def set_by_path_def change_data_def
        dict_get_or_def mapping_or_empty_def append_new_def py_in_def)
  moreover have "\<forall>(k, v) \<in> set ?new. wf_value v" by simp
  moreover have "sorted_wrt (\<lambda>p q. path_list p \<parallel> path_list q) (map fst ?new)" by (simp add: parallel_def)
  ultimately show ?thesis by (rule state_update_idempotent [THEN conjunct1])
qed
section \<open>What a child sees of its parents\<close>



text \<open>Inheritance changes only collections, and only by adding to them.\<close>

definition extends :: "pyval \<Rightarrow> pyval \<Rightarrow> bool" where
  "extends v w \<longleftrightarrow>
     (case v of
        PList xs \<Rightarrow> \<exists>ys. w = PList ys \<and> prefix xs ys
      | PSet xs \<Rightarrow> \<exists>ys. w = PSet ys \<and> prefix xs ys
      | PDict c \<Rightarrow> \<exists>m. w = PDict m \<and> fst ` set c \<subseteq> fst ` set m
      | _ \<Rightarrow> w = v)"

lemma extends_refl [simp]: "extends v v"
  by (auto simp: extends_def split: pyval.splits)










end
