(* ===== verification/NamespaceTheorems.thy ===== *)
theory NamespaceTheorems
  imports StateTheorems
begin

text \<open>
  Namespaces of a state store: under a plain name a namespace refines a dictionary of its
  own; under a dotted name some operations miss their target.
\<close>

section \<open>A plain namespace is a dictionary\<close>

datatype ns_op =
    NsSet string pyval
  | NsDelItem string
  | NsPop string pyval
  | NsDelete string
  | NsClear

fun ns_step :: "string \<Rightarrow> ns_op \<Rightarrow> state_data \<Rightarrow> state_error + state_data" where
  "ns_step ns (NsSet k v) s = ns_set ns k v s"
| "ns_step ns (NsDelItem k) s = ns_del_item ns k s"
| "ns_step ns (NsPop k d) s = bindE (ns_pop ns k d s) (\<lambda>(v, s'). Inr s')"
| "ns_step ns (NsDelete k) s = Inr (ns_delete ns k s)"
| "ns_step ns NsClear s = Inr (ns_clear ns s)"

text \<open>The specification: the same operations on a dictionary.\<close>

fun dict_step :: "ns_op \<Rightarrow> pydict \<Rightarrow> pydict" where
  "dict_step (NsSet k v) d = dict_set k v d"
| "dict_step (NsDelItem k) d = dict_del k d"
| "dict_step (NsPop k _) d = dict_del k d"
| "dict_step (NsDelete k) d = dict_del k d"
| "dict_step NsClear d = []"

fun op_keys :: "ns_op \<Rightarrow> string list" where
  "op_keys (NsSet k v) = [k]"
| "op_keys (NsDelItem k) = [k]"
| "op_keys (NsPop k _) = [k]"
| "op_keys (NsDelete k) = [k]"
| "op_keys NsClear = []"

text \<open>The abstraction, and when it applies: the name is free or names a dictionary.\<close>

definition ns_abs :: "string \<Rightarrow> state_data \<Rightarrow> pydict" where
  "ns_abs ns s = (case dict_get (own_data s) ns of Some (PDict d) \<Rightarrow> d | _ \<Rightarrow> [])"

definition ns_free :: "string \<Rightarrow> state_data \<Rightarrow> bool" where
  "ns_free ns s \<longleftrightarrow> \<not> is_dotted ns \<and>
     (case dict_get (own_data s) ns of None \<Rightarrow> True | Some v \<Rightarrow> v = PNone \<or> is_mapping v)"

lemma ns_free_cases:
  assumes "ns_free ns s"
  obtains "state_get False ns PNone s = Inr PNone" "ns_abs ns s = []"
    "\<And>d. dict_get (own_data s) ns \<noteq> Some (PDict d)"
  | d where "dict_get (own_data s) ns = Some (PDict d)" "state_get False ns PNone s = Inr (PDict d)" "ns_abs ns s = d"
  using assms
  by (cases "dict_get (own_data s) ns") (auto simp: ns_free_def ns_abs_def state_get_own own_read_plain elim!: is_mapping.elims)

lemma dict_set_set: "dict_set k v (dict_set k w d) = dict_set k v d"
  by (induction d) auto

lemma with_data_with_data [simp]: "with_data d (with_data e s) = with_data d s"
  by (cases s) simp

lemma path_list_ns: "\<not> is_dotted ns \<Longrightarrow> \<not> is_dotted k \<Longrightarrow> path_list (ns_key ns k) = [ns, k]"
  by (simp add: path_list_plain)

lemma set_in_ns:
  assumes "\<not> is_dotted ns" and "\<not> is_dotted k" and "dict_get (own_data s) ns = Some (PDict d)"
  shows "state_set (ns_key ns k) v s = Inr (with_data (dict_set ns (PDict (dict_set k v d)) (own_data s)) s)"
  using assms
  by (simp add: state_set_change change_data_def path_list_ns dict_get_or_def mapping_or_empty_def
      del: path_list_ns_key)

text \<open>Every operation stores the changed dictionary under the namespace's name.\<close>

lemma ns_step_refines:
  assumes "ns_free ns s" and "\<And>k. k \<in> set (op_keys oper) \<Longrightarrow> \<not> is_dotted k"
  shows "\<exists>s'. ns_step ns oper s = Inr s' \<and>
    (s' = with_data (dict_set ns (PDict (dict_step oper (ns_abs ns s))) (own_data s)) s \<or>
     s' = s \<and> dict_step oper (ns_abs ns s) = ns_abs ns s)"
proof -
  from assms(1) have ns: "\<not> is_dotted ns" by (simp add: ns_free_def)
  have restore: "restore_ns ns e s = Inr (with_data (dict_set ns (PDict e) (own_data s)) s)" for e
    using ns by (simp add: restore_ns_def change_data_def path_list_plain mapping_or_empty_def dict_set_set)
  from assms(1) show ?thesis
  proof (cases rule: ns_free_cases)
    case 1
    let ?s1 = "with_data (dict_set ns (PDict []) (own_data s)) s"
    have del: "delete_at [ns, k] (own_data s) = own_data s" for k
      using 1(3) by (cases "dict_get (own_data s) ns") (auto split: pyval.splits)
    show ?thesis
    proof (cases oper)
      case (NsSet k v)
      then have k: "\<not> is_dotted k" using assms(2) by simp
      have "state_set (ns_key ns k) v ?s1 = Inr (with_data (dict_set ns (PDict (dict_set k v [])) (own_data s)) s)"
        using set_in_ns [OF ns k, of ?s1] by (simp add: dict_set_set)
      with NsSet k 1 show ?thesis by (simp add: ns_set_def)
    next
      case (NsDelete k)
      with assms(2) del [of k] ns 1 show ?thesis
        by (cases s) (simp add: ns_delete_def state_delete_def path_list_ns del: path_list_ns_key)
    qed (use 1 assms(2) in \<open>auto simp: ns_del_item_def ns_pop_def ns_clear_def\<close>)
  next
    case (2 d)
    show ?thesis
    proof (cases oper)
      case (NsSet k v)
      with 2 assms(2) set_in_ns [OF ns _ 2(1)] show ?thesis by (simp add: ns_set_def)
    next
      case (NsDelItem k)
      with 2 assms(2) restore show ?thesis
        by (auto simp: ns_del_item_def dict_has_mem dict_del_id)
    next
      case (NsPop k x)
      with 2 assms(2) restore show ?thesis
        by (auto simp: ns_pop_def dict_get_None_iff dict_del_id split: option.splits)
    next
      case (NsDelete k)
      with 2 assms(2) ns show ?thesis
        by (simp add: ns_delete_def state_delete_def path_list_ns del: path_list_ns_key)
    qed (use 2 in \<open>auto simp: ns_clear_def\<close>)
  qed
qed

lemma ns_step_simulation:
  assumes "ns_free ns s" and "\<And>k. k \<in> set (op_keys oper) \<Longrightarrow> \<not> is_dotted k"
  shows "\<exists>s'. ns_step ns oper s = Inr s' \<and> ns_free ns s' \<and> ns_abs ns s' = dict_step oper (ns_abs ns s) \<and>
    (\<forall>k. k \<noteq> ns \<longrightarrow> dict_get (own_data s') k = dict_get (own_data s) k)"
proof -
  let ?d = "dict_step oper (ns_abs ns s)"
  let ?t = "with_data (dict_set ns (PDict ?d) (own_data s)) s"
  have "ns_free ns ?t" "ns_abs ns ?t = ?d" using assms(1) by (auto simp: ns_free_def ns_abs_def)
  moreover obtain s' where "ns_step ns oper s = Inr s'" "s' = ?t \<or> s' = s \<and> ?d = ns_abs ns s"
    using ns_step_refines [OF assms] by blast
  ultimately show ?thesis using assms(1) by auto
qed

text \<open>
C15: Refinement.  As long as a plain name is free or holds a dictionary, its namespace is
a dictionary of its own: any sequence of operations on plain keys through the namespace
succeeds, has on the abstraction the effect of the same operations on a dictionary, and
leaves every other key of the store alone.  A local \<open>get\<close> reads that dictionary, and
ignores the caller's default.
\<close>

theorem namespace_refines_dict:
  assumes "ns_free ns s" and "\<forall>oper \<in> set opers. \<forall>k \<in> set (op_keys oper). \<not> is_dotted k"
  shows "\<exists>s'. foldE (ns_step ns) opers s = Inr s' \<and> ns_abs ns s' = fold dict_step opers (ns_abs ns s) \<and>
    (\<forall>k. k \<noteq> ns \<longrightarrow> dict_get (own_data s') k = dict_get (own_data s) k) \<and>
    (\<forall>k dflt. \<not> is_dotted k \<longrightarrow> ns_get False ns k dflt s' = Inr (pget (ns_abs ns s') k))"
  using assms
proof (induction opers arbitrary: s)
  case Nil
  have "ns_get False ns k dflt s = Inr (pget (ns_abs ns s) k)" if "\<not> is_dotted k" for k dflt
    using Nil(1) that by (cases rule: ns_free_cases) (simp_all add: ns_get_def pget_def dict_get_or_def)
  then show ?case by simp
next
  case (Cons oper opers)
  from ns_step_simulation [OF Cons.prems(1), of oper] Cons.prems(2) obtain s1 where
    s1: "ns_step ns oper s = Inr s1" "ns_free ns s1" "ns_abs ns s1 = dict_step oper (ns_abs ns s)"
    "\<forall>k. k \<noteq> ns \<longrightarrow> dict_get (own_data s1) k = dict_get (own_data s) k" by auto
  from Cons.IH [OF s1(2)] Cons.prems(2) s1 show ?case by auto
qed

lemma namespace_refines_dict_witness:
  "\<exists>s'. foldE (ns_step ''n'') [NsSet ''a'' (PInt 1), NsSet ''b'' (PInt 2), NsPop ''a'' PNone] (StateData [] None) = Inr s' \<and>
     ns_abs ''n'' s' = [(''b'', PInt 2)]"
proof -
  have free: "ns_free ''n'' (StateData [] None)" by (simp add: ns_free_def is_dotted_def)
  have keys: "\<forall>oper \<in> set [NsSet ''a'' (PInt 1), NsSet ''b'' (PInt 2), NsPop ''a'' PNone].
      \<forall>k \<in> set (op_keys oper). \<not> is_dotted k" by (simp add: is_dotted_def)
  from namespace_refines_dict [OF free keys] show ?thesis
    by (auto simp: ns_abs_def)
qed

section \<open>Dotted namespaces\<close>

text \<open>
Under a dotted name the namespace is only partly there.  Clearing it changes nothing
that any path reads, and leaves an empty dictionary under the whole name as one plain key;
deleting a plain key removes it from the namespace but stores the remaining dictionary
again in the same way.  And \<open>pop\<close> of a serializable namespace never removes anything.
\<close>

theorem dotted_namespace_misses:
  assumes "is_dotted ns"
  shows "own_read (ns_clear ns s) q = own_read s q \<and> dict_get (own_data (ns_clear ns s)) ns = Some (PDict []) \<and>
    (own_read s ns = Some (PDict d) \<and> dict_has d k \<and> \<not> is_dotted k \<longrightarrow>
      (\<exists>s'. ns_del_item ns k s = Inr s' \<and> own_read s' ns = Some (PDict (dict_del k d)) \<and>
         dict_get (own_data s') ns = Some (PDict (dict_del k d)))) \<and>
    (serializable_ns_pop ns k dflt s = Inr (v, s') \<longrightarrow> s' = s)"
proof -
  have "\<exists>s'. ns_del_item ns k s = Inr s' \<and> own_read s' ns = Some (PDict (dict_del k d)) \<and>
      dict_get (own_data s') ns = Some (PDict (dict_del k d))"
    if r: "own_read s ns = Some (PDict d)" and k: "dict_has d k" "\<not> is_dotted k"
  proof -
    from state.restore [of s ns "PDict (dict_del k d)"] r obtain s1 where
      s1: "state_set ns (PDict (dict_del k d)) s = Inr s1" by auto
    have "own_read (with_data (dict_set ns (PDict (dict_del k d)) (own_data s1)) s1) ns = Some (PDict (dict_del k d))"
      using own_read_literal [OF assms] state.read_write [OF s1] by simp
    moreover have "ns_del_item ns k s = Inr (with_data (dict_set ns (PDict (dict_del k d)) (own_data s1)) s1)"
      using s1 r k by (simp add: ns_del_item_def state_get_own restore_ns_def state_set_change)
    ultimately show ?thesis by simp
  qed
  moreover have "s' = s" if "serializable_ns_pop ns k dflt s = Inr (v, s')"
    using that by (auto simp: serializable_ns_pop_def bindE_eq_Inr)
  ultimately show ?thesis using own_read_literal [OF assms] by (simp add: ns_clear_def)
qed

lemma dotted_namespace_misses_witness:
  "own_read (ns_clear ''a.b'' (StateData [(''a'', PDict [(''b'', PInt 1)])] None)) ''a.b'' = Some (PInt 1)"
proof -
  have "is_dotted ''a.b''" by (simp add: is_dotted_def)
  from dotted_namespace_misses [OF this, of "StateData [(''a'', PDict [(''b'', PInt 1)])] None" "''a.b''"]
  show ?thesis by (simp add: own_read_def)
qed

end
