(* ===== verification/JsonText.thy ===== *)
theory JsonText
  imports DataPath "HOL-Library.Sublist"
begin

text \<open>
  Finding and repairing JSON in model output (\<open>agently/utils/DataLocator.py\<close>, second half).
  The code compares characters beyond the first 256, so a text is a list of code points
  here.  The parser and printer of \<open>json5\<close> are parameters.
\<close>

section \<open>Texts\<close>

type_synonym utext = "nat list"

definition ut :: "string \<Rightarrow> utext" where
  "ut s = map of_char s"

abbreviation "tab_char \<equiv> (9 :: nat)"
abbreviation "newline \<equiv> (10 :: nat)"
abbreviation "dquote \<equiv> (34 :: nat)"
abbreviation "squote \<equiv> (39 :: nat)"
abbreviation "backslash \<equiv> (92 :: nat)"
abbreviation "comma \<equiv> (44 :: nat)"
abbreviation "colon \<equiv> (58 :: nat)"
abbreviation "lbracket \<equiv> (91 :: nat)"
abbreviation "rbracket \<equiv> (93 :: nat)"
abbreviation "lbrace \<equiv> (123 :: nat)"
abbreviation "rbrace \<equiv> (125 :: nat)"

text \<open>\<open>str.isspace\<close>.\<close>

definition uspace :: "nat \<Rightarrow> bool" where
  "uspace c \<longleftrightarrow> (9 \<le> c \<and> c \<le> 13) \<or> (28 \<le> c \<and> c \<le> 32) \<or> c = 133 \<or> c = 160 \<or> c = 5760 \<or>
     (8192 \<le> c \<and> c \<le> 8202) \<or> c = 8232 \<or> c = 8233 \<or> c = 8239 \<or> c = 8287 \<or> c = 12288"

definition opener :: "nat \<Rightarrow> bool" where
  "opener c \<longleftrightarrow> c = lbracket \<or> c = lbrace"

definition closer :: "nat \<Rightarrow> bool" where
  "closer c \<longleftrightarrow> c = rbracket \<or> c = rbrace"

text \<open>\<open>s.replace(pat, new)\<close>, and \<open>s.split(pat, 1)\<close> when the pattern occurs.\<close>

function replace_all :: "'a list \<Rightarrow> 'a list \<Rightarrow> 'a list \<Rightarrow> 'a list" where
  "replace_all pat new s =
     (if pat \<noteq> [] \<and> take (length pat) s = pat then new @ replace_all pat new (drop (length pat) s)
      else case s of [] \<Rightarrow> [] | x # xs \<Rightarrow> x # replace_all pat new xs)"
  by pat_completeness auto
termination
  by (relation "measure (\<lambda>(pat, new, s). length s)") (auto intro: diff_less simp: take_eq_Nil)

fun split_pat :: "'a list \<Rightarrow> 'a list \<Rightarrow> ('a list \<times> 'a list) option" where
  "split_pat pat [] = None"
| "split_pat pat (x # xs) =
     (if take (length pat) (x # xs) = pat then Some ([], drop (length pat) (x # xs))
      else map_option (\<lambda>(a, b). (x # a, b)) (split_pat pat xs))"

lemma split_pat_shorter: "split_pat pat s = Some (a, b) \<Longrightarrow> pat \<noteq> [] \<Longrightarrow> length b < length s"
  by (induction s arbitrary: a) (auto split: if_splits)

definition triple :: utext where
  "triple = [dquote, dquote, dquote]"

text \<open>\<open>re.sub('"""(.*?)"""', ...)\<close>: the text between two triple quotes is printed as a string.\<close>

function sub_triple :: "(utext \<Rightarrow> utext) \<Rightarrow> utext \<Rightarrow> utext" where
  "sub_triple dumps s =
     (case split_pat triple s of
        None \<Rightarrow> s
      | Some (a, b) \<Rightarrow>
          (case split_pat triple b of
             None \<Rightarrow> s
           | Some (m, c) \<Rightarrow> a @ dumps m @ sub_triple dumps c))"
  by pat_completeness auto
termination
  by (relation "measure (\<lambda>(d, s). length s)")
    (auto dest!: split_pat_shorter simp: triple_def intro: less_trans)

section \<open>Locating JSON\<close>

definition prepare_scan_text :: "(utext \<Rightarrow> utext) \<Rightarrow> utext \<Rightarrow> utext" where
  "prepare_scan_text dumps s =
     replace_all (ut ''[OUTPUT]'') (ut ''$<<OUTPUT>>'') (replace_all triple [dquote] (sub_triple dumps s))"

definition restore_scan_text :: "utext \<Rightarrow> utext" where
  "restore_scan_text s = replace_all (ut ''$<<OUTPUT>>'') (ut ''[OUTPUT]'') s"

text \<open>Inside a string a newline or a tab is written as an escape.\<close>

definition in_string_text :: "nat \<Rightarrow> utext" where
  "in_string_text c = (if c = newline then [backslash, 110] else if c = tab_char then [backslash, 116] else [c])"

text \<open>
  The loop of \<open>_locate_direct_root_json\<close> from the first character that is not a space:
  the skip flag, whether a string is open, the nesting depth, and the block so far.
\<close>

fun direct_loop :: "bool \<Rightarrow> bool \<Rightarrow> int \<Rightarrow> utext \<Rightarrow> utext \<Rightarrow> utext option" where
  "direct_loop skip q layer block [] = None"
| "direct_loop skip q layer block (c # rest) =
     (if skip then direct_loop False q layer block rest
      else if \<not> q then
        (if c = backslash \<and> take 1 rest \<noteq> [dquote] then direct_loop True q layer block rest
         else
           let ch = (if c = backslash then dquote else c);
               layer' = (if opener ch then layer + 1 else if closer ch then layer - 1 else layer);
               block' = block @ [ch]
           in if layer' = 0 then Some (restore_scan_text block')
              else direct_loop (c = backslash) (ch = dquote) layer' block' rest)
      else if c = backslash \<and> rest \<noteq> [] then direct_loop True q layer (block @ [c, hd rest]) rest
      else
        let block' = block @ in_string_text c
        in if layer = 0 then Some (restore_scan_text block')
           else direct_loop False (c \<noteq> dquote) layer block' rest)"

definition locate_direct_root_json :: "(utext \<Rightarrow> utext) \<Rightarrow> utext \<Rightarrow> utext option" where
  "locate_direct_root_json dumps s =
     (case dropWhile uspace (prepare_scan_text dumps s) of
        [] \<Rightarrow> None
      | c # rest \<Rightarrow> if opener c then direct_loop False False 0 [] (c # rest) else None)"

text \<open>The loop of \<open>locate_all_json\<close>; \<open>outside\<close> is its first stage.\<close>

fun all_loop :: "bool \<Rightarrow> bool \<Rightarrow> bool \<Rightarrow> int \<Rightarrow> utext \<Rightarrow> utext list \<Rightarrow> utext \<Rightarrow> utext list" where
  "all_loop outside skip q layer block blocks [] = blocks"
| "all_loop outside skip q layer block blocks (c # rest) =
     (if skip then all_loop outside False q layer block blocks rest
      else if outside then
        (if c = backslash then all_loop True True q layer block blocks rest
         else if opener c then all_loop False False q (layer + 1) [c] blocks rest
         else all_loop True False q layer block blocks rest)
      else if \<not> q then
        (if c = backslash \<and> take 1 rest \<noteq> [dquote] then all_loop False True q layer block blocks rest
         else
           let ch = (if c = backslash then dquote else c);
               layer' = (if opener ch then layer + 1 else if closer ch then layer - 1 else layer);
               block' = block @ [ch]
           in if layer' = 0
              then all_loop True (c = backslash) False layer' [] (blocks @ [restore_scan_text block']) rest
              else all_loop False (c = backslash) (ch = dquote) layer' block' blocks rest)
      else if c = backslash \<and> rest \<noteq> [] then all_loop False True q layer (block @ [c, hd rest]) blocks rest
      else
        let block' = block @ in_string_text c
        in if layer = 0 then all_loop True False False layer [] (blocks @ [restore_scan_text block']) rest
           else all_loop False False (c \<noteq> dquote) layer block' blocks rest)"

definition locate_all_json :: "(utext \<Rightarrow> utext) \<Rightarrow> utext \<Rightarrow> utext list" where
  "locate_all_json dumps s = all_loop True False False 0 [] [] (prepare_scan_text dumps s)"

text \<open>
  Choosing the block that fits the output schema best; \<open>loads\<close> parses, or fails.  A block
  that does not parse is passed over, and the later of two equally good blocks wins.
\<close>

definition better_block ::
  "(utext \<Rightarrow> pyval option) \<Rightarrow> (pyval \<Rightarrow> int) \<Rightarrow> utext \<Rightarrow> utext option \<times> int \<Rightarrow> utext option \<times> int" where
  "better_block loads score b best =
     (case loads b of
        None \<Rightarrow> best
      | Some v \<Rightarrow> if snd best \<le> score v then (Some b, score v) else best)"

definition locate_output_json ::
  "(utext \<Rightarrow> utext) \<Rightarrow> (utext \<Rightarrow> pyval option) \<Rightarrow> nat \<Rightarrow> utext \<Rightarrow> schema \<Rightarrow> utext option" where
  "locate_output_json dumps loads fresh s output_schema =
     (case locate_direct_root_json dumps s of
        Some b \<Rightarrow> Some b
      | None \<Rightarrow>
          (case locate_all_json dumps s of
             [] \<Rightarrow> None
           | [b] \<Rightarrow> Some b
           | bs \<Rightarrow>
               (case fold (better_block loads (\<lambda>v. score_schema_match fresh v output_schema)) bs (None, -1) of
                  (Some b, n) \<Rightarrow> if 0 \<le> n then Some b else Some (last bs)
                | (None, _) \<Rightarrow> Some (last bs))))"

section \<open>Repairing a fragment\<close>

definition structural_translation :: "nat \<Rightarrow> nat" where
  "structural_translation c =
     (if c = 65306 then colon else if c = 65292 then comma else if c = 65371 then lbrace
      else if c = 65373 then rbrace else if c = 65339 then lbracket else if c = 65341 then rbracket else c)"

definition next_non_whitespace :: "utext \<Rightarrow> nat option" where
  "next_non_whitespace s = (case dropWhile uspace s of [] \<Rightarrow> None | c # _ \<Rightarrow> Some c)"

definition is_quote_variant :: "nat \<Rightarrow> nat \<Rightarrow> bool" where
  "is_quote_variant c delimiter \<longleftrightarrow>
     (if delimiter = dquote then c \<in> {dquote, 8220, 8221, 65282} else c \<in> {squote, 8216, 8217, 65287})"

datatype string_role = KeyRole | ValueRole

text \<open>\<open>rest\<close> is the text after the quote.\<close>

definition can_close_string :: "utext \<Rightarrow> string_role \<Rightarrow> bool" where
  "can_close_string rest role \<longleftrightarrow>
     (case next_non_whitespace rest of
        None \<Rightarrow> role = ValueRole
      | Some c \<Rightarrow>
          if role = KeyRole then c \<in> {colon, 65306}
          else c \<in> {comma, 65292, rbrace, rbracket, 65373, 65341})"

datatype ctx_kind = RootCtx | ObjectCtx | ArrayCtx
datatype ctx_state = KeyOrEnd | AtColon | AtValue | ValueOrEnd | CommaOrEnd | CtxDone

text \<open>The context stack, innermost first, and the flags of the loop.\<close>

record repair_state =
  rs_contexts :: "(ctx_kind \<times> ctx_state) list"
  rs_in_string :: bool
  rs_delimiter :: nat
  rs_string_role :: string_role
  rs_escape :: bool
  rs_in_primitive :: bool
  rs_primitive_role :: string_role

definition repair_start :: repair_state where
  "repair_start = \<lparr> rs_contexts = [(RootCtx, ValueOrEnd)], rs_in_string = False, rs_delimiter = dquote,
     rs_string_role = ValueRole, rs_escape = False, rs_in_primitive = False, rs_primitive_role = ValueRole \<rparr>"

text \<open>\<open>contexts[-1]["state"] = ...\<close>: \<open>None\<close> is the \<open>IndexError\<close> of an empty stack.\<close>

definition set_ctx_state :: "(ctx_kind \<Rightarrow> ctx_state) \<Rightarrow> repair_state \<Rightarrow> repair_state option" where
  "set_ctx_state f st =
     (case rs_contexts st of
        [] \<Rightarrow> None
      | (k, _) # cs \<Rightarrow> Some (st\<lparr>rs_contexts := (k, f k) # cs\<rparr>))"

definition mark_value_completed :: "repair_state \<Rightarrow> repair_state option" where
  "mark_value_completed st = set_ctx_state (\<lambda>k. if k = RootCtx then CtxDone else CommaOrEnd) st"

definition pop_context :: "repair_state \<Rightarrow> repair_state option" where
  "pop_context st = mark_value_completed (st\<lparr>rs_contexts := tl (rs_contexts st)\<rparr>)"

text \<open>One character inside a string, and one character elsewhere: what is written and the new state.\<close>

definition string_step :: "nat \<Rightarrow> utext \<Rightarrow> repair_state \<Rightarrow> (nat \<times> repair_state) option" where
  "string_step c rest st =
     (if rs_escape st then Some (c, st\<lparr>rs_escape := False\<rparr>)
      else if c = backslash then Some (c, st\<lparr>rs_escape := True\<rparr>)
      else if is_quote_variant c (rs_delimiter st) then
        (if can_close_string rest (rs_string_role st) then
           map_option (Pair (rs_delimiter st))
             (if rs_string_role st = KeyRole then set_ctx_state (\<lambda>_. AtColon) (st\<lparr>rs_in_string := False\<rparr>)
              else mark_value_completed (st\<lparr>rs_in_string := False\<rparr>))
         else Some (c, st))
      else Some (c, st))"

definition start_string :: "nat \<Rightarrow> ctx_state \<Rightarrow> repair_state \<Rightarrow> repair_state" where
  "start_string delimiter state st =
     st\<lparr>rs_in_string := True, rs_delimiter := delimiter,
        rs_string_role := (if state = KeyOrEnd then KeyRole else ValueRole)\<rparr>"

definition start_primitive :: "string_role \<Rightarrow> repair_state \<Rightarrow> repair_state" where
  "start_primitive role st = st\<lparr>rs_in_primitive := True, rs_primitive_role := role\<rparr>"

definition structure_step :: "nat \<Rightarrow> repair_state \<Rightarrow> (nat \<times> repair_state) option" where
  "structure_step c st =
     (let n = structural_translation c in
      if uspace c then Some (c, st)
      else case rs_contexts st of
        [] \<Rightarrow> None
      | (kind, state) # below \<Rightarrow>
          if state \<in> {KeyOrEnd, AtValue, ValueOrEnd} \<and> is_quote_variant c dquote
          then Some (dquote, start_string dquote state st)
          else if state \<in> {KeyOrEnd, AtValue, ValueOrEnd} \<and> is_quote_variant c squote
          then Some (squote, start_string squote state st)
          else if n \<in> {lbrace, lbracket} \<and> state \<in> {AtValue, ValueOrEnd}
          then Some (n, st\<lparr>rs_contexts :=
                 (if n = lbrace then (ObjectCtx, KeyOrEnd) else (ArrayCtx, ValueOrEnd)) # rs_contexts st\<rparr>)
          else if n = rbrace \<and> kind = ObjectCtx \<and> state \<in> {KeyOrEnd, CommaOrEnd}
          then map_option (Pair n) (pop_context st)
          else if n = rbracket \<and> kind = ArrayCtx \<and> state \<in> {ValueOrEnd, CommaOrEnd}
          then map_option (Pair n) (pop_context st)
          else if n = colon \<and> kind = ObjectCtx \<and> state = AtColon
          then Some (n, st\<lparr>rs_contexts := (kind, AtValue) # below\<rparr>)
          else if n = comma \<and> state = CommaOrEnd
          then Some (n, st\<lparr>rs_contexts :=
                 (kind, case kind of ObjectCtx \<Rightarrow> KeyOrEnd | ArrayCtx \<Rightarrow> ValueOrEnd | RootCtx \<Rightarrow> CtxDone) # below\<rparr>)
          else if state = KeyOrEnd then Some (c, start_primitive KeyRole st)
          else if state \<in> {AtValue, ValueOrEnd} then Some (c, start_primitive ValueRole st)
          else Some (c, st))"

text \<open>One character of an unquoted key or value that does not end the value.\<close>

definition primitive_step :: "nat \<Rightarrow> repair_state \<Rightarrow> (nat \<times> repair_state) option" where
  "primitive_step c st =
     (if rs_primitive_role st = KeyRole then
        (if structural_translation c = colon
         then map_option (Pair colon) (set_ctx_state (\<lambda>_. AtValue) (st\<lparr>rs_in_primitive := False\<rparr>))
         else Some (c, st))
      else if uspace c then map_option (Pair c) (mark_value_completed (st\<lparr>rs_in_primitive := False\<rparr>))
      else Some (c, st))"

text \<open>An unquoted value ends before a comma or a closing bracket, which is then read again.\<close>

definition ends_primitive :: "nat \<Rightarrow> repair_state \<Rightarrow> bool" where
  "ends_primitive c st \<longleftrightarrow>
     \<not> rs_in_string st \<and> rs_in_primitive st \<and> rs_primitive_role st = ValueRole \<and> \<not> uspace c \<and>
     structural_translation c \<in> {comma, rbrace, rbracket}"

definition repair_step :: "nat \<Rightarrow> utext \<Rightarrow> repair_state \<Rightarrow> (nat \<times> repair_state) option" where
  "repair_step c rest st =
     (if rs_in_string st then string_step c rest st
      else if rs_in_primitive st then primitive_step c st
      else structure_step c st)"

function repair_loop :: "utext \<Rightarrow> repair_state \<Rightarrow> utext option" where
  "repair_loop [] st = Some []"
| "repair_loop (c # rest) st =
     (if ends_primitive c st then
        (case mark_value_completed (st\<lparr>rs_in_primitive := False\<rparr>) of
           None \<Rightarrow> None
         | Some st' \<Rightarrow> repair_loop (c # rest) st')
      else
        (case repair_step c rest st of
           None \<Rightarrow> None
         | Some (d, st') \<Rightarrow> map_option (Cons d) (repair_loop rest st')))"
  by pat_completeness auto
termination
  by (relation "measures [\<lambda>(s, st). length s, \<lambda>(s, st). if rs_in_primitive st then 1 else 0]")
    (auto simp: ends_primitive_def mark_value_completed_def set_ctx_state_def split: list.splits)

definition repair_json_fragment :: "utext \<Rightarrow> utext option" where
  "repair_json_fragment s = repair_loop s repair_start"

text \<open>\<open>repair_text\<close> gives the text back when the repair raises.\<close>

definition repair_text :: "utext \<Rightarrow> utext" where
  "repair_text s = (case repair_json_fragment s of None \<Rightarrow> s | Some t \<Rightarrow> t)"

end
