(* ===== verification/JsonRepair.thy ===== *)
theory JsonRepair
  imports JsonText
begin

text \<open>
  The repair of a JSON fragment: it never fails, keeps the length and all but the
  structural characters of the text, and repairing twice is repairing once.
\<close>

section \<open>What a repair may change\<close>

definition may_become :: "nat \<Rightarrow> nat \<Rightarrow> bool" where
  "may_become c d \<longleftrightarrow> d = c \<or> d = structural_translation c \<or>
     (d = dquote \<and> is_quote_variant c dquote) \<or> (d = squote \<and> is_quote_variant c squote)"

lemma may_become_refl [simp]: "may_become c c" "may_become c (structural_translation c)"
  by (simp_all add: may_become_def)

lemma translation_cases:
  "structural_translation c = c \<or>
   c \<in> {65306, 65292, 65371, 65373, 65339, 65341} \<and>
   structural_translation c \<in> {colon, comma, lbrace, rbrace, lbracket, rbracket}"
  by (simp add: structural_translation_def)

lemma translation_idem [simp]: "structural_translation (structural_translation c) = structural_translation c"
  by (simp add: structural_translation_def)

lemma uspace_translation [simp]: "uspace (structural_translation c) = uspace c"
  using translation_cases [of c] by (elim disjE conjE insertE) (simp_all add: uspace_def structural_translation_def)

lemma quote_variant_cases:
  "is_quote_variant c q \<Longrightarrow> c \<in> {dquote, 8220, 8221, 65282, squote, 8216, 8217, 65287}"
  by (auto simp: is_quote_variant_def split: if_splits)

lemma quote_variant_not_space: "is_quote_variant c q \<Longrightarrow> \<not> uspace c"
  by (drule quote_variant_cases) (elim insertE, simp_all add: uspace_def)

lemma quote_not_space [simp]: "\<not> uspace dquote" "\<not> uspace squote"
  by (simp_all add: uspace_def)

lemma may_become_space: "may_become c d \<Longrightarrow> uspace d = uspace c"
  unfolding may_become_def using quote_variant_not_space by (elim disjE conjE) simp_all

definition closes_for :: "string_role \<Rightarrow> nat \<Rightarrow> bool" where
  "closes_for role c \<longleftrightarrow>
     (if role = KeyRole then c \<in> {colon, 65306} else c \<in> {comma, 65292, rbrace, rbracket, 65373, 65341})"

lemma may_become_closes: "may_become c d \<Longrightarrow> closes_for role d = closes_for role c"
proof -
  have "\<not> closes_for role c \<and> \<not> closes_for role dquote \<and> \<not> closes_for role squote" if "is_quote_variant c q" for q
    using quote_variant_cases [OF that] by (elim insertE) (simp_all add: closes_for_def)
  moreover have "closes_for role (structural_translation c) = closes_for role c"
    using translation_cases [of c] by (elim disjE conjE insertE) (simp_all add: closes_for_def structural_translation_def)
  moreover assume "may_become c d"
  ultimately show ?thesis unfolding may_become_def by blast
qed

lemma can_close_string_closes:
  "can_close_string rest role \<longleftrightarrow>
     (case dropWhile uspace rest of [] \<Rightarrow> role = ValueRole | c # _ \<Rightarrow> closes_for role c)"
  by (cases "dropWhile uspace rest") (simp_all add: can_close_string_def next_non_whitespace_def closes_for_def del: dropWhile_eq_Nil_conv)

lemma can_close_string_same:
  assumes "list_all2 may_become rest t"
  shows "can_close_string t role = can_close_string rest role"
  unfolding can_close_string_closes using assms
  by (induction rule: list_all2_induct) (auto simp: may_become_space may_become_closes)

section \<open>The context stack\<close>

fun stack_ok :: "(ctx_kind \<times> ctx_state) list \<Rightarrow> bool" where
  "stack_ok [] = False"
| "stack_ok [(k, s)] = (k = RootCtx)"
| "stack_ok ((k, s) # c # cs) = (k \<noteq> RootCtx \<and> stack_ok (c # cs))"

definition repair_ok :: "repair_state \<Rightarrow> bool" where
  "repair_ok st \<longleftrightarrow> stack_ok (rs_contexts st) \<and> rs_delimiter st \<in> {dquote, squote}"

lemma stack_ok_state: "stack_ok ((k, s) # cs) = stack_ok ((k, s') # cs)"
  by (cases cs) auto

lemma stack_ok_push: "stack_ok cs \<Longrightarrow> k \<noteq> RootCtx \<Longrightarrow> stack_ok ((k, s) # cs)"
  by (cases cs) auto

lemma stack_ok_pop: "stack_ok ((k, s) # cs) \<Longrightarrow> k \<noteq> RootCtx \<Longrightarrow> stack_ok cs"
  by (cases cs) auto

lemma set_ctx_state_ok:
  assumes "repair_ok st"
  shows "\<exists>st'. set_ctx_state f st = Some st' \<and> repair_ok st'"
proof -
  from assms obtain k s cs where "rs_contexts st = (k, s) # cs"
    by (cases "rs_contexts st") (auto simp: repair_ok_def)
  with assms show ?thesis
    using stack_ok_state [of k s cs] by (auto simp: set_ctx_state_def repair_ok_def)
qed

lemma mark_value_completed_ok: "repair_ok st \<Longrightarrow> \<exists>st'. mark_value_completed st = Some st' \<and> repair_ok st'"
  unfolding mark_value_completed_def by (rule set_ctx_state_ok)

lemma pop_context_ok:
  "repair_ok st \<Longrightarrow> rs_contexts st = (k, s) # cs \<Longrightarrow> k \<noteq> RootCtx \<Longrightarrow> \<exists>st'. pop_context st = Some st' \<and> repair_ok st'"
  unfolding pop_context_def
  by (intro mark_value_completed_ok) (auto simp: repair_ok_def intro: stack_ok_pop)

lemma repair_ok_update [simp]:
  "repair_ok (st\<lparr>rs_in_string := b\<rparr>) = repair_ok st" "repair_ok (st\<lparr>rs_escape := b\<rparr>) = repair_ok st"
  "repair_ok (st\<lparr>rs_in_primitive := b\<rparr>) = repair_ok st" "repair_ok (start_primitive r st) = repair_ok st"
  by (simp_all add: repair_ok_def start_primitive_def)

lemma start_string_ok [simp]: "d \<in> {dquote, squote} \<Longrightarrow> repair_ok (start_string d s st) = stack_ok (rs_contexts st)"
  by (auto simp: repair_ok_def start_string_def)

text \<open>A step that succeeds, keeps the state well formed and writes an admissible character.\<close>

definition good_step :: "nat \<Rightarrow> (nat \<times> repair_state) option \<Rightarrow> bool" where
  "good_step c r \<longleftrightarrow> (\<exists>d st'. r = Some (d, st') \<and> repair_ok st' \<and> may_become c d)"

lemma good_if: "(b \<Longrightarrow> good_step c x) \<Longrightarrow> (\<not> b \<Longrightarrow> good_step c y) \<Longrightarrow> good_step c (if b then x else y)"
  by simp

lemma good_Some: "repair_ok st' \<Longrightarrow> may_become c d \<Longrightarrow> good_step c (Some (d, st'))"
  by (simp add: good_step_def)

lemma good_map: "\<exists>st'. r = Some st' \<and> repair_ok st' \<Longrightarrow> may_become c d \<Longrightarrow> good_step c (map_option (Pair d) r)"
  by (auto simp: good_step_def)

lemmas good_intros = good_if good_Some good_map set_ctx_state_ok mark_value_completed_ok

lemma may_become_quote:
  "is_quote_variant c q \<Longrightarrow> q \<in> {dquote, squote} \<Longrightarrow> may_become c q"
  by (auto simp: may_become_def)

lemma may_become_translation: "structural_translation c = n \<Longrightarrow> may_become c n"
  by (simp add: may_become_def)

lemma string_step_ok: "repair_ok st \<Longrightarrow> good_step c (string_step c rest st)"
proof -
  assume st: "repair_ok st"
  have "\<exists>st'. (if rs_string_role st = KeyRole then set_ctx_state (\<lambda>_. AtColon) (st\<lparr>rs_in_string := False\<rparr>)
      else mark_value_completed (st\<lparr>rs_in_string := False\<rparr>)) = Some st' \<and> repair_ok st'"
    using st by (simp add: set_ctx_state_ok mark_value_completed_ok)
  moreover have "is_quote_variant c (rs_delimiter st) \<Longrightarrow> may_become c (rs_delimiter st)"
    using st by (auto simp: repair_ok_def intro: may_become_quote)
  ultimately show ?thesis unfolding string_step_def using st by (intro good_if good_Some good_map) simp_all
qed

lemma primitive_step_ok: "repair_ok st \<Longrightarrow> good_step c (primitive_step c st)"
  unfolding primitive_step_def by (intro good_intros) (auto intro: may_become_translation)

lemma structure_step_ok:
  assumes "repair_ok st"
  shows "good_step c (structure_step c st)"
proof -
  from assms obtain k s cs where top: "rs_contexts st = (k, s) # cs"
    by (cases "rs_contexts st") (auto simp: repair_ok_def)
  from assms top have ok: "stack_ok ((k, s) # cs)" "rs_delimiter st \<in> {dquote, squote}" by (auto simp: repair_ok_def)
  have put: "repair_ok (st\<lparr>rs_contexts := (k, s') # cs\<rparr>)" for s'
    using ok stack_ok_state [of k s cs s'] by (simp add: repair_ok_def)
  have push: "repair_ok (st\<lparr>rs_contexts := (if b then (ObjectCtx, s1) else (ArrayCtx, s2)) # (k, s) # cs\<rparr>)" for b s1 s2
    using ok by (simp add: repair_ok_def)
  note pop = pop_context_ok [OF assms top]
  show ?thesis
    unfolding structure_step_def Let_def top list.case prod.case
    by (intro good_if good_Some good_map put push pop may_become_refl(2))
      (use assms ok in \<open>simp_all add: top may_become_quote\<close>)
qed

lemma repair_step_ok: "repair_ok st \<Longrightarrow> good_step c (repair_step c rest st)"
  unfolding repair_step_def by (intro good_if string_step_ok primitive_step_ok structure_step_ok)

lemma repair_loop_ok:
  "repair_ok st \<Longrightarrow> \<exists>t. repair_loop s st = Some t \<and> list_all2 may_become s t"
proof (induction s st rule: repair_loop.induct)
  case (2 c rest st)
  show ?case
  proof (cases "ends_primitive c st")
    case True
    from mark_value_completed_ok [of "st\<lparr>rs_in_primitive := False\<rparr>"] "2.prems" obtain st' where
      "mark_value_completed (st\<lparr>rs_in_primitive := False\<rparr>) = Some st'" "repair_ok st'" by auto
    with "2.IH"(1) [OF True] True show ?thesis by auto
  next
    case False
    from repair_step_ok [OF "2.prems"] obtain d st' where
      d: "repair_step c rest st = Some (d, st')" "repair_ok st'" "may_become c d"
      unfolding good_step_def by blast
    from "2.IH"(2) [OF False d(1) refl d(2)] obtain t where
      "repair_loop rest st' = Some t" "list_all2 may_become rest t" by blast
    with False d show ?thesis by auto
  qed
qed auto
section \<open>Repairing twice\<close>

text \<open>
  Reading what a step wrote, with a rest on which strings close alike, takes the same step.
\<close>

lemma structural_not_quote:
  "structural_translation c \<in> {colon, comma, lbrace, rbrace, lbracket, rbracket} \<Longrightarrow> \<not> is_quote_variant c q"
  by (auto dest!: quote_variant_cases simp: structural_translation_def)

lemma quote_translation: "is_quote_variant c q \<Longrightarrow> structural_translation c = c"
  by (drule quote_variant_cases) (elim insertE, simp_all add: structural_translation_def)

lemma quote_variant_self [simp]:
  "is_quote_variant dquote dquote" "is_quote_variant squote squote" "\<not> is_quote_variant squote dquote"
  by (simp_all add: is_quote_variant_def)

lemma quote_translation_self [simp]: "structural_translation dquote = dquote" "structural_translation squote = squote"
  by (simp_all add: structural_translation_def)

definition same_step :: "(nat \<Rightarrow> (nat \<times> repair_state) option) \<Rightarrow> (nat \<times> repair_state) option \<Rightarrow> bool" where
  "same_step f r \<longleftrightarrow> (\<forall>d st'. r = Some (d, st') \<longrightarrow> f d = r)"

lemma string_step_again:
  assumes "repair_ok st" and "\<And>role. can_close_string t role = can_close_string rest role"
    and "string_step c rest st = Some (d, st')"
  shows "string_step d t st = Some (d, st')"
proof (cases "d = c")
  case True
  have "string_step c t st = string_step c rest st" by (simp add: string_step_def assms(2))
  with True assms(3) show ?thesis by simp
next
  case False
  with assms(3) have c: "\<not> rs_escape st" "can_close_string rest (rs_string_role st)" "d = rs_delimiter st"
    and st': "map_option (Pair d) (if rs_string_role st = KeyRole then set_ctx_state (\<lambda>_. AtColon) (st\<lparr>rs_in_string := False\<rparr>)
              else mark_value_completed (st\<lparr>rs_in_string := False\<rparr>)) = Some (d, st')"
    by (auto simp: string_step_def split: if_splits)
  from assms(1) c(3) have "d \<noteq> backslash" "is_quote_variant d (rs_delimiter st)" by (auto simp: repair_ok_def)
  with c st' assms(2) show ?thesis by (simp add: string_step_def)
qed

lemma primitive_step_again:
  assumes "primitive_step c st = Some (d, st')"
  shows "primitive_step d st = Some (d, st')"
proof (cases "d = c")
  case False
  with assms have "d = colon" "rs_primitive_role st = KeyRole" "structural_translation c = colon"
    by (auto simp: primitive_step_def split: if_splits)
  with assms show ?thesis by (simp add: primitive_step_def structural_translation_def)
qed (use assms in simp)

lemma structure_step_again:
  assumes "structure_step c st = Some (d, st')"
  shows "structure_step d st = Some (d, st')"
proof (cases "d = c")
  case False
  from assms have "uspace c \<Longrightarrow> d = c" by (simp add: structure_step_def)
  with False have c: "\<not> uspace c" by blast
  from assms c obtain k s cs where top: "rs_contexts st = (k, s) # cs"
    by (cases "rs_contexts st") (auto simp: structure_step_def)
  show ?thesis
  proof (cases "s \<in> {KeyOrEnd, AtValue, ValueOrEnd} \<and> (is_quote_variant c dquote \<or> is_quote_variant c squote)")
    case True
    with assms c top show ?thesis by (auto simp: structure_step_def Let_def split: if_splits)
  next
    case no: False
    with assms c top False have d: "d = structural_translation c"
      by (auto simp: structure_step_def Let_def split: if_splits)
    with False translation_cases [of c] have n: "structural_translation c \<in> {colon, comma, lbrace, rbrace, lbracket, rbracket}"
      by auto
    have "\<not> is_quote_variant d q" for q using structural_not_quote [of d] n d by simp
    moreover have "\<not> uspace d" "structural_translation d = d" using c d by simp_all
    ultimately show ?thesis using assms c top no d structural_not_quote [OF n] False
      by (auto simp: structure_step_def Let_def split: if_splits)
  qed
qed (use assms in simp)

lemma repair_step_again:
  assumes "repair_ok st" and "\<And>role. can_close_string t role = can_close_string rest role"
    and "repair_step c rest st = Some (d, st')"
  shows "repair_step d t st = Some (d, st')"
  using assms string_step_again [OF assms(1,2)] primitive_step_again structure_step_again
  by (auto simp: repair_step_def split: if_splits)

text \<open>What is written ends an unquoted value exactly when what was read does.\<close>

lemma ends_primitive_same:
  assumes "may_become c d" and "\<not> is_quote_variant c dquote \<and> \<not> is_quote_variant c squote \<or> d = c"
  shows "ends_primitive d st = ends_primitive c st"
proof -
  from assms have "d = c \<or> d = structural_translation c" by (auto simp: may_become_def)
  then show ?thesis by (elim disjE) (simp_all add: ends_primitive_def)
qed

lemma repair_step_no_end:
  assumes "repair_step c rest st = Some (d, st')" and "\<not> ends_primitive c st" and "repair_ok st"
  shows "\<not> ends_primitive d st"
proof (cases "rs_in_primitive st \<and> \<not> rs_in_string st")
  case True
  with assms(1) have "primitive_step c st = Some (d, st')" by (simp add: repair_step_def)
  then have "d = c \<or> d = colon \<and> rs_primitive_role st = KeyRole"
    by (auto simp: primitive_step_def split: if_splits)
  with assms(2) show ?thesis by (auto simp: ends_primitive_def)
qed (auto simp: ends_primitive_def)

lemma repair_loop_again:
  "repair_ok st \<Longrightarrow> repair_loop s st = Some t \<Longrightarrow> repair_loop t st = Some t"
proof (induction s st arbitrary: t rule: repair_loop.induct)
  case (2 c rest st)
  show ?case
  proof (cases "ends_primitive c st")
    case True
    from mark_value_completed_ok [of "st\<lparr>rs_in_primitive := False\<rparr>"] "2.prems"(1) obtain st' where
      st': "mark_value_completed (st\<lparr>rs_in_primitive := False\<rparr>) = Some st'" "repair_ok st'" by auto
    with "2.prems"(2) True have run: "repair_loop (c # rest) st' = Some t" by simp
    have flags: "\<not> rs_in_primitive st'" "\<not> rs_in_string st'"
      using st'(1) True by (auto simp: mark_value_completed_def set_ctx_state_def ends_primitive_def split: list.splits)
    from "2.IH"(1) [OF True st'(1,2) run] have again: "repair_loop t st' = Some t" .
    from run flags obtain d st2 t' where d: "structure_step c st' = Some (d, st2)" "t = d # t'"
      by (auto simp: ends_primitive_def repair_step_def split: option.splits)
    from True have "\<not> is_quote_variant c q" for q
      by (intro structural_not_quote) (auto simp: ends_primitive_def)
    moreover have "may_become c d" using structure_step_ok [OF st'(2), of c] d(1) by (auto simp: good_step_def)
    ultimately have "ends_primitive d st" using ends_primitive_same True by blast
    with again st'(1) d(2) show ?thesis by simp
  next
    case False
    from repair_step_ok [OF "2.prems"(1)] obtain d st' where
      d: "repair_step c rest st = Some (d, st')" "repair_ok st'" "may_become c d"
      unfolding good_step_def by blast
    with False "2.prems"(2) obtain t' where t': "repair_loop rest st' = Some t'" "t = d # t'" by auto
    from repair_loop_ok [OF d(2), of rest] t'(1) have "list_all2 may_become rest t'" by auto
    then have "repair_step d t' st = Some (d, st')"
      by (intro repair_step_again [OF "2.prems"(1) _ d(1)] can_close_string_same)
    with repair_step_no_end [OF d(1) False "2.prems"(1)] "2.IH"(2) [OF False d(1) refl d(2) t'(1)] t'(2)
    show ?thesis by simp
  qed
qed simp

lemma repair_start_ok: "repair_ok repair_start"
  by (simp add: repair_ok_def repair_start_def)



text \<open>Repairing is idempotent.\<close>

theorem repair_idempotent:
  shows "repair_text (repair_text s) = repair_text s"
proof -
  from repair_loop_ok [OF repair_start_ok, of s] obtain t where
    t: "repair_json_fragment s = Some t" by (auto simp: repair_json_fragment_def)
  with repair_loop_again [OF repair_start_ok] have "repair_json_fragment t = Some t"
    by (simp add: repair_json_fragment_def)
  with t show ?thesis by (simp add: repair_text_def)
qed

end
