(* ===== verification/JsonComplete.thy ===== *)
theory JsonComplete
  imports JsonRepair
begin

text \<open>
  Completion of a partial JSON text (\<open>agently/utils/StreamingJSONCompleter.py\<close>): open
  strings, comments and brackets are closed at the end of what has arrived.
\<close>

section \<open>The completer\<close>

definition completer_reset :: "utext \<Rightarrow> utext \<Rightarrow> utext" where
  "completer_reset data buffer = data"

definition completer_append :: "utext \<Rightarrow> utext \<Rightarrow> utext" where
  "completer_append data buffer = buffer @ data"

datatype comment_kind = LineComment | BlockComment

text \<open>The loop's variables; the stack is innermost first.\<close>

record scan_state =
  sc_stack :: utext
  sc_in_string :: bool
  sc_escape :: bool
  sc_comment :: "comment_kind option"
  sc_string_char :: "nat option"

definition scan_start :: scan_state where
  "scan_start = \<lparr> sc_stack = [], sc_in_string = False, sc_escape = False, sc_comment = None, sc_string_char = None \<rparr>"

abbreviation "slash \<equiv> (47 :: nat)"
abbreviation "star \<equiv> (42 :: nat)"
abbreviation "carriage_return \<equiv> (13 :: nat)"

definition string_char_step :: "nat \<Rightarrow> scan_state \<Rightarrow> scan_state" where
  "string_char_step c st =
     (if sc_escape st then st\<lparr>sc_escape := False\<rparr>
      else if c = backslash then st\<lparr>sc_escape := True\<rparr>
      else if Some c = sc_string_char st then st\<lparr>sc_in_string := False, sc_string_char := None\<rparr>
      else st)"

definition brackets_match :: "nat \<Rightarrow> nat \<Rightarrow> bool" where
  "brackets_match l r \<longleftrightarrow> l = lbrace \<and> r = rbrace \<or> l = lbracket \<and> r = rbracket"

definition bracket_step :: "nat \<Rightarrow> scan_state \<Rightarrow> scan_state option" where
  "bracket_step c st =
     (case sc_stack st of
        [] \<Rightarrow> Some st
      | l # ls \<Rightarrow>
          if brackets_match l c then (if ls = [] then None else Some (st\<lparr>sc_stack := ls\<rparr>)) else Some st)"

text \<open>
  One round of the loop at the character \<open>c\<close> with \<open>rest\<close> after it: whether it takes the
  next character as well, and the new variables; \<open>None\<close> is the early return.
\<close>

definition scan_step :: "nat \<Rightarrow> utext \<Rightarrow> scan_state \<Rightarrow> (bool \<times> scan_state) option" where
  "scan_step c rest st =
     (case sc_comment st of
        Some LineComment \<Rightarrow>
          Some (False, if c \<in> {newline, carriage_return} then st\<lparr>sc_comment := None\<rparr> else st)
      | Some BlockComment \<Rightarrow>
          if c = star \<and> take 1 rest = [slash] then Some (True, st\<lparr>sc_comment := None\<rparr>) else Some (False, st)
      | None \<Rightarrow>
          if sc_in_string st then Some (False, string_char_step c st)
          else if c \<in> {dquote, squote} then
            Some (False, st\<lparr>sc_in_string := True, sc_string_char := Some c\<rparr>)
          else if c = slash \<and> take 1 rest = [slash] then Some (True, st\<lparr>sc_comment := Some LineComment\<rparr>)
          else if c = slash \<and> take 1 rest = [star] then Some (True, st\<lparr>sc_comment := Some BlockComment\<rparr>)
          else if opener c then Some (False, st\<lparr>sc_stack := c # sc_stack st\<rparr>)
          else if closer c then map_option (Pair False) (bracket_step c st)
          else Some (False, st))"

definition taken :: "bool \<Rightarrow> utext \<Rightarrow> utext" where
  "taken two rest = (if two then take 1 rest else [])"

definition left_over :: "bool \<Rightarrow> utext \<Rightarrow> utext" where
  "left_over two rest = (if two then drop 1 rest else rest)"

text \<open>
  The scan: \<open>Inl\<close> is the early return of a complete structure, \<open>Inr\<close> the variables at the
  end of the buffer.  \<open>pre\<close> is the part already read.
\<close>

function complete_loop :: "utext \<Rightarrow> utext \<Rightarrow> scan_state \<Rightarrow> utext + scan_state" where
  "complete_loop pre [] st = Inr st"
| "complete_loop pre (c # rest) st =
     (case scan_step c rest st of
        None \<Rightarrow> Inl (pre @ [c])
      | Some (two, st') \<Rightarrow> complete_loop (pre @ c # taken two rest) (left_over two rest) st')"
  by pat_completeness auto
termination
  by (relation "measure (\<lambda>(pre, s, st). length s)") (auto simp: left_over_def)

definition closing_bracket :: "nat \<Rightarrow> nat" where
  "closing_bracket l = (if l = lbrace then rbrace else rbracket)"

definition completion :: "scan_state \<Rightarrow> utext" where
  "completion st =
     (if sc_in_string st then (case sc_string_char st of Some q \<Rightarrow> [q] | None \<Rightarrow> []) else []) @
     (case sc_comment st of Some LineComment \<Rightarrow> [newline] | Some BlockComment \<Rightarrow> [star, slash] | None \<Rightarrow> []) @
     map closing_bracket (sc_stack st)"

definition complete_text :: "utext \<Rightarrow> utext" where
  "complete_text buf =
     (case complete_loop [] buf scan_start of Inl done' \<Rightarrow> done' | Inr st \<Rightarrow> buf @ completion st)"

definition complete_json :: "bool \<Rightarrow> utext \<Rightarrow> utext" where
  "complete_json repair buffer = complete_text (if repair then repair_text buffer else buffer)"

section \<open>Scanning a completed text\<close>

definition scan_ok :: "scan_state \<Rightarrow> bool" where
  "scan_ok st \<longleftrightarrow> list_all opener (sc_stack st) \<and> (sc_in_string st \<longleftrightarrow> sc_string_char st \<noteq> None) \<and>
     (sc_string_char st \<in> {None, Some dquote, Some squote}) \<and> (sc_escape st \<longrightarrow> sc_in_string st) \<and>
     (sc_in_string st \<longrightarrow> sc_comment st = None)"

lemma string_char_step_ok: "scan_ok st \<Longrightarrow> sc_in_string st \<Longrightarrow> scan_ok (string_char_step c st)"
  by (auto simp: scan_ok_def string_char_step_def)

lemma bracket_step_ok: "scan_ok st \<Longrightarrow> bracket_step c st = Some st' \<Longrightarrow> scan_ok st'"
  by (auto simp: scan_ok_def bracket_step_def split: list.splits if_splits)

lemma scan_step_ok:
  assumes "scan_step c rest st = Some (two, st')" and "scan_ok st"
  shows "scan_ok st'"
proof (cases "sc_comment st")
  case None
  then show ?thesis
    using assms string_char_step_ok [OF assms(2)] bracket_step_ok [OF assms(2)]
    by (auto simp: scan_step_def split: if_splits) (auto simp: scan_ok_def)
next
  case (Some k)
  then show ?thesis using assms by (cases k) (auto simp: scan_step_def scan_ok_def split: if_splits)
qed

lemma complete_loop_ok: "complete_loop pre s st = Inr st' \<Longrightarrow> scan_ok st \<Longrightarrow> scan_ok st'"
proof (induction pre s st rule: complete_loop.induct)
  case (2 pre c rest st)
  then obtain two st1 where s: "scan_step c rest st = Some (two, st1)"
    by (cases "scan_step c rest st") auto
  with "2.IH" [OF s refl] "2.prems" scan_step_ok show ?case by auto
qed simp

text \<open>A round looks one character ahead, and only after a slash or a star.\<close>

lemma scan_step_cong: "take 1 r = take 1 r' \<Longrightarrow> scan_step c r st = scan_step c r' st"
  unfolding scan_step_def by (simp only:)

lemma scan_step_local:
  assumes "rest \<noteq> [] \<or> take 1 x \<noteq> [slash] \<and> (take 1 x = [star] \<longrightarrow> sc_comment st \<noteq> None)"
  shows "scan_step c (rest @ x) st = scan_step c rest st"
proof (cases rest)
  case Nil
  with assms show ?thesis by (auto simp: scan_step_def split: option.split comment_kind.split)
qed (auto intro: scan_step_cong)

lemma scan_step_two: "scan_step c rest st = Some (True, st') \<Longrightarrow> rest \<noteq> []"
  by (auto simp: scan_step_def split: option.splits comment_kind.splits if_splits)

lemma scan_step_no_comment:
  "scan_step c [] st = Some (two, st1) \<Longrightarrow> sc_comment st = None \<Longrightarrow> sc_comment st1 = None"
  by (auto simp: scan_step_def string_char_step_def bracket_step_def split: if_splits list.splits)

lemma complete_loop_append:
  assumes "complete_loop pre s st = Inr st'" and "take 1 x \<noteq> [slash]"
    and "take 1 x = [star] \<Longrightarrow> sc_comment st' = Some BlockComment"
  shows "complete_loop pre (s @ x) st = complete_loop (pre @ s) x st'"
  using assms
proof (induction pre s st rule: complete_loop.induct)
  case (2 pre c rest st)
  then obtain two st1 where s: "scan_step c rest st = Some (two, st1)"
    by (cases "scan_step c rest st") auto
  from "2.prems"(1) s have run: "complete_loop (pre @ c # taken two rest) (left_over two rest) st1 = Inr st'" by simp
  note IH = "2.IH" [OF s refl run "2.prems"(2,3)]
  have "sc_comment st \<noteq> None" if "rest = []" "take 1 x = [star]"
  proof -
    from that(1) scan_step_two [of c rest st st1] s have "\<not> two" by (cases two) auto
    with that run have "st' = st1" by (simp add: left_over_def)
    with "2.prems"(3) that(2) have "sc_comment st1 = Some BlockComment" by simp
    with s that(1) scan_step_no_comment [of c st two st1] show ?thesis by force
  qed
  with "2.prems"(2) have "scan_step c (rest @ x) st = Some (two, st1)"
    using scan_step_local [of rest x st c] s by auto
  moreover have "taken two (rest @ x) = taken two rest" "left_over two (rest @ x) = left_over two rest @ x"
    using scan_step_two [of c rest st st1] s by (cases two; cases rest; simp add: taken_def left_over_def)+
  moreover have "taken two rest @ left_over two rest = rest" by (simp add: taken_def left_over_def)
  ultimately show ?case using IH by simp
qed simp

text \<open>What the scan returns early is the part it has read, and scanning that part alone returns it too.\<close>

lemma complete_loop_prefix:
  "complete_loop pre s st = Inl p \<Longrightarrow> \<exists>a b. s = a @ b \<and> a \<noteq> [] \<and> p = pre @ a \<and> complete_loop pre a st = Inl p"
proof (induction pre s st rule: complete_loop.induct)
  case (2 pre c rest st)
  show ?case
  proof (cases "scan_step c rest st")
    case None
    have "scan_step c [] st = None"
      using None by (auto simp: scan_step_def split: option.splits comment_kind.splits if_splits)
    with None "2.prems" show ?thesis by (intro exI [of _ "[c]"] exI [of _ rest]) simp
  next
    case (Some r)
    obtain two st1 where r: "r = (two, st1)" by force
    from "2.prems" Some r obtain a b where ab: "left_over two rest = a @ b" "a \<noteq> []"
      "p = (pre @ c # taken two rest) @ a" "complete_loop (pre @ c # taken two rest) a st1 = Inl p"
      using "2.IH" [OF Some r [symmetric]] by auto
    let ?a = "taken two rest @ a"
    have rest: "rest = ?a @ b" using ab(1) by (simp add: taken_def left_over_def split: if_splits) (metis append_take_drop_id append.assoc)
    have "scan_step c ?a st = Some (two, st1)"
      using scan_step_local [of ?a b st c] ab(2) Some r rest by simp
    moreover have "taken two ?a = taken two rest" "left_over two ?a = a"
      using scan_step_two [of c rest st st1] Some r by (cases two; cases rest; simp add: taken_def left_over_def)+
    ultimately show ?thesis using ab rest by (intro exI [of _ "c # ?a"] exI [of _ b]) simp
  qed
qed simp

section \<open>What completion achieves\<close>

lemma closing_bracket_facts:
  assumes "opener l"
  shows "closer (closing_bracket l)" "brackets_match l (closing_bracket l)" "\<not> opener (closing_bracket l)"
    "closing_bracket l \<notin> {dquote, squote, slash, star, backslash}"
  using assms by (auto simp: opener_def closer_def closing_bracket_def brackets_match_def)

text \<open>Outside strings and comments the closing brackets empty the stack.\<close>

lemma complete_loop_closing:
  assumes "list_all opener ls" and "sc_stack st = ls" and "ls \<noteq> []"
    and "\<not> sc_in_string st" and "sc_comment st = None"
  shows "complete_loop pre (map closing_bracket ls) st = Inl (pre @ map closing_bracket ls)"
  using assms
proof (induction ls arbitrary: pre st)
  case (Cons l ls)
  note f = closing_bracket_facts [of l]
  from Cons.prems(1) have l: "opener l" by simp
  show ?case
  proof (cases "ls = []")
    case True
    with Cons.prems f [OF l] show ?thesis by (auto simp: scan_step_def bracket_step_def)
  next
    case False
    let ?st = "st\<lparr>sc_stack := ls\<rparr>"
    have "scan_step (closing_bracket l) (map closing_bracket ls) st = Some (False, ?st)"
      using Cons.prems f [OF l] False by (auto simp: scan_step_def bracket_step_def)
    with Cons.IH [of ?st "pre @ [closing_bracket l]"] Cons.prems False show ?thesis
      by (simp add: taken_def left_over_def)
  qed
qed simp

text \<open>Inside a string they are part of it.\<close>

lemma complete_loop_closing_string:
  assumes "list_all opener ls" and "sc_in_string st" and "sc_comment st = None" and "\<not> sc_escape st"
    and "sc_string_char st \<in> {Some dquote, Some squote}"
  shows "complete_loop pre (map closing_bracket ls) st = Inr st"
  using assms
proof (induction ls arbitrary: pre)
  case (Cons l ls)
  have "scan_step (closing_bracket l) (map closing_bracket ls) st = Some (False, st)"
    using Cons.prems closing_bracket_facts [of l] by (auto simp: scan_step_def string_char_step_def)
  with Cons show ?case by (simp add: taken_def left_over_def)
qed simp

definition scan_closed :: "scan_state \<Rightarrow> scan_state" where
  "scan_closed st = st\<lparr>sc_in_string := False, sc_string_char := None, sc_comment := None\<rparr>"

lemma complete_loop_completion:
  assumes "scan_ok st" and "\<not> sc_escape st"
  shows "complete_loop pre (completion st) st =
    (if sc_stack st = [] then Inr (scan_closed st) else Inl (pre @ completion st))"
proof -
  let ?cl = "map closing_bracket (sc_stack st)" and ?st = "scan_closed st"
  have closing: "complete_loop p ?cl ?st = (if sc_stack st = [] then Inr ?st else Inl (p @ ?cl))" for p
    using complete_loop_closing [of "sc_stack st" ?st p] assms(1) by (auto simp: scan_ok_def scan_closed_def)
  consider q where "sc_in_string st" "sc_string_char st = Some q" "q \<in> {dquote, squote}" "sc_comment st = None"
    | "\<not> sc_in_string st" "sc_string_char st = None"
    using assms(1) by (auto simp: scan_ok_def)
  then show ?thesis
  proof cases
    case 1
    then have "scan_step q ?cl st = Some (False, ?st)" and c: "completion st = q # ?cl"
      using assms(2) by (auto simp: scan_step_def string_char_step_def scan_closed_def completion_def)
    then show ?thesis using closing [of "pre @ [q]"] by (simp add: taken_def left_over_def)
  next
    case 2
    show ?thesis
    proof (cases "sc_comment st")
      case None
      with 2 have "?st = st" by (simp add: scan_closed_def)
      with 2 None closing [of pre] show ?thesis by (simp add: completion_def)
    next
      case (Some k)
      show ?thesis
      proof (cases k)
        case LineComment
        with 2 Some have "scan_step newline ?cl st = Some (False, ?st)" and "completion st = newline # ?cl"
          by (simp_all add: scan_step_def scan_closed_def completion_def)
        then show ?thesis using closing [of "pre @ [newline]"] by (simp add: taken_def left_over_def)
      next
        case BlockComment
        with 2 Some have "scan_step star (slash # ?cl) st = Some (True, ?st)"
          and "completion st = star # slash # ?cl"
          by (simp_all add: scan_step_def scan_closed_def completion_def)
        then show ?thesis using closing [of "pre @ [star, slash]"] by (simp add: taken_def left_over_def)
      qed
    qed
  qed
qed

lemma completion_head:
  assumes "scan_ok st"
  shows "take 1 (completion st) \<noteq> [slash]"
    and "take 1 (completion st) = [star] \<Longrightarrow> sc_comment st = Some BlockComment"
proof -
  have "take 1 (map closing_bracket (sc_stack st)) \<notin> {[slash], [star]}"
    using assms by (cases "sc_stack st") (auto simp: scan_ok_def closing_bracket_def)
  with assms show "take 1 (completion st) \<noteq> [slash]"
    and "take 1 (completion st) = [star] \<Longrightarrow> sc_comment st = Some BlockComment"
    by (auto simp: completion_def scan_ok_def split: option.splits comment_kind.splits)
qed

lemma scan_start_ok: "scan_ok scan_start"
  by (simp add: scan_ok_def scan_start_def)

definition pending_escape :: "utext \<Rightarrow> bool" where
  "pending_escape buf \<longleftrightarrow> (case complete_loop [] buf scan_start of Inl _ \<Rightarrow> False | Inr st \<Rightarrow> sc_escape st)"

lemma complete_loop_completed:
  assumes "complete_loop [] buf scan_start = Inr st"
  shows "scan_ok st" and "complete_loop [] (buf @ completion st) scan_start = complete_loop buf (completion st) st"
proof -
  show ok: "scan_ok st" using complete_loop_ok [OF assms scan_start_ok] .
  show "complete_loop [] (buf @ completion st) scan_start = complete_loop buf (completion st) st"
    using complete_loop_append [OF assms] completion_head [OF ok] by simp
qed

text \<open>
Completion only cuts a text after its first complete structure or extends it, and it
does its work at once: unless the text ends inside a string with a backslash still to be
resolved, completing the completed text changes nothing.
\<close>

theorem complete_idempotent:
  assumes "\<not> pending_escape buf"
  shows "(prefix (complete_text buf) buf \<or> prefix buf (complete_text buf)) \<and>
    complete_text (complete_text buf) = complete_text buf"
proof (cases "complete_loop [] buf scan_start")
  case (Inl p)
  from complete_loop_prefix [OF this] obtain b where "buf = p @ b" "complete_loop [] p scan_start = Inl p" by auto
  with Inl show ?thesis by (simp add: complete_text_def)
next
  case (Inr st)
  with assms have "\<not> sc_escape st" by (simp add: pending_escape_def)
  from complete_loop_completed [OF Inr] complete_loop_completion [OF _ this]
  have "complete_loop [] (buf @ completion st) scan_start =
      (if sc_stack st = [] then Inr (scan_closed st) else Inl (buf @ completion st))" by simp
  with Inr show ?thesis by (simp add: complete_text_def completion_def scan_closed_def)
qed

lemma complete_idempotent_witness:
  "complete_text (complete_text (ut ''[1, {'')) = complete_text (ut ''[1, {'')"
proof (rule complete_idempotent [THEN conjunct2])
  show "\<not> pending_escape (ut ''[1, {'')" unfolding pending_escape_def by code_simp
qed

text \<open>
A trailing backslash defeats completion.  When the text ends inside a string just
after a backslash, the quote that completion adds is read as escaped and the brackets
after it as part of the string: the completed text still ends inside the string.
\<close>

theorem complete_pending_escape:
  assumes "pending_escape buf"
  shows "\<exists>st. complete_loop [] (complete_text buf) scan_start = Inr st \<and> sc_in_string st"
proof -
  from assms obtain st where st: "complete_loop [] buf scan_start = Inr st" "sc_escape st"
    by (auto simp: pending_escape_def split: sum.splits)
  note c = complete_loop_completed [OF st(1)]
  from c(1) st(2) obtain q where q: "sc_in_string st" "sc_string_char st = Some q" "q \<in> {dquote, squote}"
    "sc_comment st = None" "list_all opener (sc_stack st)" by (auto simp: scan_ok_def)
  let ?st = "st\<lparr>sc_escape := False\<rparr>" and ?cl = "map closing_bracket (sc_stack st)"
  have "scan_step q ?cl st = Some (False, ?st)" and comp: "completion st = q # ?cl"
    using q st(2) by (simp_all add: scan_step_def string_char_step_def completion_def)
  then have "complete_loop buf (completion st) st = complete_loop (buf @ [q]) ?cl ?st"
    by (simp add: taken_def left_over_def)
  also have "\<dots> = Inr ?st" using q by (intro complete_loop_closing_string) auto
  finally show ?thesis using c(2) st(1) q(1) by (auto simp: complete_text_def)
qed

lemma complete_pending_escape_witness:
  "\<exists>st. complete_loop [] (complete_text [lbrace, dquote, backslash]) scan_start = Inr st \<and> sc_in_string st"
proof (rule complete_pending_escape)
  show "pending_escape [lbrace, dquote, backslash]" unfolding pending_escape_def by code_simp
qed

end
