(* ===== verification/ActionRegistry.thy ===== *)
theory ActionRegistry
  imports PyText
begin

text \<open>
  The action registry (\<open>agently/core/operation/Action/ActionRegistry.py\<close>): specs, executors
  and functions by action id, with tags kept both per action and per tag.  A Python \<open>set\<close>
  of strings is the list of its members in some order; a lookup by tag promises a set.
  \<open>tag\<close> may fail half way, so it gives the registry it leaves next to the exception.
\<close>

section \<open>The registry and its operations\<close>

record action_registry =
  reg_specs :: "(string, pydict) dict"
  reg_executors :: "(string, pyval) dict"
  reg_funcs :: "(string, pyval) dict"
  reg_tag_mappings :: "(string, string list) dict"
  reg_action_tags :: "(string, string list) dict"

datatype registry_error = UnknownAction string

definition new_registry :: action_registry where
  "new_registry = \<lparr> reg_specs = [], reg_executors = [], reg_funcs = [],
     reg_tag_mappings = [], reg_action_tags = [] \<rparr>"

text \<open>\<open>self._tag_mappings.setdefault(tag, set()).add(action_id)\<close>\<close>

definition link_tag :: "string \<Rightarrow> string \<Rightarrow> (string, string list) dict \<Rightarrow> (string, string list) dict" where
  "link_tag aid t d = dict_set t (add_member aid (dict_get_or d t [])) d"

text \<open>Drop the id from a tag, and the tag when nothing is left under it.\<close>

definition unlink_tag :: "string \<Rightarrow> string \<Rightarrow> (string, string list) dict \<Rightarrow> (string, string list) dict" where
  "unlink_tag aid t d =
     (case dict_get d t of
        None \<Rightarrow> d
      | Some members \<Rightarrow>
          (let left = removeAll aid members in if left = [] then dict_del t d else dict_set t left d))"

text \<open>The tags of a spec: a list, a tuple or a set, anything else counts as none.\<close>

definition spec_tags :: "pydict \<Rightarrow> string list" where
  "spec_tags spec =
     (case dict_get_or spec ''tags'' (PList []) of
        PList xs \<Rightarrow> remdups (map py_str xs)
      | PTuple xs \<Rightarrow> remdups (map py_str xs)
      | PSet xs \<Rightarrow> remdups (map py_str xs)
      | _ \<Rightarrow> [])"

definition spec_id :: "pydict \<Rightarrow> string" where
  "spec_id spec = py_str (dict_get_or spec ''action_id'' (PStr []))"

definition register :: "pydict \<Rightarrow> pyval \<Rightarrow> pyval option \<Rightarrow> action_registry \<Rightarrow> action_registry" where
  "register spec executor func r =
     (let aid = spec_id spec; tags = spec_tags spec in
      r\<lparr> reg_specs := dict_set aid spec (reg_specs r),
         reg_executors := dict_set aid executor (reg_executors r),
         reg_funcs := (case func of None \<Rightarrow> reg_funcs r | Some f \<Rightarrow> dict_set aid f (reg_funcs r)),
         reg_action_tags := dict_set aid tags (reg_action_tags r),
         reg_tag_mappings := fold (link_tag aid) tags (reg_tag_mappings r) \<rparr>)"

text \<open>One round of the loop of \<open>tag\<close>, for an action that is registered.\<close>

definition tag_action :: "string list \<Rightarrow> string \<Rightarrow> action_registry \<Rightarrow> action_registry" where
  "tag_action tags aid r =
     (let own = fold add_member tags (dict_get_or (reg_action_tags r) aid []);
          spec = dict_get_or (reg_specs r) aid []
      in r\<lparr> reg_action_tags := dict_set aid own (reg_action_tags r),
            reg_tag_mappings := fold (link_tag aid) tags (reg_tag_mappings r),
            reg_specs := dict_set aid (dict_set ''tags'' (PList (map PStr (sort own))) spec) (reg_specs r) \<rparr>)"

fun tag_actions :: "string list \<Rightarrow> string list \<Rightarrow> action_registry \<Rightarrow> action_registry \<times> registry_error option" where
  "tag_actions [] tags r = (r, None)"
| "tag_actions (aid # aids) tags r =
     (if dict_has (reg_specs r) aid then tag_actions aids tags (tag_action tags aid r)
      else (r, Some (UnknownAction aid)))"

text \<open>A string argument stands for the list of it alone.\<close>

datatype names = OneName string | Names "string list"

fun name_list :: "names \<Rightarrow> string list" where
  "name_list (OneName s) = [s]"
| "name_list (Names ss) = ss"

definition tag :: "names \<Rightarrow> names \<Rightarrow> action_registry \<Rightarrow> action_registry \<times> registry_error option" where
  "tag aids tags r = tag_actions (name_list aids) (name_list tags) r"

definition unregister :: "string \<Rightarrow> action_registry \<Rightarrow> action_registry \<times> bool" where
  "unregister aid r =
     (if \<not> dict_has (reg_specs r) aid then (r, False)
      else (r\<lparr> reg_specs := dict_del aid (reg_specs r),
               reg_executors := dict_del aid (reg_executors r),
               reg_funcs := dict_del aid (reg_funcs r),
               reg_action_tags := dict_del aid (reg_action_tags r),
               reg_tag_mappings :=
                 fold (unlink_tag aid) (dict_get_or (reg_action_tags r) aid []) (reg_tag_mappings r) \<rparr>, True))"

definition has_action :: "string \<Rightarrow> action_registry \<Rightarrow> bool" where
  "has_action aid r = dict_has (reg_specs r) aid"

definition get_spec :: "string \<Rightarrow> action_registry \<Rightarrow> pydict option" where
  "get_spec aid r = dict_get (reg_specs r) aid"

definition get_executor :: "string \<Rightarrow> action_registry \<Rightarrow> pyval option" where
  "get_executor aid r = dict_get (reg_executors r) aid"

definition get_func :: "string \<Rightarrow> action_registry \<Rightarrow> pyval option" where
  "get_func aid r = dict_get (reg_funcs r) aid"

definition get_tags :: "string \<Rightarrow> action_registry \<Rightarrow> string list" where
  "get_tags aid r = dict_get_or (reg_action_tags r) aid []"

definition tag_members :: "string \<Rightarrow> action_registry \<Rightarrow> string list" where
  "tag_members t r = dict_get_or (reg_tag_mappings r) t []"

definition list_action_ids :: "names option \<Rightarrow> action_registry \<Rightarrow> string list" where
  "list_action_ids tags r =
     (case tags of
        None \<Rightarrow> dict_keys (reg_specs r)
      | Some ts \<Rightarrow> fold (\<lambda>t collected. fold add_member (tag_members t r) collected) (name_list ts) [])"

section \<open>Histories\<close>

datatype registry_op =
    Register pydict pyval "pyval option"
  | TagOp names names
  | Unregister string

fun registry_step :: "registry_op \<Rightarrow> action_registry \<Rightarrow> action_registry" where
  "registry_step (Register spec ex f) r = register spec ex f r"
| "registry_step (TagOp aids tags) r = fst (tag aids tags r)"
| "registry_step (Unregister aid) r = fst (unregister aid r)"

text \<open>
  \<open>reachable once r\<close>: some sequence of operations leads to \<open>r\<close>; with \<open>once\<close>, no action id
  was registered while it was registered already.
\<close>

inductive reachable :: "bool \<Rightarrow> action_registry \<Rightarrow> bool" for once where
  start: "reachable once new_registry"
| step: "reachable once r \<Longrightarrow>
    (case oper of Register spec _ _ \<Rightarrow> once \<longrightarrow> \<not> has_action (spec_id spec) r | _ \<Rightarrow> True) \<Longrightarrow>
    reachable once (registry_step oper r)"

end
