(* ===== verification/ActionRegistryCorrect.thy ===== *)
theory ActionRegistryCorrect
  imports ActionRegistry
begin

text \<open>
  Correctness of the action registry: the two tag tables agree in every history that
  registers no id twice, and exactly how they drift apart when one does.
\<close>

section \<open>Members and links\<close>

definition members :: "(string, string list) dict \<Rightarrow> string \<Rightarrow> string set" where
  "members d t = set (dict_get_or d t [])"

text \<open>No empty and no repeated entry.\<close>

definition tidy :: "(string, string list) dict \<Rightarrow> bool" where
  "tidy d \<longleftrightarrow> dict_wf d \<and> (\<forall>t m. dict_get d t = Some m \<longrightarrow> m \<noteq> [] \<and> distinct m)"

lemma members_dict_set: "members (dict_set a m d) t = (if t = a then set m else members d t)"
  by (simp add: members_def dict_get_or_def)

lemma members_dict_del: "members (dict_del a d) t = (if t = a then {} else members d t)"
  by (simp add: members_def dict_get_or_def)

lemma members_link:
  "members (link_tag a t d) t' = (if t' = t then insert a (members d t) else members d t')"
  by (simp add: link_tag_def members_dict_set) (simp add: members_def)

lemma removeAll_Nil_iff: "removeAll a xs = [] \<longleftrightarrow> set xs \<subseteq> {a}"
  by (induction xs) auto

lemma members_unlink:
  "members (unlink_tag a t d) t' = (if t' = t then members d t - {a} else members d t')"
  by (auto simp: unlink_tag_def members_def dict_get_or_def Let_def removeAll_Nil_iff split: option.splits)

lemma members_links:
  "members (fold (link_tag a) ts d) t = (if t \<in> set ts then insert a (members d t) else members d t)"
  by (induction ts arbitrary: d) (auto simp: members_link)

lemma members_unlinks:
  "members (fold (unlink_tag a) ts d) t = (if t \<in> set ts then members d t - {a} else members d t)"
  by (induction ts arbitrary: d) (auto simp: members_unlink)

lemma tidy_set: "tidy d \<Longrightarrow> m \<noteq> [] \<Longrightarrow> distinct m \<Longrightarrow> tidy (dict_set t m d)"
  by (simp add: tidy_def)

lemma tidy_del: "tidy d \<Longrightarrow> tidy (dict_del t d)"
  by (simp add: tidy_def)

lemma tidy_distinct: "tidy d \<Longrightarrow> distinct (dict_get_or d t [])"
  by (simp add: tidy_def dict_get_or_def split: option.splits)

lemma tidy_link: "tidy d \<Longrightarrow> tidy (link_tag a t d)"
  by (simp add: link_tag_def tidy_set tidy_distinct)

lemma tidy_unlink:
  assumes "tidy d"
  shows "tidy (unlink_tag a t d)"
proof (cases "dict_get d t")
  case (Some m)
  with assms have "distinct (removeAll a m)" by (simp add: tidy_def distinct_removeAll)
  with assms Some show ?thesis
    by (simp add: unlink_tag_def Let_def tidy_del tidy_set)
qed (simp add: unlink_tag_def assms)

lemma tidy_links: "tidy d \<Longrightarrow> tidy (fold (link_tag a) ts d)"
  by (induction ts arbitrary: d) (auto simp: tidy_link)

lemma tidy_unlinks: "tidy d \<Longrightarrow> tidy (fold (unlink_tag a) ts d)"
  by (induction ts arbitrary: d) (auto simp: tidy_unlink)

section \<open>The invariant\<close>

definition registry_ok :: "action_registry \<Rightarrow> bool" where
  "registry_ok r \<longleftrightarrow>
     dict_wf (reg_specs r) \<and>
     fst ` set (reg_executors r) = fst ` set (reg_specs r) \<and>
     fst ` set (reg_action_tags r) = fst ` set (reg_specs r) \<and>
     fst ` set (reg_funcs r) \<subseteq> fst ` set (reg_specs r) \<and>
     tidy (reg_tag_mappings r) \<and>
     (\<forall>a. distinct (get_tags a r)) \<and>
     (\<forall>a t. t \<in> members (reg_action_tags r) a \<longrightarrow> a \<in> members (reg_tag_mappings r) t)"

text \<open>The tag table lists no id that does not have the tag.\<close>

definition registry_exact :: "action_registry \<Rightarrow> bool" where
  "registry_exact r \<longleftrightarrow>
     (\<forall>a t. a \<in> members (reg_tag_mappings r) t \<longrightarrow> t \<in> members (reg_action_tags r) a)"

lemmas registry_defs = registry_ok_def registry_exact_def

lemma distinct_spec_tags: "distinct (spec_tags spec)"
  by (auto simp: spec_tags_def split: pyval.splits)

lemma get_tags_members: "set (get_tags a r) = members (reg_action_tags r) a"
  by (simp add: get_tags_def members_def)

lemma ok_new: "registry_ok new_registry" "registry_exact new_registry"
  by (simp_all add: registry_defs new_registry_def tidy_def get_tags_def members_def dict_get_or_def)

lemma get_tags_register:
  "get_tags a (register spec ex f r) = (if a = spec_id spec then spec_tags spec else get_tags a r)"
  by (simp add: get_tags_def register_def Let_def dict_get_or_def)

lemma get_tags_tag_action:
  "get_tags a (tag_action ts b r) = (if a = b then fold add_member ts (get_tags b r) else get_tags a r)"
  by (simp add: get_tags_def tag_action_def Let_def dict_get_or_def)

lemma members_tag_action:
  "members (reg_action_tags (tag_action ts b r)) a =
   (if a = b then set ts \<union> members (reg_action_tags r) b else members (reg_action_tags r) a)"
  by (simp add: get_tags_members [symmetric] get_tags_tag_action)

lemma ok_register: "registry_ok r \<Longrightarrow> registry_ok (register spec ex f r)"
proof -
  assume ok: "registry_ok r"
  have funcs: "fst ` set (reg_funcs (register spec ex f r)) \<subseteq> fst ` set (reg_specs (register spec ex f r))"
    using ok by (cases f) (auto simp: registry_ok_def register_def Let_def)
  have tags: "distinct (get_tags a (register spec ex f r))" for a
    using ok by (simp add: registry_ok_def get_tags_register distinct_spec_tags)
  from ok funcs tags show ?thesis
    by (simp add: registry_ok_def register_def Let_def tidy_links members_links members_dict_set)
qed

lemma untagged: "registry_ok r \<Longrightarrow> \<not> has_action a r \<Longrightarrow> members (reg_action_tags r) a = {}"
  by (auto simp: registry_ok_def has_action_def dict_has_mem members_def dict_get_or_def
      split: option.splits dest: dict_get_Some_mem)
     (metis dict_get_Some_mem fst_conv image_eqI)

lemma exact_register:
  "registry_ok r \<Longrightarrow> registry_exact r \<Longrightarrow> \<not> has_action (spec_id spec) r \<Longrightarrow>
   registry_exact (register spec ex f r)"
  using untagged [of r "spec_id spec"]
  by (auto simp: registry_exact_def register_def Let_def members_links members_dict_set)

lemma ok_tag_action: "registry_ok r \<Longrightarrow> dict_has (reg_specs r) a \<Longrightarrow> registry_ok (tag_action ts a r)"
proof -
  assume ok: "registry_ok r" and a: "dict_has (reg_specs r) a"
  have tags: "distinct (get_tags b (tag_action ts a r))" for b
    using ok by (simp add: registry_ok_def get_tags_tag_action)
  have sub: "\<forall>b t. t \<in> members (reg_action_tags (tag_action ts a r)) b \<longrightarrow>
      b \<in> members (reg_tag_mappings (tag_action ts a r)) t"
    using ok unfolding members_tag_action by (auto simp: registry_ok_def tag_action_def Let_def members_links)
  from ok a tags sub show ?thesis
    by (simp add: registry_ok_def tag_action_def Let_def tidy_links dict_has_mem insert_absorb)
qed

lemma exact_tag_action: "registry_exact r \<Longrightarrow> registry_exact (tag_action ts a r)"
  unfolding registry_exact_def members_tag_action
  by (auto simp: tag_action_def Let_def members_links split: if_splits)

lemma ok_tag_actions:
  "registry_ok r \<Longrightarrow> registry_ok (fst (tag_actions aids ts r))"
  by (induction aids ts r rule: tag_actions.induct) (auto simp: ok_tag_action)

lemma exact_tag_actions:
  "registry_exact r \<Longrightarrow> registry_exact (fst (tag_actions aids ts r))"
  by (induction aids ts r rule: tag_actions.induct) (auto simp: exact_tag_action)

lemma ok_unregister: "registry_ok r \<Longrightarrow> registry_ok (fst (unregister a r))"
proof (cases "dict_has (reg_specs r) a")
  case True
  assume ok: "registry_ok r"
  have tags: "distinct (get_tags b (fst (unregister a r)))" for b
    using ok by (auto simp: registry_ok_def unregister_def get_tags_def dict_get_or_def)
  from True ok tags show ?thesis
    by (auto simp: registry_ok_def unregister_def tidy_unlinks members_unlinks members_dict_del)
qed (simp add: unregister_def)

lemma exact_unregister:
  "registry_ok r \<Longrightarrow> registry_exact r \<Longrightarrow> registry_exact (fst (unregister a r))"
  by (auto simp: registry_exact_def unregister_def members_unlinks members_dict_del)
     (auto simp: members_def)

lemma reachable_ok: "reachable once r \<Longrightarrow> registry_ok r"
proof (induction rule: reachable.induct)
  case (step r oper)
  then show ?case
    by (cases oper) (simp_all add: ok_register ok_tag_actions tag_def ok_unregister)
qed (rule ok_new)

lemma reachable_exact: "reachable True r \<Longrightarrow> registry_exact r"
proof (induction rule: reachable.induct)
  case (step r oper)
  then show ?case
    using reachable_ok [OF step.hyps(1)]
    by (cases oper) (simp_all add: exact_register exact_tag_actions tag_def exact_unregister)
qed (rule ok_new)

section \<open>Lookup by tag\<close>

lemma set_collect:
  "set (fold (\<lambda>t collected. fold add_member (tag_members t r) collected) ts acc) =
   set acc \<union> (\<Union>t \<in> set ts. members (reg_tag_mappings r) t)"
  by (induction ts arbitrary: acc) (auto simp: tag_members_def members_def)

lemma distinct_collect:
  "distinct acc \<Longrightarrow>
   distinct (fold (\<lambda>t collected. fold add_member (tag_members t r) collected) ts acc)"
  by (induction ts arbitrary: acc) auto

lemma set_list_ids:
  "set (list_action_ids (Some ts) r) = {a. \<exists>t \<in> set (name_list ts). a \<in> members (reg_tag_mappings r) t}"
  by (auto simp: list_action_ids_def set_collect)

lemma distinct_list_ids: "registry_ok r \<Longrightarrow> distinct (list_action_ids ts r)"
  by (auto simp: list_action_ids_def distinct_collect registry_ok_def split: option.splits)
section \<open>Properties\<close>

text \<open>
  As long as no action id is registered while it is registered, a lookup by tags lists,
  each once, exactly the registered actions that have one of the tags, and an action that
  was unregistered is found under no tag.
\<close>

theorem registry_lookup_exact:
  assumes "reachable True r"
  shows "distinct (list_action_ids (Some ts) r) \<and>
    set (list_action_ids (Some ts) r) =
      {a. has_action a r \<and> (\<exists>t \<in> set (name_list ts). t \<in> set (get_tags a r))} \<and>
    has_action a r = (a \<in> set (list_action_ids None r)) \<and>
    a \<notin> set (list_action_ids (Some ts) (fst (unregister a r)))"
proof (intro conjI)
  have ok: "registry_ok r" and exact: "registry_exact r"
    using assms by (rule reachable_ok, rule reachable_exact)
  show "distinct (list_action_ids (Some ts) r)" using ok by (rule distinct_list_ids)
  have "a \<in> members (reg_tag_mappings r) t \<longleftrightarrow> has_action a r \<and> t \<in> members (reg_action_tags r) a" for a t
    using ok exact untagged [OF ok, of a] by (auto simp: registry_defs)
  then show "set (list_action_ids (Some ts) r) =
      {a. has_action a r \<and> (\<exists>t \<in> set (name_list ts). t \<in> set (get_tags a r))}"
    by (auto simp: set_list_ids get_tags_members)
  show "has_action a r = (a \<in> set (list_action_ids None r))"
    by (simp add: has_action_def dict_has_def list_action_ids_def)
  have "registry_exact (fst (unregister a r))" using ok exact by (rule exact_unregister)
  moreover have "members (reg_action_tags (fst (unregister a r))) a = {}"
    using untagged [OF ok, of a] by (auto simp: unregister_def members_dict_del has_action_def)
  ultimately show "a \<notin> set (list_action_ids (Some ts) (fst (unregister a r)))"
    by (auto simp: set_list_ids registry_exact_def)
qed

definition search_spec :: pydict where
  "search_spec = [(''action_id'', PStr ''search''), (''tags'', PList [PStr ''web''])]"

lemma reachable_search: "reachable True (register search_spec PNone None new_registry)"
proof -
  have "\<not> has_action (spec_id search_spec) new_registry"
    by (simp add: has_action_def new_registry_def dict_has_def)
  then show ?thesis
    using reachable.step [OF reachable.start, where oper = "Register search_spec PNone None"] by simp
qed

theorem registry_lookup_exact_witness:
  "list_action_ids (Some (OneName ''web'')) (register search_spec PNone None new_registry) = [''search''] \<and>
   ''search'' \<notin> set (list_action_ids (Some (OneName ''web''))
     (fst (unregister ''search'' (register search_spec PNone None new_registry))))"
  using registry_lookup_exact [OF reachable_search, of "OneName ''web''" "''search''"]
  by (simp add: list_action_ids_def tag_members_def register_def search_spec_def spec_id_def spec_tags_def
      new_registry_def link_tag_def add_member_def dict_get_or_def Let_def)

text \<open>
  Registering an action again under other tags leaves it listed under the tags it lost,
  and there it stays after it is unregistered; its old function also survives a registration
  without one.
\<close>

theorem reregistered_action_stays_listed:
  assumes "reachable once r" and "t \<in> set (get_tags a r)" and "spec_id spec = a"
    and "t \<notin> set (spec_tags spec)"
  shows "a \<in> set (list_action_ids (Some (OneName t)) (register spec ex None r)) \<and>
    a \<in> set (list_action_ids (Some (OneName t)) (fst (unregister a (register spec ex None r)))) \<and>
    \<not> has_action a (fst (unregister a (register spec ex None r))) \<and>
    get_func a (register spec ex None r) = get_func a r"
proof (intro conjI)
  have ok: "registry_ok r" using assms(1) by (rule reachable_ok)
  with assms(2) have old: "a \<in> members (reg_tag_mappings r) t"
    by (simp add: registry_ok_def get_tags_members)
  with assms(3) have kept: "a \<in> members (reg_tag_mappings (register spec ex None r)) t"
    by (simp add: register_def Let_def members_links)
  then show "a \<in> set (list_action_ids (Some (OneName t)) (register spec ex None r))"
    by (simp add: set_list_ids)
  have "dict_get_or (reg_action_tags (register spec ex None r)) a [] = spec_tags spec"
    using assms(3) by (simp add: register_def Let_def dict_get_or_def)
  with kept assms(4) show "a \<in> set (list_action_ids (Some (OneName t)) (fst (unregister a (register spec ex None r))))"
    by (simp add: set_list_ids unregister_def members_unlinks)
  show "\<not> has_action a (fst (unregister a (register spec ex None r)))"
    by (simp add: has_action_def unregister_def dict_has_mem)
  show "get_func a (register spec ex None r) = get_func a r"
    by (simp add: get_func_def register_def Let_def)
qed

theorem reregistered_action_stays_listed_witness:
  "''search'' \<in> set (list_action_ids (Some (OneName ''web'')) (fst (unregister ''search''
     (register [(''action_id'', PStr ''search'')] PNone None (register search_spec PNone None new_registry)))))"
  using reregistered_action_stays_listed
    [OF reachable_search, of "''web''" "''search''" "[(''action_id'', PStr ''search'')]" PNone]
  by (simp add: get_tags_register search_spec_def spec_id_def spec_tags_def dict_get_or_def)

end
