(* ===== verification/SignalNet.thy ===== *)
theory SignalNet
  imports PyText "HOL-Library.Product_Lexorder"
begin

text \<open>
  The dynamic event overlay of a TriggerFlow execution
  (\<open>core/orchestration/TriggerFlow/SignalNet.py\<close>, \<open>Signal.py\<close> and the callable references of
  \<open>Definition.py\<close>): bindings of handlers to events, the record kept of every signal, and
  the snapshot both are saved in and restored from.  The set of accepted signal ids, which
  the execution owns, is part of the state.  Parameters: what \<open>inspect\<close> says of a callable,
  the identifier of a new signal, and the clock.
\<close>

section \<open>Signals\<close>

datatype trigger_type = EventTrigger | RuntimeDataTrigger | FlowDataTrigger

fun trigger_name :: "trigger_type \<Rightarrow> string" where
  "trigger_name EventTrigger = ''event''"
| "trigger_name RuntimeDataTrigger = ''runtime_data''"
| "trigger_name FlowDataTrigger = ''flow_data''"

definition trigger_types :: "trigger_type list" where
  "trigger_types = [EventTrigger, RuntimeDataTrigger, FlowDataTrigger]"

record tf_signal =
  sg_id :: string
  sg_event :: string
  sg_type :: trigger_type
  sg_value :: pyval
  sg_layer_marks :: "string list"
  sg_source :: string
  sg_meta :: pydict

definition create_signal ::
  "string \<Rightarrow> string \<Rightarrow> trigger_type \<Rightarrow> pyval \<Rightarrow> string list option \<Rightarrow> string \<Rightarrow> pydict option \<Rightarrow> tf_signal" where
  "create_signal uid event ty v marks src meta =
     \<lparr> sg_id = uid, sg_event = event, sg_type = ty, sg_value = v,
       sg_layer_marks = (case marks of None \<Rightarrow> [] | Some ms \<Rightarrow> ms), sg_source = src,
       sg_meta = (case meta of None \<Rightarrow> [] | Some m \<Rightarrow> m) \<rparr>"

definition signal_debug_dict :: "tf_signal \<Rightarrow> pydict" where
  "signal_debug_dict s =
     [(''SIGNAL_ID'', PStr (sg_id s)), (''TYPE'', PStr (trigger_name (sg_type s))),
      (''EVENT'', PStr (sg_event s)), (''VALUE'', sg_value s), (''SOURCE'', PStr (sg_source s)),
      (''META'', PDict (sg_meta s))]"

definition signal_state_dict :: "tf_signal \<Rightarrow> pydict" where
  "signal_state_dict s =
     [(''id'', PStr (sg_id s)), (''trigger_event'', PStr (sg_event s)),
      (''trigger_type'', PStr (trigger_name (sg_type s))), (''value'', sg_value s),
      (''layer_marks'', PList (map PStr (sg_layer_marks s))), (''source'', PStr (sg_source s)),
      (''meta'', PDict (sg_meta s))]"

section \<open>References to callables\<close>

text \<open>What \<open>getattr\<close> and \<open>inspect\<close> tell of a handler; \<open>None\<close> where they find nothing.\<close>

record callable_info =
  ci_name :: pyval
  ci_qualname :: pyval
  ci_module :: pyval
  ci_file :: pyval
  ci_line :: pyval

definition build_callable_ref :: "callable_info \<Rightarrow> pyval \<Rightarrow> pydict" where
  "build_callable_ref info explicit_name =
     (let name = (if explicit_name \<noteq> PNone then explicit_name else ci_name info);
          kind = (if explicit_name \<noteq> PNone then ''registered''
                  else if ci_name info = PStr ''<lambda>'' then ''anonymous''
                  else if truthy (ci_name info) then ''inspected'' else ''unknown'')
      in [(''kind'', PStr kind), (''name'', name), (''callable_name'', ci_name info),
          (''module'', ci_module info), (''qualname'', ci_qualname info),
          (''file'', ci_file info), (''line'', ci_line info)])"

datatype net_error = NotRecoverable string | TypeFault

text \<open>\<open>v in {...}\<close> on a set of string constants: an unhashable value raises.\<close>

definition in_names :: "pyval \<Rightarrow> string list \<Rightarrow> net_error + bool" where
  "in_names v names = (if hashable v then Inr (v \<in> set (map PStr names)) else Inl TypeFault)"

definition is_callable_ref_exportable :: "pydict \<Rightarrow> net_error + bool" where
  "is_callable_ref_exportable ref =
     bindE (in_names (pget ref ''kind'') [''registered'', ''inspected''])
       (\<lambda>known. Inr (known \<and> truthy (pget ref ''name'')))"

definition render_callable_ref :: "pydict \<Rightarrow> string" where
  "render_callable_ref ref =
     (let label =
        (if truthy (pget ref ''name'') then py_str (pget ref ''name'')
         else if truthy (pget ref ''callable_name'') then py_str (pget ref ''callable_name'')
         else ''unknown'')
      in if pget ref ''kind'' = PStr ''anonymous'' \<and> truthy (pget ref ''file'') \<and> truthy (pget ref ''line'')
         then label @ ''@'' @ py_str (pget ref ''file'') @ '':'' @ py_str (pget ref ''line'')
         else label)"

section \<open>Bindings\<close>

datatype binding_status = ActiveBinding | MissingHandler

record binding =
  bn_id :: string
  bn_type :: trigger_type
  bn_event :: string
  bn_handler :: "pyval option"
  bn_handler_ref :: pyval
  bn_metadata :: pyval
  bn_status :: binding_status

fun binding_status_name :: "binding_status \<Rightarrow> string" where
  "binding_status_name ActiveBinding = ''active''"
| "binding_status_name MissingHandler = ''missing_handler''"

definition binding_to_snapshot :: "binding \<Rightarrow> pydict" where
  "binding_to_snapshot b =
     [(''binding_id'', PStr (bn_id b)), (''trigger_type'', PStr (trigger_name (bn_type b))),
      (''trigger_event'', PStr (bn_event b)), (''handler_ref'', bn_handler_ref b),
      (''metadata'', bn_metadata b), (''status'', PStr (binding_status_name (bn_status b)))]"

type_synonym bindings = "(string, (string, binding) dict) dict"
type_synonym registered = "pyval \<times> pydict \<times> pydict"

record signal_net =
  net_bindings :: "trigger_type \<Rightarrow> bindings"
  net_registry :: "(string, registered) dict"
  net_attempts :: "(string, pydict) dict"
  net_accepted :: "string list"

definition empty_net :: signal_net where
  "empty_net = \<lparr> net_bindings = (\<lambda>_. []), net_registry = [], net_attempts = [], net_accepted = [] \<rparr>"

definition put_in :: "binding \<Rightarrow> bindings \<Rightarrow> bindings" where
  "put_in b events =
     dict_set (bn_event b) (dict_set (bn_id b) b (dict_get_or events (bn_event b) [])) events"

definition put_binding :: "binding \<Rightarrow> signal_net \<Rightarrow> signal_net" where
  "put_binding b net =
     net\<lparr> net_bindings := (net_bindings net)(bn_type b := put_in b (net_bindings net (bn_type b))) \<rparr>"

definition normalize_handler_ref :: "callable_info \<Rightarrow> pyval \<Rightarrow> pyval \<Rightarrow> pydict" where
  "normalize_handler_ref info bid ref =
     (case ref of
        PDict d \<Rightarrow> d
      | _ \<Rightarrow> (let named = py_or ref bid in
             build_callable_ref info (if named \<noteq> PNone then PStr (py_str named) else PNone)))"

definition binding_name :: "pyval \<Rightarrow> pydict \<Rightarrow> string" where
  "binding_name bid ref =
     py_str (py_or bid (py_or (pget ref ''name'') (PStr (render_callable_ref ref))))"

definition register_dynamic_handler ::
  "string \<Rightarrow> pyval \<Rightarrow> callable_info \<Rightarrow> trigger_type \<Rightarrow> pyval \<Rightarrow> pyval \<Rightarrow> pydict option \<Rightarrow> bool
   \<Rightarrow> signal_net \<Rightarrow> net_error + (signal_net \<times> string)" where
  "register_dynamic_handler event handler info ty bid ref meta durable net =
     (let nref = normalize_handler_ref info bid ref in
      bindE (if durable then is_callable_ref_exportable nref else Inr True) (\<lambda>fit.
        if \<not> fit then Inl (NotRecoverable (render_callable_ref nref))
        else
          let rid = binding_name bid nref;
              md = (case meta of None \<Rightarrow> [] | Some m \<Rightarrow> m);
              b = \<lparr> bn_id = rid, bn_type = ty, bn_event = event, bn_handler = Some handler,
                    bn_handler_ref = PDict nref, bn_metadata = PDict md, bn_status = ActiveBinding \<rparr>
          in Inr (put_binding b (net\<lparr> net_registry := dict_set rid (handler, nref, md) (net_registry net) \<rparr>), rid)))"

text \<open>Remove one binding under one event, and the event when nothing is left under it.\<close>

definition drop_in :: "string \<Rightarrow> string \<Rightarrow> bindings \<Rightarrow> bindings \<times> bool" where
  "drop_in bid e events =
     (case dict_get events e of
        None \<Rightarrow> (events, False)
      | Some bs \<Rightarrow>
          (let left = dict_del bid bs in
           ((if left = [] then dict_del e events else dict_set e left events), dict_has bs bid)))"

fun drop_events :: "string \<Rightarrow> string list \<Rightarrow> bindings \<Rightarrow> bindings \<times> bool" where
  "drop_events bid [] events = (events, False)"
| "drop_events bid (e # es) events =
     (case drop_in bid e events of (events', r) \<Rightarrow>
      case drop_events bid es events' of (events'', r') \<Rightarrow> (events'', r \<or> r'))"

fun drop_types :: "string \<Rightarrow> string option \<Rightarrow> trigger_type list \<Rightarrow> (trigger_type \<Rightarrow> bindings)
    \<Rightarrow> (trigger_type \<Rightarrow> bindings) \<times> bool" where
  "drop_types bid event [] all = (all, False)"
| "drop_types bid event (ty # tys) all =
     (let es = (case event of None \<Rightarrow> dict_keys (all ty) | Some e \<Rightarrow> [e]) in
      case drop_events bid es (all ty) of (events, r) \<Rightarrow>
      case drop_types bid event tys (all(ty := events)) of (all', r') \<Rightarrow> (all', r \<or> r'))"

definition unregister_dynamic_handler ::
  "string \<Rightarrow> trigger_type option \<Rightarrow> string option \<Rightarrow> signal_net \<Rightarrow> signal_net \<times> bool" where
  "unregister_dynamic_handler bid ty event net =
     (case drop_types bid event (case ty of None \<Rightarrow> trigger_types | Some t \<Rightarrow> [t]) (net_bindings net) of
        (all, removed) \<Rightarrow>
          (net\<lparr> net_bindings := all, net_registry := dict_del bid (net_registry net) \<rparr>, removed))"

text \<open>The handlers of a signal: the static ones, then the active bindings.\<close>

type_synonym static_handlers = "trigger_type \<Rightarrow> (string, (string, pyval) dict) dict"

definition active_handlers :: "(string, binding) dict \<Rightarrow> (string \<times> pyval) list" where
  "active_handlers bs = concat (map (\<lambda>(bid, b).
     case bn_handler b of
       None \<Rightarrow> []
     | Some h \<Rightarrow> if bn_status b = ActiveBinding then [(bid, h)] else []) bs)"

definition iter_handlers :: "tf_signal \<Rightarrow> static_handlers \<Rightarrow> signal_net \<Rightarrow> (string \<times> pyval) list" where
  "iter_handlers s static net =
     dict_get_or (static (sg_type s)) (sg_event s) [] @
     active_handlers (dict_get_or (net_bindings net (sg_type s)) (sg_event s) [])"

definition binding_at :: "signal_net \<Rightarrow> trigger_type \<Rightarrow> string \<Rightarrow> string \<Rightarrow> binding option" where
  "binding_at net ty e bid = dict_get (dict_get_or (net_bindings net ty) e []) bid"

section \<open>The record of signals\<close>

datatype attempt_status = Accepted | Running | Completed | FailedWith string | Interrupted string

fun attempt_status_name :: "attempt_status \<Rightarrow> string" where
  "attempt_status_name Accepted = ''accepted''"
| "attempt_status_name Running = ''running''"
| "attempt_status_name Completed = ''completed''"
| "attempt_status_name (FailedWith _) = ''failed''"
| "attempt_status_name (Interrupted _) = ''interrupted''"

definition record_attempt :: "rat \<Rightarrow> tf_signal \<Rightarrow> attempt_status \<Rightarrow> signal_net \<Rightarrow> signal_net" where
  "record_attempt now s st net =
     (let existing = dict_get_or (net_attempts net) (sg_id s) [];
          attempt = dict_update existing
            [(''signal_id'', PStr (sg_id s)), (''trigger_type'', PStr (trigger_name (sg_type s))),
             (''trigger_event'', PStr (sg_event s)), (''source'', PStr (sg_source s)),
             (''meta'', PDict (sg_meta s)), (''status'', PStr (attempt_status_name st)),
             (''updated_at'', PFloat now)];
          dated = dict_setdefault ''created_at'' (PFloat now) attempt;
          final = (case st of
              FailedWith err \<Rightarrow> dict_set ''error'' (PStr err) dated
            | Interrupted reason \<Rightarrow> dict_set ''reason'' (PStr reason) dated
            | _ \<Rightarrow> dated)
      in net\<lparr> net_attempts := dict_set (sg_id s) final (net_attempts net) \<rparr>)"

definition accept_signal :: "rat \<Rightarrow> tf_signal \<Rightarrow> signal_net \<Rightarrow> signal_net" where
  "accept_signal now s net =
     record_attempt now s Accepted
       (net\<lparr> net_accepted := (if sg_id s \<in> set (net_accepted net) then net_accepted net
                              else net_accepted net @ [sg_id s]) \<rparr>)"

definition is_accepted :: "string \<Rightarrow> signal_net \<Rightarrow> bool" where
  "is_accepted sid net \<longleftrightarrow> sid \<in> set (net_accepted net)"

definition mark_running :: "rat \<Rightarrow> tf_signal \<Rightarrow> signal_net \<Rightarrow> signal_net" where
  "mark_running now s net =
     record_attempt now s Running (net\<lparr> net_accepted := removeAll (sg_id s) (net_accepted net) \<rparr>)"

definition mark_completed :: "rat \<Rightarrow> tf_signal \<Rightarrow> signal_net \<Rightarrow> signal_net" where
  "mark_completed now s net = record_attempt now s Completed net"

definition mark_failed :: "rat \<Rightarrow> tf_signal \<Rightarrow> string \<Rightarrow> signal_net \<Rightarrow> signal_net" where
  "mark_failed now s err net = record_attempt now s (FailedWith err) net"

definition mark_interrupted :: "rat \<Rightarrow> tf_signal \<Rightarrow> string \<Rightarrow> signal_net \<Rightarrow> signal_net" where
  "mark_interrupted now s reason net = record_attempt now s (Interrupted reason) net"

section \<open>Snapshots\<close>

definition all_bindings :: "signal_net \<Rightarrow> binding list" where
  "all_bindings net =
     concat (map (\<lambda>ty. concat (map (\<lambda>(e, bs). map snd bs) (net_bindings net ty))) trigger_types)"

definition attempt_key :: "pydict \<Rightarrow> net_error + (rat \<times> string)" where
  "attempt_key a =
     (case py_float (py_or (pget a ''updated_at'') (PInt 0)) of
        None \<Rightarrow> Inl TypeFault
      | Some t \<Rightarrow> Inr (t, py_str (py_or (pget a ''signal_id'') (PStr []))))"

text \<open>Sorting is stable; the keys are computed first and may raise.\<close>

definition sorted_attempts :: "signal_net \<Rightarrow> net_error + pydict list" where
  "sorted_attempts net =
     bindE (mapE (\<lambda>a. bindE (attempt_key a) (\<lambda>k. Inr (k, a))) (map snd (net_attempts net)))
       (\<lambda>keyed. Inr (map snd (sort_key fst keyed)))"

definition to_snapshot :: "signal_net \<Rightarrow> net_error + pydict" where
  "to_snapshot net =
     bindE (sorted_attempts net) (\<lambda>attempts. Inr
       [(''version'', PInt 1),
        (''bindings'', PList (map (PDict \<circ> binding_to_snapshot) (all_bindings net))),
        (''accepted_signal_ids'', PList (map PStr (sort (net_accepted net)))),
        (''signal_attempts'', PList (map PDict attempts))])"

text \<open>Iterate \<open>snapshot.get(key) or []\<close>.\<close>

definition snapshot_items :: "pydict \<Rightarrow> string \<Rightarrow> net_error + pyval list" where
  "snapshot_items snapshot k =
     (case py_iter (py_or (pget snapshot k) (PList [])) of None \<Rightarrow> Inl TypeFault | Some xs \<Rightarrow> Inr xs)"

definition load_reason :: string where
  "load_reason = ''interrupted during TriggerFlow load''"

definition restore_attempt :: "pyval \<Rightarrow> (string, pydict) dict \<Rightarrow> net_error + (string, pydict) dict" where
  "restore_attempt v attempts =
     (case v of
        PDict a \<Rightarrow>
          (if \<not> truthy (pget a ''signal_id'') then Inr attempts
           else bindE (in_names (pget a ''status'') [''accepted'', ''running'']) (\<lambda>unfinished.
             let restored = (if unfinished
                   then dict_set ''reason'' (PStr load_reason) (dict_set ''status'' (PStr ''interrupted'') a)
                   else a)
             in Inr (dict_set (py_str (pget restored ''signal_id'')) restored attempts)))
      | _ \<Rightarrow> Inr attempts)"

definition trigger_of_name :: "pyval \<Rightarrow> net_error + trigger_type option" where
  "trigger_of_name v =
     (if \<not> hashable v then Inl TypeFault
      else Inr (if v = PStr ''event'' then Some EventTrigger
                else if v = PStr ''runtime_data'' then Some RuntimeDataTrigger
                else if v = PStr ''flow_data'' then Some FlowDataTrigger else None))"

text \<open>The handler of a restored binding comes from the registry of this process, if it is there.\<close>

definition restored_binding ::
  "(string, registered) dict \<Rightarrow> string \<Rightarrow> trigger_type \<Rightarrow> pydict \<Rightarrow> binding" where
  "restored_binding reg bid ty state =
     (let event = py_str (py_or (pget state ''trigger_event'') (PStr [])) in
      case dict_get reg bid of
        Some (h, ref, md) \<Rightarrow>
          \<lparr> bn_id = bid, bn_type = ty, bn_event = event, bn_handler = Some h,
            bn_handler_ref = PDict ref, bn_metadata = PDict md, bn_status = ActiveBinding \<rparr>
      | None \<Rightarrow>
          \<lparr> bn_id = bid, bn_type = ty, bn_event = event, bn_handler = None,
            bn_handler_ref = py_or (pget state ''handler_ref'') (PDict []),
            bn_metadata = py_or (pget state ''metadata'') (PDict []), bn_status = MissingHandler \<rparr>)"

definition snapshot_binding_id :: "pydict \<Rightarrow> string" where
  "snapshot_binding_id state = py_str (py_or (pget state ''binding_id'') (PStr []))"

definition restore_binding :: "pyval \<Rightarrow> signal_net \<Rightarrow> net_error + signal_net" where
  "restore_binding v net =
     (case v of
        PDict state \<Rightarrow>
          (let bid = snapshot_binding_id state in
           bindE (trigger_of_name (dict_get_or state ''trigger_type'' (PStr ''event''))) (\<lambda>ty.
             case ty of
               None \<Rightarrow> Inr net
             | Some t \<Rightarrow>
                 if bid = [] then Inr net
                 else Inr (put_binding (restored_binding (net_registry net) bid t state) net)))
      | _ \<Rightarrow> Inr net)"

definition load_snapshot :: "pyval \<Rightarrow> signal_net \<Rightarrow> net_error + signal_net" where
  "load_snapshot v net =
     (let cleared = net\<lparr> net_bindings := (\<lambda>_. []), net_attempts := [] \<rparr> in
      case v of
        PDict snapshot \<Rightarrow>
          bindE (snapshot_items snapshot ''signal_attempts'') (\<lambda>states.
          bindE (foldE restore_attempt states []) (\<lambda>attempts.
          bindE (snapshot_items snapshot ''bindings'') (\<lambda>bs.
            foldE restore_binding bs (cleared\<lparr> net_attempts := attempts, net_accepted := [] \<rparr>))))
      | _ \<Rightarrow> Inr cleared)"

definition missing_in :: "(string, registered) dict \<Rightarrow> pyval list \<Rightarrow> string list" where
  "missing_in reg states = concat (map (\<lambda>v.
     case v of
       PDict state \<Rightarrow>
         (let bid = snapshot_binding_id state in if bid \<noteq> [] \<and> \<not> dict_has reg bid then [bid] else [])
     | _ \<Rightarrow> []) states)"

definition snapshot_missing_handler_ids :: "pyval \<Rightarrow> signal_net \<Rightarrow> net_error + string list" where
  "snapshot_missing_handler_ids v net =
     (case v of
        PDict snapshot \<Rightarrow>
          bindE (snapshot_items snapshot ''bindings'') (\<lambda>states.
            Inr (sort (remdups (missing_in (net_registry net) states))))
      | _ \<Rightarrow> Inr [])"

end
