(* ===== verification/SignalNetCorrect.thy ===== *)
theory SignalNetCorrect
  imports SignalNet
begin

text \<open>
  The invariant of the signal net and the lemmas on rebuilding its tables from a snapshot.
\<close>

section \<open>Histories\<close>

datatype net_op =
    RegisterHandler string pyval callable_info trigger_type pyval pyval "pydict option" bool
  | UnregisterHandler string "trigger_type option" "string option"
  | Mark rat tf_signal attempt_status
  | LoadSnapshot pyval

fun mark :: "rat \<Rightarrow> tf_signal \<Rightarrow> attempt_status \<Rightarrow> signal_net \<Rightarrow> signal_net" where
  "mark now s Accepted net = accept_signal now s net"
| "mark now s Running net = mark_running now s net"
| "mark now s Completed net = mark_completed now s net"
| "mark now s (FailedWith err) net = mark_failed now s err net"
| "mark now s (Interrupted reason) net = mark_interrupted now s reason net"

fun net_step :: "net_op \<Rightarrow> signal_net \<Rightarrow> net_error + signal_net" where
  "net_step (RegisterHandler e h info ty bid ref md durable) net =
     bindE (register_dynamic_handler e h info ty bid ref md durable net) (\<lambda>(net', _). Inr net')"
| "net_step (UnregisterHandler bid ty e) net = Inr (fst (unregister_dynamic_handler bid ty e net))"
| "net_step (Mark now s st) net = Inr (mark now s st net)"
| "net_step (LoadSnapshot v) net = load_snapshot v net"

text \<open>Binding ids and signal ids are not the empty string.\<close>

fun op_named :: "net_op \<Rightarrow> bool" where
  "op_named (RegisterHandler e h info ty bid ref md durable) =
     (binding_name bid (normalize_handler_ref info bid ref) \<noteq> [])"
| "op_named (Mark now s st) = (sg_id s \<noteq> [])"
| "op_named _ = True"

inductive net_reachable :: "signal_net \<Rightarrow> bool" where
  start: "net_reachable empty_net"
| step: "net_reachable net \<Longrightarrow> op_named oper \<Longrightarrow> net_step oper net = Inr net' \<Longrightarrow> net_reachable net'"

section \<open>The invariant\<close>

definition binding_ok :: "trigger_type \<Rightarrow> string \<Rightarrow> string \<times> binding \<Rightarrow> bool" where
  "binding_ok ty e ib \<longleftrightarrow> (case ib of (bid, b) \<Rightarrow>
     bid \<noteq> [] \<and> bn_id b = bid \<and> bn_event b = e \<and> bn_type b = ty \<and>
     py_or (bn_handler_ref b) (PDict []) = bn_handler_ref b \<and>
     py_or (bn_metadata b) (PDict []) = bn_metadata b \<and>
     (bn_handler b = None) = (bn_status b = MissingHandler))"

definition events_ok :: "trigger_type \<Rightarrow> bindings \<Rightarrow> bool" where
  "events_ok ty evs \<longleftrightarrow> dict_wf evs \<and>
     (\<forall>(e, bs) \<in> set evs. bs \<noteq> [] \<and> dict_wf bs \<and> (\<forall>ib \<in> set bs. binding_ok ty e ib))"

definition attempt_id :: "pydict \<Rightarrow> string" where
  "attempt_id a = py_str (pget a ''signal_id'')"

definition attempt_ok :: "string \<times> pydict \<Rightarrow> bool" where
  "attempt_ok sa \<longleftrightarrow> (case sa of (sid, a) \<Rightarrow>
     truthy (pget a ''signal_id'') \<and> attempt_id a = sid \<and> hashable (pget a ''status''))"

definition attempts_ok :: "(string, pydict) dict \<Rightarrow> bool" where
  "attempts_ok d \<longleftrightarrow> dict_wf d \<and> (\<forall>sa \<in> set d. attempt_ok sa)"

definition net_ok :: "signal_net \<Rightarrow> bool" where
  "net_ok net \<longleftrightarrow> (\<forall>ty. events_ok ty (net_bindings net ty)) \<and> attempts_ok (net_attempts net)"

lemma set_dict_set_subset: "set (dict_set k v d) \<subseteq> insert (k, v) (set d)"
  by (induction d) auto

lemma set_dict_del_subset: "set (dict_del k d) \<subseteq> set d"
  by (induction d) auto

lemma events_ok_get:
  "events_ok ty evs \<Longrightarrow> dict_wf (dict_get_or evs e []) \<and> (\<forall>ib \<in> set (dict_get_or evs e []). binding_ok ty e ib)"
  by (auto simp: events_ok_def dict_get_or_def split: option.splits dest!: dict_get_Some_mem)

lemma events_ok_set:
  assumes "events_ok ty evs" and "bs \<noteq> []" and "dict_wf bs" and "\<forall>ib \<in> set bs. binding_ok ty e ib"
  shows "events_ok ty (dict_set e bs evs)"
  using assms set_dict_set_subset [of e bs evs] unfolding events_ok_def by fastforce

lemma events_ok_del: "events_ok ty evs \<Longrightarrow> events_ok ty (dict_del e evs)"
  using set_dict_del_subset [of e evs] unfolding events_ok_def by (meson dict_wf_del in_mono)

lemma events_ok_put:
  assumes "events_ok ty evs" and "binding_ok ty (bn_event b) (bn_id b, b)"
  shows "events_ok ty (put_in b evs)"
  unfolding put_in_def
proof (rule events_ok_set [OF assms(1)])
  let ?bs = "dict_get_or evs (bn_event b) []"
  note old = events_ok_get [OF assms(1), of "bn_event b"]
  show "dict_set (bn_id b) b ?bs \<noteq> []" by (cases ?bs) auto
  show "dict_wf (dict_set (bn_id b) b ?bs)" using old by blast
  show "\<forall>ib \<in> set (dict_set (bn_id b) b ?bs). binding_ok ty (bn_event b) ib"
    using old assms(2) set_dict_set_subset [of "bn_id b" b ?bs] by blast
qed

lemma net_ok_put:
  "net_ok net \<Longrightarrow> binding_ok (bn_type b) (bn_event b) (bn_id b, b) \<Longrightarrow> net_ok (put_binding b net)"
  by (simp add: net_ok_def put_binding_def events_ok_put)

lemma events_ok_drop: "events_ok ty evs \<Longrightarrow> events_ok ty (fst (drop_in bid e evs))"
proof (cases "dict_get evs e")
  case (Some bs)
  assume ok: "events_ok ty evs"
  with Some have bs: "dict_wf bs" "\<forall>ib \<in> set bs. binding_ok ty e ib"
    using events_ok_get [OF ok, of e] by (auto simp: dict_get_or_def)
  have "dict_del bid bs \<noteq> [] \<Longrightarrow> events_ok ty (dict_set e (dict_del bid bs) evs)"
    using ok by (rule events_ok_set) (use bs set_dict_del_subset [of bid bs] in auto)
  with Some ok show ?thesis by (simp add: drop_in_def Let_def events_ok_del)
qed (simp add: drop_in_def)

lemma events_ok_drops: "events_ok ty evs \<Longrightarrow> events_ok ty (fst (drop_events bid es evs))"
proof (induction es arbitrary: evs)
  case (Cons e es)
  then show ?case using events_ok_drop [OF Cons.prems, of bid e] by (simp add: case_prod_beta)
qed simp

lemma drop_types_ok:
  "(\<And>ty. events_ok ty (all ty)) \<Longrightarrow> events_ok ty (fst (drop_types bid ev tys all) ty)"
proof (induction tys arbitrary: all)
  case (Cons t tys)
  have "events_ok u ((all(t := fst (drop_events bid es (all t)))) u)" for u es
    using Cons.prems by (simp add: events_ok_drops)
  then have "events_ok ty (fst (drop_types bid ev tys (all(t := fst (drop_events bid es (all t))))) ty)" for es
    by (rule Cons.IH)
  then show ?case by (simp add: Let_def case_prod_beta)
qed simp

section \<open>Attempts keep their shape\<close>

lemma pget_set: "pget (dict_set k v d) k' = (if k' = k then v else pget d k')"
  by (simp add: pget_def dict_get_or_def)

lemma pget_setdefault:
  "pget (dict_setdefault k v d) k' = (if k' = k \<and> \<not> dict_has d k then v else pget d k')"
  by (simp add: dict_setdefault_def pget_set)

lemma dict_has_set: "dict_has (dict_set k v d) k' = (k' = k \<or> dict_has d k')"
  by (auto simp: dict_has_mem)

text \<open>What a mark leaves of a record, field by field.\<close>

definition attempt_of :: "signal_net \<Rightarrow> string \<Rightarrow> pydict" where
  "attempt_of net sid = dict_get_or (net_attempts net) sid []"

lemma attempt_of_set:
  "attempt_of (net\<lparr> net_attempts := dict_set sid a d \<rparr>) sid = a"
  by (simp add: attempt_of_def dict_get_or_def)

lemma record_fields:
  "pget (attempt_of (record_attempt now s st net) (sg_id s)) k =
   (if k = ''signal_id'' then PStr (sg_id s)
    else if k = ''trigger_type'' then PStr (trigger_name (sg_type s))
    else if k = ''trigger_event'' then PStr (sg_event s)
    else if k = ''source'' then PStr (sg_source s)
    else if k = ''meta'' then PDict (sg_meta s)
    else if k = ''status'' then PStr (attempt_status_name st)
    else if k = ''updated_at'' then PFloat now
    else if k = ''created_at'' \<and> \<not> dict_has (attempt_of net (sg_id s)) ''created_at'' then PFloat now
    else case st of
        FailedWith err \<Rightarrow> if k = ''error'' then PStr err else pget (attempt_of net (sg_id s)) k
      | Interrupted reason \<Rightarrow> if k = ''reason'' then PStr reason else pget (attempt_of net (sg_id s)) k
      | _ \<Rightarrow> pget (attempt_of net (sg_id s)) k)"
  by (cases st)
     (simp_all add: record_attempt_def Let_def attempt_of_set dict_update_def pget_set pget_setdefault dict_has_set
        flip: attempt_of_def)

lemma record_other:
  "sid \<noteq> sg_id s \<Longrightarrow>
   dict_get (net_attempts (record_attempt now s st net)) sid = dict_get (net_attempts net) sid"
  by (simp add: record_attempt_def Let_def)

lemma record_frame [simp]:
  "net_bindings (record_attempt now s st net) = net_bindings net"
  "net_registry (record_attempt now s st net) = net_registry net"
  "net_accepted (record_attempt now s st net) = net_accepted net"
  by (simp_all add: record_attempt_def Let_def)

lemma mark_record:
  "mark now s st net = record_attempt now s st (net\<lparr> net_accepted := net_accepted (mark now s st net) \<rparr>)"
  by (cases st)
     (simp_all add: accept_signal_def mark_running_def mark_completed_def mark_failed_def mark_interrupted_def)

lemma attempts_ok_record:
  assumes "attempts_ok (net_attempts net)" and "sg_id s \<noteq> []"
  shows "attempts_ok (net_attempts (record_attempt now s st net))"
proof -
  let ?net = "record_attempt now s st net"
  have *: "net_attempts ?net = dict_set (sg_id s) (attempt_of ?net (sg_id s)) (net_attempts net)"
    by (simp add: record_attempt_def Let_def attempt_of_def dict_get_or_def)
  have "attempt_ok (sg_id s, attempt_of ?net (sg_id s))"
    using assms(2) by (simp add: attempt_ok_def attempt_id_def record_fields)
  with assms(1) set_dict_set_subset show ?thesis
    unfolding * attempts_ok_def by (metis dict_wf_set insertE subset_iff)
qed

lemma net_ok_mark:
  assumes "net_ok net" and "sg_id s \<noteq> []"
  shows "net_ok (mark now s st net)"
  using assms attempts_ok_record [of "net\<lparr> net_accepted := net_accepted (mark now s st net) \<rparr>" s now st]
  by (subst mark_record) (simp add: net_ok_def)

section \<open>Loading\<close>

definition settle :: "pydict \<Rightarrow> pydict" where
  "settle a =
     (if pget a ''status'' \<in> {PStr ''accepted'', PStr ''running''}
      then dict_set ''reason'' (PStr load_reason) (dict_set ''status'' (PStr ''interrupted'') a) else a)"

lemma settle_fields:
  "pget (settle a) ''signal_id'' = pget a ''signal_id''"
  "hashable (pget a ''status'') \<Longrightarrow> hashable (pget (settle a) ''status'')"
  by (simp_all add: settle_def pget_set)

lemma restore_attempt_dict:
  "restore_attempt (PDict a) d =
     (if \<not> truthy (pget a ''signal_id'') then Inr d
      else if hashable (pget a ''status'') then Inr (dict_set (attempt_id a) (settle a) d) else Inl TypeFault)"
  by (auto simp: restore_attempt_def in_names_def Let_def attempt_id_def settle_def pget_set)

lemma restore_attempt_ok:
  "attempts_ok d \<Longrightarrow> restore_attempt v d = Inr d' \<Longrightarrow> attempts_ok d'"
proof (cases v)
  case (PDict a)
  assume "attempts_ok d" and "restore_attempt v d = Inr d'"
  with PDict show ?thesis
    using set_dict_set_subset [of "attempt_id a" "settle a" d] unfolding attempts_ok_def
    by (fastforce simp: restore_attempt_dict attempt_ok_def attempt_id_def settle_fields split: if_splits)
qed (auto simp: restore_attempt_def)

lemma restored_binding_ok:
  "bid \<noteq> [] \<Longrightarrow> binding_ok ty (bn_event (restored_binding reg bid ty st)) (bid, restored_binding reg bid ty st)"
  by (auto simp: binding_ok_def restored_binding_def Let_def py_or_def split: option.splits)

lemma restored_binding_key [simp]:
  "bn_id (restored_binding reg bid ty st) = bid"
  "bn_type (restored_binding reg bid ty st) = ty"
  by (auto simp: restored_binding_def Let_def split: option.splits)

lemma restore_binding_ok:
  assumes "net_ok net" and "restore_binding v net = Inr net'"
  shows "net_ok net'"
proof (cases v)
  case (PDict st)
  with assms(2) consider "net' = net"
    | ty where "snapshot_binding_id st \<noteq> []"
        "net' = put_binding (restored_binding (net_registry net) (snapshot_binding_id st) ty st) net"
    by (auto simp: restore_binding_def Let_def bindE_eq_Inr split: option.splits if_splits)
  then show ?thesis
  proof cases
    case 2
    then show ?thesis using assms(1) by (simp add: net_ok_put restored_binding_ok)
  qed (use assms(1) in simp)
qed (use assms in \<open>auto simp: restore_binding_def\<close>)

lemma net_ok_cleared: "attempts_ok d \<Longrightarrow> net_bindings net = (\<lambda>_. []) \<Longrightarrow> net_attempts net = d \<Longrightarrow> net_ok net"
  by (simp add: net_ok_def events_ok_def)

lemma load_ok: "load_snapshot v net = Inr net' \<Longrightarrow> net_ok net'"
proof (cases "is_mapping v")
  case False
  assume "load_snapshot v net = Inr net'"
  with False show ?thesis
    by (cases v) (auto simp: load_snapshot_def Let_def net_ok_def events_ok_def attempts_ok_def)
next
  case True
  assume load: "load_snapshot v net = Inr net'"
  from True obtain snap where v: "v = PDict snap" by (cases v) auto
  from load obtain states atts bs where
    atts: "foldE restore_attempt states [] = Inr atts" and
    bs: "foldE restore_binding bs (net\<lparr> net_bindings := (\<lambda>_. []), net_attempts := atts, net_accepted := [] \<rparr>) = Inr net'"
    by (auto simp: v load_snapshot_def Let_def bindE_eq_Inr)
  have "attempts_ok atts"
    using atts by (rule foldE_invariant) (simp add: attempts_ok_def, rule restore_attempt_ok)
  then have start: "net_ok (net\<lparr> net_bindings := (\<lambda>_. []), net_attempts := atts, net_accepted := [] \<rparr>)"
    by (rule net_ok_cleared) simp_all
  show ?thesis
    using bs start by (rule foldE_invariant) (rule restore_binding_ok)
qed

definition target_types :: "trigger_type option \<Rightarrow> trigger_type list" where
  "target_types ty = (case ty of None \<Rightarrow> trigger_types | Some t \<Rightarrow> [t])"

lemma unregister_net:
  "unregister_dynamic_handler bid ty e net =
   (net\<lparr> net_bindings := fst (drop_types bid e (target_types ty) (net_bindings net)),
         net_registry := dict_del bid (net_registry net) \<rparr>,
    snd (drop_types bid e (target_types ty) (net_bindings net)))"
  by (simp add: unregister_dynamic_handler_def target_types_def case_prod_beta)

lemma reachable_net_ok: "net_reachable net \<Longrightarrow> net_ok net"
proof (induction rule: net_reachable.induct)
  case start
  show ?case by (simp add: empty_net_def net_ok_def events_ok_def attempts_ok_def)
next
  case (step net oper net')
  show ?case
  proof (cases oper)
    case (RegisterHandler e h info ty bid ref md durable)
    have frame: "net_ok (net\<lparr> net_registry := r \<rparr>)" for r
      using step.IH by (simp add: net_ok_def)
    from step.hyps RegisterHandler show ?thesis
      by (auto simp: register_dynamic_handler_def Let_def bindE_eq_Inr binding_ok_def py_or_def
          intro!: net_ok_put [OF frame] split: if_splits)
  next
    case (UnregisterHandler bid ty e)
    have "events_ok t (net_bindings net t)" for t using step.IH by (simp add: net_ok_def)
    then have "events_ok t (fst (drop_types bid e tys (net_bindings net)) t)" for t tys
      by (rule drop_types_ok)
    then have "net_ok (fst (unregister_dynamic_handler bid ty e net))"
      using step.IH by (simp add: unregister_net net_ok_def)
    with step.hyps(3) UnregisterHandler show ?thesis by simp
  qed (use step in \<open>auto simp: net_ok_mark intro: load_ok\<close>)
qed

end
