(* ===== verification/SignalNetTheorems.thy ===== *)
theory SignalNetTheorems
  imports SignalNetCorrect
begin

text \<open>
  The properties of the signal net: what registration and removal do to every binding, what
  the record of a signal says after a sequence of marks, and what a snapshot brings back.
\<close>

section \<open>Looking bindings up\<close>

lemma at_put:
  "binding_at (put_binding b net) ty e bid =
   (if ty = bn_type b \<and> e = bn_event b \<and> bid = bn_id b then Some b else binding_at net ty e bid)"
  by (simp add: binding_at_def put_binding_def put_in_def dict_get_or_def)

lemma at_registry [simp]: "binding_at (net\<lparr> net_registry := r \<rparr>) ty e bid = binding_at net ty e bid"
  by (simp add: binding_at_def)

lemma at_bindings [simp]:
  "binding_at (net\<lparr> net_bindings := all \<rparr>) ty e bid = dict_get (dict_get_or (all ty) e []) bid"
  by (simp add: binding_at_def)

lemma drop_in_at:
  "dict_get (dict_get_or (fst (drop_in bid e evs)) e' []) i =
   (if e' = e \<and> i = bid then None else dict_get (dict_get_or evs e' []) i)"
proof (cases "dict_get evs e")
  case (Some bs)
  have "dict_get (dict_del bid bs) i = (if i = bid then None else dict_get bs i)" by simp
  with Some show ?thesis
    by (cases "dict_del bid bs = []") (auto simp: drop_in_def Let_def dict_get_or_def)
qed (auto simp: drop_in_def dict_get_or_def)

lemma drop_in_found: "snd (drop_in bid e evs) = (dict_get (dict_get_or evs e []) bid \<noteq> None)"
  by (auto simp: drop_in_def Let_def dict_get_or_def dict_has_iff split: option.splits)

lemma drop_events_at:
  "dict_get (dict_get_or (fst (drop_events bid es evs)) e' []) i =
   (if e' \<in> set es \<and> i = bid then None else dict_get (dict_get_or evs e' []) i)"
  by (induction es arbitrary: evs) (auto simp: case_prod_beta drop_in_at)

lemma drop_events_found:
  "snd (drop_events bid es evs) = (\<exists>e \<in> set es. dict_get (dict_get_or evs e []) bid \<noteq> None)"
proof (induction es arbitrary: evs)
  case (Cons e es)
  have "snd (drop_events bid (e # es) evs) =
      (dict_get (dict_get_or evs e []) bid \<noteq> None \<or>
       (\<exists>f \<in> set es. dict_get (dict_get_or (fst (drop_in bid e evs)) f []) bid \<noteq> None))"
    by (simp only: drop_events.simps case_prod_beta snd_conv drop_in_found Cons.IH)
  then show ?case by (auto simp: drop_in_at split: if_splits)
qed simp

definition target_events :: "string option \<Rightarrow> bindings \<Rightarrow> string list" where
  "target_events ev evs = (case ev of None \<Rightarrow> dict_keys evs | Some e \<Rightarrow> [e])"

lemma drop_types_Cons:
  "drop_types bid ev (t # tys) all =
   (let dropped = drop_events bid (target_events ev (all t)) (all t);
        rest = drop_types bid ev tys (all(t := fst dropped))
    in (fst rest, snd dropped \<or> snd rest))"
  by (simp add: target_events_def Let_def case_prod_beta)

lemma drop_types_at:
  "distinct tys \<Longrightarrow> fst (drop_types bid ev tys all) t =
   (if t \<in> set tys then fst (drop_events bid (target_events ev (all t)) (all t)) else all t)"
  by (induction tys arbitrary: all) (auto simp: drop_types_Cons Let_def simp del: drop_types.simps(2))

lemma drop_types_found:
  "distinct tys \<Longrightarrow> snd (drop_types bid ev tys all) =
   (\<exists>t \<in> set tys. snd (drop_events bid (target_events ev (all t)) (all t)))"
proof (induction tys arbitrary: all)
  case (Cons t tys)
  let ?dropped = "drop_events bid (target_events ev (all t)) (all t)"
  have "(\<exists>u \<in> set tys. snd (drop_events bid (target_events ev ((all(t := fst ?dropped)) u)) ((all(t := fst ?dropped)) u))) =
      (\<exists>u \<in> set tys. snd (drop_events bid (target_events ev (all u)) (all u)))"
    using Cons.prems by (intro bex_cong) auto
  with Cons show ?case by (simp add: drop_types_Cons Let_def del: drop_types.simps(2))
qed simp

text \<open>Whether a removal restricted to a type or an event concerns this place.\<close>

definition concerns :: "trigger_type option \<Rightarrow> string option \<Rightarrow> trigger_type \<Rightarrow> string \<Rightarrow> bool" where
  "concerns ty ev t e \<longleftrightarrow> (ty = None \<or> ty = Some t) \<and> (ev = None \<or> ev = Some e)"

lemma distinct_target_types: "distinct (target_types ty)"
  by (auto simp: target_types_def trigger_types_def split: option.splits)

lemma target_types_iff: "t \<in> set (target_types ty) \<longleftrightarrow> ty = None \<or> ty = Some t"
  by (cases t) (auto simp: target_types_def trigger_types_def split: option.splits)

lemma no_event: "e \<notin> set (dict_keys evs) \<Longrightarrow> dict_get_or evs e d = d"
  by (simp add: dict_get_or_def dict_get_None_iff [THEN iffD2])

lemma drop_targets_at:
  "dict_get (dict_get_or (fst (drop_events bid (target_events ev evs) evs)) e []) i =
   (if i = bid \<and> (ev = None \<or> ev = Some e) then None else dict_get (dict_get_or evs e []) i)"
  using no_event [of e evs]
  by (cases "e \<in> set (dict_keys evs)"; cases ev) (auto simp: drop_events_at target_events_def simp del: drop_events.simps(2))

lemma drop_targets_found:
  "snd (drop_events bid (target_events ev evs) evs) =
   (\<exists>e. (ev = None \<or> ev = Some e) \<and> dict_get (dict_get_or evs e []) bid \<noteq> None)"
proof (cases ev)
  case None
  have "dict_get (dict_get_or evs e []) bid \<noteq> None \<Longrightarrow> e \<in> set (dict_keys evs)" for e
    by (metis no_event map_of.simps(1))
  then show ?thesis
    unfolding drop_events_found target_events_def None option.case by blast
qed (simp add: drop_in_found case_prod_beta target_events_def)

text \<open>
  Unregistering removes exactly the bindings with the id that the type and event filters
  concern, answers whether there were any, and forgets the handler of the id altogether.
\<close>

theorem unregister_exact:
  "binding_at (fst (unregister_dynamic_handler bid ty ev net)) t e i =
     (if i = bid \<and> concerns ty ev t e then None else binding_at net t e i) \<and>
   snd (unregister_dynamic_handler bid ty ev net) = (\<exists>t e. concerns ty ev t e \<and> binding_at net t e bid \<noteq> None) \<and>
   dict_get (net_registry (fst (unregister_dynamic_handler bid ty ev net))) i =
     (if i = bid then None else dict_get (net_registry net) i)"
proof (intro conjI)
  note target = distinct_target_types [of ty] target_types_iff [of _ ty]
  show "binding_at (fst (unregister_dynamic_handler bid ty ev net)) t e i =
      (if i = bid \<and> concerns ty ev t e then None else binding_at net t e i)"
    by (auto simp: unregister_net drop_types_at target drop_targets_at binding_at_def concerns_def)
  show "snd (unregister_dynamic_handler bid ty ev net) =
      (\<exists>t e. concerns ty ev t e \<and> binding_at net t e bid \<noteq> None)"
    by (simp add: unregister_net drop_types_found target drop_targets_found binding_at_def concerns_def Bex_def
        del: not_None_eq)
  show "dict_get (net_registry (fst (unregister_dynamic_handler bid ty ev net))) i =
      (if i = bid then None else dict_get (net_registry net) i)"
    by (simp add: unregister_net)
qed

section \<open>The record of a signal\<close>

fun marks :: "(rat \<times> tf_signal \<times> attempt_status) list \<Rightarrow> signal_net \<Rightarrow> signal_net" where
  "marks [] net = net"
| "marks ((now, s, st) # ms) net = marks ms (mark now s st net)"

definition marks_for :: "string \<Rightarrow> (rat \<times> tf_signal \<times> attempt_status) list \<Rightarrow> (rat \<times> tf_signal \<times> attempt_status) list" where
  "marks_for sid ms = filter (\<lambda>(now, s, st). sg_id s = sid) ms"

lemma marks_append: "marks (ms @ [(now, s, st)]) net = mark now s st (marks ms net)"
  by (induction ms arbitrary: net) auto

lemma attempt_of_mark:
  "attempt_of (mark now s st net) sid =
   (if sid = sg_id s then attempt_of (record_attempt now s st net) sid else attempt_of net sid)"
  by (subst mark_record) (simp add: attempt_of_def dict_get_or_def record_other, simp add: record_attempt_def Let_def)

lemma accepted_mark:
  "is_accepted sid (mark now s st net) =
   (if sid = sg_id s \<and> st \<in> {Accepted, Running} then st = Accepted else is_accepted sid net)"
  by (cases st)
     (auto simp: is_accepted_def accept_signal_def mark_running_def mark_completed_def mark_failed_def
        mark_interrupted_def)

lemma dict_has_setdefault: "dict_has (dict_setdefault k v d) k"
  by (simp add: dict_setdefault_def dict_has_set)

lemma has_mark:
  "dict_has (attempt_of (mark now s st net) sid) ''created_at'' =
   (sid = sg_id s \<or> dict_has (attempt_of net sid) ''created_at'')"
proof (cases "sid = sg_id s")
  case True
  then have "attempt_of (mark now s st net) sid = attempt_of (record_attempt now s st net) (sg_id s)"
    by (simp add: attempt_of_mark)
  then show ?thesis
    using True by (cases st) (simp_all add: record_attempt_def Let_def attempt_of_set dict_has_set
        dict_has_setdefault)
qed (simp add: attempt_of_mark)

text \<open>The fields that depend on the history, after one more mark of the same signal.\<close>

lemma mark_fields:
  fixes net now s st
  defines "a \<equiv> attempt_of net (sg_id s)" and "a' \<equiv> attempt_of (mark now s st net) (sg_id s)"
  shows "pget a' ''status'' = PStr (attempt_status_name st)"
    and "pget a' ''updated_at'' = PFloat now"
    and "pget a' ''created_at'' = (if dict_has a ''created_at'' then pget a ''created_at'' else PFloat now)"
proof -
  have a': "a' = attempt_of (record_attempt now s st net) (sg_id s)"
    by (simp add: a'_def attempt_of_mark)
  show "pget a' ''status'' = PStr (attempt_status_name st)" and "pget a' ''updated_at'' = PFloat now"
    by (simp_all add: a' record_fields)
  show "pget a' ''created_at'' = (if dict_has a ''created_at'' then pget a ''created_at'' else PFloat now)"
    by (cases st) (simp_all add: a' record_fields a_def)
qed

text \<open>
  C34: after any marks, the record of a signal has the status and the time of its last mark
  and the creation time of its first; the signal counts as accepted exactly when its last
  accepted or running mark is an accepted one; signals without a mark are left alone.
\<close>

theorem marks_history:
  assumes "dict_get (net_attempts net) sid = None"
  shows "(case rev (marks_for sid ms) of
      [] \<Rightarrow> dict_get (net_attempts (marks ms net)) sid = None
    | (now, s, st) # _ \<Rightarrow>
        pget (attempt_of (marks ms net) sid) ''status'' = PStr (attempt_status_name st) \<and>
        pget (attempt_of (marks ms net) sid) ''updated_at'' = PFloat now \<and>
        pget (attempt_of (marks ms net) sid) ''created_at'' = PFloat (fst (hd (marks_for sid ms)))) \<and>
    is_accepted sid (marks ms net) =
      (case rev (filter (\<lambda>(now, s, st). st \<in> {Accepted, Running}) (marks_for sid ms)) of
         [] \<Rightarrow> is_accepted sid net
       | (now, s, st) # _ \<Rightarrow> st = Accepted)"
proof (induction ms rule: rev_induct)
  case (snoc m ms)
  obtain now s st where m: "m = (now, s, st)" by (cases m)
  have created: "dict_has (attempt_of (marks ms net) sid) ''created_at'' = (marks_for sid ms \<noteq> [])"
  proof (induction ms rule: rev_induct)
    case Nil
    with assms show ?case by (simp add: marks_for_def attempt_of_def dict_get_or_def dict_has_def)
  next
    case (snoc m ms)
    then show ?case by (cases m) (auto simp: marks_append has_mark marks_for_def)
  qed
  show ?case
  proof (cases "sg_id s = sid")
    case True
    then have "pget (attempt_of (marks (ms @ [m]) net) sid) ''created_at'' =
        PFloat (fst (hd (marks_for sid (ms @ [m]))))"
      using snoc.IH created mark_fields(3) [of now s st "marks ms net"]
      by (cases "rev (marks_for sid ms)") (auto simp: m marks_append marks_for_def hd_append)
    with True snoc.IH show ?thesis
      using mark_fields(1, 2) [of now s st "marks ms net"]
      by (simp add: m marks_append marks_for_def accepted_mark)
  next
    case False
    then have same: "marks_for sid (ms @ [m]) = marks_for sid ms"
        "attempt_of (marks (ms @ [m]) net) sid = attempt_of (marks ms net) sid"
        "is_accepted sid (marks (ms @ [m]) net) = is_accepted sid (marks ms net)"
      by (simp_all add: m marks_append marks_for_def accepted_mark attempt_of_mark)
    have kept: "dict_get (net_attempts (marks (ms @ [m]) net)) sid = dict_get (net_attempts (marks ms net)) sid"
      using False unfolding m marks_append by (subst mark_record) (simp add: record_other)
    then show ?thesis using snoc.IH unfolding same kept by simp
  qed
qed (use assms in \<open>simp add: marks_for_def\<close>)

end
