(* ===== verification/SignalSnapshot.thy ===== *)
theory SignalSnapshot
  imports SignalNetTheorems
begin

text \<open>
  Saving and loading a signal net: the tables are rebuilt entry by entry, bindings get the
  handlers of the loading process, and what an unregistered id loses in the process.
\<close>

section \<open>Snapshots\<close>

text \<open>A restored binding: the same place, the handler of the restoring process.\<close>

definition rebind :: "(string, registered) dict \<Rightarrow> binding \<Rightarrow> binding" where
  "rebind reg b =
     (case dict_get reg (bn_id b) of
        Some (h, ref, md) \<Rightarrow>
          b\<lparr> bn_handler := Some h, bn_handler_ref := PDict ref, bn_metadata := PDict md,
             bn_status := ActiveBinding \<rparr>
      | None \<Rightarrow> b\<lparr> bn_handler := None, bn_status := MissingHandler \<rparr>)"

definition rebound :: "(string, registered) dict \<Rightarrow> bindings \<Rightarrow> bindings" where
  "rebound reg evs = map (\<lambda>(e, bs). (e, map (\<lambda>(bid, b). (bid, rebind reg b)) bs)) evs"

lemma rebind_key [simp]:
  "bn_id (rebind reg b) = bn_id b" "bn_type (rebind reg b) = bn_type b" "bn_event (rebind reg b) = bn_event b"
  by (auto simp: rebind_def split: option.splits)

lemma str_or_empty [simp]: "py_str (py_or (PStr s) (PStr [])) = s"
  by (simp add: py_or_def)

lemma restored_is_rebind:
  "binding_ok ty e (bid, b) \<Longrightarrow> restored_binding reg bid ty (binding_to_snapshot b) = rebind reg b"
  by (cases b)
     (auto simp: binding_ok_def restored_binding_def rebind_def binding_to_snapshot_def pget_def dict_get_or_def
        split: option.splits)

lemma trigger_of_trigger_name: "trigger_of_name (PStr (trigger_name ty)) = Inr (Some ty)"
  by (cases ty) (simp_all add: trigger_of_name_def)

lemma restore_snapshot_binding:
  assumes "binding_ok ty e (bid, b)"
  shows "restore_binding (PDict (binding_to_snapshot b)) net = Inr (put_binding (rebind (net_registry net) b) net)"
proof -
  have "snapshot_binding_id (binding_to_snapshot b) = bid" and "bid \<noteq> []" and ty: "bn_type b = ty"
    using assms by (simp_all add: binding_ok_def snapshot_binding_id_def binding_to_snapshot_def pget_def dict_get_or_def)
  then show ?thesis
    using restored_is_rebind [OF assms, of "net_registry net"]
    by (simp add: restore_binding_def Let_def binding_to_snapshot_def dict_get_or_def trigger_of_trigger_name)
qed

definition good_binding :: "binding \<Rightarrow> bool" where
  "good_binding b \<longleftrightarrow> binding_ok (bn_type b) (bn_event b) (bn_id b, b)"

lemma restore_snapshot_bindings:
  "list_all good_binding bs \<Longrightarrow>
   foldE restore_binding (map (PDict \<circ> binding_to_snapshot) bs) net =
   Inr (fold put_binding (map (rebind (net_registry net)) bs) net)"
  by (induction bs arbitrary: net)
     (auto simp: good_binding_def restore_snapshot_binding put_binding_def)

lemma fold_put_binding:
  "fold put_binding bs net =
   net\<lparr> net_bindings := (\<lambda>ty. fold put_in (filter (\<lambda>b. bn_type b = ty) bs) (net_bindings net ty)) \<rparr>"
  by (induction bs arbitrary: net) (auto simp: put_binding_def fun_eq_iff)

definition flat :: "bindings \<Rightarrow> binding list" where
  "flat evs = concat (map (\<lambda>(e, bs). map snd bs) evs)"

lemma dict_set_past: "k \<notin> fst ` set d \<Longrightarrow> dict_set k v (d @ e) = d @ dict_set k v e"
  by (induction d) auto

lemma dict_get_past: "k \<notin> fst ` set d \<Longrightarrow> dict_get (d @ e) k = dict_get e k"
  by (induction d) auto

lemma put_event:
  assumes "e \<notin> fst ` set evs" and "dict_wf bs" and "\<forall>ib \<in> set bs. binding_ok ty e ib" and "bs \<noteq> []"
  shows "fold put_in (map snd bs) evs = evs @ [(e, bs)]"
proof -
  have tail: "dict_wf (cs @ ds) \<Longrightarrow> \<forall>ib \<in> set ds. binding_ok ty e ib \<Longrightarrow>
      fold put_in (map snd ds) (evs @ [(e, cs)]) = evs @ [(e, cs @ ds)]" for cs ds
  proof (induction ds arbitrary: cs)
    case (Cons d ds)
    obtain i b where d: "d = (i, b)" by (cases d)
    have "put_in b (evs @ [(e, cs)]) = evs @ [(e, cs @ [d])]"
      using Cons.prems assms(1)
      by (simp add: put_in_def d binding_ok_def dict_get_or_def dict_get_past dict_set_past dict_set_append
          del: map_of_append)
    with Cons.IH [of "cs @ [d]"] Cons.prems show ?case by (simp add: d)
  qed simp
  from assms(4) obtain i b ds where bs: "bs = (i, b) # ds" by (cases bs) auto
  have "put_in b evs = evs @ [(e, [(i, b)])]"
    using assms(1, 3) by (simp add: bs put_in_def binding_ok_def dict_set_append dict_get_or_def dict_get_None_iff [THEN iffD2])
  with tail [of "[(i, b)]" ds] assms(2, 3) show ?thesis by (simp add: bs)
qed

lemma put_events:
  "events_ok ty evs \<Longrightarrow> dict_wf (acc @ evs) \<Longrightarrow> fold put_in (flat evs) acc = acc @ evs"
proof (induction evs arbitrary: acc)
  case (Cons ev evs)
  obtain e bs where ev: "ev = (e, bs)" by (cases ev)
  have "fold put_in (map snd bs) acc = acc @ [(e, bs)]"
    by (rule put_event [where ty = ty]) (use Cons.prems in \<open>auto simp: ev events_ok_def\<close>)
  moreover have "fold put_in (flat evs) (acc @ [(e, bs)]) = (acc @ [(e, bs)]) @ evs"
    using Cons.prems by (intro Cons.IH) (auto simp: ev events_ok_def)
  ultimately show ?case by (simp add: ev flat_def)
qed (simp add: flat_def)

lemma binding_ok_rebind: "binding_ok ty e (bid, b) \<Longrightarrow> binding_ok ty e (bid, rebind reg b)"
  by (auto simp: binding_ok_def rebind_def py_or_def split: option.splits)

lemma events_ok_rebound:
  assumes "events_ok ty evs"
  shows "events_ok ty (rebound reg evs)"
  unfolding events_ok_def
proof (intro conjI ballI)
  have "map fst (rebound reg evs) = map fst evs"
    by (simp add: rebound_def case_prod_beta comp_def)
  with assms show "dict_wf (rebound reg evs)" by (simp add: events_ok_def)
next
  fix x assume "x \<in> set (rebound reg evs)"
  then obtain e bs where x: "x = (e, map (\<lambda>(bid, b). (bid, rebind reg b)) bs)" and bs: "(e, bs) \<in> set evs"
    by (auto simp: rebound_def)
  have keys: "map fst (map (\<lambda>(bid, b). (bid, rebind reg b)) bs) = map fst bs"
    by (simp add: case_prod_beta comp_def)
  from assms bs have "bs \<noteq> []" "dict_wf bs" "\<forall>ib \<in> set bs. binding_ok ty e ib"
    by (auto simp: events_ok_def)
  then show "case x of (e, bs) \<Rightarrow> bs \<noteq> [] \<and> dict_wf bs \<and> (\<forall>ib \<in> set bs. binding_ok ty e ib)"
    unfolding x case_prod_conv keys by (auto simp: binding_ok_rebind)
qed

lemma flat_rebound: "flat (rebound reg evs) = map (rebind reg) (flat evs)"
  unfolding flat_def rebound_def map_concat
  by (rule arg_cong [where f = concat]) (simp add: comp_def case_prod_beta)

lemma flat_type:
  assumes "events_ok ty evs" and "b \<in> set (flat evs)"
  shows "good_binding b \<and> bn_type b = ty"
proof -
  from assms(2) obtain e bs i where "(e, bs) \<in> set evs" and "(i, b) \<in> set bs"
    by (auto simp: flat_def)
  with assms(1) have "binding_ok ty e (i, b)" by (auto simp: events_ok_def)
  then show ?thesis by (simp add: good_binding_def binding_ok_def)
qed

lemma filter_flat:
  assumes "\<forall>ty. events_ok ty (all ty)" and "distinct tys"
  shows "filter (\<lambda>b. bn_type b = t) (concat (map (\<lambda>ty. flat (all ty)) tys)) =
    (if t \<in> set tys then flat (all t) else [])"
  using assms(2)
proof (induction tys)
  case (Cons u tys)
  have "filter (\<lambda>b. bn_type b = t) (flat (all u)) = (if u = t then flat (all u) else [])"
    using flat_type [OF assms(1) [rule_format, of u]] by (auto simp: filter_id_conv filter_empty_conv)
  with Cons show ?case by auto
qed simp

lemma all_bindings_flat: "all_bindings net = concat (map (\<lambda>ty. flat (net_bindings net ty)) trigger_types)"
  by (simp add: all_bindings_def flat_def)

lemma in_trigger_types [simp]: "ty \<in> set trigger_types"
  by (cases ty) (simp_all add: trigger_types_def)

lemma distinct_trigger_types [simp]: "distinct trigger_types"
  by (simp add: trigger_types_def)

lemma all_bindings_good: "net_ok net \<Longrightarrow> list_all good_binding (all_bindings net)"
  using flat_type [of _ "net_bindings net _"] by (fastforce simp: net_ok_def all_bindings_flat list_all_iff)

lemma restore_all_bindings:
  assumes "net_ok net" and "net_bindings start = (\<lambda>_. [])"
  shows "foldE restore_binding (map (PDict \<circ> binding_to_snapshot) (all_bindings net)) start =
    Inr (start\<lparr> net_bindings := (\<lambda>ty. rebound (net_registry start) (net_bindings net ty)) \<rparr>)"
proof -
  let ?reg = "net_registry start"
  have ok: "events_ok ty (rebound ?reg (net_bindings net ty))" for ty
    using assms(1) by (simp add: net_ok_def events_ok_rebound)
  have "map (rebind ?reg) (all_bindings net) =
      concat (map (\<lambda>ty. flat (rebound ?reg (net_bindings net ty))) trigger_types)"
    by (simp add: all_bindings_flat map_concat comp_def flat_rebound)
  then have "fold put_binding (map (rebind ?reg) (all_bindings net)) start =
      start\<lparr> net_bindings := (\<lambda>ty. rebound ?reg (net_bindings net ty)) \<rparr>"
    using ok put_events [OF ok, of "[]"] assms(2)
    by (simp add: fold_put_binding filter_flat events_ok_def)
  with restore_snapshot_bindings [OF all_bindings_good [OF assms(1)]] show ?thesis by simp
qed

lemma restore_attempts:
  "\<forall>a \<in> set as. attempt_ok (attempt_id a, a) \<Longrightarrow>
   foldE restore_attempt (map PDict as) acc = Inr (dict_update acc (map (\<lambda>a. (attempt_id a, settle a)) as))"
  by (induction as arbitrary: acc) (auto simp: restore_attempt_dict attempt_ok_def dict_update_def)

lemma mapE_tagged:
  "mapE (\<lambda>a. bindE (k a) (\<lambda>key. Inr (key, a :: 'a))) xs = Inr ys \<Longrightarrow> map snd ys = xs"
  by (induction xs arbitrary: ys) (auto simp: bindE_eq_Inr)

lemma sorted_attempts_perm:
  assumes "attempts_ok (net_attempts net)" and "sorted_attempts net = Inr as"
  shows "set as = snd ` set (net_attempts net)" and "distinct (map attempt_id as)"
proof -
  from assms(2) obtain keyed where tagged:
      "mapE (\<lambda>a. bindE (attempt_key a) (\<lambda>k. Inr (k, a))) (map snd (net_attempts net)) = Inr keyed"
    and "Inr (map snd (sort_key fst keyed)) = (Inr as :: net_error + pydict list)"
    unfolding sorted_attempts_def bindE_eq_Inr by blast
  then have as: "as = map snd (sort_key fst keyed)" by simp
  note keyed = mapE_tagged [OF tagged]
  show "set as = snd ` set (net_attempts net)"
    using arg_cong [OF keyed, of set] by (simp add: as)
  have "map attempt_id (map snd (net_attempts net)) = map fst (net_attempts net)"
    using assms(1) by (auto simp: attempts_ok_def attempt_ok_def)
  with assms(1) have "distinct (map (attempt_id \<circ> snd) keyed)"
    by (simp add: attempts_ok_def flip: keyed map_map)
  then show "distinct (map attempt_id as)"
    by (simp add: as distinct_map)
qed

lemma attempts_restored:
  assumes ok: "attempts_ok d" and as: "set as = snd ` set d" "distinct (map attempt_id as)"
  shows "dict_get (dict_update [] (map (\<lambda>a. (attempt_id a, settle a)) as)) sid =
    map_option settle (dict_get d sid)"
proof -
  let ?new = "map (\<lambda>a. (attempt_id a, settle a)) as"
  have wf: "dict_wf (rev ?new)"
    using as(2) by (simp add: comp_def rev_map [symmetric])
  have id: "(k, a) \<in> set d \<Longrightarrow> attempt_id a = k" for k a
    using ok by (auto simp: attempts_ok_def attempt_ok_def)
  have "dict_get (rev ?new) sid = map_option settle (dict_get d sid)"
  proof (cases "dict_get d sid")
    case None
    then have "sid \<notin> attempt_id ` set as"
      using id by (force simp: as(1) dict_get_None_iff)
    then have "sid \<notin> fst ` set (rev ?new)" by (auto simp: image_iff)
    then have "dict_get (rev ?new) sid = None" by (rule dict_get_None_iff [THEN iffD2])
    then show ?thesis by (simp only: None option.map)
  next
    case (Some a)
    then have "(sid, a) \<in> set d" by (rule dict_get_Some_mem)
    then have "(sid, settle a) \<in> set (rev ?new)"
      using id by (force simp: as(1) image_iff)
    with wf have "dict_get (rev ?new) sid = Some (settle a)" by (rule dict_get_SomeI)
    with Some show ?thesis by simp
  qed
  then show ?thesis by (simp add: dict_get_update split: option.splits)
qed

lemma snapshot_items_list: "pget snap k = PList xs \<Longrightarrow> snapshot_items snap k = Inr xs"
  by (auto simp: snapshot_items_def py_or_def)

lemma snapshot_id_binding [simp]: "snapshot_binding_id (binding_to_snapshot b) = bn_id b"
  by (simp add: snapshot_binding_id_def binding_to_snapshot_def pget_def dict_get_or_def)

lemma missing_in_bindings:
  "set (missing_in reg (map (PDict \<circ> binding_to_snapshot) bs)) =
   {bn_id b | b. b \<in> set bs \<and> bn_id b \<noteq> [] \<and> \<not> dict_has reg (bn_id b)}"
  by (induction bs) (auto simp: missing_in_def Let_def)

lemma load_own_snapshot:
  assumes ok: "net_ok net" and snap: "to_snapshot net = Inr snap"
  shows "\<exists>as. sorted_attempts net = Inr as \<and>
    load_snapshot (PDict snap) other = Inr (other\<lparr>
      net_bindings := (\<lambda>ty. rebound (net_registry other) (net_bindings net ty)),
      net_attempts := dict_update [] (map (\<lambda>a. (attempt_id a, settle a)) as),
      net_accepted := [] \<rparr>) \<and>
    snapshot_missing_handler_ids (PDict snap) other =
      Inr (sort (remdups (missing_in (net_registry other) (map (PDict \<circ> binding_to_snapshot) (all_bindings net)))))"
proof -
  from snap obtain as where as: "sorted_attempts net = Inr as"
    and eq: "pget snap ''bindings'' = PList (map (PDict \<circ> binding_to_snapshot) (all_bindings net))"
      "pget snap ''signal_attempts'' = PList (map PDict as)"
    by (auto simp: to_snapshot_def bindE_eq_Inr pget_def dict_get_or_def)
  from ok have attempts: "attempts_ok (net_attempts net)" by (simp add: net_ok_def)
  have "\<forall>a \<in> set as. attempt_ok (attempt_id a, a)"
    using attempts sorted_attempts_perm(1) [OF attempts as] by (fastforce simp: attempts_ok_def attempt_ok_def)
  then have *: "foldE restore_attempt (map PDict as) [] =
      Inr (dict_update [] (map (\<lambda>a. (attempt_id a, settle a)) as))"
    by (rule restore_attempts)
  show ?thesis
    by (rule exI [of _ as])
       (simp add: as load_snapshot_def Let_def snapshot_items_list [OF eq(1)] snapshot_items_list [OF eq(2)] *
          restore_all_bindings [OF ok] snapshot_missing_handler_ids_def)
qed

text \<open>
  C24: loading the snapshot of a net into any net brings back every binding at its place and
  in the same order, active exactly when the loading process has a handler registered under
  its id; every signal's record comes back, those not finished as interrupted; no signal is
  accepted any more; and the ids reported as missing before loading are those of the
  bindings without a handler.
\<close>

theorem snapshot_roundtrip:
  assumes "net_reachable net" and "to_snapshot net = Inr snap"
  shows "\<exists>net'. load_snapshot (PDict snap) other = Inr net' \<and>
    net_bindings net' = (\<lambda>ty. rebound (net_registry other) (net_bindings net ty)) \<and>
    net_registry net' = net_registry other \<and> net_accepted net' = [] \<and>
    (\<forall>sid. dict_get (net_attempts net') sid = map_option settle (dict_get (net_attempts net) sid)) \<and>
    (\<exists>ids. snapshot_missing_handler_ids (PDict snap) other = Inr ids \<and> sorted ids \<and> distinct ids \<and>
      set ids = {bn_id b | b. b \<in> set (all_bindings net) \<and> dict_get (net_registry other) (bn_id b) = None})"
proof -
  from assms(1) have ok: "net_ok net" by (rule reachable_net_ok)
  then have attempts: "attempts_ok (net_attempts net)" by (simp add: net_ok_def)
  obtain as where as: "sorted_attempts net = Inr as" and load: "load_snapshot (PDict snap) other =
      Inr (other\<lparr> net_bindings := (\<lambda>ty. rebound (net_registry other) (net_bindings net ty)),
        net_attempts := dict_update [] (map (\<lambda>a. (attempt_id a, settle a)) as), net_accepted := [] \<rparr>)"
    and missing: "snapshot_missing_handler_ids (PDict snap) other = Inr (sort (remdups
      (missing_in (net_registry other) (map (PDict \<circ> binding_to_snapshot) (all_bindings net)))))"
    using load_own_snapshot [OF ok assms(2)] by blast
  note restored = attempts_restored [OF attempts sorted_attempts_perm [OF attempts as]]
  have "bn_id b \<noteq> [] \<and> \<not> dict_has (net_registry other) (bn_id b) \<longleftrightarrow>
      dict_get (net_registry other) (bn_id b) = None" if "b \<in> set (all_bindings net)" for b
    using that all_bindings_good [OF ok] by (auto simp: list_all_iff good_binding_def binding_ok_def dict_has_iff
        simp del: not_None_eq)
  then have ids: "set (missing_in (net_registry other) (map (PDict \<circ> binding_to_snapshot) (all_bindings net))) =
      {bn_id b | b. b \<in> set (all_bindings net) \<and> dict_get (net_registry other) (bn_id b) = None}"
    unfolding missing_in_bindings by blast
  show ?thesis
    by (rule exI, intro conjI, rule load) (simp_all add: restored missing ids)
qed

lemma rebound_at:
  "dict_get (dict_get_or (rebound reg evs) e []) i = map_option (rebind reg) (dict_get (dict_get_or evs e []) i)"
proof -
  have inner: "dict_get (map (\<lambda>(bid, b). (bid, rebind reg b)) bs) i = map_option (rebind reg) (dict_get bs i)" for bs
    by (induction bs) auto
  have "dict_get (rebound reg evs) e =
      map_option (map (\<lambda>(bid, b). (bid, rebind reg b))) (dict_get evs e)"
    by (induction evs) (auto simp: rebound_def)
  then show ?thesis by (simp add: dict_get_or_def inner split: option.splits)
qed

lemma active_handlers_at:
  assumes "dict_wf bs"
  shows "(bid, h) \<in> set (active_handlers bs) \<longleftrightarrow>
    (\<exists>b. dict_get bs bid = Some b \<and> bn_handler b = Some h \<and> bn_status b = ActiveBinding)"
proof
  assume "(bid, h) \<in> set (active_handlers bs)"
  then obtain b where "(bid, b) \<in> set bs" and "bn_handler b = Some h" and "bn_status b = ActiveBinding"
    by (auto simp: active_handlers_def split: option.splits if_splits)
  with assms show "\<exists>b. dict_get bs bid = Some b \<and> bn_handler b = Some h \<and> bn_status b = ActiveBinding"
    by auto
next
  assume "\<exists>b. dict_get bs bid = Some b \<and> bn_handler b = Some h \<and> bn_status b = ActiveBinding"
  then obtain b where "(bid, b) \<in> set bs" and "bn_handler b = Some h" and "bn_status b = ActiveBinding"
    by (auto dest: dict_get_Some_mem)
  then show "(bid, h) \<in> set (active_handlers bs)"
    unfolding active_handlers_def by (force intro!: bexI [of _ "(bid, b)"])
qed

text \<open>Which handlers of the overlay a signal reaches.\<close>

lemma iter_handlers_at:
  assumes "net_ok net"
  shows "(bid, h) \<in> set (iter_handlers s (\<lambda>_. []) net) \<longleftrightarrow>
    (\<exists>b. binding_at net (sg_type s) (sg_event s) bid = Some b \<and> bn_handler b = Some h \<and> bn_status b = ActiveBinding)"
proof -
  have "dict_wf (dict_get_or (net_bindings net (sg_type s)) (sg_event s) [])"
    using assms events_ok_get by (auto simp: net_ok_def)
  then have "(bid, h) \<in> set (active_handlers (dict_get_or (net_bindings net (sg_type s)) (sg_event s) [])) \<longleftrightarrow>
      (\<exists>b. binding_at net (sg_type s) (sg_event s) bid = Some b \<and> bn_handler b = Some h \<and> bn_status b = ActiveBinding)"
    unfolding binding_at_def by (rule active_handlers_at)
  then show ?thesis by (simp add: iter_handlers_def dict_get_or_def)
qed

text \<open>
  An id bound under several events that is unregistered for one of them keeps its other
  bindings and they still receive signals, but its handler is forgotten: after saving and
  loading in the same process those bindings are there without a handler and receive nothing.
\<close>

theorem unregister_one_event_orphans:
  assumes "net_reachable net" and "binding_at net t e bid = Some b" and "bn_handler b = Some h"
    and "\<not> concerns ty ev t e" and "net1 = fst (unregister_dynamic_handler bid ty ev net)"
    and "to_snapshot net1 = Inr snap" and "sg_type s = t" and "sg_event s = e"
  shows "(bid, h) \<in> set (iter_handlers s (\<lambda>_. []) net1) \<and>
    (\<exists>net2. load_snapshot (PDict snap) net1 = Inr net2 \<and>
      binding_at net2 t e bid = Some (b\<lparr> bn_handler := None, bn_status := MissingHandler \<rparr>) \<and>
      (\<forall>h'. (bid, h') \<notin> set (iter_handlers s (\<lambda>_. []) net2)))"
proof -
  have "net_reachable net1"
    using net_reachable.step [OF assms(1), where oper = "UnregisterHandler bid ty ev"] by (simp add: assms(5))
  then have ok1: "net_ok net1" by (rule reachable_net_ok)
  have kept: "binding_at net1 t e bid = Some b" and gone: "dict_get (net_registry net1) bid = None"
    using assms(2, 4) drop_targets_at [of bid ev "net_bindings net t" e bid]
    by (auto simp: assms(5) unregister_net drop_types_at distinct_target_types target_types_iff
        concerns_def binding_at_def)
  from kept have "binding_ok t e (bid, b)"
    using ok1 events_ok_get [of t "net_bindings net1 t" e]
    by (auto simp: net_ok_def binding_at_def dest: dict_get_Some_mem)
  then have id: "bn_id b = bid" and active: "bn_status b = ActiveBinding"
    using assms(3) by (cases "bn_status b"; simp add: binding_ok_def)+
  obtain net2 where load: "load_snapshot (PDict snap) net1 = Inr net2"
    and net2: "net_bindings net2 = (\<lambda>ty. rebound (net_registry net1) (net_bindings net1 ty))"
    using load_own_snapshot [OF ok1 assms(6), of net1] by force
  have at2: "binding_at net2 t e bid = Some (b\<lparr> bn_handler := None, bn_status := MissingHandler \<rparr>)"
    using kept gone by (simp add: binding_at_def net2 rebound_at rebind_def id)
  then have "(bid, h') \<notin> set (iter_handlers s (\<lambda>_. []) net2)" for h'
    using load_ok [OF load] assms(7, 8) by (simp add: iter_handlers_at)
  moreover have "(bid, h) \<in> set (iter_handlers s (\<lambda>_. []) net1)"
    using kept assms(3, 7, 8) active by (simp add: iter_handlers_at [OF ok1])
  ultimately show ?thesis using load at2 by blast
qed

section \<open>Witnesses\<close>

definition demo_info :: callable_info where
  "demo_info = \<lparr> ci_name = PStr ''on_tick'', ci_qualname = PNone, ci_module = PNone, ci_file = PNone, ci_line = PNone \<rparr>"

definition demo_signal :: tf_signal where
  "demo_signal = create_signal ''s1'' ''tick'' EventTrigger PNone None ''runtime'' None"

text \<open>One handler bound to two events, and one signal under way.\<close>

definition demo_history :: "net_op list" where
  "demo_history =
     [RegisterHandler ''tick'' (PObj 1 ''f'') demo_info EventTrigger PNone PNone None True,
      RegisterHandler ''tock'' (PObj 1 ''f'') demo_info EventTrigger PNone PNone None True,
      Mark 1 demo_signal Accepted, Mark 2 demo_signal Running]"

lemma history_reachable:
  "list_all op_named opers \<Longrightarrow> net_reachable net \<Longrightarrow> foldE net_step opers net = Inr net' \<Longrightarrow> net_reachable net'"
  by (induction opers arbitrary: net) (auto simp: bindE_eq_Inr intro: net_reachable.step)

definition run_history :: "net_op list \<Rightarrow> signal_net" where
  "run_history opers = (case foldE net_step opers empty_net of Inr net \<Rightarrow> net | Inl _ \<Rightarrow> empty_net)"

lemma run_history_reachable:
  assumes "list_all op_named opers"
  shows "net_reachable (run_history opers)"
proof (cases "foldE net_step opers empty_net")
  case (Inr net)
  with history_reachable [OF assms net_reachable.start] show ?thesis by (simp add: run_history_def)
qed (simp add: run_history_def net_reachable.start)

definition succeeds :: "'e + 'a \<Rightarrow> bool" where
  "succeeds r = (case r of Inl _ \<Rightarrow> False | Inr _ \<Rightarrow> True)"

lemma succeeds_E: "succeeds r \<Longrightarrow> (\<And>a. r = Inr a \<Longrightarrow> P) \<Longrightarrow> P"
  by (cases r) (auto simp: succeeds_def)

lemma demo_named: "list_all op_named demo_history"
  by code_simp

lemma demo_saves: "succeeds (to_snapshot (run_history demo_history))"
  by code_simp

theorem snapshot_roundtrip_witness:
  "\<exists>snap net'. to_snapshot (run_history demo_history) = Inr snap \<and>
    load_snapshot (PDict snap) empty_net = Inr net' \<and>
    net_bindings net' = (\<lambda>ty. rebound [] (net_bindings (run_history demo_history) ty))"
  using snapshot_roundtrip [OF run_history_reachable [OF demo_named], of _ empty_net] demo_saves
  by (auto elim!: succeeds_E simp: empty_net_def)

theorem marks_history_witness:
  "pget (attempt_of (marks [(1, demo_signal, Accepted), (2, demo_signal, Running)] empty_net) ''s1'') ''created_at'' =
   PFloat 1"
  using marks_history [of empty_net "''s1''" "[(1, demo_signal, Accepted), (2, demo_signal, Running)]"]
  by (simp add: empty_net_def marks_for_def demo_signal_def create_signal_def)

theorem unregister_one_event_orphans_witness:
  "\<exists>snap net2. load_snapshot (PDict snap) (fst (unregister_dynamic_handler ''on_tick'' None (Some ''tick'')
      (run_history demo_history))) = Inr net2 \<and>
    (\<exists>b. binding_at net2 EventTrigger ''tock'' ''on_tick'' = Some b \<and> bn_handler b = None)"
proof -
  let ?net1 = "fst (unregister_dynamic_handler ''on_tick'' None (Some ''tick'') (run_history demo_history))"
  have "case binding_at (run_history demo_history) EventTrigger ''tock'' ''on_tick'' of
      Some b \<Rightarrow> bn_handler b = Some (PObj 1 ''f'') | None \<Rightarrow> False"
    by code_simp
  then obtain b where b: "binding_at (run_history demo_history) EventTrigger ''tock'' ''on_tick'' = Some b"
    "bn_handler b = Some (PObj 1 ''f'')" by (auto split: option.splits)
  have "succeeds (to_snapshot ?net1)" by code_simp
  then obtain snap where snap: "to_snapshot ?net1 = Inr snap" by (rule succeeds_E)
  have other: "\<not> concerns None (Some ''tick'') EventTrigger ''tock''" by code_simp
  show ?thesis
    using unregister_one_event_orphans [OF run_history_reachable [OF demo_named] b other refl snap,
        of "create_signal ''s2'' ''tock'' EventTrigger PNone None ''runtime'' None"]
    by (intro exI [of _ snap]) (auto simp: create_signal_def)
qed

end
