(* ===== verification/PolicyApproval.thy ===== *)
theory PolicyApproval
  imports JsonDump StateStore
begin

text \<open>
  Approval of operations by policy (\<open>core/operation/PolicyApproval/PolicyApproval.py\<close> and
  \<open>AccessControlPolicy.py\<close>): handlers by name, normalisation of requests and decisions,
  resolving a request, and the gate of a flow that pauses while a decision is pending and,
  when a chunk is replayed after a resume, claims the interrupt that was made for it.

  Settings are a state store.  Parameters: the answers of handlers that are not built in,
  whether there is a terminal and what is typed there, fresh request ids, and the routing of
  the execution exchange.  Events are the list of what is emitted, in order.
\<close>

datatype policy_error =
    EmptyName
  | NotCallable
  | AlreadyRegistered string
  | NotRegistered string
  | NotAMapping pyval
  | SettingsFault state_error
  | HandlerRaised string

section \<open>Access control\<close>

text \<open>\<open>settings.get(key, default)\<close>\<close>

definition setting :: "state_data \<Rightarrow> string \<Rightarrow> pyval \<Rightarrow> policy_error + pyval" where
  "setting s key dflt =
     (case state_get True key dflt s of Inl e \<Rightarrow> Inl (SettingsFault e) | Inr v \<Rightarrow> Inr v)"

definition access_policy_auto_allow :: "pyval \<Rightarrow> bool" where
  "access_policy_auto_allow policy =
     (case policy of PDict p \<Rightarrow> truthy (dict_get_or p ''auto_allow'' (PBool False)) | _ \<Rightarrow> False)"

definition resolve_access_control_policy :: "state_data option \<Rightarrow> pyval list \<Rightarrow> policy_error + pydict" where
  "resolve_access_control_policy settings overlays =
     bindE (case settings of
              None \<Rightarrow> Inr []
            | Some s \<Rightarrow> bindE (setting s ''access_control_policy'' (PDict [])) (\<lambda>v. Inr (mapping_or_empty v)))
       (\<lambda>base. Inr (dict_setdefault ''auto_allow'' (PBool False)
          (fold (\<lambda>o1 p. dict_update p (mapping_or_empty o1)) overlays base)))"

definition merge_access_control_policy :: "pyval \<Rightarrow> state_data option \<Rightarrow> pyval list \<Rightarrow> policy_error + pydict" where
  "merge_access_control_policy policy settings overlays =
     (let merged = mapping_or_empty policy in
      bindE (resolve_access_control_policy settings overlays) (\<lambda>access.
        Inr (case dict_get merged ''auto_allow'' of
               Some v \<Rightarrow> dict_set ''auto_allow'' (PBool (truthy v)) merged
             | None \<Rightarrow> dict_set ''auto_allow''
                 (PBool (truthy (dict_get_or access ''auto_allow'' (PBool False)))) merged)))"

section \<open>Handlers\<close>

text \<open>A handler that is not built in is an identity; \<open>NoFunction\<close> is an object one cannot call.\<close>

datatype handler = InputTimeoutFail | FailClosed | AutoApprove | AskInput | UserHandler nat | NoFunction

type_synonym handlers = "(string, handler) dict"

definition builtin_names :: "string list" where
  "builtin_names = [''input_timeout_fail'', ''fail_closed'', ''auto_approve'', ''input'']"

definition register_handler :: "pyval \<Rightarrow> handler \<Rightarrow> bool \<Rightarrow> handlers \<Rightarrow> policy_error + handlers" where
  "register_handler name h replace hs =
     (let key = str_strip (py_or name (PStr [])) in
      if key = [] then Inl EmptyName
      else if h = NoFunction then Inl NotCallable
      else if dict_has hs key \<and> \<not> replace then Inl (AlreadyRegistered key)
      else Inr (dict_set key h hs))"

text \<open>The handlers of a new manager: the constructor registers the four built in ones.\<close>

definition new_handlers :: handlers where
  "new_handlers = [(''input_timeout_fail'', InputTimeoutFail), (''fail_closed'', FailClosed),
     (''auto_approve'', AutoApprove), (''input'', AskInput)]"

definition unregister_handler :: "pyval \<Rightarrow> handlers \<Rightarrow> handlers \<times> bool" where
  "unregister_handler name hs =
     (let key = str_strip (py_or name (PStr [])) in
      if key \<in> set builtin_names then (hs, False)
      else (dict_del key hs, dict_has hs key))"

definition list_handlers :: "handlers \<Rightarrow> string list" where
  "list_handlers hs = sort (dict_keys hs)"

definition set_default_handler :: "pyval \<Rightarrow> handlers \<Rightarrow> state_data \<Rightarrow> policy_error + state_data" where
  "set_default_handler name hs s =
     (let key = str_strip (py_or name (PStr [])) in
      if \<not> dict_has hs key then Inl (NotRegistered key)
      else case state_set ''policy_approval.handler'' (PStr key) s of
             Inl e \<Rightarrow> Inl (SettingsFault e)
           | Inr s' \<Rightarrow> Inr s')"

definition resolve_handler_name :: "pyval \<Rightarrow> state_data \<Rightarrow> policy_error + string" where
  "resolve_handler_name h s =
     bindE (if truthy h then Inr h
            else setting s ''policy_approval.handler'' (PStr ''input_timeout_fail''))
       (\<lambda>v. Inr (str_strip (py_or v (PStr ''input_timeout_fail''))))"

section \<open>Requests and decisions\<close>

text \<open>
  \<open>dict(v)\<close> copies a mapping, turns a sequence of pairs into one, and else raises;
  \<open>dict(v or {})\<close> takes nothing for an empty mapping.
\<close>

definition dict_of :: "pyval \<Rightarrow> policy_error + pydict" where
  "dict_of v =
     (case v of
        PDict d \<Rightarrow> Inr d
      | _ \<Rightarrow> (case py_iter v of
                None \<Rightarrow> Inl (NotAMapping v)
              | Some xs \<Rightarrow> bindE (mapE (\<lambda>x. case pair_of x of None \<Rightarrow> Inl (NotAMapping x) | Some p \<Rightarrow> Inr p) xs) (\<lambda>ps. Inr (dict_update [] ps))))"

definition to_dict :: "pyval \<Rightarrow> policy_error + pydict" where
  "to_dict v = dict_of (py_or v (PDict []))"

definition with_text :: "string \<Rightarrow> pyval \<Rightarrow> pydict \<Rightarrow> pydict" where
  "with_text k v d = dict_set k (PStr (py_str v)) d"

definition with_mapping :: "string \<Rightarrow> pydict \<Rightarrow> policy_error + pydict" where
  "with_mapping k d = bindE (to_dict (pget d k)) (\<lambda>m. Inr (dict_set k (PDict m) d))"

text \<open>The id and the text fields first, then the mappings.\<close>

definition request_texts :: "string \<Rightarrow> pydict \<Rightarrow> pydict" where
  "request_texts uid r0 =
     (let r1 = (if str_strip (dict_get_or r0 ''request_id'' (PStr [])) = []
                then dict_set ''request_id'' (PStr uid) r0 else r0);
          r2 = with_text ''source'' (py_or (pget r1 ''source'') (PStr ''runtime'')) r1;
          r3 = with_text ''capability'' (py_or (pget r2 ''capability'') (PStr [])) r2;
          r4 = with_text ''subject'' (py_or (pget r3 ''subject'') (py_or (pget r3 ''capability'') (PStr []))) r3
      in with_text ''risk'' (py_or (pget r4 ''risk'') (PStr [])) r4)"

definition normalize_request :: "string \<Rightarrow> pyval \<Rightarrow> policy_error + pydict" where
  "normalize_request uid request =
     bindE (to_dict request) (\<lambda>r0.
     bindE (with_mapping ''payload'' (request_texts uid r0)) (\<lambda>r6. bindE (with_mapping ''policy'' r6) (\<lambda>r7.
     bindE (with_mapping ''lineage'' r7) (with_mapping ''meta''))))"

datatype approval_status = Approved | Denied | Pending

fun status_name :: "approval_status \<Rightarrow> string" where
  "status_name Approved = ''approved''"
| "status_name Denied = ''denied''"
| "status_name Pending = ''pending''"

record decision =
  d_status :: approval_status
  d_approved :: bool
  d_reason :: string
  d_handler :: string
  d_override :: "pydict option"
  d_wait :: "string option"
  d_meta :: "pydict option"

definition decision_dict :: "decision \<Rightarrow> pydict" where
  "decision_dict d =
     [(''status'', PStr (status_name (d_status d))), (''approved'', PBool (d_approved d)),
      (''reason'', PStr (d_reason d)), (''handler'', PStr (d_handler d))] @
     (case d_override d of None \<Rightarrow> [] | Some p \<Rightarrow> [(''policy_override'', PDict p)]) @
     (case d_wait d of None \<Rightarrow> [] | Some w \<Rightarrow> [(''wait_strategy'', PStr w)]) @
     (case d_meta d of None \<Rightarrow> [] | Some m \<Rightarrow> [(''meta'', PDict m)])"

definition decision_status :: "pydict \<Rightarrow> approval_status" where
  "decision_status raw =
     (let text = lower (strip (py_str (py_or (pget raw ''status'') (PStr [])))) in
      if text = ''approved'' then Approved
      else if text = ''denied'' then Denied
      else if text = ''pending'' then Pending
      else if pget raw ''approved'' = PBool True then Approved
      else if pget raw ''approved'' = PBool False \<and> truthy (pget raw ''reason'') then Denied
      else Pending)"

definition mapping_field :: "pydict \<Rightarrow> string \<Rightarrow> pydict option" where
  "mapping_field d k = (case pget d k of PDict m \<Rightarrow> Some m | _ \<Rightarrow> None)"

definition normalize_decision :: "pyval \<Rightarrow> string \<Rightarrow> policy_error + decision" where
  "normalize_decision v h =
     (case v of
        PBool b \<Rightarrow>
          Inr \<lparr> d_status = (if b then Approved else Denied), d_approved = b,
                d_reason = (if b then ''approved'' else ''denied''), d_handler = h,
                d_override = None, d_wait = None, d_meta = None \<rparr>
      | _ \<Rightarrow>
          bindE (to_dict v) (\<lambda>raw.
            let st = decision_status raw in
            Inr \<lparr> d_status = st, d_approved = (st = Approved),
                  d_reason = py_str (py_or (pget raw ''reason'') (PStr (status_name st))),
                  d_handler = py_str (py_or (pget raw ''handler'') (PStr h)),
                  d_override = mapping_field raw ''policy_override'',
                  d_wait = (if pget raw ''wait_strategy'' = PNone then None
                            else Some (py_str (pget raw ''wait_strategy''))),
                  d_meta = mapping_field raw ''meta'' \<rparr>))"

section \<open>The built in handlers\<close>

text \<open>\<open>None\<close> as an answer: no line within the timeout, or the end of the input.\<close>

record terminal =
  t_interactive :: bool
  t_timed_answer :: "rat \<Rightarrow> string option"
  t_answer :: "string option"

definition subject_text :: "pydict \<Rightarrow> string" where
  "subject_text request = py_str (py_or (pget request ''subject'') (pget request ''capability''))"

definition says_yes :: "string \<Rightarrow> bool" where
  "says_yes answer \<longleftrightarrow> lower (strip answer) \<in> {''y'', ''yes''}"

definition answer_dict :: "string \<Rightarrow> bool \<Rightarrow> string \<Rightarrow> string \<Rightarrow> pyval" where
  "answer_dict status approved wait reason =
     PDict [(''status'', PStr status), (''approved'', PBool approved),
            (''wait_strategy'', PStr wait), (''reason'', PStr reason)]"

definition fail_closed :: "pydict \<Rightarrow> pyval" where
  "fail_closed request =
     answer_dict ''pending'' False ''fail_closed''
       (''Policy approval required for '' @ [CHR 0x27] @ subject_text request @ [CHR 0x27] @ ''.'')"

definition auto_approve :: "pydict \<Rightarrow> pyval" where
  "auto_approve request =
     PDict [(''status'', PStr ''approved''), (''approved'', PBool True),
            (''reason'', PStr (''Auto-approved '' @ [CHR 0x27] @ subject_text request @ [CHR 0x27] @ ''.''))]"

definition input_decision :: "string \<Rightarrow> string \<Rightarrow> pyval" where
  "input_decision wait answer =
     (if says_yes answer then answer_dict ''approved'' True wait ''Approved by input().''
      else answer_dict ''denied'' False wait ''Denied by input().'')"

definition timeout_seconds :: "pyval \<Rightarrow> rat" where
  "timeout_seconds v = (case num_val v of Some q \<Rightarrow> if 0 \<le> q then q else 30 | None \<Rightarrow> 30)"

definition input_timeout_fail :: "terminal \<Rightarrow> state_data \<Rightarrow> pydict \<Rightarrow> policy_error + pyval" where
  "input_timeout_fail t s request =
     bindE (setting s ''policy_approval.input_timeout_seconds'' (PInt 30)) (\<lambda>dflt.
       let policy = mapping_or_empty (dict_get_or request ''policy'' (PDict []));
           seconds = timeout_seconds (dict_get_or policy ''input_timeout_seconds'' dflt)
       in Inr (if \<not> t_interactive t
          then answer_dict ''denied'' False ''input_timeout_fail''
                 (''Policy approval input is unavailable for '' @ [CHR 0x27] @ subject_text request @
                  [CHR 0x27] @ '' in a non-interactive environment.'')
          else case t_timed_answer t seconds of
            None \<Rightarrow> answer_dict ''denied'' False ''input_timeout_fail''
                 (''Policy approval timed out for '' @ [CHR 0x27] @ subject_text request @ [CHR 0x27] @ ''.'')
          | Some answer \<Rightarrow> input_decision ''input_timeout_fail'' answer))"

definition ask_input :: "terminal \<Rightarrow> policy_error + pyval" where
  "ask_input t =
     (case t_answer t of
        None \<Rightarrow> Inl (HandlerRaised ''EOFError'')
      | Some answer \<Rightarrow> Inr (input_decision ''input'' answer))"

section \<open>Resolving a request\<close>

record policy_env =
  pe_settings :: state_data
  pe_handlers :: handlers
  pe_terminal :: terminal
  pe_user :: "nat \<Rightarrow> pydict \<Rightarrow> policy_error + pyval"

definition call_handler :: "policy_env \<Rightarrow> handler \<Rightarrow> pydict \<Rightarrow> policy_error + pyval" where
  "call_handler env h request =
     (case h of
        InputTimeoutFail \<Rightarrow> input_timeout_fail (pe_terminal env) (pe_settings env) request
      | FailClosed \<Rightarrow> Inr (fail_closed request)
      | AutoApprove \<Rightarrow> Inr (auto_approve request)
      | AskInput \<Rightarrow> ask_input (pe_terminal env)
      | UserHandler i \<Rightarrow> pe_user env i request
      | NoFunction \<Rightarrow> Inl NotCallable)"

type_synonym policy_event = "string \<times> pydict \<times> decision option"

text \<open>The decision for a request whose access policy allows it, and for an unknown handler.\<close>

definition auto_allow_decision :: "pydict \<Rightarrow> pyval" where
  "auto_allow_decision request =
     PDict [(''status'', PStr ''approved''), (''approved'', PBool True),
            (''reason'', PStr (''Auto-allowed by host access_control_policy.auto_allow for '' @ [CHR 0x27] @
               subject_text request @ [CHR 0x27] @ ''.'')),
            (''meta'', PDict [(''auto_allow'', PBool True)])]"

definition unknown_handler_decision :: "string \<Rightarrow> pyval" where
  "unknown_handler_decision name =
     PDict [(''status'', PStr ''pending''),
            (''reason'', PStr (''Policy approval handler is not registered: '' @ name)),
            (''wait_strategy'', PStr ''fail_closed'')]"

definition choose_decision :: "policy_env \<Rightarrow> string \<Rightarrow> pydict \<Rightarrow> policy_error + decision" where
  "choose_decision env name request =
     (case dict_get (pe_handlers env) name of
        None \<Rightarrow> normalize_decision (unknown_handler_decision name) name
      | Some h \<Rightarrow> bindE (call_handler env h request) (\<lambda>v. normalize_decision v name))"

definition resolve_request :: "policy_env \<Rightarrow> string \<Rightarrow> pyval \<Rightarrow> pyval \<Rightarrow> policy_event list \<times> (policy_error + decision)" where
  "resolve_request env uid request h =
     (case bindE (normalize_request uid request) (\<lambda>r.
             bindE (merge_access_control_policy (dict_get_or r ''policy'' (PDict [])) (Some (pe_settings env)) []) (\<lambda>p.
             bindE (resolve_handler_name h (pe_settings env)) (\<lambda>name.
               Inr (dict_set ''policy'' (PDict p) r, name)))) of
        Inl e \<Rightarrow> ([], Inl e)
      | Inr (r, name) \<Rightarrow>
          (let requested = (''policy.approval.requested'', r, None);
               outcome = (if access_policy_auto_allow (pget r ''policy'')
                          then normalize_decision (auto_allow_decision r) ''access_control_policy.auto_allow''
                          else choose_decision env name r)
           in case outcome of
                Inl e \<Rightarrow> ([requested], Inl e)
              | Inr d \<Rightarrow> ([requested, (''policy.approval.'' @ status_name (d_status d), r, Some d)], Inr d)))"

section \<open>The gate of a flow\<close>

text \<open>
  What the gate sees of the running chunk: whether it is a replay, the interrupts of the
  execution (\<open>None\<close> when there is no ledger to ask), the value of the resume that triggered
  the replay, and the interrupts claimed so far in this replay.
\<close>

record gate_runtime =
  g_is_resume :: bool
  g_interrupts :: "(string, pyval) dict"
  g_resume :: "pyval option"
  g_claimed :: "string list"

definition identity_keys :: "string list" where
  "identity_keys = [''source'', ''capability'', ''subject'', ''risk'', ''payload'', ''policy'', ''lineage'']"

definition request_identity :: "pyval \<Rightarrow> string option" where
  "request_identity request =
     (case request of
        PDict r \<Rightarrow> Some (stable_json (PDict (map (\<lambda>k. (k, pget r k)) identity_keys)))
      | _ \<Rightarrow> None)"

text \<open>The creation time of an interrupt as a sort key: \<open>bool\<close> counts as a number.\<close>

definition created_key :: "pydict \<Rightarrow> rat" where
  "created_key c = (case num_val (pget c ''created_at'') of Some q \<Rightarrow> q | None \<Rightarrow> 0)"

definition gate_candidate :: "string option \<Rightarrow> pydict \<Rightarrow> string list \<Rightarrow> string \<times> pyval \<Rightarrow> bool" where
  "gate_candidate pinned request claimed iv =
     (case iv of (iid, v) \<Rightarrow>
       (case v of
          PDict c \<Rightarrow>
            pget c ''type'' = PStr ''policy_approval'' \<and> pget c ''status'' = PStr ''resumed'' \<and>
            iid \<notin> set claimed \<and>
            (case pinned of
               Some p \<Rightarrow> iid = p
             | None \<Rightarrow>
                 (case request_identity (pget (mapping_or_empty (pget c ''payload'')) ''request'') of
                    None \<Rightarrow> False
                  | Some i \<Rightarrow> request_identity (PDict request) = Some i))
        | _ \<Rightarrow> False))"

text \<open>The oldest candidate, ties broken by id.\<close>

definition older :: "(string \<times> pyval) \<Rightarrow> (string \<times> pyval) \<Rightarrow> bool" where
  "older a b \<longleftrightarrow>
     (let ka = created_key (mapping_or_empty (snd a)); kb = created_key (mapping_or_empty (snd b))
      in ka < kb \<or> (ka = kb \<and> fst a \<le> fst b))"

fun oldest :: "(string \<times> pyval) list \<Rightarrow> (string \<times> pyval) option" where
  "oldest [] = None"
| "oldest (x # xs) = (case oldest xs of None \<Rightarrow> Some x | Some y \<Rightarrow> Some (if older x y then x else y))"

definition claim_resumed ::
  "string option \<Rightarrow> pydict \<Rightarrow> gate_runtime \<Rightarrow> gate_runtime \<times> (policy_error + decision option)" where
  "claim_resumed pinned request g =
     (if g_interrupts g = [] then
        (g, case g_resume g of
              None \<Rightarrow> Inr None
            | Some v \<Rightarrow> bindE (normalize_decision v ''triggerflow_resume'') (\<lambda>d. Inr (Some d)))
      else
        (case oldest (filter (gate_candidate pinned request (g_claimed g)) (g_interrupts g)) of
           None \<Rightarrow> (g, Inr None)
         | Some (iid, v) \<Rightarrow>
             (g\<lparr> g_claimed := iid # g_claimed g \<rparr>,
              bindE (normalize_decision (pget (mapping_or_empty v) ''resume_value'') ''triggerflow_resume'')
                (\<lambda>d. Inr (Some d)))))"

text \<open>How the gate asks to be paused.\<close>

record pause =
  pa_interrupt_id :: string
  pa_payload :: pydict
  pa_channel :: pyval
  pa_provider :: pyval
  pa_wait_mode :: pyval
  pa_hot_timeout :: pyval
  pa_persistence :: pyval
  pa_audit :: pydict

record gate_options =
  go_handler :: pyval
  go_interrupt_id :: "string option"
  go_channel :: pyval
  go_provider :: pyval
  go_wait_mode :: pyval
  go_hot_timeout :: pyval
  go_persistence :: pyval
  go_audit :: pydict

definition default_options :: gate_options where
  "default_options = \<lparr> go_handler = PNone, go_interrupt_id = None, go_channel = PNone, go_provider = PNone,
     go_wait_mode = PNone, go_hot_timeout = PNone, go_persistence = PNone, go_audit = [] \<rparr>"

datatype gate_outcome = Decided decision | Paused pause

definition routed :: "(pyval \<Rightarrow> policy_error + pydict) \<Rightarrow> pydict \<Rightarrow> gate_options \<Rightarrow> policy_error + gate_options" where
  "routed route request opts =
     (if go_channel opts = PNone \<and> go_provider opts = PNone \<and> go_wait_mode opts = PNone then
        bindE (route (PDict [(''exchange_kind'', PStr ''approval''), (''channel_id'', go_channel opts),
            (''provider_id'', go_provider opts),
            (''audit_metadata'', PDict
              [(''source'', PStr (py_str (py_or (pget request ''source'') (PStr [])))),
               (''subject'', PStr (py_str (py_or (pget request ''subject'') (PStr []))))])])) (\<lambda>r.
          Inr (if r = [] then opts else
            opts\<lparr> go_channel := pget r ''channel_id'', go_provider := pget r ''provider_id'',
                  go_wait_mode := pget r ''wait_mode'',
                  go_hot_timeout := (if go_hot_timeout opts = PNone then pget r ''hot_wait_timeout''
                                     else go_hot_timeout opts),
                  go_persistence := (if go_persistence opts = PNone then pget r ''cold_persistence_policy''
                                     else go_persistence opts) \<rparr>))
      else Inr opts)"

definition pause_for :: "pydict \<Rightarrow> decision \<Rightarrow> gate_options \<Rightarrow> pause" where
  "pause_for request d opts =
     (let text = (\<lambda>k. PStr (py_str (py_or (pget request k) (PStr []))));
          audit = [(''source'', text ''source''), (''subject'', text ''subject''), (''risk'', text ''risk'')]
      in \<lparr> pa_interrupt_id = (case go_interrupt_id opts of
             Some i \<Rightarrow> if i = [] then ''policy:'' @ py_str (dict_get_or request ''request_id'' (PStr [])) else i
           | None \<Rightarrow> ''policy:'' @ py_str (dict_get_or request ''request_id'' (PStr []))),
           pa_payload = [(''request'', PDict request), (''decision'', PDict (decision_dict d))],
           pa_channel = go_channel opts, pa_provider = go_provider opts,
           pa_wait_mode = py_or (go_wait_mode opts) (PStr ''disconnected''),
           pa_hot_timeout = go_hot_timeout opts,
           pa_persistence = py_or (go_persistence opts) (PStr ''persist''),
           pa_audit = dict_update audit (go_audit opts) \<rparr>)"

definition gate ::
  "policy_env \<Rightarrow> state_data option \<Rightarrow> (pyval \<Rightarrow> policy_error + pydict) \<Rightarrow> string \<Rightarrow> pyval \<Rightarrow> gate_options
   \<Rightarrow> gate_runtime \<Rightarrow> gate_runtime \<times> policy_event list \<times> (policy_error + gate_outcome)" where
  "gate env gate_settings route uid request opts g =
     (case bindE (normalize_request uid request) (\<lambda>r.
             bindE (merge_access_control_policy (dict_get_or r ''policy'' (PDict [])) gate_settings []) (\<lambda>p.
               Inr (dict_set ''policy'' (PDict p) r))) of
        Inl e \<Rightarrow> (g, [], Inl e)
      | Inr r \<Rightarrow>
          (case (if g_is_resume g then claim_resumed (go_interrupt_id opts) r g else (g, Inr None)) of
             (g', Inl e) \<Rightarrow> (g', [], Inl e)
           | (g', Inr (Some d)) \<Rightarrow> (g', [(''policy.approval.resumed'', r, Some d)], Inr (Decided d))
           | (g', Inr None) \<Rightarrow>
               (case resolve_request env uid (PDict r) (go_handler opts) of
                  (evs, Inl e) \<Rightarrow> (g', evs, Inl e)
                | (evs, Inr d) \<Rightarrow>
                    (g', evs,
                     if d_status d \<noteq> Pending then Inr (Decided d)
                     else bindE (routed route r opts) (\<lambda>opts'. Inr (Paused (pause_for r d opts')))))))"

end
