(* ===== verification/PolicyTheorems.thy ===== *)
theory PolicyTheorems
  imports PolicyApproval StateCorrect
begin

text \<open>
  The properties of policy approval: where an approval can come from, that normalising is
  idempotent, and that a replayed chunk uses every answer at most once and only for the
  request it was given to.
\<close>

section \<open>Where approvals come from\<close>

text \<open>Which answers approve.\<close>

definition approves :: "pyval \<Rightarrow> bool" where
  "approves v \<longleftrightarrow>
     (case v of
        PBool b \<Rightarrow> b
      | _ \<Rightarrow> (case to_dict v of Inr raw \<Rightarrow> decision_status raw = Approved | Inl _ \<Rightarrow> False))"

text \<open>Which handlers grant a request, in terms of the world outside.\<close>

definition timeout_of :: "state_data \<Rightarrow> pydict \<Rightarrow> pyval" where
  "timeout_of s request =
     dict_get_or (mapping_or_empty (dict_get_or request ''policy'' (PDict []))) ''input_timeout_seconds''
       (case setting s ''policy_approval.input_timeout_seconds'' (PInt 30) of Inr v \<Rightarrow> v | Inl _ \<Rightarrow> PNone)"

definition grants :: "policy_env \<Rightarrow> handler \<Rightarrow> pydict \<Rightarrow> bool" where
  "grants env h request \<longleftrightarrow>
     (case h of
        InputTimeoutFail \<Rightarrow>
          t_interactive (pe_terminal env) \<and>
          (case t_timed_answer (pe_terminal env) (timeout_seconds (timeout_of (pe_settings env) request)) of
             Some answer \<Rightarrow> says_yes answer | None \<Rightarrow> False)
      | FailClosed \<Rightarrow> False
      | AutoApprove \<Rightarrow> True
      | AskInput \<Rightarrow> (case t_answer (pe_terminal env) of Some answer \<Rightarrow> says_yes answer | None \<Rightarrow> False)
      | UserHandler i \<Rightarrow> (case pe_user env i request of Inr v \<Rightarrow> approves v | Inl _ \<Rightarrow> False)
      | NoFunction \<Rightarrow> False)"

lemma normalize_status:
  "normalize_decision v h = Inr d \<Longrightarrow> (d_status d = Approved) = approves v \<and> d_approved d = (d_status d = Approved)"
  by (cases v) (auto simp: normalize_decision_def approves_def bindE_eq_Inr Let_def split: if_splits)

lemma answer_status:
  "decision_status [(''status'', PStr st), (''approved'', PBool ap), (''wait_strategy'', PStr w), (''reason'', PStr r)] =
   (let text = lower (strip st) in
      if text = ''approved'' then Approved else if text = ''denied'' then Denied
      else if text = ''pending'' then Pending
      else if ap then Approved else if r \<noteq> [] then Denied else Pending)"
  by (auto simp: decision_status_def Let_def pget_def dict_get_or_def py_or_def)

lemma status_words [simp]:
  "lower (strip ''approved'') = ''approved''" "lower (strip ''denied'') = ''denied''"
  "lower (strip ''pending'') = ''pending''"
  by code_simp+

lemma approves_answer [simp]:
  "approves (answer_dict ''approved'' ap w r)" "\<not> approves (answer_dict ''denied'' ap w r)"
  "\<not> approves (answer_dict ''pending'' ap w r)"
  by (simp_all add: approves_def answer_dict_def to_dict_def dict_of_def py_or_def answer_status)

lemma approves_auto [simp]: "approves (auto_approve request)"
  by (simp add: approves_def auto_approve_def to_dict_def dict_of_def py_or_def decision_status_def pget_def dict_get_or_def)

lemma approves_allow [simp]: "approves (auto_allow_decision request)"
  by (simp add: approves_def auto_allow_decision_def to_dict_def dict_of_def py_or_def decision_status_def pget_def dict_get_or_def)

lemma approves_unknown [simp]: "\<not> approves (unknown_handler_decision name)"
  by (simp add: approves_def unknown_handler_decision_def to_dict_def dict_of_def py_or_def decision_status_def pget_def dict_get_or_def)

lemma approves_input: "approves (input_decision w answer) = says_yes answer"
  by (simp add: input_decision_def)

lemma input_timeout_grants:
  assumes "input_timeout_fail t s request = Inr v"
  shows "approves v =
    (t_interactive t \<and>
     (case t_timed_answer t (timeout_seconds (timeout_of s request)) of
        Some answer \<Rightarrow> says_yes answer | None \<Rightarrow> False))"
proof -
  obtain dflt where "setting s ''policy_approval.input_timeout_seconds'' (PInt 30) = Inr dflt"
    using assms by (cases "setting s ''policy_approval.input_timeout_seconds'' (PInt 30)")
      (simp_all add: input_timeout_fail_def)
  with assms show ?thesis
    by (cases "t_timed_answer t (timeout_seconds (timeout_of s request))"; cases "t_interactive t")
       (auto simp: input_timeout_fail_def timeout_of_def Let_def approves_input)
qed

lemma call_handler_grants:
  assumes "call_handler env h request = Inr v"
  shows "approves v = grants env h request"
proof (cases h)
  case InputTimeoutFail
  with assms show ?thesis
    by (simp add: call_handler_def grants_def input_timeout_grants)
next
  case AskInput
  with assms show ?thesis
    by (cases "t_answer (pe_terminal env)") (auto simp: call_handler_def grants_def ask_input_def approves_input)
qed (use assms in \<open>auto simp: call_handler_def grants_def fail_closed_def\<close>)

lemma choose_decision_status:
  assumes "choose_decision env name request = Inr d"
  shows "(d_status d = Approved) =
      (case dict_get (pe_handlers env) name of None \<Rightarrow> False | Some h \<Rightarrow> grants env h request) \<and>
    d_approved d = (d_status d = Approved)"
  using assms
  by (auto simp: choose_decision_def bindE_eq_Inr dest!: normalize_status call_handler_grants split: option.splits)

text \<open>Whether a request is allowed without asking: its own policy decides, else the settings.\<close>

definition auto_allowed :: "pyval \<Rightarrow> pyval \<Rightarrow> bool" where
  "auto_allowed policy access =
     (case dict_get (mapping_or_empty policy) ''auto_allow'' of
        Some v \<Rightarrow> truthy v
      | None \<Rightarrow> truthy (dict_get_or (mapping_or_empty access) ''auto_allow'' (PBool False)))"

lemma get_or_setdefault: "dict_get_or (dict_setdefault k v d) k v = dict_get_or d k v"
  by (simp add: dict_get_or_def dict_get_setdefault split: option.splits)

lemma merged_allow:
  assumes "merge_access_control_policy policy (Some s) [] = Inr p"
  shows "\<exists>access. setting s ''access_control_policy'' (PDict []) = Inr access \<and>
    access_policy_auto_allow (PDict p) = auto_allowed policy access"
proof -
  obtain access where access: "setting s ''access_control_policy'' (PDict []) = Inr access"
    using assms by (cases "setting s ''access_control_policy'' (PDict [])")
      (simp_all add: merge_access_control_policy_def resolve_access_control_policy_def Let_def)
  with assms have p: "p = (case dict_get (mapping_or_empty policy) ''auto_allow'' of
       Some v \<Rightarrow> dict_set ''auto_allow'' (PBool (truthy v)) (mapping_or_empty policy)
     | None \<Rightarrow> dict_set ''auto_allow''
         (PBool (truthy (dict_get_or (mapping_or_empty access) ''auto_allow'' (PBool False)))) (mapping_or_empty policy))"
    by (auto simp: merge_access_control_policy_def resolve_access_control_policy_def Let_def get_or_setdefault
        split: option.splits)
  have "access_policy_auto_allow (PDict p) = auto_allowed policy access"
    unfolding p by (cases "dict_get (mapping_or_empty policy) ''auto_allow''")
      (simp_all add: access_policy_auto_allow_def auto_allowed_def dict_get_or_def)
  with access show ?thesis by blast
qed

text \<open>
  C11: a resolved request is approved exactly when its policy allows it without asking (its own
  \<open>auto_allow\<close>, or the settings' when it has none) or the handler it resolves to is
  registered and grants it; an unknown handler never does.  The first event announces the
  request and the second the status of the decision.
\<close>

theorem approval_source:
  assumes "resolve_request env uid request h = (evs, Inr d)"
  shows "\<exists>r0 r name access.
    normalize_request uid request = Inr r0 \<and> resolve_handler_name h (pe_settings env) = Inr name \<and>
    setting (pe_settings env) ''access_control_policy'' (PDict []) = Inr access \<and>
    evs = [(''policy.approval.requested'', r, None), (''policy.approval.'' @ status_name (d_status d), r, Some d)] \<and>
    d_approved d = (d_status d = Approved) \<and>
    (d_status d = Approved) =
      (auto_allowed (dict_get_or r0 ''policy'' (PDict [])) access \<or>
       (case dict_get (pe_handlers env) name of None \<Rightarrow> False | Some g \<Rightarrow> grants env g r))"
proof -
  obtain r0 p name where r0: "normalize_request uid request = Inr r0"
    and p: "merge_access_control_policy (dict_get_or r0 ''policy'' (PDict [])) (Some (pe_settings env)) [] = Inr p"
    and name: "resolve_handler_name h (pe_settings env) = Inr name"
    using assms by (auto simp: resolve_request_def bindE_eq_Inr split: sum.splits)
  define r where "r = dict_set ''policy'' (PDict p) r0"
  obtain access where access: "setting (pe_settings env) ''access_control_policy'' (PDict []) = Inr access"
    and allow: "access_policy_auto_allow (pget r ''policy'') = auto_allowed (dict_get_or r0 ''policy'' (PDict [])) access"
    using merged_allow [OF p] by (auto simp: r_def pget_def dict_get_or_def)
  define outcome where "outcome = (if auto_allowed (dict_get_or r0 ''policy'' (PDict [])) access
      then normalize_decision (auto_allow_decision r) ''access_control_policy.auto_allow''
      else choose_decision env name r)"
  have "outcome = Inr d" and evs: "evs = [(''policy.approval.requested'', r, None), (''policy.approval.'' @ status_name (d_status d), r, Some d)]"
    using assms
    by (cases outcome; simp add: resolve_request_def r0 p name Let_def allow outcome_def flip: r_def)+
  have "d_approved d = (d_status d = Approved) \<and> (d_status d = Approved) =
      (auto_allowed (dict_get_or r0 ''policy'' (PDict [])) access \<or>
       (case dict_get (pe_handlers env) name of None \<Rightarrow> False | Some g \<Rightarrow> grants env g r))"
    using \<open>outcome = Inr d\<close> normalize_status [of "auto_allow_decision r" "''access_control_policy.auto_allow''" d]
      choose_decision_status [of env name r d]
    by (cases "auto_allowed (dict_get_or r0 ''policy'' (PDict [])) access") (auto simp: outcome_def)
  with r0 name access evs show ?thesis by blast
qed
section \<open>A replayed chunk\<close>

text \<open>
  The gates of a replayed chunk, one after the other: for each the interrupt it claimed, if
  any, and what it got.
\<close>

type_synonym gate_call = "string option \<times> pydict"

fun run_gates :: "gate_call list \<Rightarrow> gate_runtime \<Rightarrow> (string option \<times> (policy_error + decision option)) list" where
  "run_gates [] g = []"
| "run_gates ((pinned, request) # gates) g =
     (case claim_resumed pinned request g of
        (g', out) \<Rightarrow>
          (if g_claimed g' = g_claimed g then None else Some (hd (g_claimed g')), out) # run_gates gates g')"

text \<open>The interrupt is a resumed approval that was asked for by this gate.\<close>

definition belongs :: "gate_runtime \<Rightarrow> gate_call \<Rightarrow> string \<Rightarrow> pydict \<Rightarrow> bool" where
  "belongs g call iid c \<longleftrightarrow>
     (iid, PDict c) \<in> set (g_interrupts g) \<and>
     pget c ''type'' = PStr ''policy_approval'' \<and> pget c ''status'' = PStr ''resumed'' \<and>
     (case fst call of
        Some pinned \<Rightarrow> iid = pinned
      | None \<Rightarrow> (\<exists>q. pget (mapping_or_empty (pget c ''payload'')) ''request'' = PDict q \<and>
          list_all (\<lambda>k. canon (pget q k) = canon (pget (snd call) k)) identity_keys))"

lemma sorted_pairs_inject:
  assumes "sort_key fst (map (\<lambda>k. (k, f k)) ks) = sort_key fst (map (\<lambda>k. (k, g k)) ks)" and "k \<in> set ks"
  shows "f k = g k"
proof -
  have "set (map (\<lambda>k. (k, f k)) ks) = set (map (\<lambda>k. (k, g k)) ks)"
    using arg_cong [OF assms(1), of set] by simp
  with assms(2) show ?thesis by force
qed

lemma same_identity:
  assumes "request_identity w = Some i" and "request_identity (PDict r) = Some i"
  shows "\<exists>q. w = PDict q \<and> list_all (\<lambda>k. canon (pget q k) = canon (pget r k)) identity_keys"
proof -
  obtain q where w: "w = PDict q" using assms(1) by (cases w) (auto simp: request_identity_def)
  have "stable_json (PDict (map (\<lambda>k. (k, pget q k)) identity_keys)) =
      stable_json (PDict (map (\<lambda>k. (k, pget r k)) identity_keys))"
    using assms by (simp add: w request_identity_def)
  then have "sort_key fst (map (\<lambda>k. (k, canon (pget q k))) identity_keys) =
      sort_key fst (map (\<lambda>k. (k, canon (pget r k))) identity_keys)"
    by (simp add: stable_json_eq_iff comp_def del: sort_key_simps)
  then show ?thesis using w sorted_pairs_inject by (auto simp: list_all_iff)
qed

lemma candidate_belongs:
  assumes "gate_candidate (fst call) (snd call) claimed (iid, v)" and "(iid, v) \<in> set (g_interrupts g)"
  shows "\<exists>c. v = PDict c \<and> belongs g call iid c"
proof -
  obtain c where v: "v = PDict c" using assms(1) by (cases v) (auto simp: gate_candidate_def)
  with assms same_identity show ?thesis
    by (auto simp: gate_candidate_def belongs_def split: option.splits)
qed

lemma oldest_in: "oldest xs = Some x \<Longrightarrow> x \<in> set xs"
  by (induction xs arbitrary: x) (auto split: option.splits if_splits)

lemma oldest_None [simp]: "oldest xs = None \<longleftrightarrow> xs = []"
  by (cases xs) (auto split: option.splits)

lemma older_total: "older a b \<or> older b a"
  by (auto simp: older_def Let_def)

lemma older_trans: "older a b \<Longrightarrow> older b c \<Longrightarrow> older a c"
  by (auto simp: older_def Let_def)

lemma oldest_least: "oldest xs = Some x \<Longrightarrow> y \<in> set xs \<Longrightarrow> older x y"
proof (induction xs arbitrary: x)
  case (Cons z xs)
  show ?case
  proof (cases "oldest xs")
    case None
    with Cons.prems have "x = z" "y = z" by simp_all
    then show ?thesis using older_total by blast
  next
    case (Some w)
    note w = Cons.IH [OF Some]
    from Some Cons.prems(1) have x: "x = (if older z w then z else w)" by simp
    have xw: "older x w" and xz: "older x z"
      using older_total [of w w] older_total [of z z] older_total [of z w] by (auto simp: x)
    from Cons.prems(2) consider "y = z" | "y \<in> set xs" by auto
    then show ?thesis
    proof cases
      case 2
      with w have "older w y" by blast
      with xw show ?thesis by (rule older_trans)
    qed (use xz in simp)
  qed
qed simp

text \<open>One gate: it claims its oldest unclaimed candidate, or there is none.\<close>

lemma claim_cases:
  assumes "g_interrupts g \<noteq> []"
  obtains (none) "claim_resumed pinned r g = (g, Inr None)"
      "\<forall>iv \<in> set (g_interrupts g). \<not> gate_candidate pinned r (g_claimed g) iv"
  | (claimed) iid v where "(iid, v) \<in> set (g_interrupts g)" "gate_candidate pinned r (g_claimed g) (iid, v)"
      "\<forall>iv \<in> set (g_interrupts g). gate_candidate pinned r (g_claimed g) iv \<longrightarrow> older (iid, v) iv"
      "claim_resumed pinned r g = (g\<lparr> g_claimed := iid # g_claimed g \<rparr>,
         bindE (normalize_decision (pget (mapping_or_empty v) ''resume_value'') ''triggerflow_resume'') (\<lambda>d. Inr (Some d)))"
proof (cases "oldest (filter (gate_candidate pinned r (g_claimed g)) (g_interrupts g))")
  case None
  with assms show ?thesis by (intro none) (auto simp: claim_resumed_def filter_empty_conv)
next
  case (Some iv)
  obtain iid v where iv: "iv = (iid, v)" by (cases iv)
  show ?thesis
    using oldest_in [OF Some] oldest_least [OF Some] assms Some
    by (intro claimed [of iid v]) (auto simp: iv claim_resumed_def)
qed

lemma candidate_unclaimed: "gate_candidate pinned r claimed (iid, v) \<Longrightarrow> iid \<notin> set claimed"
  by (auto simp: gate_candidate_def split: pyval.splits)

lemma candidate_claims:
  "gate_candidate pinned r claimed (iid, v) \<longleftrightarrow> gate_candidate pinned r [] (iid, v) \<and> iid \<notin> set claimed"
  by (auto simp: gate_candidate_def split: pyval.splits)

text \<open>The interrupts claimed so far, from the results.\<close>

definition claims :: "(string option \<times> 'a) list \<Rightarrow> string list" where
  "claims outs = concat (map (\<lambda>(got, _). case got of None \<Rightarrow> [] | Some iid \<Rightarrow> [iid]) outs)"

lemma claims_Cons [simp]:
  "claims ((got, out) # outs) = (case got of None \<Rightarrow> claims outs | Some iid \<Rightarrow> iid # claims outs)"
  by (simp add: claims_def split: option.split)

lemma claims_Nil [simp]: "claims [] = []"
  by (simp add: claims_def)

definition gate_fair :: "gate_runtime \<Rightarrow> gate_call \<Rightarrow> string option \<times> (policy_error + decision option) \<Rightarrow> bool" where
  "gate_fair g call got_out \<longleftrightarrow>
     (case got_out of
        (None, out) \<Rightarrow> out = Inr None
      | (Some iid, out) \<Rightarrow> (\<exists>c. belongs g call iid c \<and>
          out = bindE (normalize_decision (pget c ''resume_value'') ''triggerflow_resume'') (\<lambda>d. Inr (Some d))))"

lemma run_gates_fair:
  assumes "g_interrupts g \<noteq> []"
  shows "list_all2 (gate_fair g) gates (run_gates gates g) \<and>
    distinct (claims (run_gates gates g)) \<and> set (claims (run_gates gates g)) \<inter> set (g_claimed g) = {}"
  using assms
proof (induction gates arbitrary: g)
  case (Cons call gates)
  obtain pinned r where call: "call = (pinned, r)" by (cases call)
  show ?case
  proof (cases rule: claim_cases [OF Cons.prems, of pinned r])
    case 1
    with Cons show ?thesis by (simp add: call gate_fair_def)
  next
    case (2 iid v)
    let ?g = "g\<lparr> g_claimed := iid # g_claimed g \<rparr>"
    from 2(1, 2) obtain c where c: "v = PDict c" "belongs g call iid c"
      using candidate_belongs [of call "g_claimed g" iid v g] by (auto simp: call)
    have same: "gate_fair ?g = gate_fair g"
    proof -
      have at: "belongs ?g = belongs g" by (simp add: fun_eq_iff belongs_def)
      show ?thesis unfolding gate_fair_def at ..
    qed
    have "list_all2 (gate_fair g) gates (run_gates gates ?g) \<and> distinct (claims (run_gates gates ?g)) \<and>
        set (claims (run_gates gates ?g)) \<inter> set (iid # g_claimed g) = {}"
      using Cons.IH [of ?g] Cons.prems by (simp add: same)
    moreover have "gate_fair g call (Some iid, snd (claim_resumed pinned r g))"
      using c 2(4) by (auto simp: gate_fair_def call mapping_or_empty_def)
    ultimately show ?thesis
      using 2(4) candidate_unclaimed [OF 2(2)] by (simp add: call)
  qed
qed simp

lemma run_gates_complete:
  assumes "g_interrupts g \<noteq> []" and "k < length gates" and "fst (run_gates gates g ! k) = None"
    and "(iid, v) \<in> set (g_interrupts g)" and "gate_candidate (fst (gates ! k)) (snd (gates ! k)) [] (iid, v)"
  shows "iid \<in> set (g_claimed g) \<union> set (claims (take k (run_gates gates g)))"
  using assms
proof (induction gates arbitrary: g k)
  case (Cons call gates)
  obtain pinned r where call: "call = (pinned, r)" by (cases call)
  show ?case
  proof (cases k)
    case 0
    with Cons.prems candidate_claims [of pinned r "g_claimed g" iid v] show ?thesis
      by (cases rule: claim_cases [OF Cons.prems(1), of pinned r]) (auto simp: call)
  next
    case (Suc j)
    show ?thesis
    proof (cases rule: claim_cases [OF Cons.prems(1), of pinned r])
      case 1
      with Cons.IH [of g j] Cons.prems Suc show ?thesis by (simp add: call)
    next
      case (2 iid' v')
      with Cons.IH [of "g\<lparr> g_claimed := iid' # g_claimed g \<rparr>" j] Cons.prems Suc show ?thesis
        by (auto simp: call)
    qed
  qed
qed simp

text \<open>
  C17: in a replayed chunk every gate that claims an answer gets the decision of a resumed
  approval interrupt that its caller pinned, or whose recorded request has the same content;
  no interrupt is claimed twice or after an earlier claim; and a gate that claims none leaves
  none of its own unclaimed.
\<close>

theorem gate_claims_once:
  assumes "g_interrupts g \<noteq> []"
  shows "list_all2 (gate_fair g) gates (run_gates gates g) \<and>
    distinct (claims (run_gates gates g)) \<and> set (claims (run_gates gates g)) \<inter> set (g_claimed g) = {} \<and>
    (\<forall>k < length gates. fst (run_gates gates g ! k) = None \<longrightarrow>
       (\<forall>(iid, v) \<in> set (g_interrupts g). gate_candidate (fst (gates ! k)) (snd (gates ! k)) [] (iid, v) \<longrightarrow>
          iid \<in> set (g_claimed g) \<union> set (claims (take k (run_gates gates g)))))"
proof -
  have "iid \<in> set (g_claimed g) \<union> set (claims (take k (run_gates gates g)))"
    if "k < length gates" "fst (run_gates gates g ! k) = None" "(iid, v) \<in> set (g_interrupts g)"
      "gate_candidate (fst (gates ! k)) (snd (gates ! k)) [] (iid, v)" for k iid v
    using run_gates_complete [OF assms that] .
  then show ?thesis using run_gates_fair [OF assms, of gates] by auto
qed
definition shell_request :: pydict where
  "shell_request = [(''source'', PStr ''action''), (''capability'', PStr ''shell'')]"

definition shell_interrupt :: "rat \<Rightarrow> pyval" where
  "shell_interrupt t = PDict [(''type'', PStr ''policy_approval''), (''status'', PStr ''resumed''),
     (''created_at'', PFloat t), (''payload'', PDict [(''request'', PDict shell_request)]),
     (''resume_value'', PBool True)]"

definition replayed :: gate_runtime where
  "replayed = \<lparr> g_is_resume = True, g_interrupts = [(''b'', shell_interrupt 2), (''a'', shell_interrupt 1)],
     g_resume = None, g_claimed = [] \<rparr>"

theorem gate_claims_once_witness:
  "claims (run_gates [(None, shell_request), (None, shell_request), (None, shell_request)] replayed) = [''a'', ''b''] \<and>
   distinct (claims (run_gates [(None, shell_request), (None, shell_request), (None, shell_request)] replayed))"
proof (rule conjI)
  show "claims (run_gates [(None, shell_request), (None, shell_request), (None, shell_request)] replayed) = [''a'', ''b'']"
    by code_simp
  show "distinct (claims (run_gates [(None, shell_request), (None, shell_request), (None, shell_request)] replayed))"
    using gate_claims_once [of replayed "[(None, shell_request), (None, shell_request), (None, shell_request)]"]
    by (simp add: replayed_def)
qed

definition quiet_env :: policy_env where
  "quiet_env = \<lparr> pe_settings = StateData [] None, pe_handlers = new_handlers,
     pe_terminal = \<lparr> t_interactive = False, t_timed_answer = (\<lambda>_. None), t_answer = None \<rparr>,
     pe_user = (\<lambda>_ _. Inl NotCallable) \<rparr>"

theorem approval_source_witness:
  "\<exists>evs d. resolve_request quiet_env ''u1'' (PDict shell_request) (PStr ''auto_approve'') = (evs, Inr d) \<and>
     d_status d = Approved \<and> d_approved d"
proof -
  have "case resolve_request quiet_env ''u1'' (PDict shell_request) (PStr ''auto_approve'') of
      (evs, Inr d) \<Rightarrow> d_status d = Approved | _ \<Rightarrow> False"
    by code_simp
  then obtain evs d where d: "resolve_request quiet_env ''u1'' (PDict shell_request) (PStr ''auto_approve'') = (evs, Inr d)"
    and "d_status d = Approved" by (auto split: prod.splits sum.splits)
  with approval_source [OF d] show ?thesis by blast
qed

section \<open>Normal forms\<close>

lemma str_text [simp]: "py_str (PStr s) = s"
  by simp

lemma to_dict_dict [simp]: "to_dict (PDict d) = Inr d"
  by (cases "d = []") (simp_all add: to_dict_def dict_of_def py_or_def)

lemma with_mapping_same: "dict_get d k = Some (PDict m) \<Longrightarrow> with_mapping k d = Inr d"
  by (simp add: with_mapping_def pget_def dict_get_or_def dict_set_same)

lemma with_mapping_get:
  "with_mapping k d = Inr d' \<Longrightarrow> \<exists>m. dict_get d' k = Some (PDict m) \<and> (\<forall>k'. k' \<noteq> k \<longrightarrow> dict_get d' k' = dict_get d k')"
  by (auto simp: with_mapping_def bindE_eq_Inr)

definition request_normal :: "pydict \<Rightarrow> bool" where
  "request_normal r \<longleftrightarrow>
     str_strip (dict_get_or r ''request_id'' (PStr [])) \<noteq> [] \<and>
     (\<exists>a b c e. dict_get r ''source'' = Some (PStr a) \<and> dict_get r ''capability'' = Some (PStr b) \<and>
        dict_get r ''subject'' = Some (PStr c) \<and> dict_get r ''risk'' = Some (PStr e)) \<and>
     (\<forall>k \<in> {''payload'', ''policy'', ''lineage'', ''meta''}. \<exists>m. dict_get r k = Some (PDict m))"

lemma normalized_request:
  assumes "normalize_request uid request = Inr r" and "strip uid \<noteq> []"
  shows "request_normal r"
proof -
  from assms(1) obtain r0 where
    maps: "bindE (with_mapping ''payload'' (request_texts uid r0)) (\<lambda>r6. bindE (with_mapping ''policy'' r6) (\<lambda>r7.
        bindE (with_mapping ''lineage'' r7) (with_mapping ''meta''))) = Inr r"
    by (auto simp: normalize_request_def bindE_eq_Inr)
  define r5 where "r5 = request_texts uid r0"
  have rid: "str_strip (dict_get_or r5 ''request_id'' (PStr [])) \<noteq> []"
    using assms(2) by (auto simp: r5_def request_texts_def Let_def with_text_def dict_get_or_def str_strip_def)
  have r5: "\<exists>a b c e. dict_get r5 ''source'' = Some (PStr a) \<and> dict_get r5 ''capability'' = Some (PStr b) \<and>
        dict_get r5 ''subject'' = Some (PStr c) \<and> dict_get r5 ''risk'' = Some (PStr e)"
    by (simp add: r5_def request_texts_def Let_def with_text_def)
  from maps obtain r6 r7 r8 where "with_mapping ''payload'' r5 = Inr r6" "with_mapping ''policy'' r6 = Inr r7"
      "with_mapping ''lineage'' r7 = Inr r8" "with_mapping ''meta'' r8 = Inr r"
    by (auto simp: bindE_eq_Inr r5_def)
  from this [THEN with_mapping_get] show ?thesis
    using rid r5 by (auto simp: request_normal_def dict_get_or_def)
qed

lemma normal_request_fixed:
  assumes "request_normal r" and "pget r ''source'' \<noteq> PStr []"
    and "pget r ''subject'' = PStr [] \<longrightarrow> pget r ''capability'' = PStr []"
  shows "normalize_request uid (PDict r) = Inr r"
proof -
  obtain a b c e where fields: "dict_get r ''source'' = Some (PStr a)" "dict_get r ''capability'' = Some (PStr b)"
      "dict_get r ''subject'' = Some (PStr c)" "dict_get r ''risk'' = Some (PStr e)"
    using assms(1) by (auto simp: request_normal_def)
  have "with_text ''source'' (py_or (pget r ''source'') (PStr ''runtime'')) r = r"
      "with_text ''capability'' (py_or (pget r ''capability'') (PStr [])) r = r"
      "with_text ''subject'' (py_or (pget r ''subject'') (py_or (pget r ''capability'') (PStr []))) r = r"
      "with_text ''risk'' (py_or (pget r ''risk'') (PStr [])) r = r"
    using assms(2, 3) fields by (auto simp: with_text_def pget_def dict_get_or_def py_or_def dict_set_same)
  moreover have "\<forall>k \<in> {''payload'', ''policy'', ''lineage'', ''meta''}. with_mapping k r = Inr r"
    using assms(1) with_mapping_same by (fastforce simp: request_normal_def)
  ultimately show ?thesis
    using assms(1) by (simp add: normalize_request_def request_texts_def request_normal_def Let_def)
qed

lemma status_name_read [simp]:
  "decision_status ((''status'', PStr (status_name st)) # rest) = st"
  by (cases st) (simp_all add: decision_status_def Let_def pget_def dict_get_or_def py_or_def)

lemma normalized_decision:
  assumes "normalize_decision v h = Inr d" and "d_reason d \<noteq> []" and "d_handler d \<noteq> []"
  shows "normalize_decision (PDict (decision_dict d)) h' = Inr d"
proof -
  have "d_approved d = (d_status d = Approved)" using normalize_status [OF assms(1)] by blast
  then show ?thesis
    using assms(2, 3)
    by (cases d; cases "d_override d"; cases "d_wait d"; cases "d_meta d")
       (simp_all add: normalize_decision_def decision_dict_def Let_def pget_def dict_get_or_def py_or_def mapping_field_def)
qed

text \<open>
  A normalised request is a fixed point of normalisation, whatever id would be drawn, so
  that the gate, which normalises before it resolves, resolves the very request it looked up;
  and a normalised decision survives being exported and normalised again.  The hypotheses
  leave out objects that print as nothing.
\<close>

theorem normalize_idempotent:
  assumes "normalize_request uid request = Inr r" and "strip uid \<noteq> []" and "pget r ''source'' \<noteq> PStr []"
    and "pget r ''subject'' = PStr [] \<longrightarrow> pget r ''capability'' = PStr []"
    and "normalize_decision v h = Inr d" and "d_reason d \<noteq> []" and "d_handler d \<noteq> []"
  shows "normalize_request uid' (PDict r) = Inr r \<and> normalize_decision (PDict (decision_dict d)) h' = Inr d"
  using normal_request_fixed [OF normalized_request [OF assms(1, 2)] assms(3, 4)]
    normalized_decision [OF assms(5-7)] by blast

theorem normalize_idempotent_witness:
  "\<exists>r d. normalize_request ''u1'' (PDict shell_request) = Inr r \<and> normalize_request ''u2'' (PDict r) = Inr r \<and>
     normalize_decision (PBool True) ''input'' = Inr d \<and> normalize_decision (PDict (decision_dict d)) ''other'' = Inr d"
proof -
  define r where "r = shell_request @ [(''request_id'', PStr ''u1''), (''subject'', PStr ''shell''), (''risk'', PStr []),
    (''payload'', PDict []), (''policy'', PDict []), (''lineage'', PDict []), (''meta'', PDict [])]"
  have r: "normalize_request ''u1'' (PDict shell_request) = Inr r"
    unfolding r_def by code_simp
  obtain d where d: "normalize_decision (PBool True) ''input'' = Inr d" "d_reason d \<noteq> []" "d_handler d \<noteq> []"
    by (simp add: normalize_decision_def)
  have "strip ''u1'' \<noteq> []" by code_simp
  moreover have "pget r ''source'' \<noteq> PStr []" "pget r ''subject'' = PStr [] \<longrightarrow> pget r ''capability'' = PStr []"
    by (simp_all add: r_def shell_request_def pget_def dict_get_or_def)
  ultimately show ?thesis
    using normalize_idempotent [OF r _ _ _ d, of "''u2''" "''other''"] r d by blast
qed

end
