(* ===== verification/ResourceProviders.thy ===== *)
theory ResourceProviders
  imports PolicyApproval
begin

text \<open>
  Providers of execution resources
  (\<open>core/operation/ExecutionResource/ExecutionResource.py\<close>, first half): registration by id
  and by kind, matching of capabilities, probing, and the choice of a provider for a
  requirement.  A probe is asked twice, when candidates are collected and before one is used;
  what it answers each time is a parameter.
\<close>

datatype resource_error =
    NoProviderId
  | NoKinds
  | DuplicateProvider string
  | TypeFault
  | ProviderMissing string
  | ProviderUnavailable string
  | KindRequired
  | BadCandidate nat
  | BadIsolation
  | UnknownRequirement string
  | ApprovalRequired string
  | ApprovalDenied string string
  | EnsureFailed string
  | ReleaseFailed string string
  | HandleGone string
  | PolicyFault policy_error

definition dict_or_fault :: "pyval \<Rightarrow> resource_error + pydict" where
  "dict_or_fault v = (case dict_of v of Inl e \<Rightarrow> Inl (PolicyFault e) | Inr d \<Rightarrow> Inr d)"

definition items_or_fault :: "pyval \<Rightarrow> resource_error + pyval list" where
  "items_or_fault v = (case py_iter v of None \<Rightarrow> Inl TypeFault | Some xs \<Rightarrow> Inr xs)"

section \<open>Providers\<close>

text \<open>An object with the attributes the manager reads; \<open>None\<close> where there is no attribute.\<close>

record provider =
  pv_object :: nat
  pv_provider_id :: pyval
  pv_name :: pyval
  pv_kind :: pyval
  pv_supported :: pyval
  pv_capabilities :: pyval
  pv_probes :: bool

definition provider_ident :: "provider \<Rightarrow> resource_error + string" where
  "provider_ident p =
     (let ident = str_strip (py_or (pv_provider_id p) (py_or (pv_name p) (py_or (pv_kind p) (PStr []))))
      in if ident = [] then Inl NoProviderId else Inr ident)"

definition supported_kinds :: "provider \<Rightarrow> resource_error + string list" where
  "supported_kinds p =
     (let legacy = (if pv_kind p = PNone then [] else str_strip (pv_kind p)) in
      bindE (case pv_supported p of
               PNone \<Rightarrow> Inr (if legacy = [] then [] else [PStr legacy])
             | PStr s \<Rightarrow> Inr [PStr s]
             | v \<Rightarrow> items_or_fault v) (\<lambda>raw.
        let kinds = fold add_member (filter (\<lambda>k. k \<noteq> []) (map str_strip raw)) []
        in if kinds = [] then Inl NoKinds else Inr kinds))"

record resource_manager =
  rm_requirements :: "(string, pydict) dict"
  rm_handles :: "(string, pydict) dict"
  rm_reuse :: "(string, string) dict"
  rm_by_kind :: "(string, (string, provider) dict) dict"
  rm_by_id :: "(string, provider) dict"
  rm_loaded :: bool

definition new_manager :: resource_manager where
  "new_manager = \<lparr> rm_requirements = [], rm_handles = [], rm_reuse = [], rm_by_kind = [], rm_by_id = [],
     rm_loaded = False \<rparr>"

definition add_kind :: "string \<Rightarrow> provider \<Rightarrow> string \<Rightarrow> (string, (string, provider) dict) dict
    \<Rightarrow> (string, (string, provider) dict) dict" where
  "add_kind ident p k d = dict_set k (dict_set ident p (dict_get_or d k [])) d"

text \<open>The id is stored before the kinds are read, which may raise.\<close>

definition register_provider :: "provider \<Rightarrow> resource_manager \<Rightarrow> resource_manager \<times> resource_error option" where
  "register_provider p m =
     (case provider_ident p of
        Inl e \<Rightarrow> (m, Some e)
      | Inr ident \<Rightarrow>
          (case dict_get (rm_by_id m) ident of
             Some q \<Rightarrow> if pv_object q = pv_object p then (m, None) else (m, Some (DuplicateProvider ident))
           | None \<Rightarrow>
               (let m' = m\<lparr> rm_by_id := dict_set ident p (rm_by_id m) \<rparr> in
                case supported_kinds p of
                  Inl e \<Rightarrow> (m', Some e)
                | Inr kinds \<Rightarrow> (m'\<lparr> rm_by_kind := fold (add_kind ident p) kinds (rm_by_kind m') \<rparr>, None))))"

fun register_all :: "provider list \<Rightarrow> resource_manager \<Rightarrow> resource_manager \<times> resource_error option" where
  "register_all [] m = (m, None)"
| "register_all (p # ps) m =
     (case register_provider p m of
        (m', None) \<Rightarrow> register_all ps m'
      | (m', Some e) \<Rightarrow> (m', Some e))"

definition load_plugins :: "provider list \<Rightarrow> resource_manager \<Rightarrow> resource_manager \<times> resource_error option" where
  "load_plugins plugins m =
     (if rm_loaded m then (m, None) else register_all plugins (m\<lparr> rm_loaded := True \<rparr>))"

text \<open>The provider with the id if it serves the kind, else the first one of the kind.\<close>

definition provider_by_id :: "string \<Rightarrow> string option \<Rightarrow> resource_manager \<Rightarrow> resource_error + provider option" where
  "provider_by_id kind ident m =
     (case ident of
        Some i \<Rightarrow>
          (if i = [] then Inr None
           else case dict_get (rm_by_id m) i of
             None \<Rightarrow> Inr None
           | Some p \<Rightarrow> bindE (supported_kinds p) (\<lambda>ks. Inr (if kind \<in> set ks then Some p else None)))
      | None \<Rightarrow> Inr None)"

definition find_provider :: "string \<Rightarrow> string option \<Rightarrow> resource_manager \<Rightarrow> resource_error + provider option" where
  "find_provider kind ident m =
     bindE (provider_by_id kind ident m) (\<lambda>p.
       Inr (case p of
              Some q \<Rightarrow> Some q
            | None \<Rightarrow> (case dict_get_or (rm_by_kind m) kind [] of [] \<Rightarrow> None | (_, q) # _ \<Rightarrow> Some q)))"

definition get_provider :: "provider list \<Rightarrow> string \<Rightarrow> string option \<Rightarrow> resource_manager
    \<Rightarrow> resource_manager \<times> (resource_error + provider)" where
  "get_provider plugins kind ident m =
     (case find_provider kind ident m of
        Inl e \<Rightarrow> (m, Inl e)
      | Inr (Some p) \<Rightarrow> (m, Inr p)
      | Inr None \<Rightarrow>
          (case load_plugins plugins m of
             (m', Some e) \<Rightarrow> (m', Inl e)
           | (m', None) \<Rightarrow>
               (case find_provider kind ident m' of
                  Inl e \<Rightarrow> (m', Inl e)
                | Inr (Some p) \<Rightarrow> (m', Inr p)
                | Inr None \<Rightarrow> (m', Inl (ProviderMissing kind)))))"

section \<open>Capabilities\<close>

text \<open>The first dotted number in a text (\<open>types/data/code_execution.py\<close>).\<close>

function (sequential) dotted_tail :: "string \<Rightarrow> string" where
  "dotted_tail [] = []"
| "dotted_tail (c # s) =
     (if c = CHR ''.'' \<and> takeWhile is_dec_digit s \<noteq> []
      then c # takeWhile is_dec_digit s @ dotted_tail (dropWhile is_dec_digit s) else [])"
  by pat_completeness auto
termination
  by (relation "measure length") (auto simp: le_imp_less_Suc length_dropWhile_le)

definition extract_version :: "string \<Rightarrow> string" where
  "extract_version s =
     (let t = dropWhile (\<lambda>c. \<not> is_dec_digit c) s
      in takeWhile is_dec_digit t @ (if t = [] then [] else dotted_tail (dropWhile is_dec_digit t)))"

definition version_parts :: "pyval \<Rightarrow> int list option" where
  "version_parts v =
     (let t = extract_version (py_str (py_or v (PStr []))) in
      if t = [] then None
      else Some (map (\<lambda>p. case int_of_text p of Some i \<Rightarrow> i | None \<Rightarrow> 0) (split_on (CHR ''.'') t)))"

definition pad :: "nat \<Rightarrow> int list \<Rightarrow> int list" where
  "pad width xs = xs @ replicate (width - length xs) 0"

definition version_less :: "int list \<Rightarrow> int list \<Rightarrow> bool" where
  "version_less a b = (let width = max (length a) (length b) in pad width a < pad width b)"

definition version_equal :: "int list \<Rightarrow> int list \<Rightarrow> bool" where
  "version_equal a b = (let width = max (length a) (length b) in pad width a = pad width b)"

definition tool_matches :: "pydict \<Rightarrow> string \<times> pyval \<Rightarrow> bool" where
  "tool_matches actual = (\<lambda>(tool, raw).
     case pget actual tool of
       PDict found \<Rightarrow>
         dict_get_or found ''available'' (PBool True) = PBool True \<and>
         (let constraint = mapping_or_empty raw;
              have_parts = version_parts (py_or (pget found ''version'') (pget found ''raw_version''));
              minimum = pget constraint ''minimum_version'';
              exact = pget constraint ''exact_version''
          in (minimum = PNone \<or>
                (case (have_parts, version_parts minimum) of
                   (Some a, Some b) \<Rightarrow> \<not> version_less a b | _ \<Rightarrow> False)) \<and>
             (exact = PNone \<or>
                (case (have_parts, version_parts exact) of
                   (Some a, Some b) \<Rightarrow> version_equal a b | _ \<Rightarrow> False)))
     | _ \<Rightarrow> False)"

definition toolchains_match :: "pyval \<Rightarrow> pyval \<Rightarrow> bool" where
  "toolchains_match expected actual =
     (case (expected, actual) of
        (PDict e, PDict a) \<Rightarrow> list_all (tool_matches a) e
      | _ \<Rightarrow> False)"

definition capability_value :: "string \<Rightarrow> pydict \<Rightarrow> pyval" where
  "capability_value key caps =
     (let actual = pget caps key in
      if actual \<noteq> PNone then actual
      else if key = ''language'' then pget caps ''languages''
      else if key = ''workspace_access_mode'' then pget caps ''workspace_access_modes''
      else if key = ''toolchain'' then pget caps ''toolchains''
      else PNone)"

definition isolation_level :: "pyval \<Rightarrow> nat option" where
  "isolation_level v =
     (if v = PStr ''none'' then Some 0 else if v = PStr ''preferred'' then Some 1
      else if v = PStr ''required'' then Some 2 else None)"

fun collection :: "pyval \<Rightarrow> pyval list option" where
  "collection (PList xs) = Some xs"
| "collection (PTuple xs) = Some xs"
| "collection (PSet xs) = Some xs"
| "collection _ = None"

text \<open>\<open>v in c\<close>: a set hashes the value first.\<close>

definition member_of :: "pyval \<Rightarrow> pyval \<Rightarrow> pyval list \<Rightarrow> resource_error + bool" where
  "member_of v c xs =
     (case c of
        PSet _ \<Rightarrow> if hashable v then Inr (py_in v xs) else Inl TypeFault
      | _ \<Rightarrow> Inr (py_in v xs))"

definition plain_match :: "pyval \<Rightarrow> pyval \<Rightarrow> resource_error + bool" where
  "plain_match expected actual =
     (case (collection actual, collection expected) of
        (Some xs, Some es) \<Rightarrow>
          if list_all hashable xs \<and> list_all hashable es then Inr (list_all (\<lambda>e. py_in e xs) es) else Inl TypeFault
      | (Some xs, None) \<Rightarrow> member_of expected actual xs
      | (None, Some es) \<Rightarrow> member_of actual expected es
      | (None, None) \<Rightarrow> Inr (py_eq actual expected))"

fun capability_matches :: "string \<Rightarrow> pyval \<Rightarrow> pydict \<Rightarrow> resource_error + bool"
  and all_match :: "pydict \<Rightarrow> pydict \<Rightarrow> resource_error + bool" where
  "capability_matches key (PDict e) caps =
     (case capability_value key caps of
        PDict a \<Rightarrow> if key = ''toolchains'' then Inr (toolchains_match (PDict e) (PDict a)) else all_match e a
      | _ \<Rightarrow> Inr False)"
| "capability_matches key expected caps =
     (let actual = capability_value key caps in
      if actual = PNone then Inr False
      else if key = ''toolchains'' then Inr False
      else case (isolation_level expected, isolation_level actual) of
        (Some e, Some a) \<Rightarrow> if key = ''isolation'' then Inr (e \<le> a) else plain_match expected actual
      | _ \<Rightarrow> plain_match expected actual)"
| "all_match [] caps = Inr True"
| "all_match ((k, v) # req) caps =
     bindE (capability_matches k v caps) (\<lambda>b. if b then all_match req caps else Inr False)"

section \<open>Probing\<close>

record probe =
  pr_id :: string
  pr_available :: bool
  pr_kinds :: "string list"
  pr_capabilities :: pydict
  pr_reason :: string
  pr_diagnostics :: "pyval list option"
  pr_meta :: pydict

definition probe_eligible :: "probe \<Rightarrow> string \<Rightarrow> pydict \<Rightarrow> resource_error + bool" where
  "probe_eligible pr kind required =
     (if \<not> pr_available pr then Inr False
      else if kind \<notin> set (pr_kinds pr) then Inr False
      else all_match required (pr_capabilities pr))"

text \<open>
  The answers of the world: a probe (by phase and index of the candidate), an ensure, a health
  check, a release, the workspace grant id of a requirement, fresh ids, and the plugins.  A
  probe that raises or answers no mapping is the text of the exception.
\<close>

record world =
  w_policy :: policy_env
  w_plugins :: "provider list"
  w_probe :: "nat \<Rightarrow> nat \<Rightarrow> provider \<Rightarrow> pydict \<Rightarrow> pydict \<Rightarrow> string + pydict"
  w_ensure :: "provider \<Rightarrow> pydict \<Rightarrow> pydict \<Rightarrow> string + pydict"
  w_health :: "provider \<Rightarrow> pydict \<Rightarrow> string + string"
  w_release :: "provider \<Rightarrow> pydict \<Rightarrow> string option"
  w_grant :: "pyval \<Rightarrow> pyval"
  w_fresh :: "nat \<Rightarrow> string"

definition probe_provider :: "world \<Rightarrow> nat \<Rightarrow> nat \<Rightarrow> provider \<Rightarrow> pydict \<Rightarrow> pydict \<Rightarrow> resource_error + probe" where
  "probe_provider w phase i p requirement policy =
     bindE (provider_ident p) (\<lambda>ident. bindE (supported_kinds p) (\<lambda>kinds.
       if \<not> pv_probes p then
         bindE (dict_or_fault (py_or (pv_capabilities p) (PDict []))) (\<lambda>caps.
           Inr \<lparr> pr_id = ident, pr_available = True, pr_kinds = kinds, pr_capabilities = caps,
                 pr_reason = ''legacy provider has no explicit probe'', pr_diagnostics = None, pr_meta = [] \<rparr>)
       else
         (case w_probe w phase i p requirement policy of
            Inl err \<Rightarrow>
              Inr \<lparr> pr_id = ident, pr_available = False, pr_kinds = kinds, pr_capabilities = [],
                    pr_reason = ''probe failed: '' @ take 500 err, pr_diagnostics = None, pr_meta = [] \<rparr>
          | Inr raw \<Rightarrow>
              bindE (dict_or_fault (py_or (dict_get_or raw ''capabilities'' (PDict [])) (PDict []))) (\<lambda>caps.
              bindE (items_or_fault (py_or (dict_get_or raw ''diagnostics'' (PList [])) (PList []))) (\<lambda>diags.
              bindE (dict_or_fault (py_or (dict_get_or raw ''meta'' (PDict [])) (PDict []))) (\<lambda>meta.
                Inr \<lparr> pr_id = ident, pr_available = truthy (dict_get_or raw ''available'' (PBool False)),
                      pr_kinds = kinds, pr_capabilities = caps,
                      pr_reason = take 500 (py_str (dict_get_or raw ''reason'' (PStr []))),
                      pr_diagnostics = Some (take 20 diags), pr_meta = meta \<rparr>))))))"

section \<open>Choosing a provider\<close>

text \<open>A candidate: provider id and the configuration it adds.\<close>

type_synonym candidate = "string \<times> pydict"

definition candidate_of :: "pyval \<Rightarrow> resource_error + candidate" where
  "candidate_of v =
     (case v of
        PDict c \<Rightarrow>
          bindE (dict_or_fault (dict_get_or c ''config'' (PDict []))) (\<lambda>config.
            Inr (py_str (dict_get_or c ''provider_id'' (PStr [])), config))
      | _ \<Rightarrow> Inl TypeFault)"

definition explicit_id :: "pydict \<Rightarrow> string" where
  "explicit_id requirement = str_strip (dict_get_or requirement ''provider_id'' (PStr []))"

definition candidates :: "pydict \<Rightarrow> pyval list \<Rightarrow> resource_manager \<Rightarrow> resource_error + candidate list" where
  "candidates requirement configured m =
     (if explicit_id requirement \<noteq> [] then Inr [(explicit_id requirement, [])]
      else if configured \<noteq> [] then mapE candidate_of configured
      else Inr (map (\<lambda>(i, _). (i, []))
             (dict_get_or (rm_by_kind m) (py_str (dict_get_or requirement ''kind'' (PStr []))) [])))"

definition candidate_requirement :: "pydict \<Rightarrow> candidate \<Rightarrow> resource_error + pydict" where
  "candidate_requirement requirement c =
     bindE (dict_or_fault (dict_get_or requirement ''config'' (PDict []))) (\<lambda>base.
       Inr (dict_set ''config'' (PDict (dict_update base (snd c)))
             (dict_set ''provider_id'' (PStr (fst c)) requirement)))"

record eligible =
  el_index :: nat
  el_id :: string
  el_provider :: provider
  el_requirement :: pydict
  el_preferred :: bool

definition unregistered_probe :: "nat \<Rightarrow> string \<Rightarrow> probe" where
  "unregistered_probe i ident =
     \<lparr> pr_id = ident, pr_available = False, pr_kinds = [], pr_capabilities = [],
       pr_reason = ''provider is not registered for the requested kind'', pr_diagnostics = None,
       pr_meta = [(''candidate_index'', PInt (int i))] \<rparr>"

definition serves :: "resource_manager \<Rightarrow> string \<Rightarrow> string \<Rightarrow> resource_error + provider option" where
  "serves m kind ident =
     (case dict_get (rm_by_id m) ident of
        None \<Rightarrow> Inr None
      | Some p \<Rightarrow> bindE (supported_kinds p) (\<lambda>ks. Inr (if kind \<in> set ks then Some p else None)))"

text \<open>Whether a probe meets the preferences; without preferences every probe does.\<close>

definition prefers :: "probe \<Rightarrow> string \<Rightarrow> pydict \<Rightarrow> resource_error + bool" where
  "prefers pr kind preferred = (if preferred = [] then Inr True else probe_eligible pr kind preferred)"

definition consider_candidate ::
  "world \<Rightarrow> resource_manager \<Rightarrow> string \<Rightarrow> pydict \<Rightarrow> pydict \<Rightarrow> pydict \<Rightarrow> pydict \<Rightarrow> nat \<Rightarrow> candidate
   \<Rightarrow> resource_error + probe \<times> eligible option" where
  "consider_candidate w m kind requirement policy required preferred i c =
     bindE (candidate_requirement requirement c) (\<lambda>creq.
     bindE (serves m kind (fst c)) (\<lambda>found.
       case found of
         None \<Rightarrow> Inr (unregistered_probe i (fst c), None)
       | Some p \<Rightarrow>
           bindE (probe_provider w 0 i p creq policy) (\<lambda>pr0.
             let pr = pr0\<lparr> pr_meta := dict_set ''candidate_index'' (PInt (int i)) (pr_meta pr0) \<rparr> in
             bindE (probe_eligible pr kind required) (\<lambda>ok.
               if \<not> ok then Inr (pr, None)
               else bindE (prefers pr kind preferred) (\<lambda>pref.
                 Inr (pr, Some \<lparr> el_index = i, el_id = fst c, el_provider = p, el_requirement = creq,
                                el_preferred = pref \<rparr>))))))"

fun consider_candidates ::
  "world \<Rightarrow> resource_manager \<Rightarrow> string \<Rightarrow> pydict \<Rightarrow> pydict \<Rightarrow> pydict \<Rightarrow> pydict \<Rightarrow> nat \<Rightarrow> candidate list
   \<Rightarrow> resource_error + probe list \<times> eligible list" where
  "consider_candidates w m kind requirement policy required preferred i [] = Inr ([], [])"
| "consider_candidates w m kind requirement policy required preferred i (c # cs) =
     bindE (consider_candidate w m kind requirement policy required preferred i c) (\<lambda>(pr, el).
     bindE (consider_candidates w m kind requirement policy required preferred (Suc i) cs) (\<lambda>(prs, els).
       Inr (pr # prs, (case el of None \<Rightarrow> els | Some e \<Rightarrow> e # els))))"

definition selection_order :: "pydict \<Rightarrow> eligible list \<Rightarrow> eligible list" where
  "selection_order preferred els =
     (if preferred \<noteq> [] then filter el_preferred els @ filter (\<lambda>e. \<not> el_preferred e) els else els)"

text \<open>Note the answer of the second probe in the record of the first.\<close>

fun record_ensure :: "nat \<Rightarrow> string \<Rightarrow> probe \<Rightarrow> probe list \<Rightarrow> probe list" where
  "record_ensure i ident again [] = []"
| "record_ensure i ident again (pr # prs) =
     (if pr_id pr = ident \<and> py_int (dict_get_or (pr_meta pr) ''candidate_index'' (PInt (-1))) = Some (int i)
      then pr\<lparr> pr_meta := dict_set ''ensure_probe_reason'' (PStr (pr_reason again))
                (dict_set ''ensure_probe_available'' (PBool (pr_available again)) (pr_meta pr)) \<rparr> # prs
      else pr # record_ensure i ident again prs)"

definition selected_dict :: "pydict \<Rightarrow> eligible \<Rightarrow> bool \<Rightarrow> pydict" where
  "selected_dict preferred e pref =
     [(''index'', PInt (int (el_index e))), (''provider_id'', PStr (el_id e))] @
     (if preferred = [] then []
      else [(''preferred_capabilities_satisfied'', PBool (el_preferred e \<and> pref)),
            (''preference_fallback'', PBool (\<not> (el_preferred e \<and> pref)))])"

record selection =
  sl_provider :: provider
  sl_probes :: "probe list"
  sl_requirement :: pydict
  sl_selected :: pydict

fun use_first ::
  "world \<Rightarrow> string \<Rightarrow> pydict \<Rightarrow> pydict \<Rightarrow> pydict \<Rightarrow> eligible list \<Rightarrow> probe list \<Rightarrow> resource_error + selection" where
  "use_first w kind policy required preferred [] probes = Inl (ProviderUnavailable kind)"
| "use_first w kind policy required preferred (e # es) probes =
     bindE (probe_provider w 1 (el_index e) (el_provider e) (el_requirement e) policy) (\<lambda>again.
       let probes' = record_ensure (el_index e) (el_id e) again probes in
       bindE (prefers again kind preferred) (\<lambda>pref.
         if el_preferred e \<and> \<not> pref then use_first w kind policy required preferred es probes'
         else bindE (probe_eligible again kind required) (\<lambda>ok.
           if \<not> ok then use_first w kind policy required preferred es probes'
           else Inr \<lparr> sl_provider = el_provider e, sl_probes = probes', sl_requirement = el_requirement e,
                      sl_selected = selected_dict preferred e pref \<rparr>)))"

definition select_provider ::
  "world \<Rightarrow> pydict \<Rightarrow> pydict \<Rightarrow> resource_manager \<Rightarrow> resource_manager \<times> (resource_error + selection)" where
  "select_provider w requirement policy m =
     (let kind = py_str (dict_get_or requirement ''kind'' (PStr [])) in
      case items_or_fault (dict_get_or requirement ''provider_candidates'' (PList [])) of
        Inl e \<Rightarrow> (m, Inl e)
      | Inr configured \<Rightarrow>
          (case (if dict_get_or (rm_by_kind m) kind [] = [] \<or> explicit_id requirement \<noteq> [] \<or> configured \<noteq> []
                 then load_plugins (w_plugins w) m else (m, None)) of
             (m', Some e) \<Rightarrow> (m', Inl e)
           | (m', None) \<Rightarrow>
               (m', bindE (candidates requirement configured m') (\<lambda>cs.
                  if cs = [] then Inl (ProviderMissing kind)
                  else
                    bindE (dict_or_fault (py_or (dict_get_or requirement ''required_capabilities'' (PDict [])) (PDict []))) (\<lambda>required.
                    bindE (dict_or_fault (py_or (dict_get_or requirement ''preferred_capabilities'' (PDict [])) (PDict []))) (\<lambda>preferred.
                    bindE (consider_candidates w m' kind requirement policy required preferred 0 cs) (\<lambda>(probes, els).
                      if els = [] then Inl (ProviderUnavailable kind)
                      else use_first w kind policy required preferred (selection_order preferred els) probes)))))))"

end
