(* ===== verification/ResourceModel.thy ===== *)
theory ResourceModel
  imports ResourceProviders
begin

text \<open>
  The manager of execution resources (\<open>ExecutionResource.py\<close>, second half): normalising and
  declaring requirements, approval, ensuring a resource with reuse of a healthy handle, and
  releasing it by reference counts.  \<open>ensure\<close> and \<open>release\<close> are the code run without
  interruption; \<open>release_start\<close> and \<open>release_finish\<close> are the parts before and after the
  provider is awaited, for the interleavings.  A handle is a dictionary, as in the code.
\<close>

section \<open>Requirements\<close>

definition text_field :: "pydict \<Rightarrow> string \<Rightarrow> string" where
  "text_field d k = py_str (dict_get_or d k (PStr []))"

definition derive_reuse_key :: "world \<Rightarrow> pydict \<Rightarrow> string" where
  "derive_reuse_key w r =
     (if truthy (pget r ''reuse_key'') then text_field r ''reuse_key''
      else stable_json (PDict
        [(''kind'', dict_get_or r ''kind'' (PStr [])), (''scope'', dict_get_or r ''scope'' (PStr [])),
         (''owner_id'', dict_get_or r ''owner_id'' (PStr [])), (''resource_key'', dict_get_or r ''resource_key'' (PStr [])),
         (''config'', dict_get_or r ''config'' (PDict [])), (''provider_id'', dict_get_or r ''provider_id'' (PStr [])),
         (''provider_candidates'', dict_get_or r ''provider_candidates'' (PList [])),
         (''required_capabilities'', dict_get_or r ''required_capabilities'' (PDict [])),
         (''preferred_capabilities'', dict_get_or r ''preferred_capabilities'' (PDict [])),
         (''task_workspace_access_grant_id'', w_grant w (pget r ''task_workspace_access_grant''))]))"

definition normal_candidate :: "nat \<Rightarrow> pyval \<Rightarrow> resource_error + pyval" where
  "normal_candidate i v =
     bindE (case v of
              PStr s \<Rightarrow> Inr (strip s, [])
            | PDict c \<Rightarrow>
                (case dict_get_or c ''config'' (PDict []) of
                   PDict config \<Rightarrow> Inr (str_strip (dict_get_or c ''provider_id'' (PStr [])), config)
                 | _ \<Rightarrow> Inl (BadCandidate i))
            | _ \<Rightarrow> Inl (BadCandidate i)) (\<lambda>(ident, config).
       if ident = [] then Inl (BadCandidate i)
       else Inr (PDict [(''provider_id'', PStr ident), (''config'', PDict config)]))"

fun normal_candidates :: "nat \<Rightarrow> pyval list \<Rightarrow> resource_error + pyval list" where
  "normal_candidates i [] = Inr []"
| "normal_candidates i (v # vs) =
     bindE (normal_candidate i v) (\<lambda>c. bindE (normal_candidates (Suc i) vs) (\<lambda>cs. Inr (c # cs)))"

definition set_dict_field :: "string \<Rightarrow> pydict \<Rightarrow> resource_error + pydict" where
  "set_dict_field k d =
     bindE (dict_or_fault (dict_get_or d k (PDict []))) (\<lambda>v. Inr (dict_set k (PDict v) d))"

text \<open>A code execution requirement states isolation as axes, not as a label.\<close>

definition isolation_stated :: "pydict \<Rightarrow> string \<Rightarrow> bool" where
  "isolation_stated d grp =
     (case pget (mapping_or_empty (pget d grp)) ''isolation'' of
        PNone \<Rightarrow> True | PDict _ \<Rightarrow> True | _ \<Rightarrow> False)"

text \<open>The id, fresh unless one is given, and the key.\<close>

definition with_identity :: "world \<Rightarrow> string \<Rightarrow> pydict \<Rightarrow> pydict" where
  "with_identity w kind r =
     (let r' = (if truthy (pget r ''requirement_id'') then r
                else dict_set ''requirement_id'' (PStr (kind @ '':'' @ w_fresh w 0)) r)
      in dict_set ''reuse_key'' (PStr (derive_reuse_key w r')) r')"

definition normalize_requirement :: "world \<Rightarrow> pydict \<Rightarrow> pyval \<Rightarrow> pyval \<Rightarrow> resource_error + pydict" where
  "normalize_requirement w requirement scope owner =
     (let kind = str_strip (dict_get_or requirement ''kind'' (PStr [])) in
      if kind = [] then Inl KindRequired
      else
        let r1 = dict_set ''kind'' (PStr kind) requirement;
            r2 = dict_set ''scope'' (py_or scope (dict_get_or r1 ''scope'' (PStr ''action_call''))) r1;
            r3 = dict_set ''owner_id'' (PStr (py_str (py_or owner (dict_get_or r2 ''owner_id'' (PStr ''Agently''))))) r2;
            r4 = dict_set ''resource_key'' (PStr (py_str (dict_get_or r3 ''resource_key'' (PStr kind)))) r3
        in bindE (set_dict_field ''config'' r4) (\<lambda>r5.
           bindE (items_or_fault (dict_get_or r5 ''provider_candidates'' (PList []))) (\<lambda>items.
           bindE (normal_candidates 0 items) (\<lambda>cs.
           bindE (set_dict_field ''required_capabilities'' (dict_set ''provider_candidates'' (PList cs) r5)) (\<lambda>r6.
           bindE (set_dict_field ''preferred_capabilities'' r6) (\<lambda>r7.
             if kind = ''code_execution'' \<and>
                \<not> (isolation_stated r7 ''required_capabilities'' \<and> isolation_stated r7 ''preferred_capabilities'')
             then Inl BadIsolation
             else
               bindE (set_dict_field ''policy'' r7) (\<lambda>r8.
               bindE (set_dict_field ''meta'' r8) (\<lambda>r9.
                 Inr (with_identity w kind r9)))))))))"

section \<open>Events\<close>

text \<open>An event: its type, the payload, and the text of an error.\<close>

type_synonym resource_event = "string \<times> pydict \<times> string option"

definition event_payload :: "pydict \<Rightarrow> string \<Rightarrow> string option \<Rightarrow> pydict" where
  "event_payload source status err =
     (let field = (\<lambda>k. (k, dict_get_or source k (PStr []))) in
      [field ''requirement_id'', field ''handle_id'', field ''kind'', field ''scope'', field ''owner_id'',
       field ''resource_key'', field ''provider_id'',
       (''status'', py_or (PStr status) (dict_get_or source ''status'' (PStr []))),
       (''reuse_key'', py_or (dict_get_or source ''reuse_key'' (PStr []))
          (dict_get_or (mapping_or_empty (dict_get_or source ''meta'' (PDict []))) ''reuse_key'' (PStr [])))] @
      (case err of None \<Rightarrow> [] | Some t \<Rightarrow> if t = [] then [] else [(''error'', PStr t)]))"

definition event :: "string \<Rightarrow> pydict \<Rightarrow> string option \<Rightarrow> resource_event" where
  "event status source err = (''execution_resource.'' @ status, event_payload source status err, err)"

definition declare_requirement ::
  "world \<Rightarrow> pydict \<Rightarrow> resource_manager \<Rightarrow> resource_manager \<times> resource_event list \<times> (resource_error + pydict)" where
  "declare_requirement w requirement m =
     (case normalize_requirement w requirement PNone PNone of
        Inl e \<Rightarrow> (m, [], Inl e)
      | Inr r \<Rightarrow> (m\<lparr> rm_requirements := dict_set (text_field r ''requirement_id'') r (rm_requirements m) \<rparr>,
                  [event ''declared'' r None], Inr r))"

section \<open>Approval\<close>

definition approval_request :: "pydict \<Rightarrow> pydict \<Rightarrow> pydict" where
  "approval_request requirement policy =
     [(''source'', PStr ''execution_resource''),
      (''capability'', PStr (text_field requirement ''kind'')),
      (''subject'', PStr (py_str (py_or (pget requirement ''resource_key'') (py_or (pget requirement ''kind'') (PStr []))))),
      (''risk'', PStr ''resource''),
      (''payload'', PDict [(''requirement'', PDict requirement)]),
      (''policy'', PDict policy),
      (''lineage'', PDict [(''owner_id'', PStr (text_field requirement ''owner_id'')),
                           (''scope'', PStr (text_field requirement ''scope''))]),
      (''meta'', PDict [(''requirement_id'', PStr (text_field requirement ''requirement_id''))])]"

definition needs_approval :: "pydict \<Rightarrow> pydict \<Rightarrow> bool" where
  "needs_approval requirement policy \<longleftrightarrow>
     truthy (dict_get_or requirement ''approval_required'' (PBool False)) \<or>
     py_str (dict_get_or policy ''approval_mode'' (PStr ''auto'')) = ''always''"

definition approved_policy :: "pydict \<Rightarrow> pydict \<Rightarrow> decision \<Rightarrow> resource_error + pydict" where
  "approved_policy requirement policy d =
     (case d_status d of
        Pending \<Rightarrow> Inl (ApprovalRequired (text_field requirement ''requirement_id''))
      | Denied \<Rightarrow> Inl (ApprovalDenied (text_field requirement ''requirement_id'') (d_reason d))
      | Approved \<Rightarrow> Inr (case d_override d of None \<Rightarrow> policy | Some p \<Rightarrow> dict_update policy p))"

definition resolve_approval ::
  "world \<Rightarrow> pydict \<Rightarrow> pydict \<Rightarrow> resource_event list \<times> (resource_error + pydict)" where
  "resolve_approval w requirement policy =
     (let mode = py_str (dict_get_or policy ''approval_mode'' (PStr ''auto'')) in
      if \<not> needs_approval requirement policy then ([], Inr policy)
      else if access_policy_auto_allow (PDict policy) then ([], Inr policy)
      else
        let asked = (''execution_resource.approval_required'', event_payload requirement ''pending_approval'' None, None) in
        if mode = ''never'' then ([asked], Inl (ApprovalDenied (text_field requirement ''requirement_id'')
          ''Execution environment approval is disabled by policy.''))
        else
          let name = py_str (py_or (dict_get_or policy ''policy_approval_handler'' (PStr [])) (PStr [])) in
          case snd (resolve_request (w_policy w) (w_fresh w 2) (PDict (approval_request requirement policy)) (PStr name)) of
            Inl e \<Rightarrow> ([asked], Inl (PolicyFault e))
          | Inr d \<Rightarrow> ([asked], approved_policy requirement policy d))"

section \<open>Releasing\<close>

definition ref_count :: "pydict \<Rightarrow> int \<Rightarrow> resource_error + int" where
  "ref_count h dflt = (case py_int (dict_get_or h ''ref_count'' (PInt dflt)) of None \<Rightarrow> Inl TypeFault | Some n \<Rightarrow> Inr n)"

definition put_handle :: "string \<Rightarrow> pydict \<Rightarrow> resource_manager \<Rightarrow> resource_manager" where
  "put_handle hid h m = m\<lparr> rm_handles := dict_set hid h (rm_handles m) \<rparr>"

text \<open>Changing a handle that may have left the table meanwhile.\<close>

definition change_handle :: "string \<Rightarrow> pydict \<Rightarrow> resource_manager \<Rightarrow> resource_manager" where
  "change_handle hid h m = (if dict_has (rm_handles m) hid then put_handle hid h m else m)"

text \<open>What is left to do up to the point where the provider is awaited.\<close>

datatype release_plan =
    NoCall resource_manager
  | CallRelease resource_manager provider pydict
  | CannotRelease resource_manager resource_error

definition release_start :: "world \<Rightarrow> string \<Rightarrow> bool \<Rightarrow> resource_manager \<Rightarrow> release_plan" where
  "release_start w hid force m =
     (if hid = [] then NoCall m
      else case dict_get (rm_handles m) hid of
        None \<Rightarrow> NoCall m
      | Some h \<Rightarrow>
          (case ref_count h 1 of
             Inl e \<Rightarrow> CannotRelease m e
           | Inr n \<Rightarrow>
               if n > 1 \<and> \<not> force then NoCall (put_handle hid (dict_set ''ref_count'' (PInt (n - 1)) h) m)
               else
                 let pid = text_field h ''provider_id'' in
                 (case get_provider (w_plugins w) (text_field h ''kind'') (if pid = [] then None else Some pid) m of
                    (m', Inl e) \<Rightarrow> CannotRelease m' e
                  | (m', Inr p) \<Rightarrow>
                      let h' = dict_set ''status'' (PStr ''releasing'') h in CallRelease (put_handle hid h' m') p h')))"

definition handle_reuse_key :: "pydict \<Rightarrow> string" where
  "handle_reuse_key h = py_str (dict_get_or (mapping_or_empty (dict_get_or h ''meta'' (PDict []))) ''reuse_key'' (PStr []))"

text \<open>What happens when the provider has answered: \<open>None\<close>, or the text of its exception.\<close>

definition release_finish ::
  "string \<Rightarrow> pydict \<Rightarrow> string option \<Rightarrow> resource_manager
   \<Rightarrow> resource_manager \<times> resource_event list \<times> (resource_error + unit)" where
  "release_finish hid h outcome m =
     (case outcome of
        Some err \<Rightarrow>
          (let h1 = dict_set ''meta'' (PDict (dict_set ''cleanup_error'' (PStr err)
                      (mapping_or_empty (dict_get_or h ''meta'' (PDict [])))))
                    (dict_set ''status'' (PStr ''failed'') h)
           in (change_handle hid h1 m, [event ''failed'' h1 (Some err)], Inl (ReleaseFailed hid err)))
      | None \<Rightarrow>
          (let h1 = dict_set ''status'' (PStr ''released'') h;
               key = handle_reuse_key h1;
               m1 = (if key \<noteq> [] \<and> dict_get (rm_reuse m) key = Some hid
                     then m\<lparr> rm_reuse := dict_del key (rm_reuse m) \<rparr> else m)
           in if \<not> dict_has (rm_handles m1) hid then (m1, [], Inl (HandleGone hid))
              else (m1\<lparr> rm_handles := dict_del hid (rm_handles m1) \<rparr>, [event ''released'' h1 None], Inr ())))"

definition release_handle ::
  "world \<Rightarrow> string \<Rightarrow> bool \<Rightarrow> resource_manager
   \<Rightarrow> resource_manager \<times> resource_event list \<times> (resource_error + unit)" where
  "release_handle w hid force m =
     (case release_start w hid force m of
        NoCall m' \<Rightarrow> (m', [], Inr ())
      | CannotRelease m' e \<Rightarrow> (m', [], Inl e)
      | CallRelease m' p h \<Rightarrow>
          (case release_finish hid h (w_release w p h) m' of
             (m'', evs, r) \<Rightarrow> (m'', event ''releasing'' h None # evs, r)))"

text \<open>A handle, or its id.\<close>

datatype handle_ref = HandleId string | HandleDict pydict

definition release_ref ::
  "world \<Rightarrow> handle_ref \<Rightarrow> resource_manager
   \<Rightarrow> resource_manager \<times> resource_event list \<times> (resource_error + unit)" where
  "release_ref w ref m =
     release_handle w (case ref of HandleId i \<Rightarrow> i | HandleDict h \<Rightarrow> text_field h ''handle_id'') False m"

fun release_all ::
  "world \<Rightarrow> string list \<Rightarrow> resource_manager
   \<Rightarrow> resource_manager \<times> resource_event list \<times> (resource_error + unit)" where
  "release_all w [] m = (m, [], Inr ())"
| "release_all w (hid # hids) m =
     (case release_ref w (HandleId hid) m of
        (m', evs, Inl e) \<Rightarrow> (m', evs, Inl e)
      | (m', evs, Inr _) \<Rightarrow> (case release_all w hids m' of (m'', evs', r) \<Rightarrow> (m'', evs @ evs', r)))"

definition scope_handles :: "pyval \<Rightarrow> pyval \<Rightarrow> resource_manager \<Rightarrow> string list" where
  "scope_handles scope owner m =
     map fst (filter (\<lambda>(_, h). py_eq (pget h ''scope'') scope \<and> py_eq (pget h ''owner_id'') owner) (rm_handles m))"

definition release_scope ::
  "world \<Rightarrow> pyval \<Rightarrow> pyval \<Rightarrow> resource_manager
   \<Rightarrow> resource_manager \<times> resource_event list \<times> (resource_error + unit)" where
  "release_scope w scope owner m = release_all w (scope_handles scope owner m) m"

section \<open>Ensuring\<close>

definition probe_dict :: "probe \<Rightarrow> pyval" where
  "probe_dict pr =
     PDict ([(''provider_id'', PStr (pr_id pr)), (''available'', PBool (pr_available pr)),
            (''supported_kinds'', PList (map PStr (pr_kinds pr))), (''capabilities'', PDict (pr_capabilities pr)),
            (''reason'', PStr (pr_reason pr))] @
       (case pr_diagnostics pr of None \<Rightarrow> [] | Some ds \<Rightarrow> [(''diagnostics'', PList ds)]) @
       [(''meta'', PDict (pr_meta pr))])"

definition manager_key :: "string \<Rightarrow> pydict \<Rightarrow> string" where
  "manager_key ident requirement =
     stable_json (PDict [(''requirement'', PStr (text_field requirement ''reuse_key'')), (''provider_id'', PStr ident)])"

text \<open>Complete what the provider returned.\<close>

definition normal_handle :: "world \<Rightarrow> pydict \<Rightarrow> pydict \<Rightarrow> string \<Rightarrow> string \<Rightarrow> selection \<Rightarrow> pydict \<Rightarrow> resource_error + pydict" where
  "normal_handle w requirement policy ident key sel h0 =
     (let kind = dict_get_or requirement ''kind'' (PStr []);
          given = (\<lambda>k. dict_get_or requirement k (PStr []));
          h1 = dict_setdefault ''handle_id'' (PStr (py_str kind @ '':'' @ w_fresh w 1)) h0;
          h2 = dict_setdefault ''requirement_id'' (given ''requirement_id'') h1;
          h3 = dict_setdefault ''kind'' kind h2;
          h4 = dict_setdefault ''scope'' (dict_get_or requirement ''scope'' (PStr ''action_call'')) h3;
          h5 = dict_setdefault ''owner_id'' (given ''owner_id'') h4;
          h6 = dict_setdefault ''resource_key'' (given ''resource_key'') h5;
          h7 = dict_setdefault ''action_call_id'' (given ''action_call_id'') h6;
          h8 = dict_set ''provider_id'' (PStr ident) h7;
          h9 = dict_setdefault ''status'' (PStr ''ready'') h8;
          h10 = dict_setdefault ''policy'' (PDict policy) h9;
          h11 = dict_setdefault ''ref_count'' (PInt 1) h10;
          h12 = dict_setdefault ''meta'' (PDict []) h11
      in bindE (dict_or_fault (pget h12 ''meta'')) (\<lambda>meta.
           Inr (dict_set ''meta'' (PDict
             (dict_set ''selected_provider_candidate'' (PDict (sl_selected sel))
               (dict_set ''provider_probes'' (PList (map probe_dict (sl_probes sel)))
                 (dict_set ''reuse_key'' (PStr key) meta)))) h12)))"

definition store_handle :: "string \<Rightarrow> pydict \<Rightarrow> resource_manager \<Rightarrow> resource_manager" where
  "store_handle key h m =
     (let hid = text_field h ''handle_id'' in
      m\<lparr> rm_handles := dict_set hid h (rm_handles m), rm_reuse := dict_set key hid (rm_reuse m) \<rparr>)"

text \<open>
  The handle kept under the key, if it can be reused; a handle that cannot is released by
  force, and a failure of that stops the whole operation.
\<close>

definition health_of :: "world \<Rightarrow> provider \<Rightarrow> pydict \<Rightarrow> string \<times> string option" where
  "health_of w p h = (case w_health w p h of Inl err \<Rightarrow> (''unhealthy'', Some err) | Inr st \<Rightarrow> (st, None))"

definition reuse_handle ::
  "world \<Rightarrow> provider \<Rightarrow> string \<Rightarrow> resource_manager
   \<Rightarrow> resource_manager \<times> resource_event list \<times> (resource_error + pydict option)" where
  "reuse_handle w p key m =
     (case dict_get (rm_reuse m) key of
        None \<Rightarrow> (m, [], Inr None)
      | Some hid \<Rightarrow>
          if hid = [] then (m, [], Inr None)
          else (case dict_get (rm_handles m) hid of
            None \<Rightarrow> (m, [], Inr None)
          | Some h \<Rightarrow>
              (let dropped = (\<lambda>m1 evs.
                 (case release_handle w hid True m1 of
                    (m2, evs', Inl e) \<Rightarrow> (m2, evs @ evs', Inl e)
                  | (m2, evs', Inr _) \<Rightarrow> (m2, evs @ evs', Inr None)))
               in if pget h ''status'' = PStr ''ready'' then
                    (case health_of w p h of
                       (st, err) \<Rightarrow>
                         if st = ''ready'' then
                           (case ref_count h 0 of
                              Inl e \<Rightarrow> (m, [], Inl e)
                            | Inr n \<Rightarrow>
                                let h' = dict_set ''ref_count'' (PInt (n + 1)) h in (put_handle hid h' m, [], Inr (Some h')))
                         else
                           let h' = dict_set ''status'' (PStr ''unhealthy'') h
                           in dropped (put_handle hid h' m) [event ''unhealthy'' h' err])
                  else dropped m [])))"

definition create_handle ::
  "world \<Rightarrow> pydict \<Rightarrow> pydict \<Rightarrow> string \<Rightarrow> string \<Rightarrow> selection \<Rightarrow> resource_manager
   \<Rightarrow> resource_manager \<times> resource_event list \<times> (resource_error + pydict)" where
  "create_handle w requirement policy ident key sel m =
     (let start = event ''ensuring'' requirement None in
      case w_ensure w (sl_provider sel) (sl_requirement sel) policy of
        Inl err \<Rightarrow> (m, [start, event ''failed'' requirement (Some err)], Inl (EnsureFailed err))
      | Inr h0 \<Rightarrow>
          (case normal_handle w requirement policy ident key sel h0 of
             Inl e \<Rightarrow> (m, [start], Inl e)
           | Inr h \<Rightarrow> (store_handle key h m, [start, event ''ready'' h None], Inr h)))"

text \<open>The requirement to ensure: a stored one by id, or a new one, which is stored.\<close>

datatype requirement_ref = ById string | Given pydict

definition ensure_requirement ::
  "world \<Rightarrow> requirement_ref \<Rightarrow> pyval \<Rightarrow> pyval \<Rightarrow> resource_manager \<Rightarrow> resource_manager \<times> (resource_error + pydict)" where
  "ensure_requirement w ref scope owner m =
     (case ref of
        ById i \<Rightarrow>
          (case dict_get (rm_requirements m) i of
             None \<Rightarrow> (m, Inl (UnknownRequirement i))
           | Some r \<Rightarrow> (m, normalize_requirement w r scope owner))
      | Given d \<Rightarrow>
          (case normalize_requirement w d scope owner of
             Inl e \<Rightarrow> (m, Inl e)
           | Inr r \<Rightarrow> (m\<lparr> rm_requirements := dict_set (text_field r ''requirement_id'') r (rm_requirements m) \<rparr>, Inr r)))"

definition ensure ::
  "world \<Rightarrow> requirement_ref \<Rightarrow> pyval \<Rightarrow> pyval \<Rightarrow> resource_manager
   \<Rightarrow> resource_manager \<times> resource_event list \<times> (resource_error + pydict)" where
  "ensure w ref scope owner m =
     (case ensure_requirement w ref scope owner m of
        (m1, Inl e) \<Rightarrow> (m1, [], Inl e)
      | (m1, Inr requirement) \<Rightarrow>
          (case merge_access_control_policy (dict_get_or requirement ''policy'' (PDict [])) (Some (pe_settings (w_policy w))) [] of
             Inl e \<Rightarrow> (m1, [], Inl (PolicyFault e))
           | Inr merged \<Rightarrow>
               (case resolve_approval w requirement merged of
                  (evs, Inl e) \<Rightarrow> (m1, evs, Inl e)
                | (evs, Inr policy) \<Rightarrow>
                    (case select_provider w requirement policy m1 of
                       (m2, Inl e) \<Rightarrow> (m2, evs, Inl e)
                     | (m2, Inr sel) \<Rightarrow>
                         (case provider_ident (sl_provider sel) of
                            Inl e \<Rightarrow> (m2, evs, Inl e)
                          | Inr ident \<Rightarrow>
                              let key = manager_key ident requirement in
                              (case reuse_handle w (sl_provider sel) key m2 of
                                 (m3, evs', Inl e) \<Rightarrow> (m3, evs @ evs', Inl e)
                               | (m3, evs', Inr (Some h)) \<Rightarrow> (m3, evs @ evs', Inr h)
                               | (m3, evs', Inr None) \<Rightarrow>
                                   (case create_handle w requirement policy ident key sel m3 of
                                      (m4, evs'', r) \<Rightarrow> (m4, evs @ evs' @ evs'', r))))))))"

section \<open>Looking at the manager\<close>

definition inspect :: "string \<Rightarrow> resource_manager \<Rightarrow> pydict option" where
  "inspect i m =
     (case dict_get (rm_handles m) i of Some h \<Rightarrow> Some h | None \<Rightarrow> dict_get (rm_requirements m) i)"

definition list_handles_by :: "pyval \<Rightarrow> pyval \<Rightarrow> pyval \<Rightarrow> resource_manager \<Rightarrow> pydict list" where
  "list_handles_by scope owner status m =
     (let wanted = (\<lambda>k v. filter (\<lambda>h. v = PNone \<or> py_eq (pget h k) v))
      in wanted ''status'' status (wanted ''owner_id'' owner (wanted ''scope'' scope (map snd (rm_handles m)))))"

end
