(* ===== verification/ResourceCorrect.thy ===== *)
theory ResourceCorrect
  imports ResourceModel
begin

text \<open>
  The invariant of the resource manager and its abstraction: how many leases are out on each
  handle.  Every operation is described by what it does to the leases.
\<close>

section \<open>Leases\<close>

definition leases :: "resource_manager \<Rightarrow> string \<Rightarrow> nat" where
  "leases m hid =
     (case dict_get (rm_handles m) hid of
        None \<Rightarrow> 0
      | Some h \<Rightarrow> (case ref_count h 1 of Inr n \<Rightarrow> nat n | Inl _ \<Rightarrow> 0))"

definition handle_ok :: "string \<Rightarrow> pydict \<Rightarrow> bool" where
  "handle_ok hid h \<longleftrightarrow> hid \<noteq> [] \<and> text_field h ''handle_id'' = hid \<and>
     (\<exists>n. dict_get h ''ref_count'' = Some (PInt n) \<and> 1 \<le> n)"

definition manager_ok :: "resource_manager \<Rightarrow> bool" where
  "manager_ok m \<longleftrightarrow>
     (\<forall>hid h. dict_get (rm_handles m) hid = Some h \<longrightarrow> handle_ok hid h) \<and>
     (\<forall>k hid. dict_get (rm_reuse m) k = Some hid \<longrightarrow> k \<noteq> [] \<and>
        (\<exists>h. dict_get (rm_handles m) hid = Some h \<and> handle_reuse_key h = k))"

definition same_tables :: "resource_manager \<Rightarrow> resource_manager \<Rightarrow> bool" where
  "same_tables m m' \<longleftrightarrow> rm_handles m' = rm_handles m \<and> rm_reuse m' = rm_reuse m"

lemma same_tables_refl [simp]: "same_tables m m"
  by (simp add: same_tables_def)

lemma same_tables_trans [trans]: "same_tables a b \<Longrightarrow> same_tables b c \<Longrightarrow> same_tables a c"
  by (simp add: same_tables_def)

lemma same_tables_ok: "same_tables m m' \<Longrightarrow> manager_ok m' = manager_ok m"
  by (simp add: same_tables_def manager_ok_def)

lemma same_tables_leases: "same_tables m m' \<Longrightarrow> leases m' = leases m"
  by (simp add: same_tables_def leases_def fun_eq_iff)

lemma same_register: "same_tables m (fst (register_provider p m))"
  by (auto simp: register_provider_def same_tables_def Let_def split: sum.splits option.splits)

lemma same_register_all: "same_tables m (fst (register_all ps m))"
proof (induction ps arbitrary: m)
  case (Cons p ps)
  obtain m' r where m': "register_provider p m = (m', r)" by (cases "register_provider p m")
  have "same_tables m m'" using same_register [of m p] by (simp add: m')
  with Cons.IH [of m'] show ?case
    by (cases r) (auto simp: m' intro: same_tables_trans)
qed simp

lemma same_load: "same_tables m (fst (load_plugins ps m))"
  using same_register_all [of "m\<lparr> rm_loaded := True \<rparr>" ps]
  by (simp add: load_plugins_def same_tables_def)

lemma same_get_provider: "same_tables m (fst (get_provider ps kind i m))"
proof -
  obtain m' r where "load_plugins ps m = (m', r)" by (cases "load_plugins ps m")
  with same_load [of m ps] show ?thesis
    by (auto simp: get_provider_def split: sum.splits option.splits)
qed

lemma same_select: "same_tables m (fst (select_provider w r p m))"
proof -
  obtain m' r' where "load_plugins (w_plugins w) m = (m', r')" by (cases "load_plugins (w_plugins w) m")
  with same_load [of m "w_plugins w"] show ?thesis
    by (auto simp: select_provider_def Let_def split: sum.splits option.splits)
qed

section \<open>Handles keep their shape\<close>

lemma text_field_set: "text_field (dict_set k v h) k' = (if k' = k then py_str v else text_field h k')"
  by (simp add: text_field_def dict_get_or_def)

lemma reuse_key_set: "k \<noteq> ''meta'' \<Longrightarrow> handle_reuse_key (dict_set k v h) = handle_reuse_key h"
  by (simp add: handle_reuse_key_def dict_get_or_def)

lemma handle_ok_set:
  "handle_ok hid h \<Longrightarrow> k \<noteq> ''ref_count'' \<Longrightarrow> k \<noteq> ''handle_id'' \<Longrightarrow> handle_ok hid (dict_set k v h)"
  by (simp add: handle_ok_def text_field_set)

lemma handle_ok_count: "handle_ok hid h \<Longrightarrow> 1 \<le> n \<Longrightarrow> handle_ok hid (dict_set ''ref_count'' (PInt n) h)"
  by (simp add: handle_ok_def text_field_set)

lemma ref_count_ok: "handle_ok hid h \<Longrightarrow> \<exists>n. ref_count h d = Inr n \<and> 1 \<le> n"
  by (auto simp: handle_ok_def ref_count_def dict_get_or_def py_int_def)

lemma ref_count_dflt: "handle_ok hid h \<Longrightarrow> ref_count h 0 = ref_count h 1"
  by (auto simp: handle_ok_def ref_count_def dict_get_or_def)

lemma ref_count_set: "ref_count (dict_set k v h) d =
   (if k = ''ref_count'' then (case py_int v of None \<Rightarrow> Inl TypeFault | Some n \<Rightarrow> Inr n) else ref_count h d)"
  by (simp add: ref_count_def dict_get_or_def)

lemma manager_ok_handle: "manager_ok m \<Longrightarrow> dict_get (rm_handles m) hid = Some h \<Longrightarrow> handle_ok hid h"
  by (simp add: manager_ok_def)

text \<open>Changing a handle in place.\<close>

lemma manager_ok_put:
  assumes "manager_ok m" and "dict_get (rm_handles m) hid = Some h" and "handle_ok hid h'"
    and "handle_reuse_key h' = handle_reuse_key h"
  shows "manager_ok (put_handle hid h' m)"
  using assms by (fastforce simp: manager_ok_def put_handle_def)

lemma leases_put:
  "leases (put_handle hid h m) = (leases m)(hid := (case ref_count h 1 of Inr n \<Rightarrow> nat n | Inl _ \<Rightarrow> 0))"
  by (simp add: leases_def put_handle_def fun_eq_iff)

lemma leases_handle: "dict_get (rm_handles m) hid = Some h \<Longrightarrow> ref_count h 1 = Inr n \<Longrightarrow> leases m hid = nat n"
  by (simp add: leases_def)

lemma leases_pos:
  assumes "manager_ok m"
  shows "0 < leases m hid \<longleftrightarrow> dict_get (rm_handles m) hid \<noteq> None"
proof (cases "dict_get (rm_handles m) hid")
  case (Some h)
  with assms obtain n where "ref_count h 1 = Inr n" "1 \<le> n"
    using ref_count_ok [of hid h 1] manager_ok_handle by blast
  with Some show ?thesis by (simp add: leases_handle)
qed (simp add: leases_def)

lemma manager_ok_entry:
  assumes "manager_ok m" and "dict_get (rm_reuse m) k = Some hid" and "dict_get (rm_handles m) hid = Some h"
  shows "k = handle_reuse_key h \<and> k \<noteq> []"
proof -
  from assms(1, 2) obtain h' where "dict_get (rm_handles m) hid = Some h'" "handle_reuse_key h' = k" "k \<noteq> []"
    unfolding manager_ok_def by blast
  with assms(3) show ?thesis by simp
qed

section \<open>Releasing\<close>

lemma release_start_cases:
  assumes "manager_ok m"
  obtains (absent) "leases m hid = 0" "release_start w hid force m = NoCall m"
  | (shared) h n where "dict_get (rm_handles m) hid = Some h" "ref_count h 1 = Inr n" "1 < n" "\<not> force"
      "release_start w hid force m = NoCall (put_handle hid (dict_set ''ref_count'' (PInt (n - 1)) h) m)"
  | (stuck) m' e where "same_tables m m'" "release_start w hid force m = CannotRelease m' e"
  | (call) h m' p where "dict_get (rm_handles m) hid = Some h" "same_tables m m'" "force \<or> leases m hid = 1"
      "release_start w hid force m =
         CallRelease (put_handle hid (dict_set ''status'' (PStr ''releasing'') h) m') p
           (dict_set ''status'' (PStr ''releasing'') h)"
proof (cases "dict_get (rm_handles m) hid")
  case None
  with assms leases_pos [of m hid] show ?thesis by (intro absent) (simp_all add: release_start_def)
next
  case (Some h)
  then have ok: "handle_ok hid h" using assms by (simp add: manager_ok_def)
  then obtain n where n: "ref_count h 1 = Inr n" "1 \<le> n" using ref_count_ok by blast
  have "hid \<noteq> []" using ok by (simp add: handle_ok_def)
  let ?pid = "text_field h ''provider_id''"
  obtain m' r where get: "get_provider (w_plugins w) (text_field h ''kind'') (if ?pid = [] then None else Some ?pid) m = (m', r)"
    by (cases "get_provider (w_plugins w) (text_field h ''kind'') (if ?pid = [] then None else Some ?pid) m")
  have same: "same_tables m m'"
    using same_get_provider [of m "w_plugins w" "text_field h ''kind''" "if ?pid = [] then None else Some ?pid"] by (simp add: get)
  show ?thesis
  proof (cases "1 < n \<and> \<not> force")
    case True
    with Some n \<open>hid \<noteq> []\<close> show ?thesis by (intro shared [of h n]) (simp_all add: release_start_def)
  next
    case False
    show ?thesis
    proof (cases r)
      case (Inl e)
      with False Some n \<open>hid \<noteq> []\<close> same show ?thesis
        by (intro stuck [of m' e]) (simp_all add: release_start_def Let_def get)
    next
      case (Inr p)
      have "force \<or> leases m hid = 1" using False n leases_handle [OF Some n(1)] by auto
      with False Some n \<open>hid \<noteq> []\<close> same Inr show ?thesis
        by (intro call [of h m' p]) (simp_all add: release_start_def Let_def get)
    qed
  qed
qed

text \<open>After the provider's answer, when nobody interfered.\<close>

lemma release_finish_failed:
  assumes "manager_ok m" and "dict_get (rm_handles m) hid = Some h" and "release_finish hid h (Some err) m = (m', evs, r)"
  shows "manager_ok m' \<and> leases m' = leases m \<and> r = Inl (ReleaseFailed hid err)"
proof -
  let ?h = "dict_set ''meta'' (PDict (dict_set ''cleanup_error'' (PStr err)
      (mapping_or_empty (dict_get_or h ''meta'' (PDict []))))) (dict_set ''status'' (PStr ''failed'') h)"
  have h: "handle_ok hid h" using assms(1, 2) by (rule manager_ok_handle)
  have "handle_reuse_key ?h = handle_reuse_key h"
    by (simp add: handle_reuse_key_def dict_get_or_def mapping_or_empty_def)
  then have "manager_ok (put_handle hid ?h m)"
    using assms(1, 2) h by (intro manager_ok_put [of m hid h]) (simp_all add: handle_ok_set)
  moreover have "leases (put_handle hid ?h m) = leases m"
    using assms(2) by (auto simp: leases_put ref_count_set fun_eq_iff leases_def)
  ultimately show ?thesis
    using assms(2, 3) by (auto simp: release_finish_def Let_def change_handle_def dict_has_iff)
qed

lemma release_finish_ok:
  assumes "manager_ok m" and "dict_get (rm_handles m) hid = Some h" and "release_finish hid h None m = (m', evs, r)"
  shows "manager_ok m' \<and> leases m' = (leases m)(hid := 0) \<and> r = Inr () \<and> dict_get (rm_handles m') hid = None"
proof -
  let ?key = "handle_reuse_key (dict_set ''status'' (PStr ''released'') h)"
  have key: "?key = handle_reuse_key h" by (rule reuse_key_set) simp
  let ?m = "if ?key \<noteq> [] \<and> dict_get (rm_reuse m) ?key = Some hid
    then m\<lparr> rm_reuse := dict_del ?key (rm_reuse m) \<rparr> else m"
  have unused: "dict_get (rm_reuse ?m) k \<noteq> Some hid" for k
    using manager_ok_entry [OF assms(1) _ assms(2), of k] by (auto simp: key)
  have m': "m' = ?m\<lparr> rm_handles := dict_del hid (rm_handles ?m) \<rparr>" and r: "r = Inr ()"
    using assms(2, 3) by (auto simp: release_finish_def Let_def dict_has_iff split: if_splits)
  have "manager_ok m'"
    unfolding manager_ok_def
  proof (intro conjI allI impI)
    fix k i assume k: "dict_get (rm_reuse m') k = Some i"
    then have "dict_get (rm_reuse m) k = Some i" and "i \<noteq> hid"
      using unused [of k] by (auto simp: m' split: if_splits)
    with assms(1) show "k \<noteq> []" and "\<exists>h. dict_get (rm_handles m') i = Some h \<and> handle_reuse_key h = k"
      by (auto simp: m' manager_ok_def)
  qed (use assms(1) in \<open>auto simp: m' manager_ok_def split: if_splits\<close>)
  then show ?thesis using r by (simp add: m' leases_def fun_eq_iff)
qed

lemma release_handle_leases:
  assumes "manager_ok m" and "release_handle w hid force m = (m', evs, r)"
  shows "manager_ok m' \<and>
    (case r of
       Inl _ \<Rightarrow> leases m' = leases m
     | Inr _ \<Rightarrow> leases m' = (leases m)(hid := (if force then 0 else leases m hid - 1)) \<and>
         (evs \<noteq> []) = (if force then 0 < leases m hid else leases m hid = 1))"
proof (cases rule: release_start_cases [OF assms(1), of hid w force])
  case 1
  with assms show ?thesis by (auto simp: release_handle_def fun_eq_iff)
next
  case (2 h n)
  have h: "handle_ok hid h" using assms(1) 2(1) by (rule manager_ok_handle)
  have "manager_ok (put_handle hid (dict_set ''ref_count'' (PInt (n - 1)) h) m)"
    using assms(1) 2 h by (intro manager_ok_put [of m hid h]) (simp_all add: handle_ok_count reuse_key_set)
  moreover have "leases m hid = nat n" using 2 by (intro leases_handle)
  ultimately show ?thesis
    using assms(2) 2 by (auto simp: release_handle_def leases_put ref_count_set py_int_def nat_diff_distrib fun_eq_iff)
next
  case (3 m1 e)
  with assms show ?thesis by (auto simp: release_handle_def same_tables_ok same_tables_leases)
next
  case (4 h m1 p)
  let ?h = "dict_set ''status'' (PStr ''releasing'') h"
  let ?m = "put_handle hid ?h m1"
  have h: "handle_ok hid h" using assms(1) 4(1) by (rule manager_ok_handle)
  have at1: "dict_get (rm_handles m1) hid = Some h" using 4(1, 2) by (simp add: same_tables_def)
  have ok: "manager_ok ?m"
    using assms(1) 4(2) at1 h by (intro manager_ok_put [of m1 hid h]) (simp_all add: same_tables_ok handle_ok_set reuse_key_set)
  have same: "leases ?m = leases m"
    using 4(1, 2) by (auto simp: leases_put ref_count_set fun_eq_iff leases_def same_tables_def)
  have at: "dict_get (rm_handles ?m) hid = Some ?h" by (simp add: put_handle_def)
  have pos: "0 < leases m hid" using assms(1) 4(1) by (simp add: leases_pos)
  obtain m2 evs' r' where fin: "release_finish hid ?h (w_release w p ?h) ?m = (m2, evs', r')"
    by (cases "release_finish hid ?h (w_release w p ?h) ?m")
  with assms(2) 4(4) have res: "m' = m2" "evs \<noteq> []" "r = r'"
    by (auto simp: release_handle_def)
  show ?thesis
  proof (cases "w_release w p ?h")
    case None
    with release_finish_ok [OF ok at, of m2 evs' r'] fin res same pos 4(3) show ?thesis by auto
  next
    case (Some err)
    with release_finish_failed [OF ok at, of err m2 evs' r'] fin res same show ?thesis by auto
  qed
qed

section \<open>Ensuring\<close>

text \<open>
  A handle that may not be reused: its status is not ready, or its health check says
  otherwise.  \<open>drops\<close> is the effect of releasing such a handle by force, or none.
\<close>

definition bad_handle :: "world \<Rightarrow> resource_manager \<Rightarrow> string \<Rightarrow> bool" where
  "bad_handle w m j \<longleftrightarrow>
     (\<exists>h. dict_get (rm_handles m) j = Some h \<and>
       (pget h ''status'' \<noteq> PStr ''ready'' \<or> (\<exists>p. fst (health_of w p h) \<noteq> ''ready'')))"

definition drops :: "world \<Rightarrow> resource_manager \<Rightarrow> (string \<Rightarrow> nat) \<Rightarrow> bool" where
  "drops w m L \<longleftrightarrow> L = leases m \<or> (\<exists>j. bad_handle w m j \<and> L = (leases m)(j := 0))"

lemma reuse_handle_leases:
  assumes ok: "manager_ok m" and run: "reuse_handle w p key m = (m', evs, r)"
  shows "manager_ok m' \<and>
    (case r of
       Inl _ \<Rightarrow> leases m' = leases m
     | Inr None \<Rightarrow> drops w m (leases m')
     | Inr (Some h) \<Rightarrow>
         let i = text_field h ''handle_id''
         in dict_get (rm_handles m') i = Some h \<and> 0 < leases m i \<and> leases m' = (leases m)(i := Suc (leases m i)))"
proof (cases "dict_get (rm_reuse m) key")
  case None
  with assms show ?thesis by (auto simp: reuse_handle_def drops_def)
next
  case (Some hid)
  with ok obtain h where at: "dict_get (rm_handles m) hid = Some h" unfolding manager_ok_def by blast
  have h: "handle_ok hid h" using ok at by (rule manager_ok_handle)
  then have hid: "hid \<noteq> []" and id: "text_field h ''handle_id'' = hid" by (simp_all add: handle_ok_def)
  have dropped: ?thesis
    if m1: "manager_ok m1" "leases m1 = leases m" and bad: "bad_handle w m hid"
      and res: "(m', r) = (case release_handle w hid True m1 of
         (m2, evs', Inl e) \<Rightarrow> (m2, Inl e) | (m2, evs', Inr _) \<Rightarrow> (m2, Inr None))" for m1
  proof -
    obtain m2 evs' r' where rel: "release_handle w hid True m1 = (m2, evs', r')"
      by (cases "release_handle w hid True m1")
    with release_handle_leases [OF m1(1) rel] res m1(2) bad show ?thesis
      by (cases r') (auto simp: drops_def)
  qed
  show ?thesis
  proof (cases "pget h ''status'' = PStr ''ready''")
    case False
    then have "bad_handle w m hid" using at by (auto simp: bad_handle_def)
    moreover have "(m', r) = (case release_handle w hid True m of
         (m2, evs', Inl e) \<Rightarrow> (m2, Inl e) | (m2, evs', Inr _) \<Rightarrow> (m2, Inr None))"
      using run Some at hid False by (auto simp: reuse_handle_def Let_def split: prod.splits sum.splits)
    ultimately show ?thesis using ok by (intro dropped [of m]) auto
  next
    case ready: True
    obtain st err where health: "health_of w p h = (st, err)" by (cases "health_of w p h")
    show ?thesis
    proof (cases "st = ''ready''")
      case True
      obtain n where n: "ref_count h 0 = Inr n" "ref_count h 1 = Inr n" "1 \<le> n"
        using ref_count_ok [OF h, of 1] ref_count_dflt [OF h] by auto
      let ?h = "dict_set ''ref_count'' (PInt (n + 1)) h"
      have res: "m' = put_handle hid ?h m" "r = Inr (Some ?h)"
        using run Some at hid ready health True n by (auto simp: reuse_handle_def Let_def)
      have "manager_ok m'"
        using ok at h n unfolding res by (intro manager_ok_put [of m hid h]) (simp_all add: handle_ok_count reuse_key_set)
      moreover have "leases m' = (leases m)(hid := Suc (leases m hid))"
        using leases_handle [OF at n(2)] n(3) by (simp add: res leases_put ref_count_set py_int_def nat_add_distrib)
      moreover have "0 < leases m hid" using ok at by (simp add: leases_pos)
      ultimately show ?thesis
        using id by (simp add: res text_field_set put_handle_def)
    next
      case False
      then have bad: "bad_handle w m hid" using at health by (auto simp: bad_handle_def) (metis fst_conv)
      let ?h = "dict_set ''status'' (PStr ''unhealthy'') h"
      have "manager_ok (put_handle hid ?h m)"
        using ok at h by (intro manager_ok_put [of m hid h]) (simp_all add: handle_ok_set reuse_key_set)
      moreover have "leases (put_handle hid ?h m) = leases m"
        using at by (auto simp: leases_put ref_count_set fun_eq_iff leases_def)
      moreover have "(m', r) = (case release_handle w hid True (put_handle hid ?h m) of
           (m2, evs', Inl e) \<Rightarrow> (m2, Inl e) | (m2, evs', Inr _) \<Rightarrow> (m2, Inr None))"
        using run Some at hid ready health False by (auto simp: reuse_handle_def Let_def split: prod.splits sum.splits)
      ultimately show ?thesis using bad by (intro dropped)
    qed
  qed
qed

text \<open>The id a new handle gets, and providers that give handles of their own.\<close>

definition new_id :: "world \<Rightarrow> pydict \<Rightarrow> pydict \<Rightarrow> string" where
  "new_id w requirement h0 =
     text_field (dict_setdefault ''handle_id''
       (PStr (py_str (dict_get_or requirement ''kind'' (PStr [])) @ '':'' @ w_fresh w 1)) h0) ''handle_id''"

definition good_world :: "world \<Rightarrow> resource_manager \<Rightarrow> bool" where
  "good_world w m \<longleftrightarrow>
     (\<forall>p r policy h0. w_ensure w p r policy = Inr h0 \<longrightarrow> dict_get h0 ''ref_count'' = None \<and>
        (\<forall>requirement. new_id w requirement h0 \<noteq> [] \<and> leases m (new_id w requirement h0) = 0))"

lemma text_field_setdefault: "k \<noteq> k' \<Longrightarrow> text_field (dict_setdefault k v h) k' = text_field h k'"
  by (simp add: text_field_def dict_setdefault_def dict_get_or_def)

lemma normal_handle_facts:
  assumes "normal_handle w requirement policy ident key sel h0 = Inr h" and "dict_get h0 ''ref_count'' = None"
    and "new_id w requirement h0 \<noteq> []"
  shows "handle_ok (new_id w requirement h0) h \<and> handle_reuse_key h = key \<and> ref_count h 1 = Inr 1"
proof -
  have "text_field h ''handle_id'' = new_id w requirement h0"
    using assms(1) by (auto simp: normal_handle_def new_id_def Let_def bindE_eq_Inr text_field_set text_field_setdefault)
  moreover have "dict_get h ''ref_count'' = Some (PInt 1)"
    using assms(1, 2)
    by (auto simp: normal_handle_def Let_def bindE_eq_Inr dict_get_setdefault dict_get_or_def)
  moreover have "handle_reuse_key h = key"
    using assms(1)
    by (auto simp: normal_handle_def Let_def bindE_eq_Inr handle_reuse_key_def dict_get_or_def mapping_or_empty_def)
  ultimately show ?thesis
    using assms(3) by (simp add: handle_ok_def ref_count_def dict_get_or_def py_int_def)
qed

lemma manager_key_nonempty: "manager_key ident requirement \<noteq> []"
  by (simp add: manager_key_def stable_json_def)

lemma create_handle_leases:
  assumes ok: "manager_ok m" and good: "good_world w m" and "key \<noteq> []"
    and run: "create_handle w requirement policy ident key sel m = (m', evs, r)"
  shows "manager_ok m' \<and>
    (case r of
       Inl _ \<Rightarrow> leases m' = leases m
     | Inr h \<Rightarrow>
         let i = text_field h ''handle_id''
         in dict_get (rm_handles m') i = Some h \<and> leases m i = 0 \<and> leases m' = (leases m)(i := 1))"
proof (cases r)
  case (Inl e)
  with ok run show ?thesis by (auto simp: create_handle_def Let_def split: sum.splits)
next
  case (Inr h)
  with run obtain h0 where h0: "w_ensure w (sl_provider sel) (sl_requirement sel) policy = Inr h0"
    and h: "normal_handle w requirement policy ident key sel h0 = Inr h" and m': "m' = store_handle key h m"
    by (auto simp: create_handle_def Let_def split: sum.splits)
  let ?i = "new_id w requirement h0"
  from good h0 have new: "?i \<noteq> []" "leases m ?i = 0" "dict_get h0 ''ref_count'' = None"
    by (auto simp: good_world_def)
  from normal_handle_facts [OF h new(3, 1)]
  have facts: "handle_ok ?i h" "handle_reuse_key h = key" "ref_count h 1 = Inr 1" by simp_all
  then have id: "text_field h ''handle_id'' = ?i" by (simp add: handle_ok_def)
  have fresh: "dict_get (rm_handles m) ?i = None" using new(2) ok leases_pos [of m ?i] by auto
  have "manager_ok m'"
    using ok facts fresh \<open>key \<noteq> []\<close> unfolding manager_ok_def m'
    by (auto simp: store_handle_def id Let_def) (metis option.distinct(1))+
  moreover have "leases m' = (leases m)(?i := 1)"
    using facts(3) by (simp add: m' store_handle_def id Let_def leases_def fun_eq_iff)
  ultimately show ?thesis
    using Inr id new(2) by (simp add: m' store_handle_def)
qed

lemma ensure_requirement_same: "same_tables m (fst (ensure_requirement w ref scope owner m))"
  by (auto simp: ensure_requirement_def same_tables_def split: requirement_ref.splits sum.splits option.splits)

lemma bad_handle_same: "same_tables m m' \<Longrightarrow> bad_handle w m' j = bad_handle w m j"
  by (simp add: bad_handle_def same_tables_def)

lemma drops_same: "same_tables m m' \<Longrightarrow> drops w m' L = drops w m L"
  by (simp add: drops_def bad_handle_same same_tables_leases)

text \<open>The three stages of \<open>ensure\<close>: it stops before the tables change, reuses, or creates.\<close>

lemma ensure_cases:
  assumes "ensure w ref scope owner m = (m', evs, r)"
  obtains (stopped) e where "same_tables m m'" "r = Inl e"
  | (reused) m2 p key evs' r' where "same_tables m m2" "reuse_handle w p key m2 = (m', evs', r')"
      "(\<exists>e. r' = Inl e \<and> r = Inl e) \<or> (\<exists>h. r' = Inr (Some h) \<and> r = Inr h)"
  | (created) m2 p key evs' m3 requirement policy ident sel evs'' where "same_tables m m2"
      "reuse_handle w p key m2 = (m3, evs', Inr None)" "key \<noteq> []"
      "create_handle w requirement policy ident key sel m3 = (m', evs'', r)"
proof -
  obtain m1 rq where m1: "ensure_requirement w ref scope owner m = (m1, rq)"
    by (cases "ensure_requirement w ref scope owner m")
  have same1: "same_tables m m1" using ensure_requirement_same [of m w ref scope owner] by (simp add: m1)
  show ?thesis
  proof (cases rq)
    case (Inl e)
    with assms m1 same1 show ?thesis by (intro stopped [of e]) (auto simp: ensure_def)
  next
    case requirement: (Inr requirement)
    show ?thesis
    proof (cases "merge_access_control_policy (dict_get_or requirement ''policy'' (PDict [])) (Some (pe_settings (w_policy w))) []")
      case (Inl e)
      with assms m1 same1 requirement show ?thesis by (intro stopped) (auto simp: ensure_def)
    next
      case merged: (Inr merged)
      obtain ev0 rp where approval: "resolve_approval w requirement merged = (ev0, rp)"
        by (cases "resolve_approval w requirement merged")
      show ?thesis
      proof (cases rp)
        case (Inl e)
        with assms m1 same1 requirement merged approval show ?thesis by (intro stopped) (auto simp: ensure_def)
      next
        case policy: (Inr policy)
        obtain m2 rs where m2: "select_provider w requirement policy m1 = (m2, rs)"
          by (cases "select_provider w requirement policy m1")
        have same2: "same_tables m m2"
          using same1 same_select [of m1 w requirement policy] by (auto simp: m2 intro: same_tables_trans)
        show ?thesis
        proof (cases rs)
          case (Inl e)
          with assms m1 same2 requirement merged approval policy m2 show ?thesis
            by (intro stopped) (auto simp: ensure_def)
        next
          case sel: (Inr sel)
          show ?thesis
          proof (cases "provider_ident (sl_provider sel)")
            case (Inl e)
            with assms m1 same2 requirement merged approval policy m2 sel show ?thesis
              by (intro stopped) (auto simp: ensure_def)
          next
            case ident: (Inr ident)
            let ?key = "manager_key ident requirement"
            obtain m3 evs' r' where m3: "reuse_handle w (sl_provider sel) ?key m2 = (m3, evs', r')"
              by (cases "reuse_handle w (sl_provider sel) ?key m2")
            note run = assms m1 requirement merged approval policy m2 sel ident m3
            consider e where "r' = Inl e" | h where "r' = Inr (Some h)" | "r' = Inr None"
              by (metis option.exhaust sum.exhaust)
            then show ?thesis
            proof cases
              case 1
              with run same2 show ?thesis by (intro reused [of m2 "sl_provider sel" ?key]) (auto simp: ensure_def)
            next
              case 2
              with run same2 show ?thesis by (intro reused [of m2 "sl_provider sel" ?key]) (auto simp: ensure_def)
            next
              case 3
              obtain m4 evs'' r'' where m4: "create_handle w requirement policy ident ?key sel m3 = (m4, evs'', r'')"
                by (cases "create_handle w requirement policy ident ?key sel m3")
              with run same2 3 manager_key_nonempty show ?thesis
                by (intro created [of m2 "sl_provider sel" ?key]) (auto simp: ensure_def)
            qed
          qed
        qed
      qed
    qed
  qed
qed

lemma drops_le: "drops w m L \<Longrightarrow> L i \<le> leases m i"
  by (auto simp: drops_def)

lemma good_world_drops:
  assumes "good_world w m" and "drops w m2 (leases m3)" and "same_tables m m2"
  shows "good_world w m3"
proof -
  have "leases m3 i \<le> leases m i" for i
    using drops_le [OF assms(2), of i] assms(3) by (simp add: same_tables_leases)
  then have "leases m i = 0 \<Longrightarrow> leases m3 i = 0" for i by (metis le_zero_eq)
  with assms(1) show ?thesis unfolding good_world_def by blast
qed

lemma ensure_leases:
  assumes ok: "manager_ok m" and good: "good_world w m" and run: "ensure w ref scope owner m = (m', evs, r)"
  shows "manager_ok m' \<and>
    (case r of
       Inl _ \<Rightarrow> drops w m (leases m')
     | Inr h \<Rightarrow>
         let i = text_field h ''handle_id''
         in dict_get (rm_handles m') i = Some h \<and>
            (\<exists>L. drops w m L \<and> leases m' = L(i := Suc (L i))))"
proof (cases rule: ensure_cases [OF run])
  case (1 e)
  with ok show ?thesis by (simp add: same_tables_ok same_tables_leases drops_def)
next
  case (2 m2 p key evs' r')
  from 2(1) ok have "manager_ok m2" by (simp add: same_tables_ok)
  from reuse_handle_leases [OF this 2(2)] 2(1, 3) show ?thesis
    by (auto simp: same_tables_leases drops_def Let_def)
next
  case (3 m2 p key evs' m3 requirement policy ident sel evs'')
  from 3(1) ok have "manager_ok m2" by (simp add: same_tables_ok)
  from reuse_handle_leases [OF this 3(2)] have m3: "manager_ok m3" "drops w m2 (leases m3)" by simp_all
  have L: "drops w m (leases m3)" using m3(2) 3(1) by (simp add: drops_same)
  from create_handle_leases [OF m3(1) good_world_drops [OF good m3(2) 3(1)] 3(3, 4)] L
  show ?thesis by (cases r) (auto simp: Let_def)
qed

lemma release_all_ok:
  assumes "manager_ok m" and "release_all w hids m = (m', evs, r)"
  shows "manager_ok m' \<and> (\<forall>i. leases m' i \<le> leases m i) \<and>
    (r = Inr () \<longrightarrow> (\<forall>i. leases m' i = leases m i - count_list hids i))"
  using assms
proof (induction hids arbitrary: m evs)
  case (Cons hid hids)
  obtain m1 evs1 r1 where one: "release_handle w hid False m = (m1, evs1, r1)"
    by (cases "release_handle w hid False m")
  note first = release_handle_leases [OF Cons.prems(1) one]
  have ref: "release_ref w (HandleId hid) m = (m1, evs1, r1)" by (simp add: release_ref_def one)
  show ?case
  proof (cases r1)
    case (Inl e)
    with ref first Cons.prems(2) show ?thesis by auto
  next
    case (Inr u)
    obtain evs2 where rest: "release_all w hids m1 = (m', evs2, r)"
      using Cons.prems(2) ref Inr by (auto split: prod.splits)
    have m1: "manager_ok m1" "leases m1 = (leases m)(hid := leases m hid - 1)"
      using first Inr by simp_all
    note rest_ok = Cons.IH [OF m1(1) rest]
    have le: "leases m' i \<le> leases m i" for i
      using rest_ok by (metis diff_le_self fun_upd_apply le_trans m1(2))
    have eq: "leases m' i = leases m i - count_list (hid # hids) i" if "r = Inr ()" for i
      using rest_ok that by (simp add: m1(2))
    from rest_ok le eq show ?thesis by blast
  qed
qed auto

end
