(* ===== verification/ResourceTheorems.thy ===== *)
theory ResourceTheorems
  imports ResourceCorrect
begin

text \<open>
  The properties of the resource manager: lease counting over every history of the manager,
  exactly one release by the provider for each last lease, the choice of a provider, keys of
  declared requirements, and two releases of one handle that overlap.
\<close>

section \<open>Counting leases\<close>






section \<open>Histories of a manager\<close>

text \<open>
  Every operation, with what the world answers during it; the world may answer differently
  each time.  A provider must return handles under ids that are not in use, and may not
  choose their lease count.
\<close>

inductive manager_history :: "resource_manager \<Rightarrow> bool" where
  Start: "manager_history new_manager"
| Register: "manager_history m \<Longrightarrow> manager_history (fst (register_provider p m))"
| Declare: "manager_history m \<Longrightarrow> manager_history (fst (declare_requirement w d m))"
| Ensure: "manager_history m \<Longrightarrow> good_world w m \<Longrightarrow> manager_history (fst (ensure w ref scope owner m))"
| Release: "manager_history m \<Longrightarrow> manager_history (fst (release_ref w ref m))"
| ReleaseScope: "manager_history m \<Longrightarrow> manager_history (fst (release_scope w scope owner m))"

lemma history_ok: "manager_history m \<Longrightarrow> manager_ok m"
proof (induction rule: manager_history.induct)
  case Start
  show ?case by (simp add: manager_ok_def new_manager_def)
next
  case (Register m p)
  then show ?case using same_tables_ok [OF same_register] by blast
next
  case (Declare m w d)
  have "same_tables m (fst (declare_requirement w d m))"
    by (auto simp: declare_requirement_def same_tables_def split: sum.splits)
  with Declare.IH show ?case using same_tables_ok by blast
next
  case (Ensure m w ref scope owner)
  obtain m' evs r where run: "ensure w ref scope owner m = (m', evs, r)" by (metis prod_cases3)
  from ensure_leases [OF Ensure.IH Ensure.hyps(2) run] show ?case by (simp add: run)
next
  case (Release m w ref)
  obtain m' evs r where run: "release_handle w (case ref of HandleId i \<Rightarrow> i | HandleDict h \<Rightarrow> text_field h ''handle_id'')
      False m = (m', evs, r)" by (metis prod_cases3)
  from release_handle_leases [OF Release.IH run] show ?case by (simp add: release_ref_def run)
next
  case (ReleaseScope m w scope owner)
  obtain m' evs r where run: "release_all w (scope_handles scope owner m) m = (m', evs, r)" by (metis prod_cases3)
  from release_all_ok [OF ReleaseScope.IH run] show ?case by (simp add: release_scope_def run)
qed

section \<open>Choosing a provider\<close>

text \<open>Whether the second probe lets a candidate be used.\<close>

definition usable :: "world \<Rightarrow> string \<Rightarrow> pydict \<Rightarrow> pydict \<Rightarrow> pydict \<Rightarrow> eligible \<Rightarrow> resource_error + bool" where
  "usable w kind policy required preferred e =
     bindE (probe_provider w 1 (el_index e) (el_provider e) (el_requirement e) policy) (\<lambda>again.
     bindE (prefers again kind preferred) (\<lambda>pref.
       if el_preferred e \<and> \<not> pref then Inr False else probe_eligible again kind required))"

lemma use_first_usable:
  "use_first w kind policy required preferred es probes = Inr sel \<Longrightarrow>
   \<exists>pre e post. es = pre @ e # post \<and> (\<forall>x \<in> set pre. usable w kind policy required preferred x = Inr False) \<and>
     usable w kind policy required preferred e = Inr True \<and>
     sl_provider sel = el_provider e \<and> sl_requirement sel = el_requirement e \<and>
     (\<exists>b. sl_selected sel = selected_dict preferred e b)"
proof (induction es arbitrary: probes)
  case (Cons e es)
  from Cons.prems obtain again pref where again:
      "probe_provider w 1 (el_index e) (el_provider e) (el_requirement e) policy = Inr again"
      "prefers again kind preferred = Inr pref"
    by (auto simp: bindE_eq_Inr Let_def)
  show ?case
  proof (cases "usable w kind policy required preferred e = Inr True")
    case True
    then have "sl_provider sel = el_provider e \<and> sl_requirement sel = el_requirement e \<and>
        sl_selected sel = selected_dict preferred e pref"
      using Cons.prems again by (auto simp: usable_def Let_def split: if_splits)
    with True show ?thesis by (intro exI [of _ "[]"] exI [of _ e] exI [of _ es]) auto
  next
    case False
    then obtain probes' where "use_first w kind policy required preferred es probes' = Inr sel"
      and no: "usable w kind policy required preferred e = Inr False"
      using Cons.prems again by (auto simp: usable_def bindE_eq_Inr Let_def split: if_splits)
    from Cons.IH [OF this(1)] obtain pre f post where "es = pre @ f # post"
      "\<forall>x \<in> set pre. usable w kind policy required preferred x = Inr False"
      "usable w kind policy required preferred f = Inr True" "sl_provider sel = el_provider f"
      "sl_requirement sel = el_requirement f" "\<exists>b. sl_selected sel = selected_dict preferred f b"
      by blast
    with no show ?thesis by (intro exI [of _ "e # pre"] exI [of _ f] exI [of _ post]) simp
  qed
qed simp

text \<open>
  The specification.  A candidate is admitted when a registered provider serves the kind and
  its first probe meets the requirements; one that meets the preferences comes before one that
  does not, otherwise the given order decides.
\<close>

definition admitted ::
  "world \<Rightarrow> resource_manager \<Rightarrow> string \<Rightarrow> pydict \<Rightarrow> pydict \<Rightarrow> pydict \<Rightarrow> pydict \<Rightarrow> nat \<Rightarrow> candidate \<Rightarrow> eligible \<Rightarrow> bool" where
  "admitted w m kind requirement policy required preferred i c e \<longleftrightarrow>
     el_index e = i \<and> el_id e = fst c \<and>
     candidate_requirement requirement c = Inr (el_requirement e) \<and>
     serves m kind (fst c) = Inr (Some (el_provider e)) \<and>
     (\<exists>pr. probe_provider w 0 i (el_provider e) (el_requirement e) policy = Inr pr \<and>
        probe_eligible pr kind required = Inr True \<and> prefers pr kind preferred = Inr (el_preferred e))"

definition precedes :: "eligible \<Rightarrow> eligible \<Rightarrow> bool" where
  "precedes x e \<longleftrightarrow>
     el_preferred x \<and> \<not> el_preferred e \<or> el_preferred x = el_preferred e \<and> el_index x < el_index e"

lemma probe_eligible_meta [simp]: "probe_eligible (pr\<lparr> pr_meta := x \<rparr>) = probe_eligible pr"
  by (simp add: fun_eq_iff probe_eligible_def)

lemma prefers_meta [simp]: "prefers (pr\<lparr> pr_meta := x \<rparr>) = prefers pr"
  by (simp add: fun_eq_iff prefers_def)

lemma consider_admitted:
  assumes "consider_candidate w m kind requirement policy required preferred i c = Inr (pr, el)"
  shows "el = Some e \<longleftrightarrow> admitted w m kind requirement policy required preferred i c e"
proof -
  obtain creq found where creq: "candidate_requirement requirement c = Inr creq" "serves m kind (fst c) = Inr found"
    using assms by (auto simp: consider_candidate_def bindE_eq_Inr)
  show ?thesis
  proof (cases found)
    case None
    with assms creq show ?thesis by (auto simp: consider_candidate_def admitted_def)
  next
    case (Some p)
    with assms creq obtain pr0 ok where probe: "probe_provider w 0 i p creq policy = Inr pr0"
      "probe_eligible pr0 kind required = Inr ok"
      by (auto simp: consider_candidate_def bindE_eq_Inr Let_def)
    show ?thesis
    proof (cases ok)
      case False
      with assms creq Some probe show ?thesis by (auto simp: consider_candidate_def admitted_def Let_def)
    next
      case True
      with assms creq Some probe obtain pref where "prefers pr0 kind preferred = Inr pref"
        by (auto simp: consider_candidate_def bindE_eq_Inr Let_def)
      with assms creq Some probe True show ?thesis
        by (cases e) (auto simp: consider_candidate_def admitted_def Let_def)
    qed
  qed
qed

lemma consider_all_admitted:
  assumes "consider_candidates w m kind requirement policy required preferred i cs = Inr (prs, els)"
  shows "(\<forall>e. e \<in> set els \<longleftrightarrow> (\<exists>k < length cs.
            admitted w m kind requirement policy required preferred (i + k) (cs ! k) e)) \<and>
         sorted_wrt (\<lambda>x e. el_index x < el_index e) els"
  using assms
proof (induction cs arbitrary: i prs els)
  case (Cons c cs)
  from Cons.prems obtain pr el prs' els' where
      one: "consider_candidate w m kind requirement policy required preferred i c = Inr (pr, el)"
    and rest: "consider_candidates w m kind requirement policy required preferred (Suc i) cs = Inr (prs', els')"
    and els: "els = (case el of None \<Rightarrow> els' | Some e \<Rightarrow> e # els')"
    by (auto simp: bindE_eq_Inr)
  note IH = Cons.IH [OF rest]
  let ?adm = "admitted w m kind requirement policy required preferred"
  have mem: "e \<in> set els \<longleftrightarrow> ?adm i c e \<or> e \<in> set els'" for e
    using consider_admitted [OF one, of e] by (auto simp: els split: option.splits)
  have split: "(\<exists>k < length (c # cs). ?adm (i + k) ((c # cs) ! k) e) \<longleftrightarrow>
      ?adm i c e \<or> (\<exists>k < length cs. ?adm (Suc i + k) (cs ! k) e)" for e
    by (auto simp: less_Suc_eq_0_disj)
  have later: "i < el_index e" if "e \<in> set els'" for e
    using IH that by (auto simp: admitted_def)
  have "sorted_wrt (\<lambda>x e. el_index x < el_index e) els"
    using IH later consider_admitted [OF one] by (auto simp: els admitted_def split: option.splits)
  with IH mem split show ?case by simp
qed simp

lemma sorted_wrt_mono: "sorted_wrt P xs \<Longrightarrow> (\<And>x y. x \<in> set xs \<Longrightarrow> y \<in> set xs \<Longrightarrow> P x y \<Longrightarrow> Q x y) \<Longrightarrow> sorted_wrt Q xs"
  by (induction xs) auto

lemma selection_order_sorted:
  assumes "sorted_wrt (\<lambda>x e. el_index x < el_index e) els" and "preferred = [] \<Longrightarrow> \<forall>e \<in> set els. el_preferred e"
  shows "sorted_wrt precedes (selection_order preferred els)"
proof (cases "preferred = []")
  case True
  with assms show ?thesis by (auto simp: selection_order_def precedes_def elim: sorted_wrt_mono)
next
  case False
  have "sorted_wrt precedes (filter P els)" if "\<And>x y. P x \<Longrightarrow> P y \<Longrightarrow> el_preferred x = el_preferred y" for P
    using sorted_wrt_filter [OF assms(1), of P]
    by (rule sorted_wrt_mono) (auto simp: precedes_def dest: that)
  from this [of el_preferred] this [of "\<lambda>e. \<not> el_preferred e"] False show ?thesis
    by (simp add: selection_order_def sorted_wrt_append) (simp add: precedes_def)
qed

text \<open>The candidates and the capabilities the choice starts from.\<close>

definition selection_problem ::
  "pydict \<Rightarrow> resource_manager \<Rightarrow> candidate list \<Rightarrow> pydict \<Rightarrow> pydict \<Rightarrow> bool" where
  "selection_problem requirement m cs required preferred \<longleftrightarrow>
     (\<exists>configured. items_or_fault (dict_get_or requirement ''provider_candidates'' (PList [])) = Inr configured \<and>
        candidates requirement configured m = Inr cs) \<and>
     dict_or_fault (py_or (dict_get_or requirement ''required_capabilities'' (PDict [])) (PDict [])) = Inr required \<and>
     dict_or_fault (py_or (dict_get_or requirement ''preferred_capabilities'' (PDict [])) (PDict [])) = Inr preferred"

lemma select_provider_run:
  assumes "select_provider w requirement policy m = (m', Inr sel)"
  obtains cs required preferred probes els where "selection_problem requirement m' cs required preferred"
    "consider_candidates w m' (py_str (dict_get_or requirement ''kind'' (PStr []))) requirement policy
       required preferred 0 cs = Inr (probes, els)"
    "use_first w (py_str (dict_get_or requirement ''kind'' (PStr []))) policy required preferred
       (selection_order preferred els) probes = Inr sel"
  using assms
  by (auto simp: select_provider_def selection_problem_def Let_def bindE_eq_Inr
      split: sum.splits option.splits prod.splits if_splits)

text \<open>
  C22: The provider that is chosen for a requirement is registered under the candidate's id,
  serves the kind, and met the required capabilities in both probes; every candidate that comes
  before it (one that met the preferences comes before one that did not, otherwise the given
  order decides) was admitted by its first probe only to fail the second one.
\<close>

theorem select_provider_best:
  assumes "select_provider w requirement policy m = (m', Inr sel)"
    and kind: "kind = py_str (dict_get_or requirement ''kind'' (PStr []))"
  shows "\<exists>cs required preferred e. selection_problem requirement m' cs required preferred \<and>
     sl_provider sel = el_provider e \<and> sl_requirement sel = el_requirement e \<and> el_index e < length cs \<and>
     admitted w m' kind requirement policy required preferred (el_index e) (cs ! el_index e) e \<and>
     usable w kind policy required preferred e = Inr True \<and>
     (\<forall>i < length cs. \<forall>x. admitted w m' kind requirement policy required preferred i (cs ! i) x \<and> precedes x e \<longrightarrow>
        usable w kind policy required preferred x = Inr False)"
proof -
  obtain cs required preferred probes els where problem: "selection_problem requirement m' cs required preferred"
    and all: "consider_candidates w m' kind requirement policy required preferred 0 cs = Inr (probes, els)"
    and use: "use_first w kind policy required preferred (selection_order preferred els) probes = Inr sel"
    using select_provider_run [OF assms(1)] kind by blast
  let ?adm = "admitted w m' kind requirement policy required preferred"
  have els: "e \<in> set els \<longleftrightarrow> (\<exists>k < length cs. ?adm k (cs ! k) e)" for e
    using consider_all_admitted [OF all] by simp
  have "preferred = [] \<Longrightarrow> \<forall>e \<in> set els. el_preferred e"
    by (auto simp: els admitted_def prefers_def)
  then have sorted: "sorted_wrt precedes (selection_order preferred els)"
    using consider_all_admitted [OF all] by (intro selection_order_sorted) auto
  have same: "set (selection_order preferred els) = set els" by (auto simp: selection_order_def)
  obtain pre e post where order: "selection_order preferred els = pre @ e # post"
    and no: "\<forall>x \<in> set pre. usable w kind policy required preferred x = Inr False"
    and e: "usable w kind policy required preferred e = Inr True" "sl_provider sel = el_provider e"
      "sl_requirement sel = el_requirement e"
    using use_first_usable [OF use] by blast
  have "e \<in> set els" using same order by auto
  then obtain k where k: "k < length cs" "?adm k (cs ! k) e" by (auto simp: els)
  then have "el_index e = k" by (simp add: admitted_def)
  moreover have "usable w kind policy required preferred x = Inr False"
    if "i < length cs" "?adm i (cs ! i) x" "precedes x e" for i x
  proof -
    have "x \<in> set (pre @ e # post)" using that(1, 2) els same order by auto
    moreover have "\<not> precedes x x" "\<not> precedes e x" using that(3) by (auto simp: precedes_def)
    ultimately show ?thesis using no sorted that(3) by (auto simp: order sorted_wrt_append)
  qed
  ultimately show ?thesis using problem e k by blast
qed

section \<open>Overlapping releases\<close>

lemma get_provider_again:
  assumes "get_provider ps kind i m = (m', Inr p)" and "rm_by_id m2 = rm_by_id m'" and "rm_by_kind m2 = rm_by_kind m'"
  shows "get_provider ps kind i m2 = (m2, Inr p)"
proof -
  have eq: "find_provider kind i m2 = find_provider kind i m'"
    unfolding find_provider_def provider_by_id_def assms(2, 3) ..
  have "find_provider kind i m' = Inr (Some p)"
    using assms(1) by (auto simp: get_provider_def split: sum.splits option.splits prod.splits)
  with eq show ?thesis by (simp add: get_provider_def)
qed

lemma release_start_again:
  assumes "manager_ok m" and "release_start w hid False m = CallRelease m1 p h"
  shows "release_start w hid False m1 = CallRelease m1 p h"
proof (cases rule: release_start_cases [OF assms(1), of hid w False])
  case (4 h0 m' q)
  have h0: "handle_ok hid h0" using assms(1) 4(1) by (rule manager_ok_handle)
  let ?h = "dict_set ''status'' (PStr ''releasing'') h0"
  have res: "m1 = put_handle hid ?h m'" "p = q" "h = ?h" using 4(4) assms(2) by simp_all
  obtain n where n: "ref_count h0 1 = Inr n" "1 \<le> n" using ref_count_ok [OF h0] by blast
  have "n = 1" using 4(3) leases_handle [OF 4(1) n(1)] n(2) by auto
  let ?pid = "text_field h0 ''provider_id''"
  let ?i = "if ?pid = [] then None else Some ?pid"
  obtain m2 r where get: "get_provider (w_plugins w) (text_field h0 ''kind'') ?i m = (m2, r)"
    by (cases "get_provider (w_plugins w) (text_field h0 ''kind'') ?i m")
  have "hid \<noteq> []" using h0 by (simp add: handle_ok_def)
  with 4(1) n \<open>n = 1\<close> have "release_start w hid False m = (case r of Inl e \<Rightarrow> CannotRelease m2 e
      | Inr p \<Rightarrow> CallRelease (put_handle hid ?h m2) p ?h)"
    by (simp add: release_start_def Let_def get)
  then have r: "r = Inr q" and m1: "m1 = put_handle hid ?h m2"
    using 4(4) res by (cases r; simp)+
  have "get_provider (w_plugins w) (text_field h0 ''kind'') ?i m1 = (m1, Inr q)"
    by (rule get_provider_again [OF get [unfolded r]]) (simp_all add: m1 put_handle_def)
  moreover have "put_handle hid ?h m1 = m1"
    by (simp add: res put_handle_def)
  moreover have "dict_set ''status'' (PStr ''releasing'') ?h = ?h" by simp
  moreover have "dict_get (rm_handles m1) hid = Some ?h" by (simp add: res put_handle_def)
  ultimately show ?thesis
    using \<open>hid \<noteq> []\<close> n \<open>n = 1\<close> by (simp add: release_start_def Let_def ref_count_set text_field_set res)
qed (use assms(2) in simp_all)

lemma release_start_called:
  assumes "manager_ok m" and "release_start w hid False m = CallRelease m1 p h"
  shows "\<exists>h0 m0. dict_get (rm_handles m) hid = Some h0 \<and> same_tables m m0 \<and> m1 = put_handle hid h m0 \<and>
    h = dict_set ''status'' (PStr ''releasing'') h0"
proof (cases rule: release_start_cases [OF assms(1), of hid w False])
  case (4 h0 m' q)
  with assms(2) show ?thesis by (intro exI [of _ h0] exI [of _ m']) auto
qed (use assms(2) in simp_all)

section \<open>The properties\<close>



text \<open>
  While the provider is being awaited for the last lease, a second release of the same
  handle is not stopped: it asks the provider again, and the one that finishes last fails on
  the handle that is already gone.
\<close>

theorem overlapping_releases_clash:
  assumes "manager_history m" and "release_start w hid False m = CallRelease m1 p h"
  shows "release_start w hid False m1 = CallRelease m1 p h \<and>
    (\<exists>m2 evs. release_finish hid h None m1 = (m2, evs, Inr ()) \<and>
       release_finish hid h None m2 = (m2, [], Inl (HandleGone hid)))"
proof -
  note ok = history_ok [OF assms(1)]
  obtain h0 m0 where at: "dict_get (rm_handles m) hid = Some h0" "same_tables m m0"
    and res: "m1 = put_handle hid h m0" "h = dict_set ''status'' (PStr ''releasing'') h0"
    using release_start_called [OF ok assms(2)] by blast
  have ok1: "manager_ok m1"
    unfolding res
  proof (rule manager_ok_put [of m0 hid h0])
    show "manager_ok m0" using ok at(2) by (simp add: same_tables_ok)
    show "dict_get (rm_handles m0) hid = Some h0" using at by (simp add: same_tables_def)
    show "handle_ok hid (dict_set ''status'' (PStr ''releasing'') h0)"
      by (rule handle_ok_set [OF manager_ok_handle [OF ok at(1)]]) simp_all
  qed (simp add: reuse_key_set)
  have at1: "dict_get (rm_handles m1) hid = Some h" by (simp add: res put_handle_def)
  obtain m2 evs r where fin: "release_finish hid h None m1 = (m2, evs, r)" by (metis prod_cases3)
  from release_finish_ok [OF ok1 at1 fin] have m2: "manager_ok m2" "r = Inr ()" "dict_get (rm_handles m2) hid = None"
    by simp_all
  then have "dict_get (rm_reuse m2) k \<noteq> Some hid" for k
    unfolding manager_ok_def by (metis option.distinct(1))
  then have "release_finish hid h None m2 = (m2, [], Inl (HandleGone hid))"
    using m2(3) by (simp add: release_finish_def Let_def dict_has_iff)
  with release_start_again [OF ok assms(2)] fin m2(2) show ?thesis by blast
qed

lemma set_dict_field_other: "set_dict_field k d = Inr d' \<Longrightarrow> k \<noteq> k' \<Longrightarrow> dict_get d' k' = dict_get d k'"
  by (auto simp: set_dict_field_def bindE_eq_Inr)

lemma if_Inl_eq_Inr: "(if c then Inl e else x) = Inr y \<longleftrightarrow> \<not> c \<and> x = Inr y"
  by simp

lemma normalized_fields:
  assumes "normalize_requirement w d scope owner = Inr r"
  shows "\<exists>r0. r = dict_set ''reuse_key'' (PStr (derive_reuse_key w r0)) r0 \<and>
    dict_get r0 ''reuse_key'' = dict_get d ''reuse_key'' \<and>
    dict_get r0 ''owner_id'' = Some (PStr (py_str (py_or owner (dict_get_or d ''owner_id'' (PStr ''Agently'')))))"
proof -
  define kind where "kind = str_strip (dict_get_or d ''kind'' (PStr []))"
  define r1 where "r1 = dict_set ''kind'' (PStr kind) d"
  define r2 where "r2 = dict_set ''scope'' (py_or scope (dict_get_or r1 ''scope'' (PStr ''action_call''))) r1"
  define r3 where "r3 = dict_set ''owner_id'' (PStr (py_str (py_or owner (dict_get_or r2 ''owner_id'' (PStr ''Agently''))))) r2"
  define r4 where "r4 = dict_set ''resource_key'' (PStr (py_str (dict_get_or r3 ''resource_key'' (PStr kind)))) r3"
  obtain r5 cs r6 r7 r8 r9 where set: "set_dict_field ''config'' r4 = Inr r5"
    "set_dict_field ''required_capabilities'' (dict_set ''provider_candidates'' (PList cs) r5) = Inr r6"
    "set_dict_field ''preferred_capabilities'' r6 = Inr r7" "set_dict_field ''policy'' r7 = Inr r8"
    "set_dict_field ''meta'' r8 = Inr r9"
    and r: "r = with_identity w kind r9"
    using assms
    unfolding normalize_requirement_def Let_def kind_def [symmetric] r1_def [symmetric] r2_def [symmetric]
      r3_def [symmetric] r4_def [symmetric]
    by (simp only: bindE_eq_Inr if_Inl_eq_Inr sum.inject) (elim conjE exE, blast)
  have r9: "dict_get r9 k = dict_get r4 k" if "k = ''reuse_key'' \<or> k = ''owner_id''" for k
    using that set [THEN set_dict_field_other, of k] by auto
  have "dict_get r2 ''owner_id'' = dict_get d ''owner_id''" by (simp add: r2_def r1_def)
  then have owner: "dict_get r4 ''owner_id'' = Some (PStr (py_str (py_or owner (dict_get_or d ''owner_id'' (PStr ''Agently'')))))"
    by (simp add: r4_def r3_def dict_get_or_def)
  have key: "dict_get r4 ''reuse_key'' = dict_get d ''reuse_key''"
    by (simp add: r4_def r3_def r2_def r1_def)
  show ?thesis
    by (rule exI [of _ "if truthy (pget r9 ''requirement_id'') then r9
          else dict_set ''requirement_id'' (PStr (kind @ '':'' @ w_fresh w 0)) r9"])
      (use r9 owner key r in \<open>simp add: with_identity_def Let_def\<close>)
qed

text \<open>
  A declared requirement keeps the reuse key it got when it was declared: ensuring it for
  another scope and owner changes the owner of the requirement but not the key its handle is
  kept under, so the two owners share one handle.
\<close>

theorem declared_key_kept:
  assumes "normalize_requirement w d PNone PNone = Inr declared" and "text_field declared ''reuse_key'' \<noteq> []"
    and "normalize_requirement w2 declared scope (PStr owner) = Inr r" and "owner \<noteq> []"
  shows "manager_key ident r = manager_key ident declared \<and> dict_get r ''owner_id'' = Some (PStr owner)"
proof -
  obtain r1 where "declared = dict_set ''reuse_key'' (PStr (derive_reuse_key w r1)) r1"
    using normalized_fields [OF assms(1)] by blast
  then obtain key where key: "dict_get declared ''reuse_key'' = Some (PStr key)"
    and same: "text_field declared ''reuse_key'' = key"
    by (simp add: text_field_set)
  obtain r0 where r: "r = dict_set ''reuse_key'' (PStr (derive_reuse_key w2 r0)) r0"
    "dict_get r0 ''reuse_key'' = dict_get declared ''reuse_key''" "dict_get r0 ''owner_id'' = Some (PStr owner)"
    using normalized_fields [OF assms(3)] assms(4) by (metis py_or_def py_str.simps(1) truthy.simps(5))
  have "key \<noteq> []" using assms(2) same by simp
  have "derive_reuse_key w2 r0 = key"
    using \<open>key \<noteq> []\<close> by (simp add: derive_reuse_key_def pget_def text_field_def dict_get_or_def r(2) key)
  then have "text_field r ''reuse_key'' = text_field declared ''reuse_key''"
    by (simp add: r(1) text_field_set same)
  moreover have "dict_get r ''owner_id'' = Some (PStr owner)" by (simp add: r(1, 3))
  ultimately show ?thesis by (simp add: manager_key_def)
qed

text \<open>A provider without kinds fails to register once; the second attempt is accepted in silence.\<close>

lemma half_registered:
  assumes "provider_ident p = Inr ident" and "dict_get (rm_by_id m) ident = None" and "supported_kinds p = Inl e"
  shows "\<exists>m'. register_provider p m = (m', Some e) \<and> register_provider p m' = (m', None) \<and> rm_by_kind m' = rm_by_kind m"
  using assms by (simp add: register_provider_def Let_def)

section \<open>Witnesses\<close>

definition shell_provider :: provider where
  "shell_provider = \<lparr> pv_object = 1, pv_provider_id = PStr ''local'', pv_name = PNone, pv_kind = PStr ''shell'',
     pv_supported = PNone, pv_capabilities = PDict [(''gpu'', PBool True)], pv_probes = False \<rparr>"

text \<open>Providers that answer, and a world in which nothing new can be started.\<close>

definition shell_world :: world where
  "shell_world = \<lparr> w_policy = \<lparr> pe_settings = StateData [] None, pe_handlers = new_handlers,
       pe_terminal = \<lparr> t_interactive = False, t_timed_answer = (\<lambda>_. None), t_answer = None \<rparr>, pe_user = \<lambda>_ _. Inl NotCallable \<rparr>,
     w_plugins = [], w_probe = \<lambda>_ _ _ _ _. Inl [], w_ensure = \<lambda>_ _ _. Inr [], w_health = \<lambda>_ _. Inr ''ready'',
     w_release = \<lambda>_ _. None, w_grant = \<lambda>_. PStr [], w_fresh = \<lambda>_. ''f'' \<rparr>"


definition shell_need :: pydict where
  "shell_need = [(''kind'', PStr ''shell''), (''required_capabilities'', PDict [(''gpu'', PBool True)])]"

definition manager0 :: resource_manager where
  "manager0 = fst (register_provider shell_provider new_manager)"

definition manager1 :: resource_manager where
  "manager1 = fst (ensure shell_world (Given shell_need) PNone PNone manager0)"


lemma shell_world_good: "leases m = (\<lambda>_. 0) \<Longrightarrow> good_world shell_world m"
  by (simp add: good_world_def shell_world_def new_id_def dict_setdefault_def text_field_def dict_get_or_def dict_has_iff)


lemma manager0_history: "manager_history manager0"
  unfolding manager0_def by (intro manager_history.intros)

lemma manager0_good: "good_world shell_world manager0"
  by (rule shell_world_good) (simp add: manager0_def fun_eq_iff same_tables_leases [OF same_register] leases_def new_manager_def)

lemma manager1_history: "manager_history manager1"
  unfolding manager1_def by (intro manager_history.Ensure manager0_history manager0_good)





theorem overlapping_releases_clash_witness:
  "\<exists>m1 p h m2. release_start shell_world ''shell:f'' False manager1 = CallRelease m1 p h \<and>
     release_start shell_world ''shell:f'' False m1 = CallRelease m1 p h \<and>
     release_finish ''shell:f'' h None m2 = (m2, [], Inl (HandleGone ''shell:f''))"
proof -
  have "case release_start shell_world ''shell:f'' False manager1 of CallRelease m1 p h \<Rightarrow> True | _ \<Rightarrow> False"
    by code_simp
  then obtain m1 p h where run: "release_start shell_world ''shell:f'' False manager1 = CallRelease m1 p h"
    by (auto split: release_plan.splits)
  from overlapping_releases_clash [OF manager1_history run] run show ?thesis by blast
qed

theorem declared_key_kept_witness:
  "\<exists>d r. normalize_requirement shell_world shell_need PNone PNone = Inr d \<and>
     normalize_requirement shell_world d (PStr ''session'') (PStr ''bob'') = Inr r \<and>
     manager_key ''local'' r = manager_key ''local'' d \<and> dict_get r ''owner_id'' = Some (PStr ''bob'')"
proof -
  have "case normalize_requirement shell_world shell_need PNone PNone of
      Inr d \<Rightarrow> text_field d ''reuse_key'' \<noteq> [] \<and>
        (case normalize_requirement shell_world d (PStr ''session'') (PStr ''bob'') of Inr _ \<Rightarrow> True | _ \<Rightarrow> False)
    | _ \<Rightarrow> False"
    by code_simp
  then obtain d r where d: "normalize_requirement shell_world shell_need PNone PNone = Inr d"
    "text_field d ''reuse_key'' \<noteq> []" and r: "normalize_requirement shell_world d (PStr ''session'') (PStr ''bob'') = Inr r"
    by (auto split: sum.splits)
  with declared_key_kept [OF d r] show ?thesis by simp
qed

theorem select_provider_best_witness:
  "\<exists>m sel e. select_provider shell_world shell_need [] manager0 = (m, Inr sel) \<and>
     usable shell_world ''shell'' [] [(''gpu'', PBool True)] [] e = Inr True \<and> sl_provider sel = el_provider e"
proof -
  have "case select_provider shell_world shell_need [] manager0 of (_, Inr sel) \<Rightarrow> True | _ \<Rightarrow> False"
    by code_simp
  then obtain m sel where run: "select_provider shell_world shell_need [] manager0 = (m, Inr sel)"
    by (auto split: prod.splits sum.splits)
  have kind: "''shell'' = py_str (dict_get_or shell_need ''kind'' (PStr []))"
    by (simp add: shell_need_def dict_get_or_def)
  have "required = [(''gpu'', PBool True)] \<and> preferred = []"
    if "selection_problem shell_need m cs required preferred" for cs required preferred
    using that by (simp add: selection_problem_def shell_need_def dict_get_or_def py_or_def dict_or_fault_def dict_of_def)
  with select_provider_best [OF run kind] run show ?thesis by blast
qed

end
