(* ===== verification/Placeholders.thy ===== *)
theory Placeholders
  imports PyText
begin

text \<open>
  Placeholders \<open>${...}\<close> in texts: the scan of \<open>re.sub\<close> for a pattern that is one pair of
  braces, and the two patterns the settings use for environment variables
  (\<open>utils/Settings.py\<close>, \<open>utils/ModelPool.py\<close>).
\<close>

text \<open>
  What stands before the next closing brace, and what follows it.
\<close>

fun until_brace :: "string \<Rightarrow> (string \<times> string) option" where
  "until_brace [] = None"
| "until_brace (c # s) =
     (if c = CHR 0x7D then Some ([], s)
      else map_option (\<lambda>(inner, rest). (c # inner, rest)) (until_brace s))"

lemma until_brace_size: "until_brace s = Some (inner, rest) \<Longrightarrow> length inner + length rest < length s"
  by (induction s arbitrary: inner) (auto split: if_splits)

lemma until_brace_None [simp]: "until_brace s = None \<longleftrightarrow> CHR 0x7D \<notin> set s"
  by (induction s) auto

lemma until_brace_Some: "until_brace s = Some (inner, rest) \<longleftrightarrow> s = inner @ CHR 0x7D # rest \<and> CHR 0x7D \<notin> set inner"
proof (induction s arbitrary: inner)
  case (Cons c s)
  then show ?case by (cases inner) auto
qed simp

text \<open>
  The text cut into plain characters and placeholders; \<open>name\<close> says what the pattern captures
  of the text between the braces, if it matches.
\<close>

datatype brace_piece = Plain char | Placeholder string

function pieces :: "(string \<Rightarrow> string option) \<Rightarrow> string \<Rightarrow> brace_piece list" where
  "pieces name s =
     (case s of
        [] \<Rightarrow> []
      | c # t \<Rightarrow>
          (case (if c = CHR ''$'' \<and> t \<noteq> [] \<and> hd t = CHR 0x7B then until_brace (tl t) else None) of
             Some (inner, rest) \<Rightarrow>
               if name inner \<noteq> None then Placeholder inner # pieces name rest else Plain c # pieces name t
           | None \<Rightarrow> Plain c # pieces name t))"
  by pat_completeness auto
termination
  by (relation "measure (length \<circ> snd)")
    (auto split: if_splits dest!: until_brace_size simp: neq_Nil_conv)

declare pieces.simps [simp del]

fun piece_text :: "brace_piece \<Rightarrow> string" where
  "piece_text (Plain c) = [c]"
| "piece_text (Placeholder inner) = ''${'' @ inner @ ''}''"

lemma pieces_Nil [simp]: "pieces name [] = []"
  by (simp add: pieces.simps)

lemma pieces_text: "concat (map piece_text (pieces name s)) = s"
proof (induction name s rule: pieces.induct)
  case (1 name s)
  show ?case
  proof (cases s)
    case (Cons c t)
    show ?thesis
    proof (cases "c = CHR ''$'' \<and> t \<noteq> [] \<and> hd t = CHR 0x7B")
      case True
      then obtain u where t: "t = CHR 0x7B # u" by (cases t) auto
      show ?thesis
        using 1 Cons t True by (subst pieces.simps) (auto simp: until_brace_Some split: option.splits)
    qed (use 1 Cons in \<open>subst pieces.simps, auto\<close>)
  qed simp
qed

text \<open>The name in a placeholder: lazy, but at least one character.\<close>

definition lazy_name :: "string \<Rightarrow> string" where
  "lazy_name s = (if rstrip s = [] then take 1 s else rstrip s)"

definition env_prefix :: "string \<Rightarrow> string option" where
  "env_prefix s = (if take 4 s = ''ENV.'' \<and> drop 4 s \<noteq> [] then Some (drop 4 s) else None)"

text \<open>\<open>\${\s*ENV\.([^}]+?)\s*}\<close>, the pattern of the settings.\<close>

definition env_name :: "string \<Rightarrow> string option" where
  "env_name inner = map_option lazy_name (env_prefix (lstrip inner))"

text \<open>\<open>\${\s*(?:ENV\.)?([^}]+?)\s*}\<close>, the pattern of the model pool: \<open>ENV.\<close> may be left out.\<close>

definition any_name :: "string \<Rightarrow> string option" where
  "any_name inner =
     (if inner = [] then None
      else if lstrip inner = [] then Some [last inner]
      else case env_prefix (lstrip inner) of
        Some rest \<Rightarrow> Some (lazy_name rest)
      | None \<Rightarrow> Some (lazy_name (lstrip inner)))"

definition substitute :: "(string \<Rightarrow> string option) \<Rightarrow> (string \<Rightarrow> string) \<Rightarrow> string \<Rightarrow> string" where
  "substitute name f s =
     concat (map (\<lambda>p. case p of Plain c \<Rightarrow> [c] | Placeholder inner \<Rightarrow> f inner) (pieces name s))"

lemma substitute_same:
  assumes "\<And>inner. Placeholder inner \<in> set (pieces name s) \<Longrightarrow> f inner = ''${'' @ inner @ ''}''"
  shows "substitute name f s = s"
proof -
  have "map (\<lambda>p. case p of Plain c \<Rightarrow> [c] | Placeholder inner \<Rightarrow> f inner) (pieces name s) = map piece_text (pieces name s)"
    using assms by (auto split: brace_piece.splits)
  then show ?thesis unfolding substitute_def by (simp only: pieces_text)
qed

end
