(* ===== verification/ModelPool.thy ===== *)
theory ModelPool
  imports Placeholders StateStore
begin

text \<open>
  The model pool (\<open>utils/ModelPool.py\<close>): a model key is resolved through pools, profiles and
  API keys into the settings of a model requester, and a failing request may go on with
  another key.  Counters of the selection strategies are the state of the process.
  Parameters: the environment, the index a random choice draws, and the handlers of the user.
\<close>

datatype pool_error =
    EmptyKeyPool
  | UnknownMode string
  | UnknownKeyId string
  | KindFault
  | StoreFault state_error
  | HandlerFault string

definition lift_state :: "state_error + 'a \<Rightarrow> pool_error + 'a" where
  "lift_state r = (case r of Inl e \<Rightarrow> Inl (StoreFault e) | Inr a \<Rightarrow> Inr a)"

definition as_mapping :: "pyval \<Rightarrow> pool_error + pydict" where
  "as_mapping v = (case v of PDict d \<Rightarrow> Inr d | _ \<Rightarrow> Inl KindFault)"

section \<open>Handlers\<close>

record failover_context =
  fc_pool_id :: string
  fc_keys :: "pydict list"
  fc_current :: pyval
  fc_attempt :: nat
  fc_max_attempts :: int
  fc_error :: pyval
  fc_status :: "int option"
  fc_response :: pyval
  fc_request :: pyval
  fc_provider :: pyval
  fc_stream_started :: bool

datatype key_context =
    SelectionContext string "pydict list" string
  | FailoverContext failover_context

datatype handler_call = NoArguments | WithContext key_context | WithError pyval key_context

text \<open>
  What \<open>inspect.signature\<close> finds: required and all positional parameters, and whether there
  is a \<open>*args\<close>; nothing where it fails.
\<close>

record key_env =
  ke_callable :: "nat \<Rightarrow> bool"
  ke_signature :: "nat \<Rightarrow> (nat \<times> nat \<times> bool) option"
  ke_answer :: "nat \<Rightarrow> handler_call \<Rightarrow> pool_error + pyval"
  ke_to_dict :: "nat \<Rightarrow> pyval option"
  ke_environ :: "string \<Rightarrow> string option"
  ke_draw :: "nat \<Rightarrow> nat"

definition as_dict :: "key_env \<Rightarrow> pyval \<Rightarrow> pydict" where
  "as_dict env v =
     mapping_or_empty (case v of PObj i _ \<Rightarrow> (case ke_to_dict env i of Some w \<Rightarrow> w | None \<Rightarrow> v) | _ \<Rightarrow> v)"

definition as_callable :: "key_env \<Rightarrow> pyval \<Rightarrow> nat option" where
  "as_callable env v = (case v of PObj i _ \<Rightarrow> if ke_callable env i then Some i else None | _ \<Rightarrow> None)"

definition handler_arguments :: "(nat \<times> nat \<times> bool) option \<Rightarrow> key_context \<Rightarrow> handler_call" where
  "handler_arguments sig ctx =
     (case sig of
        None \<Rightarrow> WithContext ctx
      | Some (required, positional, varargs) \<Rightarrow>
          (case ctx of
             FailoverContext fc \<Rightarrow>
               if varargs \<or> 2 \<le> positional then WithError (fc_error fc) ctx
               else if required = 0 \<and> positional = 0 \<and> \<not> varargs then NoArguments
               else WithContext ctx
           | _ \<Rightarrow>
               if required = 0 \<and> positional = 0 \<and> \<not> varargs then NoArguments else WithContext ctx))"

definition ask_handler :: "key_env \<Rightarrow> nat \<Rightarrow> key_context \<Rightarrow> pool_error + pyval" where
  "ask_handler env i ctx = ke_answer env i (handler_arguments (ke_signature env i) ctx)"

definition strategy_config :: "key_env \<Rightarrow> pydict \<Rightarrow> string \<Rightarrow> pydict" where
  "strategy_config env config key =
     (let v = pget config key in
      if as_callable env v \<noteq> None then [(''handler'', v)]
      else case v of PStr s \<Rightarrow> [(''strategy'', v)] | _ \<Rightarrow> as_dict env v)"

definition resolve_env :: "key_env \<Rightarrow> string \<Rightarrow> string" where
  "resolve_env env =
     substitute any_name (\<lambda>inner.
       case any_name inner of
         None \<Rightarrow> []
       | Some name \<Rightarrow> (case ke_environ env name of None \<Rightarrow> [] | Some v \<Rightarrow> v))"

section \<open>Selecting a key\<close>

record key_counters =
  kc_robin :: "(string, nat) dict"
  kc_usage :: "(string, nat) dict"

definition select_key ::
  "key_env \<Rightarrow> string \<Rightarrow> string list \<Rightarrow> string \<Rightarrow> key_counters \<Rightarrow> key_counters \<times> (pool_error + string)" where
  "select_key env mode pool model c =
     (if pool = [] then (c, Inl EmptyKeyPool)
      else if mode = ''fixed'' then (c, Inr (hd pool))
      else if mode = ''random'' then (c, Inr (pool ! (ke_draw env (length pool) mod length pool)))
      else if mode = ''round_robin'' then
        (let idx = dict_get_or (kc_robin c) model 0
         in (c\<lparr> kc_robin := dict_set model (idx + 1) (kc_robin c) \<rparr>, Inr (pool ! (idx mod length pool))))
      else if mode = ''least_used'' then
        (let used = (\<lambda>k. dict_get_or (kc_usage c) k 0);
             selected = arg_min_list used pool
         in (c\<lparr> kc_usage := dict_set selected (used selected + 1) (kc_usage c) \<rparr>, Inr selected))
      else (c, Inl (UnknownMode mode)))"

definition first_value :: "pyval list \<Rightarrow> pyval" where
  "first_value vs = (case filter (\<lambda>v. v \<noteq> PNone) vs of [] \<Rightarrow> PNone | v # _ \<Rightarrow> v)"

definition key_entry :: "key_env \<Rightarrow> string \<Rightarrow> pyval \<Rightarrow> nat \<Rightarrow> pydict" where
  "key_entry env ident raw index =
     [(''id'', PStr ident), (''value'', PStr (resolve_env env (py_str raw))), (''index'', PInt (int index))]"

definition build_key_entry :: "key_env \<Rightarrow> string \<Rightarrow> nat \<Rightarrow> pyval \<Rightarrow> pydict \<Rightarrow> pydict option" where
  "build_key_entry env pool_id index raw legacy =
     (case raw of
        PStr s \<Rightarrow> Some (key_entry env s (dict_get_or legacy s raw) index)
      | _ \<Rightarrow>
          (let entry = as_dict env raw in
           if entry = [] then None
           else
             let ident = py_str (py_or (pget entry ''id'') (py_or (pget entry ''key_id'') (py_or (pget entry ''name'')
                   (PStr (pool_id @ ''['' @ nat_text index @ '']'')))));
                 value = first_value [pget entry ''value'', pget entry ''api_key'', pget entry ''auth'', pget legacy ident]
             in if value = PNone then None
                else Some (key_entry env ident value index @
                  filter (\<lambda>(k, _). k = ''weight'') entry @ filter (\<lambda>(k, _). k = ''tags'') entry)))"

definition entry_with_id :: "string \<Rightarrow> pydict list \<Rightarrow> pydict option" where
  "entry_with_id ident entries = find (\<lambda>e. pget e ''id'' = PStr ident) entries"

text \<open>A boolean is an index too.\<close>

definition entry_at :: "int \<Rightarrow> pydict list \<Rightarrow> pydict option" where
  "entry_at i entries = (if 0 \<le> i \<and> i < int (length entries) then Some (entries ! nat i) else None)"

definition given_entry :: "key_env \<Rightarrow> pydict \<Rightarrow> pydict list \<Rightarrow> string \<Rightarrow> pydict option" where
  "given_entry env choice entries default_id =
     (let ident = py_or (pget choice ''id'') (py_or (pget choice ''key_id'') (pget choice ''name'')) in
      case (if ident = PNone then None else entry_with_id (py_str ident) entries) of
        Some e \<Rightarrow> Some e
      | None \<Rightarrow>
          (let value = first_value [pget choice ''value'', pget choice ''api_key'', pget choice ''auth''] in
           if value = PNone then None
           else Some (key_entry env (py_str (py_or ident (PStr default_id))) value (length entries))))"

definition coerce_key_entry :: "key_env \<Rightarrow> pyval \<Rightarrow> pydict list \<Rightarrow> string \<Rightarrow> pydict option" where
  "coerce_key_entry env choice entries default_id =
     (case choice of
        PBool b \<Rightarrow> entry_at (if b then 1 else 0) entries
      | PInt i \<Rightarrow> entry_at i entries
      | PStr s \<Rightarrow> entry_with_id s entries
      | PDict d \<Rightarrow> given_entry env d entries default_id
      | _ \<Rightarrow> None)"

definition select_key_entry ::
  "key_env \<Rightarrow> string \<Rightarrow> pydict \<Rightarrow> pydict list \<Rightarrow> string \<Rightarrow> key_counters
   \<Rightarrow> key_counters \<times> (pool_error + pydict)" where
  "select_key_entry env pool_id config entries legacy_mode c =
     (let strategy = py_str (py_or (pget config ''strategy'') (py_or (pget config ''mode'')
            (py_or (PStr legacy_mode) (PStr ''fixed''))));
          asked = (case as_callable env (pget config ''handler'') of
             None \<Rightarrow> Inr None
           | Some i \<Rightarrow>
               bindE (ask_handler env i (SelectionContext pool_id entries strategy)) (\<lambda>v.
                 Inr (coerce_key_entry env v entries (pool_id @ ''.selected''))))
      in case asked of
           Inl e \<Rightarrow> (c, Inl e)
         | Inr (Some e) \<Rightarrow> (c, Inr e)
         | Inr None \<Rightarrow>
             (case select_key env strategy (map (\<lambda>e. py_str (pget e ''id'')) entries) (''api_key_pool:'' @ pool_id) c of
                (c', Inl e) \<Rightarrow> (c', Inl e)
              | (c', Inr ident) \<Rightarrow>
                  (c', case coerce_key_entry env (PStr ident) entries (pool_id @ ''.selected'') of
                         None \<Rightarrow> Inl (UnknownKeyId ident)
                       | Some e \<Rightarrow> Inr e)))"

text \<open>The entries that could be built, each with its place in the configured list.\<close>

fun build_entries :: "key_env \<Rightarrow> string \<Rightarrow> nat \<Rightarrow> pyval list \<Rightarrow> pydict \<Rightarrow> pydict list" where
  "build_entries env pool_id index [] legacy = []"
| "build_entries env pool_id index (raw # raws) legacy =
     (case build_key_entry env pool_id index raw legacy of
        None \<Rightarrow> build_entries env pool_id (Suc index) raws legacy
      | Some e \<Rightarrow> e # build_entries env pool_id (Suc index) raws legacy)"

definition attempt :: "pyval \<Rightarrow> string \<Rightarrow> pyval" where
  "attempt ident action = PDict [(''key_id'', ident), (''action'', PStr action)]"

definition pool_runtime :: "string \<Rightarrow> pydict \<Rightarrow> pydict \<Rightarrow> pydict list \<Rightarrow> pydict \<Rightarrow> pydict" where
  "pool_runtime pool_id selection failover entries selected =
     [(''pool_id'', PStr pool_id), (''selection'', PDict selection), (''failover'', PDict failover),
      (''keys'', PList (map PDict entries)), (''selected_key_id'', pget selected ''id''),
      (''attempts'', PList [attempt (pget selected ''id'') ''initial''])]"

definition resolve_api_key_pool ::
  "key_env \<Rightarrow> string \<Rightarrow> pydict \<Rightarrow> pydict \<Rightarrow> key_counters
   \<Rightarrow> key_counters \<times> (pool_error + (string \<times> pydict) option)" where
  "resolve_api_key_pool env pool_id pools legacy c =
     (let config = as_dict env (pget pools pool_id) in
      if config = [] then (c, Inr None)
      else
        let selection = strategy_config env config ''selection'';
            failover = strategy_config env config ''failover'';
            mode = py_str (py_or (pget config ''strategy'') (py_or (pget config ''mode'') (PStr ''fixed'')));
            raws = (if pget config ''keys'' = PNone then dict_get_or config ''pool'' (PList []) else pget config ''keys'')
        in case raws of
             PList xs \<Rightarrow>
               (let entries = build_entries env pool_id 0 xs legacy in
                if entries = [] then (c, Inr None)
                else case select_key_entry env pool_id selection entries mode c of
                  (c', Inl e) \<Rightarrow> (c', Inl e)
                | (c', Inr selected) \<Rightarrow>
                    (c', Inr (Some (py_str (pget selected ''value''), pool_runtime pool_id selection failover entries selected))))
           | _ \<Rightarrow> (c, Inr None))"

text \<open>Ids of a legacy pool are strings; others are outside the model.\<close>

definition text_items :: "pyval \<Rightarrow> pool_error + string list" where
  "text_items v =
     (case v of
        PList xs \<Rightarrow> mapE (\<lambda>x. case x of PStr s \<Rightarrow> Inr s | _ \<Rightarrow> Inl KindFault) xs
      | _ \<Rightarrow> Inl KindFault)"

definition resolve_legacy_key ::
  "key_env \<Rightarrow> string \<Rightarrow> pydict \<Rightarrow> pydict \<Rightarrow> key_counters \<Rightarrow> key_counters \<times> (pool_error + string option)" where
  "resolve_legacy_key env model key_pool strategies c =
     (let raw = pget strategies model in
      if \<not> truthy raw then (c, Inr None)
      else case as_mapping raw of
        Inl e \<Rightarrow> (c, Inl e)
      | Inr strategy \<Rightarrow>
          (let ids = dict_get_or strategy ''pool'' (PList []) in
           if \<not> truthy ids then (c, Inr None)
           else case text_items ids of
             Inl e \<Rightarrow> (c, Inl e)
           | Inr pool \<Rightarrow>
               (case select_key env (py_str (dict_get_or strategy ''mode'' (PStr ''fixed''))) pool model c of
                  (c', Inl e) \<Rightarrow> (c', Inl e)
                | (c', Inr ident) \<Rightarrow>
                    (c', (let v = dict_get_or key_pool ident (PStr []) in
                          if \<not> truthy v then Inr None
                          else case v of PStr s \<Rightarrow> Inr (Some (resolve_env env s)) | _ \<Rightarrow> Inl KindFault)))))"

section \<open>Going on with another key\<close>

definition normalize_action :: "pyval \<Rightarrow> string" where
  "normalize_action v =
     (let action = py_str (py_or v (PStr ''raise'')) in
      if action = ''retry_next'' \<or> action = ''next'' then ''try_next''
      else if action = ''raise_error'' \<or> action = ''error'' then ''raise''
      else action)"

definition failover_max_attempts :: "pydict \<Rightarrow> nat \<Rightarrow> int" where
  "failover_max_attempts config key_count =
     (case pget config ''max_attempts'' of
        PInt i \<Rightarrow> if 0 < i then i else max 1 (int key_count)
      | PBool b \<Rightarrow> if b then 1 else max 1 (int key_count)
      | _ \<Rightarrow> max 1 (int key_count))"

definition retry_code :: "pyval \<Rightarrow> pool_error + int option" where
  "retry_code v =
     (case v of
        PInt i \<Rightarrow> Inr (Some i)
      | PBool b \<Rightarrow> Inr (Some (if b then 1 else 0))
      | _ \<Rightarrow>
          if py_isdigit (py_str v) then (case py_int v of None \<Rightarrow> Inl KindFault | Some i \<Rightarrow> Inr (Some i))
          else Inr None)"

definition status_is_retryable :: "pydict \<Rightarrow> int option \<Rightarrow> pool_error + bool" where
  "status_is_retryable config status =
     (let codes = first_value [pget config ''retry_status_codes'', pget config ''status_codes''] in
      if codes = PNone then Inr (status \<in> Some ` {401, 403, 429})
      else case py_iter codes of
        None \<Rightarrow> Inl KindFault
      | Some vs \<Rightarrow> bindE (mapE retry_code vs) (\<lambda>cs. Inr (status \<noteq> None \<and> status \<in> set cs)))"

definition dict_items :: "pyval \<Rightarrow> pydict list" where
  "dict_items v = concat (map (\<lambda>x. case x of PDict d \<Rightarrow> [d] | _ \<Rightarrow> []) (case v of PList xs \<Rightarrow> xs | _ \<Rightarrow> []))"

definition runtime_keys :: "pydict \<Rightarrow> pydict list" where
  "runtime_keys rt = dict_items (dict_get_or rt ''keys'' (PList []))"

definition attempted_ids :: "pydict \<Rightarrow> pyval list" where
  "attempted_ids rt =
     filter (\<lambda>v. v \<noteq> PNone) (map (\<lambda>a. pget a ''key_id'') (dict_items (dict_get_or rt ''attempts'' (PList []))))"

fun start_index :: "pyval \<Rightarrow> nat \<Rightarrow> pydict list \<Rightarrow> nat" where
  "start_index current i [] = 0"
| "start_index current i (e # es) = (if py_eq (pget e ''id'') current then Suc i else start_index current (Suc i) es)"

definition next_key_entry :: "pydict \<Rightarrow> pydict option" where
  "next_key_entry rt =
     (let entries = runtime_keys rt; start = start_index (pget rt ''selected_key_id'') 0 entries
      in find (\<lambda>e. \<not> py_in (pget e ''id'') (attempted_ids rt)) (drop start entries @ take start entries))"

definition runtime_key_entry :: "key_env \<Rightarrow> pydict \<Rightarrow> pyval \<Rightarrow> pydict option" where
  "runtime_key_entry env rt choice =
     coerce_key_entry env choice (runtime_keys rt)
       (py_str (dict_get_or rt ''pool_id'' (PStr ''api_key_pool'')) @ ''.failover'')"

definition known_actions :: "string list" where
  "known_actions = [''try_next'', ''retry_same'', ''raise'', ''stop'']"

definition chosen_key :: "key_env \<Rightarrow> pydict \<Rightarrow> pyval \<Rightarrow> string \<times> pydict option" where
  "chosen_key env rt choice =
     (case runtime_key_entry env rt choice of Some e \<Rightarrow> (''retry_key'', Some e) | None \<Rightarrow> (''raise'', None))"

definition parse_failover_choice :: "key_env \<Rightarrow> pyval \<Rightarrow> pydict \<Rightarrow> string \<times> pydict option" where
  "parse_failover_choice env choice rt =
     (case choice of
        PBool True \<Rightarrow> (''try_next'', None)
      | PStr s \<Rightarrow>
          (let action = normalize_action choice in
           if action \<in> set known_actions then (action, None) else chosen_key env rt choice)
      | PDict d \<Rightarrow>
          (let action_value = py_or (pget d ''action'') (py_or (pget d ''decision'') (pget d ''strategy''));
               key_choice = dict_get_or d ''key_id'' (dict_get_or d ''key_entry'' (dict_get_or d ''key'' (pget d ''entry'')))
           in if action_value \<noteq> PNone then
                (normalize_action action_value,
                 if key_choice = PNone then None else runtime_key_entry env rt key_choice)
              else case (if key_choice = PNone then None else runtime_key_entry env rt key_choice) of
                Some e \<Rightarrow> (''retry_key'', Some e)
              | None \<Rightarrow> chosen_key env rt choice)
      | _ \<Rightarrow> (''raise'', None))"

datatype failover_decision =
    NoRetry string
  | Retry string string string

text \<open>What the provider knows of the failure.\<close>

record failure =
  fl_error :: pyval
  fl_status :: "int option"
  fl_response :: pyval
  fl_request :: pyval
  fl_provider :: pyval
  fl_stream_started :: bool

definition attempts_of :: "pydict \<Rightarrow> pyval list" where
  "attempts_of rt = (case dict_get_or rt ''attempts'' (PList []) of PList xs \<Rightarrow> xs | _ \<Rightarrow> [])"

definition raw_choice :: "key_env \<Rightarrow> pydict \<Rightarrow> pydict \<Rightarrow> failure \<Rightarrow> pool_error + pyval" where
  "raw_choice env rt config fl =
     (let attempts = attempts_of rt; keys = runtime_keys rt in
      case as_callable env (pget config ''handler'') of
        Some i \<Rightarrow>
          ask_handler env i (FailoverContext
            \<lparr> fc_pool_id = py_str (dict_get_or rt ''pool_id'' (PStr [])), fc_keys = keys,
              fc_current = pget rt ''selected_key_id'', fc_attempt = length attempts,
              fc_max_attempts = failover_max_attempts config (length keys), fc_error = fl_error fl,
              fc_status = fl_status fl, fc_response = fl_response fl, fc_request = fl_request fl,
              fc_provider = fl_provider fl, fc_stream_started = fl_stream_started fl \<rparr>)
      | None \<Rightarrow>
          bindE (status_is_retryable config (fl_status fl)) (\<lambda>ok.
            Inr (PStr (if ok then normalize_action (dict_get_or config ''strategy'' (PStr ''raise'')) else ''raise''))))"

definition retry_entry :: "key_env \<Rightarrow> pydict \<Rightarrow> string \<times> pydict option \<Rightarrow> pydict option" where
  "retry_entry env rt choice =
     (if fst choice = ''try_next'' then next_key_entry rt
      else if fst choice = ''retry_same'' then runtime_key_entry env rt (pget rt ''selected_key_id'')
      else snd choice)"

definition note_attempt :: "pydict \<Rightarrow> string \<Rightarrow> pydict \<Rightarrow> pydict" where
  "note_attempt rt action e =
     dict_set ''attempts'' (PList (attempts_of rt @ [attempt (pget e ''id'') action]))
       (dict_set ''selected_key_id'' (pget e ''id'') rt)"

text \<open>The decision on a runtime, and the runtime that is stored when the request goes on.\<close>

definition failover_step :: "key_env \<Rightarrow> pydict \<Rightarrow> failure \<Rightarrow> pool_error + failover_decision \<times> pydict option" where
  "failover_step env rt fl =
     (if rt = [] then Inr (NoRetry ''no_api_key_pool_runtime'', None)
      else
        let config = as_dict env (pget rt ''failover'') in
        if config = [] then Inr (NoRetry ''no_failover_policy'', None)
        else if runtime_keys rt = [] then Inr (NoRetry ''empty_api_key_pool'', None)
        else if int (length (attempts_of rt)) \<ge> failover_max_attempts config (length (runtime_keys rt))
          then Inr (NoRetry ''max_attempts_exhausted'', None)
        else if fl_stream_started fl \<and> \<not> truthy (dict_get_or config ''allow_stream_retry_after_output'' (PBool False))
          then Inr (NoRetry ''stream_already_started'', None)
        else
          bindE (raw_choice env rt config fl) (\<lambda>raw.
            let choice = parse_failover_choice env raw rt in
            if fst choice \<in> {''raise'', ''stop''} then Inr (NoRetry ''handler_or_policy_raised'', None)
            else case retry_entry env rt choice of
              None \<Rightarrow> Inr (NoRetry ''no_retry_key_available'', None)
            | Some e \<Rightarrow>
                Inr (Retry (fst choice) (py_str (pget e ''id'')) (py_str (pget e ''value'')),
                     Some (note_attempt rt (fst choice) e))))"

definition resolve_api_key_failover ::
  "key_env \<Rightarrow> string \<Rightarrow> failure \<Rightarrow> state_data \<Rightarrow> pool_error + failover_decision \<times> state_data" where
  "resolve_api_key_failover env ns fl s =
     bindE (lift_state (ns_get True ns ''_api_key_pool_runtime'' PNone s)) (\<lambda>v.
     bindE (failover_step env (as_dict env v) fl) (\<lambda>(d, rt).
       case (d, rt) of
         (Retry action ident value, Some rt') \<Rightarrow>
           bindE (lift_state (ns_set ns ''_api_key_pool_runtime'' (PDict rt') s)) (\<lambda>s1.
           bindE (lift_state (ns_set ns ''api_key'' (PStr value) s1)) (\<lambda>s2. Inr (d, s2)))
       | _ \<Rightarrow> Inr (d, s)))"

section \<open>From a model key to settings\<close>

definition profile_from_model_pool :: "key_env \<Rightarrow> string \<Rightarrow> pydict \<Rightarrow> pydict \<Rightarrow> string option \<times> pydict" where
  "profile_from_model_pool env key pool profiles =
     (let ref = pget pool key in
      if \<not> truthy ref then (None, [])
      else case ref of
        PDict d \<Rightarrow> (Some (py_str (py_or (pget d ''model'') (PStr key))), d)
      | PStr s \<Rightarrow>
          if dict_has profiles s then
            (let profile = as_dict env (pget profiles s) in (Some (py_str (py_or (pget profile ''model'') ref)), profile))
          else (Some s, [])
      | _ \<Rightarrow> (Some (py_str ref), []))"

definition profile_key :: "key_env \<Rightarrow> pydict \<Rightarrow> string option" where
  "profile_key env profile =
     (let raw = (if pget profile ''api_key'' \<noteq> PNone then pget profile ''api_key''
                 else case pget profile ''auth'' of PStr s \<Rightarrow> PStr s | _ \<Rightarrow> PNone)
      in if raw = PNone then None else Some (resolve_env env (py_str raw)))"

text \<open>The key: from the pool the profile names, else from the profile, else from a legacy pool.\<close>

definition resolve_key ::
  "key_env \<Rightarrow> string \<Rightarrow> pydict \<Rightarrow> pydict \<Rightarrow> pydict \<Rightarrow> pydict \<Rightarrow> key_counters
   \<Rightarrow> key_counters \<times> (pool_error + string option \<times> pydict option)" where
  "resolve_key env model profile pools key_pool strategies c =
     (case (if truthy (pget profile ''api_key_pool'')
            then resolve_api_key_pool env (py_str (pget profile ''api_key_pool'')) pools key_pool c
            else (c, Inr None)) of
        (c1, Inl e) \<Rightarrow> (c1, Inl e)
      | (c1, Inr (Some (key, rt))) \<Rightarrow> (c1, Inr (Some key, Some rt))
      | (c1, Inr None) \<Rightarrow>
          (case profile_key env profile of
             Some key \<Rightarrow> (c1, Inr (Some key, None))
           | None \<Rightarrow>
               if truthy (pget strategies model) then
                 (case resolve_legacy_key env model key_pool strategies c1 of
                    (c2, Inl e) \<Rightarrow> (c2, Inl e)
                  | (c2, Inr key) \<Rightarrow> (c2, Inr (key, None)))
               else (c1, Inr (None, None))))"

definition read_mapping :: "string \<Rightarrow> state_data \<Rightarrow> pool_error + pydict" where
  "read_mapping key s =
     bindE (lift_state (state_get True key (PDict []) s)) (\<lambda>v. as_mapping (py_or v (PDict [])))"

definition own_fields :: "string list" where
  "own_fields = [''provider'', ''model'', ''api_key_pool'', ''api_key'']"

definition set_field :: "string \<Rightarrow> string \<times> pyval \<Rightarrow> state_data \<Rightarrow> pool_error + state_data" where
  "set_field ns kv s =
     (case kv of (key, v) \<Rightarrow>
        if key \<in> set own_fields \<or> v = PNone then Inr s
        else lift_state (state_set (ns @ ''.'' @ key) v s))"

definition write_profile ::
  "string \<Rightarrow> string \<Rightarrow> pydict \<Rightarrow> string option \<Rightarrow> pydict option \<Rightarrow> state_data \<Rightarrow> pool_error + state_data" where
  "write_profile ns model profile key rt s =
     bindE (case rt of None \<Rightarrow> Inr s
            | Some r \<Rightarrow> lift_state (state_set (ns @ ''._api_key_pool_runtime'') (PDict r) s)) (\<lambda>s1.
     bindE (lift_state (state_set (ns @ ''.model'') (PStr model) s1)) (\<lambda>s2.
     bindE (foldE (set_field ns) profile s2) (\<lambda>s3.
       case key of None \<Rightarrow> Inr s3 | Some k \<Rightarrow> lift_state (state_set (ns @ ''.api_key'') (PStr k) s3))))"

text \<open>An exception leaves the counters changed; the settings it leaves are not described.\<close>

definition resolve_model_pool_settings ::
  "key_env \<Rightarrow> string \<Rightarrow> key_counters \<Rightarrow> state_data \<Rightarrow> key_counters \<times> (pool_error + state_data)" where
  "resolve_model_pool_settings env model_key c s =
     (if model_key = [] then (c, Inr s)
      else case
        (bindE (read_mapping ''model_pool'' s) (\<lambda>pool.
         bindE (read_mapping ''model_profiles'' s) (\<lambda>profiles.
         bindE (read_mapping ''api_key_pools'' s) (\<lambda>pools.
         bindE (read_mapping ''key_pool'' s) (\<lambda>key_pool.
         bindE (read_mapping ''key_pool_strategy'' s) (\<lambda>strategies.
           Inr (pool, profiles, pools, key_pool, strategies))))))) of
        Inl e \<Rightarrow> (c, Inl e)
      | Inr (pool, profiles, pools, key_pool, strategies) \<Rightarrow>
          (case profile_from_model_pool env model_key pool profiles of
             (None, _) \<Rightarrow> (c, Inr s)
           | (Some model, profile) \<Rightarrow>
               if model = [] then (c, Inr s)
               else
                 (case
                    (bindE (lift_state (state_get True ''plugins.ModelRequester.activate'' (PStr ''OpenAICompatible'') s)) (\<lambda>v.
                       let active = py_str v;
                           provider = py_str (py_or (pget profile ''provider'') (PStr active));
                           ns = ''plugins.ModelRequester.'' @ provider
                       in bindE (if provider = active then Inr s
                                 else lift_state (state_set ''plugins.ModelRequester.activate'' (PStr provider) s)) (\<lambda>s1.
                          bindE (lift_state (state_set (ns @ ''._api_key_pool_runtime'') PNone s1)) (\<lambda>s2.
                            Inr (ns, s2))))) of
                    Inl e \<Rightarrow> (c, Inl e)
                  | Inr (ns, s2) \<Rightarrow>
                      (case resolve_key env model profile pools key_pool strategies c of
                         (c', Inl e) \<Rightarrow> (c', Inl e)
                       | (c', Inr (key, rt)) \<Rightarrow> (c', write_profile ns model profile key rt s2)))))"

end
