(* ===== verification/ModelPoolTheorems.thy ===== *)
theory ModelPoolTheorems
  imports ModelPool StateCorrect
begin

text \<open>
  Properties of the model pool: the rotating strategies are fair, the retries of a request are
  bounded whatever a handler answers, and without a handler the failover visits every other
  key once, in the order of the pool.
\<close>

section \<open>Fair selection\<close>

fun select_many :: "key_env \<Rightarrow> string \<Rightarrow> string list \<Rightarrow> string \<Rightarrow> nat \<Rightarrow> key_counters \<Rightarrow> key_counters \<times> string list" where
  "select_many env mode pool model 0 c = (c, [])"
| "select_many env mode pool model (Suc n) c =
     (case select_key env mode pool model c of
        (c', Inl _) \<Rightarrow> (c', [])
      | (c', Inr k) \<Rightarrow> (case select_many env mode pool model n c' of (c'', ks) \<Rightarrow> (c'', k # ks)))"

lemma robin_sequence:
  assumes "pool \<noteq> []"
  shows "snd (select_many env ''round_robin'' pool model n c) =
    map (\<lambda>i. pool ! ((dict_get_or (kc_robin c) model 0 + i) mod length pool)) [0..<n]"
proof (induction n arbitrary: c)
  case (Suc n)
  let ?c = "c\<lparr> kc_robin := dict_set model (dict_get_or (kc_robin c) model 0 + 1) (kc_robin c) \<rparr>"
  have step: "select_key env ''round_robin'' pool model c =
      (?c, Inr (pool ! (dict_get_or (kc_robin c) model 0 mod length pool)))"
    using assms by (simp add: select_key_def Let_def)
  have "map (\<lambda>i. pool ! ((dict_get_or (kc_robin ?c) model 0 + i) mod length pool)) [0..<n] =
      map (\<lambda>i. pool ! ((dict_get_or (kc_robin c) model 0 + i) mod length pool)) [1..<Suc n]"
    by (simp add: map_Suc_upt [symmetric] dict_get_or_def del: map_Suc_upt upt_Suc)
  then show ?case
    using Suc.IH [of ?c] by (simp add: step upt_conv_Cons del: upt_Suc split: prod.splits) (metis snd_conv)
qed simp

lemma count_list_distinct: "distinct xs \<Longrightarrow> k \<in> set xs \<Longrightarrow> count_list xs k = 1"
  by (induction xs) auto

text \<open>A full turn from any position visits every place once.\<close>

lemma turn_count:
  assumes "distinct xs" and "k \<in> set xs"
  shows "count_list (map (\<lambda>i. xs ! ((s + i) mod length xs)) [0..<length xs]) k = 1"
proof -
  have "map (\<lambda>i. xs ! ((s + i) mod length xs)) [0..<length xs] = rotate s xs"
    by (rule nth_equalityI) (simp_all add: nth_rotate)
  moreover have "distinct (rotate s xs)" and "k \<in> set (rotate s xs)" using assms by simp_all
  ultimately show ?thesis by (simp add: count_list_distinct)
qed

lemma turns_count:
  assumes "distinct xs" and "k \<in> set xs"
  shows "count_list (map (\<lambda>i. xs ! ((s + i) mod length xs)) [0..<m * length xs]) k = m"
proof (induction m)
  case (Suc m)
  let ?f = "\<lambda>i. xs ! ((s + i) mod length xs)"
  have "[0..<Suc m * length xs] = [0..<m * length xs] @ map (\<lambda>i. m * length xs + i) [0..<length xs]"
    using upt_add_eq_append [of 0 "m * length xs" "length xs"] by (simp add: map_add_upt add.commute)
  moreover have "(s + (m * length xs + i)) mod length xs = (s + i) mod length xs" for i
    by (metis add.assoc add.commute mod_mult_self3)
  ultimately have "map ?f [0..<Suc m * length xs] = map ?f [0..<m * length xs] @ map ?f [0..<length xs]"
    by simp
  with Suc turn_count [OF assms, of s] show ?case by simp
qed simp

abbreviation used :: "key_counters \<Rightarrow> string \<Rightarrow> nat" where
  "used c k \<equiv> dict_get_or (kc_usage c) k 0"

lemma least_used_step:
  assumes "pool \<noteq> []" and "select_key env ''least_used'' pool model c = (c', r)"
  obtains k where "r = Inr k" "k \<in> set pool" "\<forall>j \<in> set pool. used c k \<le> used c j"
    "used c' = (used c)(k := Suc (used c k))"
proof -
  let ?k = "arg_min_list (used c) pool"
  have "used c ?k = Min (used c ` set pool)" using assms(1) by (rule f_arg_min_list_f)
  then have "\<forall>j \<in> set pool. used c ?k \<le> used c j" by simp
  moreover have "?k \<in> set pool" using assms(1) by (rule arg_min_list_in)
  ultimately show thesis
  proof (intro that [of ?k])
    have step: "c' = c\<lparr> kc_usage := dict_set ?k (Suc (used c ?k)) (kc_usage c) \<rparr>" "r = Inr ?k"
      using assms by (simp_all add: select_key_def Let_def)
    show "r = Inr ?k" by (rule step)
    show "used c' = (used c)(?k := Suc (used c ?k))"
      unfolding step fun_eq_iff by (simp add: dict_get_or_def)
  qed
qed

definition balanced :: "string list \<Rightarrow> key_counters \<Rightarrow> bool" where
  "balanced pool c \<longleftrightarrow> (\<forall>a \<in> set pool. \<forall>b \<in> set pool. used c a \<le> Suc (used c b))"

lemma least_used_many:
  assumes "pool \<noteq> []" and "balanced pool c" and "select_many env ''least_used'' pool model n c = (c', ks)"
  shows "balanced pool c' \<and> length ks = n \<and> set ks \<subseteq> set pool \<and> (\<forall>k. used c' k = used c k + count_list ks k)"
  using assms(2, 3)
proof (induction n arbitrary: c ks)
  case (Suc n)
  obtain c1 r where step: "select_key env ''least_used'' pool model c = (c1, r)"
    by (cases "select_key env ''least_used'' pool model c")
  from least_used_step [OF assms(1) step] obtain k where k: "r = Inr k" "k \<in> set pool"
    "\<forall>j \<in> set pool. used c k \<le> used c j" "used c1 = (used c)(k := Suc (used c k))"
    by blast
  obtain ks' where rest: "select_many env ''least_used'' pool model n c1 = (c', ks')" and ks: "ks = k # ks'"
    using Suc.prems(2) step k(1) by (auto split: prod.splits)
  have used1: "used c1 j = (if j = k then Suc (used c k) else used c j)" for j
    using fun_cong [OF k(4), of j] by simp
  have "balanced pool c1"
    using Suc.prems(1) k(2, 3) unfolding balanced_def used1 by (auto intro: le_SucI)
  from Suc.IH [OF this rest] show ?case
    using k(2) by (auto simp: ks used1)
qed simp

lemma sum_count_list_subset: "set ks \<subseteq> set pool \<Longrightarrow> sum (count_list ks) (set pool) = length ks"
  by (metis List.finite_set sum_count_set)

text \<open>Counters that differ by at most one and add up to a multiple of their number are equal.\<close>

lemma balanced_equal:
  fixes f :: "'a \<Rightarrow> nat"
  assumes "finite A" and "sum f A = m * card A" and "\<And>a b. a \<in> A \<Longrightarrow> b \<in> A \<Longrightarrow> f a \<le> Suc (f b)" and "k \<in> A"
  shows "f k = m"
proof (rule ccontr)
  assume "f k \<noteq> m"
  then consider "m < f k" | "f k < m" by linarith
  then show False
  proof cases
    case 1
    then have "\<And>a. a \<in> A \<Longrightarrow> m \<le> f a" using assms(3) [OF assms(4)] by fastforce
    then have "sum (\<lambda>_. m) A < sum f A"
      using assms(1, 4) 1 by (intro sum_strict_mono_ex1) auto
    with assms(2) show False by simp
  next
    case 2
    then have "\<And>a. a \<in> A \<Longrightarrow> f a \<le> m" using assms(3) [OF _ assms(4)] by fastforce
    then have "sum f A < sum (\<lambda>_. m) A"
      using assms(1, 4) 2 by (intro sum_strict_mono_ex1) auto
    with assms(2) show False by simp
  qed
qed

text \<open>
  C26: The rotating strategies are fair: after as many rounds over a pool of distinct keys as
  wanted, \<open>round_robin\<close> from any counter, and \<open>least_used\<close> from counters that are zero, have
  selected every key equally often.
\<close>

theorem selection_fair:
  assumes "distinct pool" and "mode = ''round_robin'' \<or> mode = ''least_used'' \<and> (\<forall>k \<in> set pool. used c k = 0)"
    and "k \<in> set pool"
  shows "count_list (snd (select_many env mode pool model (m * length pool) c)) k = m"
proof -
  have ne: "pool \<noteq> []" using assms(3) by auto
  from assms(2) consider "mode = ''round_robin''"
    | "mode = ''least_used''" "\<forall>k \<in> set pool. used c k = 0" by blast
  then show ?thesis
  proof cases
    case 1
    then show ?thesis using turns_count [OF assms(1, 3)] by (simp only: robin_sequence [OF ne])
  next
    case 2
    obtain c' ks where run: "select_many env ''least_used'' pool model (m * length pool) c = (c', ks)"
      by (cases "select_many env ''least_used'' pool model (m * length pool) c")
    have "balanced pool c" using 2 by (simp add: balanced_def)
    from least_used_many [OF ne this run] 2 have ks: "length ks = m * length pool" "set ks \<subseteq> set pool"
      "\<And>a b. a \<in> set pool \<Longrightarrow> b \<in> set pool \<Longrightarrow> count_list ks a \<le> Suc (count_list ks b)"
      by (auto simp: balanced_def)
    have "count_list ks k = m"
    proof (rule balanced_equal [of "set pool"])
      show "sum (count_list ks) (set pool) = m * card (set pool)"
        using sum_count_list_subset [OF ks(2)] ks(1) assms(1) by (simp add: distinct_card)
    qed (use ks(3) assms(3) in simp_all)
    with run 2 show ?thesis by simp
  qed
qed

section \<open>Bounded retries\<close>

text \<open>The retries of one request: each failure meets whatever the world answers to it.\<close>

fun failover_run :: "(key_env \<times> failure) list \<Rightarrow> pydict \<Rightarrow> string list \<times> pydict" where
  "failover_run [] rt = ([], rt)"
| "failover_run ((env, fl) # fs) rt =
     (case failover_step env rt fl of
        Inr (Retry action ident v, Some rt') \<Rightarrow>
          (case failover_run fs rt' of (ids, rt'') \<Rightarrow> (ident # ids, rt''))
      | _ \<Rightarrow> ([], rt))"

lemma note_attempt_facts:
  "length (attempts_of (note_attempt rt action e)) = Suc (length (attempts_of rt))"
  "pget (note_attempt rt action e) ''failover'' = pget rt ''failover''"
  "runtime_keys (note_attempt rt action e) = runtime_keys rt"
  by (simp_all add: note_attempt_def attempts_of_def dict_get_or_def pget_def runtime_keys_def)

lemma failover_step_retry:
  assumes "failover_step env rt fl = Inr (Retry action ident v, Some rt')"
  shows "int (length (attempts_of rt)) < failover_max_attempts (as_dict env (pget rt ''failover'')) (length (runtime_keys rt)) \<and>
    (\<exists>e. rt' = note_attempt rt action e)"
  using assms
  by (auto simp: failover_step_def Let_def bindE_eq_Inr split: if_splits option.splits)

text \<open>
  C19: Whatever handlers answer and however long requests keep failing, a request is retried
  less often than the failover policy of its pool allows attempts, the first one included.
\<close>

theorem failover_bounded:
  assumes "pget rt ''failover'' = PDict config"
  shows "length (fst (failover_run fs rt)) \<le>
    nat (failover_max_attempts config (length (runtime_keys rt))) - length (attempts_of rt)"
  using assms
proof (induction fs arbitrary: rt)
  case (Cons f fs)
  obtain env fl where f: "f = (env, fl)" by (cases f)
  show ?case
  proof (cases "\<exists>action ident v rt'. failover_step env rt fl = Inr (Retry action ident v, Some rt')")
    case True
    then obtain action ident v rt' where step: "failover_step env rt fl = Inr (Retry action ident v, Some rt')"
      by blast
    from failover_step_retry [OF step] Cons.prems obtain e where
      less: "int (length (attempts_of rt)) < failover_max_attempts config (length (runtime_keys rt))"
      and rt': "rt' = note_attempt rt action e"
      by (auto simp: as_dict_def mapping_or_empty_def)
    have "length (fst (failover_run fs rt')) \<le>
        nat (failover_max_attempts config (length (runtime_keys rt))) - Suc (length (attempts_of rt))"
      using Cons.IH [of rt'] Cons.prems by (simp add: rt' note_attempt_facts)
    moreover have "length (attempts_of rt) < nat (failover_max_attempts config (length (runtime_keys rt)))"
      using less by linarith
    ultimately show ?thesis by (cases "failover_run fs rt'") (simp add: f step)
  next
    case False
    then have "failover_run (f # fs) rt = ([], rt)"
      by (auto simp: f split: sum.splits prod.splits failover_decision.splits option.splits)
    then show ?thesis by simp
  qed
qed simp

section \<open>The order of the retries\<close>

text \<open>
  The runtime after the attempts made so far, when no handler interferes: the keys tried are
  the first ones of the pool, turned to start with the key of the first request.
\<close>

definition turned :: "nat \<Rightarrow> 'a list \<Rightarrow> 'a list" where
  "turned i xs = drop i xs @ take i xs"

definition tried :: "pydict list \<Rightarrow> nat \<Rightarrow> nat \<Rightarrow> pydict \<Rightarrow> bool" where
  "tried entries i j rt \<longleftrightarrow>
     runtime_keys rt = entries \<and>
     pget rt ''selected_key_id'' = pget (entries ! ((i + j) mod length entries)) ''id'' \<and>
     length (attempts_of rt) = Suc j \<and>
     attempted_ids rt = map (\<lambda>t. pget (entries ! ((i + t) mod length entries)) ''id'') [0..<Suc j]"

definition key_ids :: "pydict list \<Rightarrow> string list \<Rightarrow> bool" where
  "key_ids entries ids \<longleftrightarrow> map (\<lambda>e. pget e ''id'') entries = map PStr ids \<and> distinct ids"

lemma start_index_find:
  assumes "p < length entries" and "py_eq (pget (entries ! p) ''id'') current"
    and "\<And>q. q < p \<Longrightarrow> \<not> py_eq (pget (entries ! q) ''id'') current"
  shows "start_index current k entries = k + Suc p"
  using assms
proof (induction entries arbitrary: p k)
  case (Cons e es)
  show ?case
  proof (cases p)
    case (Suc q)
    have "\<not> py_eq (pget e ''id'') current" using Cons.prems(3) [of 0] Suc by simp
    moreover have "start_index current (Suc k) es = Suc k + Suc q"
      using Cons.prems Suc by (intro Cons.IH) (fastforce dest: Cons.prems(3) [of "Suc _"])+
    ultimately show ?thesis using Suc by simp
  qed (use Cons.prems in simp)
qed simp

lemma turned_rotate: "k \<le> length xs \<Longrightarrow> turned k xs = rotate k xs"
  by (cases "k = length xs") (simp_all add: turned_def rotate_drop_take)

definition try_next_config :: "key_env \<Rightarrow> pydict \<Rightarrow> nat \<Rightarrow> bool" where
  "try_next_config env config n \<longleftrightarrow>
     as_callable env (pget config ''handler'') = None \<and>
     normalize_action (dict_get_or config ''strategy'' (PStr ''raise'')) = ''try_next'' \<and>
     int n \<le> failover_max_attempts config n"

definition retryable :: "pydict \<Rightarrow> failure \<Rightarrow> bool" where
  "retryable config fl \<longleftrightarrow> status_is_retryable config (fl_status fl) = Inr True \<and> \<not> fl_stream_started fl"

lemma key_ids_nth:
  "key_ids entries ids \<Longrightarrow> p < length entries \<Longrightarrow> pget (entries ! p) ''id'' = PStr (ids ! p)"
  by (metis (no_types, lifting) key_ids_def length_map nth_map)

lemma key_ids_length: "key_ids entries ids \<Longrightarrow> length ids = length entries"
  by (metis key_ids_def length_map)

lemma next_key_rotates:
  assumes ids: "key_ids entries ids" and tried: "tried entries i j rt" and j: "j < length entries"
  shows "next_key_entry rt = (if Suc j < length entries then Some (entries ! ((i + Suc j) mod length entries)) else None)"
proof -
  let ?n = "length entries"
  let ?at = "\<lambda>t. (i + t) mod ?n"
  have n: "0 < ?n" using j by linarith
  have start: "start_index (pget rt ''selected_key_id'') 0 entries = Suc (?at j)"
  proof -
    have "start_index (pget (entries ! ?at j) ''id'') 0 entries = 0 + Suc (?at j)"
    proof (rule start_index_find)
      show "?at j < ?n" using n by simp
      then show "py_eq (pget (entries ! ?at j) ''id'') (pget (entries ! ?at j) ''id'')"
        by (simp add: key_ids_nth [OF ids])
      fix q assume "q < ?at j"
      with \<open>?at j < ?n\<close> show "\<not> py_eq (pget (entries ! q) ''id'') (pget (entries ! ?at j) ''id'')"
        using ids key_ids_length [OF ids] by (simp add: key_ids_nth [OF ids] key_ids_def nth_eq_iff_index_eq)
    qed
    with tried show ?thesis by (simp add: tried_def)
  qed
  let ?turn = "rotate (Suc (?at j)) entries"
  have "Suc (?at j) \<le> ?n" using n by (simp add: Suc_leI)
  then have turn: "drop (Suc (?at j)) entries @ take (Suc (?at j)) entries = ?turn"
    using turned_rotate [of "Suc (?at j)" entries] by (simp only: turned_def)
  have nth: "?turn ! t = entries ! ?at (Suc j + t)" if "t < ?n" for t
  proof -
    have "((i + j) mod ?n + Suc t) mod ?n = (i + j + Suc t) mod ?n" by (rule mod_add_left_eq)
    then show ?thesis using that by (simp add: nth_rotate add.assoc del: mod_add_left_eq rotate_Suc)
  qed
  have tried_ids: "py_in (pget (entries ! ?at s) ''id'') (attempted_ids rt) \<longleftrightarrow> ?at s \<in> ?at ` {..j}" for s
  proof -
    have "attempted_ids rt = map (\<lambda>t. PStr (ids ! ?at t)) [0..<Suc j]"
      using tried n by (simp add: tried_def key_ids_nth [OF ids] del: upt_Suc)
    then have "py_in (pget (entries ! ?at s) ''id'') (attempted_ids rt) \<longleftrightarrow> (\<exists>t \<in> {0..<Suc j}. ids ! ?at s = ids ! ?at t)"
      using n by (simp add: py_in_def list_ex_iff key_ids_nth [OF ids] image_iff del: upt_Suc)
    also have "\<dots> \<longleftrightarrow> (\<exists>t \<le> j. ids ! ?at s = ids ! ?at t)" by (auto simp: less_Suc_eq_le)
    also have "\<dots> \<longleftrightarrow> ?at s \<in> ?at ` {..j}"
      using n ids key_ids_length [OF ids] by (auto simp: key_ids_def nth_eq_iff_index_eq)
    finally show ?thesis .
  qed
  let ?fresh = "\<lambda>e. \<not> py_in (pget e ''id'') (attempted_ids rt)"
  have keys: "runtime_keys rt = entries" using tried by (simp add: tried_def)
  have found: "next_key_entry rt = find ?fresh ?turn"
    unfolding next_key_entry_def Let_def keys start turn ..
  show ?thesis
  proof (cases "Suc j < ?n")
    case True
    have "?at (Suc j) \<notin> ?at ` {..j}"
    proof
      assume "?at (Suc j) \<in> ?at ` {..j}"
      then obtain t where "t \<le> j" "(i + Suc j) mod ?n = (i + t) mod ?n" by auto
      then have "?n dvd (i + Suc j) - (i + t)" using mod_eq_dvd_iff_nat [of "i + t" "i + Suc j" ?n] by simp
      then have "?n \<le> Suc j - t" using \<open>t \<le> j\<close> by (intro dvd_imp_le) auto
      with True show False by simp
    qed
    then have "?fresh (?turn ! 0)" using tried_ids [of "Suc j"] nth [OF n] by simp
    moreover obtain e es where "?turn = e # es" using n by (cases ?turn) auto
    ultimately show ?thesis using True found nth [OF n] by simp
  next
    case False
    then have all: "j = ?n - 1" using j by simp
    have "\<not> ?fresh x" if "x \<in> set ?turn" for x
    proof -
      obtain t where t: "t < ?n" "x = ?turn ! t" using \<open>x \<in> set ?turn\<close> by (metis in_set_conv_nth length_rotate)
      have "?at (Suc j + t) = ?at t"
        using all n by (simp add: add.assoc [symmetric]) (metis Suc_pred add.assoc add.commute mod_add_self1)
      moreover have "t \<le> j" using t all by simp
      ultimately show ?thesis using t nth tried_ids [of "Suc j + t"] by auto
    qed
    then have "find ?fresh ?turn = None" by (simp add: find_None_iff)
    with False found show ?thesis by simp
  qed
qed

lemma attempted_ids_of:
  "attempted_ids rt = filter (\<lambda>v. v \<noteq> PNone)
     (map (\<lambda>a. pget a ''key_id'') (concat (map (\<lambda>x. case x of PDict d \<Rightarrow> [d] | _ \<Rightarrow> []) (attempts_of rt))))"
  by (simp add: attempted_ids_def dict_items_def attempts_of_def)

lemma attempts_note: "attempts_of (note_attempt rt action e) = attempts_of rt @ [attempt (pget e ''id'') action]"
  by (simp add: note_attempt_def attempts_of_def dict_get_or_def)

lemma attempted_note:
  "pget e ''id'' = PStr k \<Longrightarrow> attempted_ids (note_attempt rt action e) = attempted_ids rt @ [PStr k]"
  by (simp add: attempted_ids_of attempts_note attempt_def) (simp add: pget_def dict_get_or_def)

lemma selected_note: "pget (note_attempt rt action e) ''selected_key_id'' = pget e ''id''"
  by (simp add: note_attempt_def pget_def dict_get_or_def)

lemma tried_next:
  assumes "tried entries i j rt" and "e = entries ! ((i + Suc j) mod length entries)" and "pget e ''id'' = PStr k"
  shows "tried entries i (Suc j) (note_attempt rt action e)"
  using assms by (simp add: tried_def note_attempt_facts attempted_note selected_note)

lemma try_next_step:
  assumes ids: "key_ids entries ids" and tried: "tried entries i j rt" and j: "j < length entries"
    and config: "pget rt ''failover'' = PDict config" "try_next_config env config (length entries)" "config \<noteq> []"
    and fl: "retryable config fl"
  shows "failover_step env rt fl =
    (let e = entries ! ((i + Suc j) mod length entries) in
     if Suc j < length entries
     then Inr (Retry ''try_next'' (py_str (pget e ''id'')) (py_str (pget e ''value'')), Some (note_attempt rt ''try_next'' e))
     else Inr (NoRetry (if failover_max_attempts config (length entries) = int (Suc j)
       then ''max_attempts_exhausted'' else ''no_retry_key_available''), None))"
proof -
  have rt: "rt \<noteq> []" using config(1) by (auto simp: pget_def dict_get_or_def)
  have keys: "runtime_keys rt = entries" "entries \<noteq> []" "length (attempts_of rt) = Suc j"
    using tried j by (auto simp: tried_def)
  have dict: "as_dict env (pget rt ''failover'') = config" using config(1) by (simp add: as_dict_def mapping_or_empty_def)
  have max: "int (length entries) \<le> failover_max_attempts config (length entries)"
    using config(2) by (simp add: try_next_config_def)
  have raw: "raw_choice env rt config fl = Inr (PStr ''try_next'')"
    using config(2) fl by (simp add: raw_choice_def try_next_config_def retryable_def)
  have choice: "parse_failover_choice env (PStr ''try_next'') rt = (''try_next'', None)"
    by (simp add: parse_failover_choice_def normalize_action_def py_or_def known_actions_def)
  have calm: "\<not> fl_stream_started fl" using fl by (simp add: retryable_def)
  show ?thesis
  proof (cases "int (Suc j) < failover_max_attempts config (length entries)")
    case True
    then show ?thesis
      using rt keys dict config(3) calm
      by (simp add: failover_step_def Let_def raw choice retry_entry_def next_key_rotates [OF ids tried j])
  next
    case False
    then have "failover_max_attempts config (length entries) = int (Suc j)" "\<not> Suc j < length entries"
      using max j by linarith+
    then show ?thesis using rt keys dict config(3) by (simp add: failover_step_def Let_def)
  qed
qed

lemma failover_run_turns:
  assumes "key_ids entries ids" and "tried entries i j rt" and "j < length entries"
    and "pget rt ''failover'' = PDict config" and "config \<noteq> []"
    and "\<forall>(env, fl) \<in> set fs. try_next_config env config (length entries) \<and> retryable config fl"
  shows "fst (failover_run fs rt) =
    map (\<lambda>t. ids ! ((i + t) mod length entries)) (take (length fs) [Suc j..<length entries])"
  using assms(2-)
proof (induction fs arbitrary: j rt)
  case (Cons f fs)
  obtain env fl where f: "f = (env, fl)" by (cases f)
  let ?e = "entries ! ((i + Suc j) mod length entries)"
  have n: "0 < length entries" using Cons.prems(2) by linarith
  then have id: "pget ?e ''id'' = PStr (ids ! ((i + Suc j) mod length entries))"
    by (intro key_ids_nth [OF assms(1)]) simp
  have step: "try_next_config env config (length entries)" "retryable config fl"
    using Cons.prems(5) by (simp_all add: f)
  note step = try_next_step [OF assms(1) Cons.prems(1-3) step(1) Cons.prems(4) step(2)]
  show ?case
  proof (cases "Suc j < length entries")
    case True
    let ?rt = "note_attempt rt ''try_next'' ?e"
    have "fst (failover_run fs ?rt) =
        map (\<lambda>t. ids ! ((i + t) mod length entries)) (take (length fs) [Suc (Suc j)..<length entries])"
      using Cons.prems True tried_next [OF Cons.prems(1) refl id]
      by (intro Cons.IH) (auto simp: note_attempt_facts)
    then show ?thesis
      using True id by (simp add: f step Let_def upt_conv_Cons del: upt_Suc split: prod.splits) (metis fst_conv)
  next
    case False
    then show ?thesis by (simp add: f step Let_def)
  qed
qed simp

text \<open>
  C25: Without a handler, a policy that goes on to the next key visits every other key of the
  pool exactly once, in the order of the pool from the key that was used first, and then gives
  up; fewer failures visit the first of these keys.
\<close>

theorem failover_visits_each_key:
  assumes "key_ids entries ids" and "i < length entries"
    and "config \<noteq> []" and "\<forall>(env, fl) \<in> set fs. try_next_config env config (length entries) \<and> retryable config fl"
  shows "fst (failover_run fs (pool_runtime pool_id selection config entries (entries ! i))) =
    take (length fs) (drop (Suc i) ids @ take i ids)"
proof -
  let ?rt = "pool_runtime pool_id selection config entries (entries ! i)"
  let ?n = "length entries"
  have id: "pget (entries ! i) ''id'' = PStr (ids ! i)" using assms(1, 2) by (rule key_ids_nth)
  have "dict_items (PList (map PDict entries)) = entries" by (induction entries) (simp_all add: dict_items_def)
  then have "tried entries i 0 ?rt"
    using assms(2) id
    by (simp add: tried_def pool_runtime_def runtime_keys_def attempted_ids_def attempts_of_def attempt_def
        dict_items_def pget_def dict_get_or_def)
  then have "fst (failover_run fs ?rt) = map (\<lambda>t. ids ! ((i + t) mod ?n)) (take (length fs) [Suc 0..<?n])"
    using assms by (intro failover_run_turns) (auto simp: pool_runtime_def pget_def dict_get_or_def)
  also have "\<dots> = take (length fs) (map (\<lambda>t. ids ! ((i + t) mod ?n)) [Suc 0..<?n])"
    by (simp add: take_map)
  also have "map (\<lambda>t. ids ! ((i + t) mod ?n)) [Suc 0..<?n] = tl (rotate i ids)"
    using key_ids_length [OF assms(1)]
    by (intro nth_equalityI) (simp_all add: nth_tl nth_rotate)
  also have "tl (rotate i ids) = drop (Suc i) ids @ take i ids"
  proof -
    have i: "i < length ids" using assms(2) key_ids_length [OF assms(1)] by simp
    then have "rotate i ids = drop i ids @ take i ids" using turned_rotate [of i ids] by (simp add: turned_def)
    also have "drop i ids = ids ! i # drop (Suc i) ids" using i by (rule Cons_nth_drop_Suc [symmetric])
    finally show ?thesis by simp
  qed
  finally show ?thesis .
qed

section \<open>The settings of a requester\<close>

lemma state_view_root: "state_view (StateData d None) = Inr d"
  by (simp add: state_view_def merge_view_def)

lemma ns_get_own:
  assumes "own_read (StateData d None) (ns_key ns key) = Some v" and "\<not> is_dotted key" and "v \<noteq> PNone"
  shows "ns_get True ns key dflt (StateData d None) = Inr v"
proof -
  let ?s = "StateData d None"
  obtain w where w: "own_read ?s ns = Some w" and "walk [key] w = Some v"
    using assms(1, 2) by (auto simp: own_read_ns path_list_plain split: option.splits)
  then obtain e where e: "w = PDict e" "dict_get e key = Some v"
    by (auto split: pyval.splits option.splits)
  have "state_get True ns PNone ?s = state_get False ns PNone ?s"
    by (simp add: state_get_def visible_data_def state_view_root)
  then have "ns_data ns ?s = Inr (PDict e)" using w e by (simp add: ns_data_def state_get_own)
  then show ?thesis
    using assms(2, 3) e by (simp add: ns_get_def ns_item_def pget_def dict_get_or_def)
qed

lemma lift_state_Inr: "lift_state r = Inr a \<longleftrightarrow> r = Inr a"
  by (simp add: lift_state_def split: sum.splits)

lemma failover_step_Some: "failover_step env rt fl = Inr (Retry action ident v, out) \<Longrightarrow> out \<noteq> None"
  by (auto simp: failover_step_def Let_def bindE_eq_Inr split: if_splits option.splits)

text \<open>
  Deciding on a retry reads the runtime of the pool from the settings of the requester and
  writes the new runtime and the new key there, and nothing else; so the next failure of the
  same request continues with what this one recorded.
\<close>

theorem failover_settings:
  assumes "own_read (StateData d None) (ns_key ns ''_api_key_pool_runtime'') = Some (PDict rt)"
    and "resolve_api_key_failover env ns fl (StateData d None) = Inr (Retry action ident v, s')"
  shows "\<exists>rt'. failover_step env rt fl = Inr (Retry action ident v, Some rt') \<and>
    own_read s' (ns_key ns ''_api_key_pool_runtime'') = Some (PDict rt') \<and>
    own_read s' (ns_key ns ''api_key'') = Some (PStr v) \<and>
    (\<forall>q. path_list ''_api_key_pool_runtime'' \<parallel> path_list q \<and> path_list ''api_key'' \<parallel> path_list q \<longrightarrow>
       own_read s' (ns_key ns q) = own_read (StateData d None) (ns_key ns q))"
proof -
  have plain: "\<not> is_dotted ''_api_key_pool_runtime''" "\<not> is_dotted ''api_key''" by (simp_all add: is_dotted_def)
  have get: "ns_get True ns ''_api_key_pool_runtime'' PNone (StateData d None) = Inr (PDict rt)"
    using assms(1) plain(1) by (rule ns_get_own) simp
  have dict: "as_dict env (PDict rt) = rt" by (simp add: as_dict_def mapping_or_empty_def)
  obtain rt' s1 where step: "failover_step env rt fl = Inr (Retry action ident v, Some rt')"
    and s1: "ns_set ns ''_api_key_pool_runtime'' (PDict rt') (StateData d None) = Inr s1"
    and s2: "ns_set ns ''api_key'' (PStr v) s1 = Inr s'"
  proof -
    obtain dec out where step: "failover_step env rt fl = Inr (dec, out)"
      and rest: "(case (dec, out) of
        (Retry action ident v, Some rt') \<Rightarrow>
          bindE (lift_state (ns_set ns ''_api_key_pool_runtime'' (PDict rt') (StateData d None))) (\<lambda>s1.
          bindE (lift_state (ns_set ns ''api_key'' (PStr v) s1)) (\<lambda>s2. Inr (dec, s2)))
       | _ \<Rightarrow> Inr (dec, StateData d None)) = Inr (Retry action ident v, s')"
      using assms(2) by (auto simp: resolve_api_key_failover_def get dict lift_state_Inr bindE_eq_Inr)
    show thesis
    proof (cases dec)
      case (NoRetry reason)
      with rest show ?thesis by simp
    next
      case (Retry action' ident' v')
      with failover_step_Some step obtain rt' where out: "out = Some rt'" by blast
      with rest Retry step that show ?thesis by (auto simp: bindE_eq_Inr lift_state_Inr)
    qed
  qed
  have apart: "path_list ''api_key'' \<parallel> path_list ''_api_key_pool_runtime''"
    using plain by (simp add: path_list_plain parallel_def)
  show ?thesis
    using step namespace.read_write [OF s1] namespace.read_write [OF s2]
      namespace.read_write_apart [OF apart s2] namespace.read_write_apart [OF _ s1] namespace.read_write_apart [OF _ s2]
    by auto
qed

section \<open>Where the choice of a key goes wrong\<close>

text \<open>A handler that answers \<open>True\<close> has selected the second key, since a boolean is an index.\<close>

lemma true_selects_second: "coerce_key_entry env (PBool True) (e0 # e1 # es) dflt = Some e1"
  by (simp add: coerce_key_entry_def entry_at_def)

text \<open>Of two entries with one id only the first is ever used.\<close>

lemma same_id_first: "pget e0 ''id'' = PStr k \<Longrightarrow> coerce_key_entry env (PStr k) (e0 # es) dflt = Some e0"
  by (simp add: coerce_key_entry_def entry_with_id_def)

section \<open>Witnesses\<close>

definition quiet_keys :: key_env where
  "quiet_keys = \<lparr> ke_callable = (\<lambda>_. False), ke_signature = (\<lambda>_. None), ke_answer = (\<lambda>_ _. Inl KindFault),
     ke_to_dict = (\<lambda>_. None), ke_environ = (\<lambda>_. None), ke_draw = (\<lambda>_. 0) \<rparr>"

definition no_counts :: key_counters where
  "no_counts = \<lparr> kc_robin = [], kc_usage = [] \<rparr>"

definition three_keys :: "pydict list" where
  "three_keys = build_entries quiet_keys ''p'' 0 [PStr ''a'', PStr ''b'', PStr ''c''] []"

definition next_policy :: pydict where
  "next_policy = [(''strategy'', PStr ''next'')]"

definition limited :: failure where
  "limited = \<lparr> fl_error = PNone, fl_status = Some 429, fl_response = PNone, fl_request = PNone, fl_provider = PNone,
     fl_stream_started = False \<rparr>"

theorem selection_fair_witness:
  "distinct [''a'', ''b'', ''c''] \<and>
   count_list (snd (select_many quiet_keys ''least_used'' [''a'', ''b'', ''c''] ''m'' (2 * 3) no_counts)) ''b'' = 2"
proof -
  have "used no_counts k = 0" for k by (simp add: no_counts_def dict_get_or_def)
  then show ?thesis
    using selection_fair [of "[''a'', ''b'', ''c'']" "''least_used''" no_counts "''b''" quiet_keys "''m''" 2] by simp
qed

lemma three_keys_runtime: "length (runtime_keys (pool_runtime ''p'' [] next_policy three_keys (three_keys ! 1))) = 3 \<and>
  length (attempts_of (pool_runtime ''p'' [] next_policy three_keys (three_keys ! 1))) = 1 \<and>
  pget (pool_runtime ''p'' [] next_policy three_keys (three_keys ! 1)) ''failover'' = PDict next_policy"
  by code_simp

theorem failover_bounded_witness:
  "pget (pool_runtime ''p'' [] next_policy three_keys (three_keys ! 1)) ''failover'' = PDict next_policy \<and>
   length (fst (failover_run (replicate 5 (quiet_keys, limited)) (pool_runtime ''p'' [] next_policy three_keys (three_keys ! 1)))) \<le> 2"
proof -
  have "nat (failover_max_attempts next_policy 3) - 1 = 2" by code_simp
  then show ?thesis
    using failover_bounded [of "pool_runtime ''p'' [] next_policy three_keys (three_keys ! 1)" next_policy
        "replicate 5 (quiet_keys, limited)"] three_keys_runtime
    by simp
qed

theorem failover_visits_each_key_witness:
  "fst (failover_run (replicate 5 (quiet_keys, limited)) (pool_runtime ''p'' [] next_policy three_keys (three_keys ! 1))) =
     [''c'', ''a'']"
proof -
  have ids: "key_ids three_keys [''a'', ''b'', ''c'']" "length three_keys = 3"
    unfolding key_ids_def by code_simp+
  have conf: "try_next_config quiet_keys next_policy 3" "retryable next_policy limited" "next_policy \<noteq> []"
    by code_simp+
  show ?thesis
    using failover_visits_each_key [OF ids(1), of 1 next_policy "replicate 5 (quiet_keys, limited)"] ids(2) conf
    by simp
qed

theorem failover_settings_witness:
  "\<exists>s'. resolve_api_key_failover quiet_keys ''r''  limited
      (StateData [(''r'', PDict [(''_api_key_pool_runtime'',
         PDict (pool_runtime ''p'' [] next_policy three_keys (three_keys ! 1)))])] None) =
      Inr (Retry ''try_next'' ''c'' ''c'', s') \<and> own_read s' (ns_key ''r'' ''api_key'') = Some (PStr ''c'')"
proof -
  let ?d = "[(''r'', PDict [(''_api_key_pool_runtime'',
         PDict (pool_runtime ''p'' [] next_policy three_keys (three_keys ! 1)))])]"
  have at: "own_read (StateData ?d None) (ns_key ''r'' ''_api_key_pool_runtime'') =
      Some (PDict (pool_runtime ''p'' [] next_policy three_keys (three_keys ! 1)))"
    by (simp add: own_read_ns own_read_plain path_list_plain is_dotted_def)
  have "case resolve_api_key_failover quiet_keys ''r'' limited (StateData ?d None) of
      Inr (d, _) \<Rightarrow> d = Retry ''try_next'' ''c'' ''c'' | _ \<Rightarrow> False"
    by code_simp
  then obtain s' where run: "resolve_api_key_failover quiet_keys ''r'' limited (StateData ?d None) =
      Inr (Retry ''try_next'' ''c'' ''c'', s')"
    by (auto split: sum.splits prod.splits)
  from failover_settings [OF at run] run show ?thesis by blast
qed

end
