(* ===== verification/SettingsMaps.thy ===== *)
theory SettingsMaps
  imports Placeholders StateStore
begin

text \<open>
  Settings (\<open>utils/Settings.py\<close>): a state store with two tables of short names.  A path mapping
  sends a short name to the path of a setting, a key-value mapping sends a short name with a
  value to a dictionary of settings.  Environment variables are substituted in values
  (\<open>substitute_placeholder\<close> of \<open>utils/DataFormatter.py\<close>).  Parsing of files and texts, and
  the environment, are parameters.
\<close>

datatype settings_error =
    TableFault state_error
  | MissingVariable string
  | OtherTable string
  | KeyNotText pyval
  | NotSettings pyval

definition from_state :: "state_error + 'a \<Rightarrow> settings_error + 'a" where
  "from_state r = (case r of Inl e \<Rightarrow> Inl (TableFault e) | Inr a \<Rightarrow> Inr a)"

lemma from_state_simps [simp]: "from_state (Inr a) = Inr a" "from_state (Inl e) = Inl (TableFault e)"
  by (simp_all add: from_state_def)

lemma from_state_Inr [simp]: "from_state r = Inr a \<longleftrightarrow> r = Inr a"
  by (simp add: from_state_def split: sum.splits)

section \<open>Environment variables\<close>

text \<open>
  A variable that is not set leaves the placeholder, or raises.  Variables are texts, so a text
  that is one placeholder needs no case of its own.
\<close>

definition piece_value :: "bool \<Rightarrow> (string \<Rightarrow> string option) \<Rightarrow> brace_piece \<Rightarrow> settings_error + string" where
  "piece_value raise_empty env p =
     (case p of
        Plain c \<Rightarrow> Inr [c]
      | Placeholder inner \<Rightarrow>
          (let key = strip (case env_name inner of None \<Rightarrow> [] | Some n \<Rightarrow> n) in
           case env key of
             Some v \<Rightarrow> Inr v
           | None \<Rightarrow> if raise_empty then Inl (MissingVariable key) else Inr (piece_text p)))"

definition substitute_text :: "bool \<Rightarrow> (string \<Rightarrow> string option) \<Rightarrow> string \<Rightarrow> settings_error + string" where
  "substitute_text raise_empty env s =
     bindE (mapE (piece_value raise_empty env) (pieces env_name s)) (\<lambda>ts. Inr (concat ts))"

fun substitute_value :: "bool \<Rightarrow> (string \<Rightarrow> string option) \<Rightarrow> pyval \<Rightarrow> settings_error + pyval" where
  "substitute_value r env (PStr s) = bindE (substitute_text r env s) (\<lambda>t. Inr (PStr t))"
| "substitute_value r env (PDict d) =
     bindE (mapE (\<lambda>(k, v). bindE (substitute_text r env k) (\<lambda>k'.
              bindE (substitute_value r env v) (\<lambda>v'. Inr (k', v')))) d) (\<lambda>kvs.
       Inr (PDict (fold (\<lambda>(k, v). dict_set k v) kvs [])))"
| "substitute_value r env (PTuple xs) = bindE (mapE (substitute_value r env) xs) (\<lambda>ys. Inr (PTuple ys))"
| "substitute_value r env (PList xs) = bindE (mapE (substitute_value r env) xs) (\<lambda>ys. Inr (PList ys))"
| "substitute_value r env (PSet xs) =
     bindE (mapE (substitute_value r env) xs) (\<lambda>ys. Inr (PSet (fold append_new ys [])))"
| "substitute_value r env v = Inr v"

section \<open>The tables\<close>

record settings =
  st_store :: state_data
  st_paths :: state_data
  st_kv :: state_data

text \<open>A child inherits the data and both tables of its parent.\<close>

definition new_settings :: "pydict \<Rightarrow> settings option \<Rightarrow> settings" where
  "new_settings data parent =
     \<lparr> st_store = StateData data (map_option st_store parent),
       st_paths = StateData [] (map_option st_paths parent),
       st_kv = StateData [] (map_option st_kv parent) \<rparr>"

definition register_path_mapping :: "string \<Rightarrow> string \<Rightarrow> settings \<Rightarrow> settings_error + settings" where
  "register_path_mapping short actual st =
     bindE (from_state (state_contains short (st_kv st))) (\<lambda>taken.
       if taken then Inl (OtherTable short)
       else bindE (from_state (state_set short (PStr actual) (st_paths st))) (\<lambda>t. Inr (st\<lparr> st_paths := t \<rparr>)))"

definition set_kv :: "string \<Rightarrow> string \<Rightarrow> pyval \<Rightarrow> settings \<Rightarrow> settings_error + settings" where
  "set_kv short shown actual st =
     bindE (from_state (state_set (short @ ''.'' @ shown) actual (st_kv st))) (\<lambda>t. Inr (st\<lparr> st_kv := t \<rparr>))"

definition register_kv_mapping :: "string \<Rightarrow> pyval \<Rightarrow> pyval \<Rightarrow> settings \<Rightarrow> settings_error + settings" where
  "register_kv_mapping short v actual st =
     bindE (from_state (state_contains short (st_paths st))) (\<lambda>taken.
       if taken then Inl (OtherTable short) else set_kv short (py_str v) actual st)"

definition update_kv_entry :: "string \<times> pyval \<Rightarrow> settings \<Rightarrow> settings_error + settings" where
  "update_kv_entry kv st =
     (case snd kv of
        PDict choices \<Rightarrow>
          foldE (\<lambda>(shown, actual) st. if is_mapping actual then set_kv (fst kv) shown actual st else Inr st) choices st
      | v \<Rightarrow> Inl (NotSettings v))"

definition update_kv :: "pyval \<Rightarrow> settings \<Rightarrow> settings_error + settings" where
  "update_kv v st = (case v of PDict d \<Rightarrow> foldE update_kv_entry d st | _ \<Rightarrow> Inr st)"

text \<open>No check that a name is in one table only.\<close>

definition update_mappings :: "pydict \<Rightarrow> settings \<Rightarrow> settings_error + settings" where
  "update_mappings d st =
     bindE (case pget d ''path_mappings'' of
              PDict p \<Rightarrow> bindE (from_state (state_update p (st_paths st))) (\<lambda>t. Inr (st\<lparr> st_paths := t \<rparr>))
            | _ \<Rightarrow> Inr st) (\<lambda>st1.
     bindE (update_kv (pget d ''key_value_mappings'') st1) (update_kv (pget d ''kv_mappings'')))"

definition load_mappings :: "pyval \<Rightarrow> settings \<Rightarrow> settings_error + settings" where
  "load_mappings data st =
     (case data of
        PDict d \<Rightarrow> if d = [] then Inl (NotSettings data) else update_mappings d st
      | _ \<Rightarrow> Inl (NotSettings data))"

section \<open>Setting and loading\<close>

definition update_store :: "pydict \<Rightarrow> settings \<Rightarrow> settings_error + settings" where
  "update_store d st = bindE (from_state (state_update d (st_store st))) (\<lambda>s. Inr (st\<lparr> st_store := s \<rparr>))"

definition set_store :: "string \<Rightarrow> pyval \<Rightarrow> settings \<Rightarrow> settings_error + settings" where
  "set_store key v st = bindE (from_state (state_set key v (st_store st))) (\<lambda>s. Inr (st\<lparr> st_store := s \<rparr>))"

text \<open>What a name means: a path, the settings for a value, or nothing.\<close>

datatype meaning = PathOf string | SettingsFor pyval | Unmapped

definition meaning_of :: "string \<Rightarrow> pyval \<Rightarrow> settings \<Rightarrow> settings_error + meaning" where
  "meaning_of key v st =
     bindE (from_state (state_contains key (st_paths st))) (\<lambda>is_path.
       if is_path then
         bindE (from_state (state_item key (st_paths st))) (\<lambda>actual. Inr (PathOf (py_str actual)))
       else
         bindE (from_state (state_contains key (st_kv st))) (\<lambda>is_kv.
           if is_kv then
             bindE (from_state (state_get True (key @ ''.'' @ py_str v) PNone (st_kv st))) (\<lambda>actual.
               Inr (if truthy actual then SettingsFor actual else Unmapped))
           else Inr Unmapped))"

text \<open>
  The value the caller gives; \<open>None\<close> for the environment when no substitution is asked for.
  A mapped name is merged into the store, an unmapped one replaces what is there.
\<close>

definition prepared :: "(string \<Rightarrow> string option) option \<Rightarrow> bool \<Rightarrow> pyval \<Rightarrow> settings_error + pyval" where
  "prepared env raise_empty v = (case env of None \<Rightarrow> Inr v | Some e \<Rightarrow> substitute_value raise_empty e v)"

definition set_settings ::
  "(string \<Rightarrow> string option) option \<Rightarrow> bool \<Rightarrow> pyval \<Rightarrow> pyval \<Rightarrow> settings \<Rightarrow> settings_error + settings" where
  "set_settings env raise_empty key given st =
     (case key of
        PStr k \<Rightarrow>
          bindE (prepared env raise_empty given) (\<lambda>v.
          bindE (meaning_of k v st) (\<lambda>mean.
            case mean of
              PathOf actual \<Rightarrow> update_store [(actual, v)] st
            | SettingsFor (PDict d) \<Rightarrow> update_store d st
            | SettingsFor w \<Rightarrow> Inl (NotSettings w)
            | Unmapped \<Rightarrow> set_store k v st))
      | _ \<Rightarrow> Inl (KeyNotText key))"

text \<open>Loading keeps the short name beside what it stands for.\<close>

definition map_entry :: "settings \<Rightarrow> string \<times> pyval \<Rightarrow> pydict \<Rightarrow> settings_error + pydict" where
  "map_entry st kv d =
     (case kv of (k, v) \<Rightarrow>
        bindE (meaning_of k v st) (\<lambda>mean.
          case mean of
            PathOf actual \<Rightarrow> Inr (dict_set actual v (dict_set k v d))
          | SettingsFor (PDict e) \<Rightarrow> Inr (dict_update (dict_set k v d) e)
          | SettingsFor w \<Rightarrow> Inl (NotSettings w)
          | Unmapped \<Rightarrow> Inr (dict_set k v d)))"

definition load_settings ::
  "(string \<Rightarrow> string option) option \<Rightarrow> bool \<Rightarrow> pyval \<Rightarrow> settings \<Rightarrow> settings_error + settings" where
  "load_settings env raise_empty data st =
     (case data of
        PDict d \<Rightarrow>
          if d = [] then Inl (NotSettings data)
          else bindE (prepared env raise_empty data) (\<lambda>w.
               bindE (foldE (map_entry st) (mapping_or_empty w) []) (\<lambda>mapped. update_store mapped st))
      | _ \<Rightarrow> Inl (NotSettings data))"

end
