(* ===== verification/SettingsTheorems.thy ===== *)
theory SettingsTheorems
  imports SettingsMaps StateCorrect
begin

text \<open>
  Properties of settings: what a name writes and leaves alone, environment variables that are
  not set, and short names with a dot.
\<close>

section \<open>What is written\<close>

lemma set_entries_fresh: "dict_wf (e @ n) \<Longrightarrow> set_entries n e = Inr (e @ n)"
proof (induction n arbitrary: e)
  case (Cons kv n)
  obtain k v where kv: "kv = (k, v)" by force
  have new: "k \<notin> fst ` set e" using Cons.prems by (auto simp: kv)
  then have "dict_get e k = None" by (simp add: dict_get_None_iff)
  moreover have "dict_set k v e = e @ [(k, v)]" using new by (rule dict_set_append)
  ultimately show ?case using Cons.IH [of "e @ [(k, v)]"] Cons.prems by (simp add: kv)
qed simp

lemma set_item_into_empty: "dict_wf (mapping_or_empty v) \<Longrightarrow> set_item (PDict []) v = Inr v"
  using set_entries_fresh [of "[]"] by (cases v) (simp_all add: mapping_or_empty_def)

lemma update_entry_reads:
  assumes "update_entry (key, v) s = Inr s'" and "dict_wf (mapping_or_empty v)"
  shows "(\<exists>new. (case own_read s key of None \<Rightarrow> new = v | Some old \<Rightarrow> set_item old v = Inr new) \<and>
      own_read s' key = Some new) \<and>
    (\<forall>q. path_list key \<parallel> path_list q \<longrightarrow> own_read s' q = own_read s q)"
proof (cases "is_dotted key")
  case True
  then have set: "change_data key (\<lambda>old. set_item old v) s = Inr s'"
    using assms(1) by (simp add: update_entry_def set_by_path_def)
  from change_at_same [OF change_data_Inr [OF set]] change_data_Inr [OF set] obtain old new where
      new: "set_item old v = Inr new" "own_read s' key = Some new"
    and old: "own_read s key = Some old \<or> own_read s key = None \<and> old = PDict []"
    by (fastforce simp: own_read_def)
  have "case own_read s key of None \<Rightarrow> new = v | Some old \<Rightarrow> set_item old v = Inr new"
    using old new(1) set_item_into_empty [OF assms(2)] by (auto split: option.splits)
  moreover have "own_read s' q = own_read s q" if "path_list key \<parallel> path_list q" for q
    using change_at_parallel [OF change_data_Inr [OF set] that] by (simp add: own_read_def)
  ultimately show ?thesis using new(2) by blast
next
  case False
  then obtain new where s': "s' = with_data (dict_set key new (own_data s)) s"
    and new: "case own_read s key of None \<Rightarrow> new = v | Some old \<Rightarrow> set_item old v = Inr new"
    using assms(1)
    by (auto simp: update_entry_def own_read_plain bindE_eq_Inr split: option.splits)
  have "own_read s' q = own_read s q" if "path_list key \<parallel> path_list q" for q
  proof -
    obtain p ps where q: "path_list q = p # ps" by (meson neq_Nil_conv path_list_nonempty)
    then have "p \<noteq> key" using that False by (auto simp: path_list_plain parallel_def)
    with q show ?thesis by (cases s) (simp add: s' own_read_def)
  qed
  moreover have "own_read s' key = Some new" using False by (cases s) (simp add: s' own_read_plain)
  ultimately show ?thesis using new by blast
qed

text \<open>
  C31: A name with a path mapping is merged into the setting the path names (collections grow,
  everything else is replaced) and one without any mapping replaces the setting of that name;
  in both cases no setting apart from it changes.  A name with a value mapping merges all the
  settings the value stands for.
\<close>

theorem set_settings_writes:
  assumes "set_settings None r (PStr k) v st = Inr st'" and "dict_wf (mapping_or_empty v)"
  shows "case meaning_of k v st of
      Inl _ \<Rightarrow> False
    | Inr (PathOf a) \<Rightarrow>
        (\<exists>new. (case own_read (st_store st) a of None \<Rightarrow> new = v | Some old \<Rightarrow> set_item old v = Inr new) \<and>
          own_read (st_store st') a = Some new) \<and>
        (\<forall>q. path_list a \<parallel> path_list q \<longrightarrow> own_read (st_store st') q = own_read (st_store st) q)
    | Inr (SettingsFor w) \<Rightarrow> \<exists>d. w = PDict d \<and> state_update d (st_store st) = Inr (st_store st')
    | Inr Unmapped \<Rightarrow>
        own_read (st_store st') k = Some v \<and>
        (\<forall>q. path_list k \<parallel> path_list q \<longrightarrow> own_read (st_store st') q = own_read (st_store st) q)"
proof -
  obtain mean where mean: "meaning_of k v st = Inr mean"
    and run: "(case mean of
              PathOf actual \<Rightarrow> update_store [(actual, v)] st
            | SettingsFor (PDict d) \<Rightarrow> update_store d st
            | SettingsFor w \<Rightarrow> Inl (NotSettings w)
            | Unmapped \<Rightarrow> set_store k v st) = Inr st'"
    using assms(1) by (auto simp: set_settings_def prepared_def bindE_eq_Inr)
  show ?thesis
  proof (cases mean)
    case (PathOf a)
    then obtain s where "update_entry (a, v) (st_store st) = Inr s" "st' = st\<lparr> st_store := s \<rparr>"
      using run by (auto simp: update_store_def state_update_def bindE_eq_Inr)
    with update_entry_reads [OF _ assms(2)] mean PathOf show ?thesis by simp
  next
    case (SettingsFor w)
    with run mean show ?thesis by (auto simp: update_store_def bindE_eq_Inr split: pyval.splits)
  next
    case Unmapped
    then obtain s where "state_set k v (st_store st) = Inr s" "st' = st\<lparr> st_store := s \<rparr>"
      using run by (auto simp: set_store_def bindE_eq_Inr)
    with mean Unmapped state.read_write state.read_write_apart show ?thesis by simp
  qed
qed

section \<open>Environment variables that are not set\<close>

lemma mapE_id: "(\<And>x. x \<in> set xs \<Longrightarrow> f x = Inr x) \<Longrightarrow> mapE f xs = Inr xs"
  using mapE_total [of xs f "\<lambda>x. x"] by simp

lemma substitute_text_unset: "substitute_text False (\<lambda>_. None) s = Inr s"
proof -
  have "mapE (piece_value False (\<lambda>_. None)) (pieces env_name s) = Inr (map piece_text (pieces env_name s))"
    by (rule mapE_total) (simp add: piece_value_def Let_def split: brace_piece.splits)
  then show ?thesis by (simp add: substitute_text_def pieces_text)
qed

text \<open>Values as Python builds them: no key twice, no two equal members of a set.\<close>

fun tidy_value :: "pyval \<Rightarrow> bool" where
  "tidy_value (PDict d) \<longleftrightarrow> dict_wf d \<and> list_all (\<lambda>(k, v). tidy_value v) d"
| "tidy_value (PList xs) \<longleftrightarrow> list_all tidy_value xs"
| "tidy_value (PTuple xs) \<longleftrightarrow> list_all tidy_value xs"
| "tidy_value (PSet xs) \<longleftrightarrow> list_all tidy_value xs \<and> sorted_wrt (\<lambda>x y. \<not> py_eq y x) xs"
| "tidy_value v \<longleftrightarrow> True"

lemma fold_dict_set_fresh: "dict_wf (e @ d) \<Longrightarrow> fold (\<lambda>(k, v). dict_set k v) d e = e @ d"
proof (induction d arbitrary: e)
  case (Cons kv d)
  obtain k v where kv: "kv = (k, v)" by force
  have "dict_set k v e = e @ [(k, v)]" using Cons.prems by (intro dict_set_append) (auto simp: kv)
  with Cons.IH [of "e @ [(k, v)]"] Cons.prems show ?case by (simp add: kv)
qed simp

lemma fold_append_new_fresh:
  "sorted_wrt (\<lambda>x y. \<not> py_eq y x) (ys @ xs) \<Longrightarrow> fold append_new xs ys = ys @ xs"
proof (induction xs arbitrary: ys)
  case (Cons x xs)
  have "append_new x ys = ys @ [x]"
    using Cons.prems by (auto simp: append_new_def py_in_def list_ex_iff sorted_wrt_append)
  with Cons.IH [of "ys @ [x]"] Cons.prems show ?case by simp
qed simp

text \<open>
  C0: Where no environment variable is set and missing ones do not raise, substitution leaves
  every value as it is: placeholders stay, to be replaced later.
\<close>

theorem substitution_keeps_unset:
  assumes "tidy_value v"
  shows "substitute_value False (\<lambda>_. None) v = Inr v"
  using assms
proof (induction v rule: tidy_value.induct)
  case (1 d)
  have "mapE (\<lambda>(k, v). bindE (substitute_text False (\<lambda>_. None) k) (\<lambda>k'.
      bindE (substitute_value False (\<lambda>_. None) v) (\<lambda>v'. Inr (k', v')))) d = Inr d"
    using 1 by (intro mapE_id) (auto simp: substitute_text_unset list_all_iff)
  moreover have "fold (\<lambda>(k, v). dict_set k v) d [] = d" using 1 fold_dict_set_fresh [of "[]" d] by simp
  ultimately show ?case by simp
next
  case (4 xs)
  then have "mapE (substitute_value False (\<lambda>_. None)) xs = Inr xs" by (intro mapE_id) (simp add: list_all_iff)
  moreover have "fold append_new xs [] = xs" using 4 fold_append_new_fresh [of "[]" xs] by simp
  ultimately show ?case by simp
qed (simp_all add: mapE_id list_all_iff substitute_text_unset)

section \<open>Short names with a dot\<close>

lemma contains_root: "state_contains key (StateData d None) = Inr (dict_has d key)"
  by (simp add: state_contains_def state_view_def merge_view_def)

text \<open>
  A path mapping for a short name with a dot is accepted and never applies to that name;
  instead the part before the dot now means the printed table of mappings, so a setting of that
  name is written to a nonsense key.
\<close>

theorem dotted_short_name_lost:
  assumes "is_dotted short" and "st_paths st = StateData t None" and "\<not> dict_has t short"
    and "register_path_mapping short actual st = Inr st'"
  shows "meaning_of short v st' = meaning_of short v st \<and>
    (\<exists>d. meaning_of (hd (path_list short)) v st' = Inr (PathOf (py_repr (PDict d))))"
proof -
  obtain a b where short: "short = a @ CHR ''.'' # b" "CHR ''.'' \<notin> set a"
    using assms(1) split_list_first unfolding is_dotted_def by metis
  obtain q ps where b: "path_list b = q # ps" by (meson neq_Nil_conv path_list_nonempty)
  have path: "path_list short = a # q # ps" using short b by (simp add: split_on_append)
  have reg: "state_set short (PStr actual) (StateData t None) = Inr (st_paths st')"
    and same: "st_kv st' = st_kv st"
    using assms(2, 4) by (auto simp: register_path_mapping_def bindE_eq_Inr split: if_splits)
  have "change_data short (\<lambda>_. Inr (PStr actual)) (StateData t None) = Inr (st_paths st')"
    using reg assms(1) by (simp add: state_set_def set_by_path_def)
  then obtain w where "change_at short [] (path_list short) (\<lambda>_. Inr (PStr actual)) (PDict t) = Inr w"
    and paths: "st_paths st' = with_data (mapping_or_empty w) (StateData t None)"
    by (auto simp: change_data_def bindE_eq_Inr)
  then obtain e where w: "w = PDict (dict_set a (PDict e) t)"
    by (auto simp: path bindE_eq_Inr split: pyval.splits)
  have st': "st_paths st' = StateData (dict_set a (PDict e) t) None"
    by (simp add: paths w mapping_or_empty_def)
  have "short \<noteq> a" using short by simp
  then have "meaning_of short v st' = meaning_of short v st"
    using assms(2, 3) unfolding meaning_of_def same by (simp add: st' contains_root dict_has_mem)
  moreover have "state_item a (StateData (dict_set a (PDict e) t) None) = Inr (PDict e)"
    using short(2) by (simp add: state_item_def is_dotted_def state_view_def merge_view_def dict_get_or_def)
  then have "meaning_of a v st' = Inr (PathOf (py_repr (PDict e)))"
    by (simp add: meaning_of_def st' contains_root dict_has_mem)
  ultimately show ?thesis using path by auto
qed

section \<open>Witnesses\<close>

definition short_settings :: settings where
  "short_settings =
     \<lparr> st_store = StateData [(''log'', PDict [(''tags'', PList [PStr ''a''])])] None,
       st_paths = StateData [(''tags'', PStr ''log.tags'')] None, st_kv = StateData [] None \<rparr>"

theorem set_settings_writes_witness:
  "\<exists>st'. set_settings None False (PStr ''tags'') (PStr ''b'') short_settings = Inr st' \<and>
     own_read (st_store st') ''log.tags'' = Some (PList [PStr ''a'', PStr ''b''])"
proof -
  have "case set_settings None False (PStr ''tags'') (PStr ''b'') short_settings of Inr _ \<Rightarrow> True | _ \<Rightarrow> False"
    by code_simp
  then obtain st' where run: "set_settings None False (PStr ''tags'') (PStr ''b'') short_settings = Inr st'"
    by (auto split: sum.splits)
  have mean: "meaning_of ''tags'' (PStr ''b'') short_settings = Inr (PathOf ''log.tags'')"
    and old: "own_read (st_store short_settings) ''log.tags'' = Some (PList [PStr ''a''])"
    and new: "set_item (PList [PStr ''a'']) (PStr ''b'') = Inr (PList [PStr ''a'', PStr ''b''])"
    by code_simp+
  from set_settings_writes [OF run] have "own_read (st_store st') ''log.tags'' = Some (PList [PStr ''a'', PStr ''b''])"
    by (simp add: mean old new mapping_or_empty_def append_new_def py_in_def)
  with run show ?thesis by blast
qed

theorem substitution_keeps_unset_witness:
  "substitute_value False (\<lambda>_. None) (PDict [(''key'', PStr ''${ENV.KEY}'')]) = Inr (PDict [(''key'', PStr ''${ENV.KEY}'')])"
  using substitution_keeps_unset [of "PDict [(''key'', PStr ''${ENV.KEY}'')]"] by simp

theorem dotted_short_name_lost_witness:
  "\<exists>st' d. register_path_mapping ''a.b'' ''c'' short_settings = Inr st' \<and>
     meaning_of ''a'' PNone st' = Inr (PathOf (py_repr (PDict d)))"
proof -
  have "case register_path_mapping ''a.b'' ''c'' short_settings of Inr _ \<Rightarrow> True | _ \<Rightarrow> False"
    by code_simp
  then obtain st' where run: "register_path_mapping ''a.b'' ''c'' short_settings = Inr st'"
    by (auto split: sum.splits)
  have "hd (path_list ''a.b'') = ''a''" "is_dotted ''a.b''" by code_simp+
  with dotted_short_name_lost [OF _ _ _ run, of "[(''tags'', PStr ''log.tags'')]" PNone] run show ?thesis
    by (auto simp: short_settings_def dict_has_mem)
qed

end
