(* ===== verification/ValueProjection.thy ===== *)
theory ValueProjection
  imports JsonDump
begin

text \<open>
  Digests of terminal values (\<open>core/orchestration/TriggerFlow/SnapshotProjection.py\<close>): the
  canonical bytes of a value, the projection that stands for a large value in a snapshot,
  and the comparison of a value with a projection.  SHA-256 (\<open>hashlib\<close>) is the parameter
  \<open>sha\<close>, which maps bytes to a hexadecimal text.
\<close>

section \<open>Canonical bytes\<close>

fun compact_text :: "json \<Rightarrow> string" where
  "compact_text JNull = ''null''"
| "compact_text (JBool b) = (if b then ''true'' else ''false'')"
| "compact_text (JNum t) = t"
| "compact_text (JStr s) = json_string s"
| "compact_text (JList xs) = ''['' @ join '','' (map compact_text xs) @ '']''"
| "compact_text (JDict d) =
     CHR 0x7B # join '','' (map (\<lambda>(k, v). json_string k @ '':'' @ compact_text v) d) @ [CHR 0x7D]"

text \<open>A character is a code point below 256.\<close>

definition utf8_char :: "char \<Rightarrow> nat list" where
  "utf8_char c =
     (let n = of_char c in if n < 128 then [n] else [192 + n div 64, 128 + n mod 64])"

definition utf8 :: "string \<Rightarrow> nat list" where
  "utf8 s = concat (map utf8_char s)"

text \<open>\<open>json.dumps\<close> without \<open>default\<close> raises \<open>TypeError\<close> on sets and objects.\<close>

fun json_ready :: "pyval \<Rightarrow> bool" where
  "json_ready (PSet _) = False"
| "json_ready (PObj _ _) = False"
| "json_ready (PList xs) = list_all json_ready xs"
| "json_ready (PTuple xs) = list_all json_ready xs"
| "json_ready (PDict d) = list_all (\<lambda>(k, v). json_ready v) d"
| "json_ready _ = True"

datatype projection_error = NotProjection | BadAlgorithm | BadDigest | BadLength | NotJson

definition canonical_snapshot_value_bytes :: "pyval \<Rightarrow> projection_error + nat list" where
  "canonical_snapshot_value_bytes v =
     (if json_ready v then Inr (utf8 (compact_text (canon v))) else Inl NotJson)"

section \<open>Projections\<close>

definition projection_key :: string where
  "projection_key = ''$triggerflow_projection''"

definition is_value_digest_projection :: "pyval \<Rightarrow> bool" where
  "is_value_digest_projection v =
     (case v of PDict d \<Rightarrow> pget d projection_key = PStr ''value_digest'' | _ \<Rightarrow> False)"

definition is_hex_digest :: "string \<Rightarrow> bool" where
  "is_hex_digest s \<longleftrightarrow> length s = 64 \<and> list_all (\<lambda>c. c \<in> set ''0123456789abcdef'') s"

text \<open>The projection as a dictionary, with its digest and its length read out.\<close>

definition validate_value_digest_projection :: "pyval \<Rightarrow> projection_error + string \<times> nat" where
  "validate_value_digest_projection v =
     (if \<not> is_value_digest_projection v then Inl NotProjection
      else let d = mapping_or_empty v in
        if pget d ''algorithm'' \<noteq> PStr ''sha256'' then Inl BadAlgorithm
        else case pget d ''sha256'' of
          PStr h \<Rightarrow>
            if \<not> is_hex_digest h then Inl BadDigest
            else (case pget d ''serialized_bytes'' of
                PInt n \<Rightarrow> if n < 0 then Inl BadLength else Inr (h, nat n)
              | _ \<Rightarrow> Inl BadLength)
        | _ \<Rightarrow> Inl BadDigest)"

definition value_matches_digest_projection ::
  "(nat list \<Rightarrow> string) \<Rightarrow> pyval \<Rightarrow> pyval \<Rightarrow> projection_error + bool" where
  "value_matches_digest_projection sha v projection =
     bindE (validate_value_digest_projection projection) (\<lambda>(h, n).
       bindE (canonical_snapshot_value_bytes v) (\<lambda>encoded.
         Inr (length encoded = n \<and> sha encoded = h)))"

definition digest_of :: "(nat list \<Rightarrow> string) \<Rightarrow> nat list \<Rightarrow> pyval" where
  "digest_of sha encoded =
     PDict [(projection_key, PStr ''value_digest''), (''algorithm'', PStr ''sha256''),
            (''sha256'', PStr (sha encoded)), (''serialized_bytes'', PInt (int (length encoded)))]"

text \<open>The policy read by \<open>_project_value\<close>, and the counters it keeps.\<close>

record projection_policy =
  pj_enabled :: bool
  pj_digest :: bool
  pj_min_bytes :: int

record projector =
  pj_count :: nat
  pj_original :: nat
  pj_projected :: nat

definition count_projection :: "nat \<Rightarrow> nat \<Rightarrow> projector \<Rightarrow> projector" where
  "count_projection original projected p =
     p\<lparr> pj_count := pj_count p + 1, pj_original := pj_original p + original,
        pj_projected := pj_projected p + projected \<rparr>"

definition project_value ::
  "(nat list \<Rightarrow> string) \<Rightarrow> projection_policy \<Rightarrow> pyval \<Rightarrow> projector \<Rightarrow> projection_error + pyval \<times> projector" where
  "project_value sha policy v p =
     (if is_value_digest_projection v then
        bindE (validate_value_digest_projection v) (\<lambda>(h, n).
          bindE (canonical_snapshot_value_bytes v) (\<lambda>b.
            Inr (v, count_projection n (length b) p)))
      else if \<not> pj_digest policy then Inr (v, p)
      else bindE (canonical_snapshot_value_bytes v) (\<lambda>encoded.
        if int (length encoded) < pj_min_bytes policy then Inr (v, p)
        else bindE (canonical_snapshot_value_bytes (digest_of sha encoded)) (\<lambda>b.
          Inr (digest_of sha encoded, count_projection (length encoded) (length b) p))))"

section \<open>A projection stands for its value\<close>

lemma digest_of_projection [simp]: "is_value_digest_projection (digest_of sha b)"
  by (simp add: is_value_digest_projection_def digest_of_def pget_def dict_get_or_def)

lemma digest_of_ready [simp]: "json_ready (digest_of sha b)"
  by (simp add: digest_of_def)

lemma validate_digest_of:
  "is_hex_digest (sha b) \<Longrightarrow>
   validate_value_digest_projection (digest_of sha b) = Inr (sha b, length b)"
  by (simp add: validate_value_digest_projection_def)
     (simp add: digest_of_def mapping_or_empty_def pget_def dict_get_or_def projection_key_def)

lemma matches_digest_of:
  "is_hex_digest (sha b) \<Longrightarrow> canonical_snapshot_value_bytes v = Inr c \<Longrightarrow>
   value_matches_digest_projection sha v (digest_of sha b) =
     Inr (length c = length b \<and> sha c = sha b)"
  by (simp add: value_matches_digest_projection_def validate_digest_of)

lemma project_value_cases:
  assumes "project_value sha policy v p = Inr (w, q)" "\<not> is_value_digest_projection v"
  shows "w = v \<or> (\<exists>b. canonical_snapshot_value_bytes v = Inr b \<and> w = digest_of sha b)"
  using assms by (auto simp: project_value_def bindE_eq_Inr split: if_splits)

text \<open>Projecting twice is projecting once, up to the counters.\<close>

lemma project_value_again:
  assumes "project_value sha policy v p = Inr (w, q)" "\<And>b. is_hex_digest (sha b)"
  shows "\<exists>q'. project_value sha policy w p' = Inr (w, q')"
proof (cases "is_value_digest_projection v")
  case True
  with assms(1) show ?thesis by (auto simp: project_value_def bindE_eq_Inr)
next
  case False
  from project_value_cases [OF assms(1) this] show ?thesis
  proof
    assume "w = v"
    with assms(1) False show ?thesis by (auto simp: project_value_def bindE_eq_Inr split: if_splits)
  next
    assume "\<exists>b. canonical_snapshot_value_bytes v = Inr b \<and> w = digest_of sha b"
    with assms(2) show ?thesis
      by (auto simp: project_value_def validate_digest_of canonical_snapshot_value_bytes_def)
  qed
qed

end
