(* ===== verification/InterruptModel.thy ===== *)
theory InterruptModel
  imports ValueProjection SignalNet StateStore
begin

text \<open>
  The interrupts of a TriggerFlow execution
  (\<open>core/orchestration/TriggerFlow/ExecutionInterrupts.py\<close>): pausing for an external answer,
  continuing with one, and cancelling.  Every definition is one stretch of the coroutines
  between two \<open>await\<close>s, as a function of the execution's state; \<open>InterruptRuns\<close> interleaves
  them.  The map of interrupts is read and written through \<open>StateData\<close>, whose \<open>get\<close> and
  \<open>set\<close> copy, so the interrupt a coroutine holds is never the stored one.  Times are the
  argument \<open>now\<close>, a fresh identifier is the argument \<open>uid\<close>.
\<close>

section \<open>Data\<close>

datatype interrupt_status = IntWaiting | IntResumed | IntCancelled

datatype request_status = ReqAccepted | ReqDispatched | ReqFailed | ReqCompleted

record resume_claim =
  rc_request :: "string option"
  rc_actor :: "string option"
  rc_at :: rat

record resume_request =
  rr_id :: string
  rr_status :: request_status
  rr_value :: pyval
  rr_actor :: "string option"
  rr_accepted_at :: rat
  rr_dispatched_at :: "rat option"
  rr_attempts :: nat
  rr_failed_at :: "rat option"
  rr_error :: "string option"
  rr_completed_at :: "rat option"

text \<open>
  An interrupt; a key the dictionary does not have yet reads as \<open>None\<close>.  \<open>in_created\<close> tells
  the pauses of one identifier apart.
\<close>

record interrupt =
  in_id :: string
  in_type :: string
  in_exchange_kind :: pyval
  in_payload :: pyval
  in_resume_event :: pyval
  in_resume_to :: pyval
  in_status :: interrupt_status
  in_execution :: string
  in_flow :: string
  in_operator :: pyval
  in_source_signal :: pyval
  in_continuation :: pyval
  in_count :: int
  in_max :: "int option"
  in_created :: rat
  in_resumed_at :: "rat option"
  in_response :: pyval
  in_value :: pyval
  in_wait_request :: pyval
  in_claim :: "resume_claim option"
  in_requests :: "(string, resume_request) dict"
  in_request_id :: "string option"
  in_resumed_by :: "string option"
  in_signal_id :: "string option"
  in_cancelled_at :: "rat option"
  in_cancel_reason :: "string option"
  in_frame :: pyval

datatype exec_status = TfCreated | TfRunning | TfWaiting | TfCompleted | TfFailed | TfCancelled

datatype lifecycle = LcOpen | LcSealed | LcClosed

text \<open>The part of an execution that its interrupts read and write.\<close>

record tf_exec =
  te_id :: string
  te_flow :: string
  te_interrupts :: "(string, interrupt) dict"
  te_status :: exec_status
  te_version :: nat
  te_lifecycle :: lifecycle
  te_exposed :: bool
  te_owner :: "string option"
  te_lease_until :: pyval
  te_last_signal :: pyval
  te_operators :: "(string, pydict) dict"

definition str_or_none :: "string option \<Rightarrow> pyval" where
  "str_or_none s = (case s of None \<Rightarrow> PNone | Some t \<Rightarrow> PStr t)"

section \<open>Reading the map\<close>

definition get_interrupt :: "tf_exec \<Rightarrow> string \<Rightarrow> interrupt option" where
  "get_interrupt ex k = dict_get (te_interrupts ex) k"

definition is_open :: "interrupt \<Rightarrow> bool" where
  "is_open i \<longleftrightarrow> in_status i = IntWaiting"

definition get_pending_interrupts :: "tf_exec \<Rightarrow> (string, interrupt) dict" where
  "get_pending_interrupts ex = filter (\<lambda>(k, i). is_open i) (te_interrupts ex)"

definition has_pending_interrupts :: "tf_exec \<Rightarrow> bool" where
  "has_pending_interrupts ex \<longleftrightarrow> get_pending_interrupts ex \<noteq> []"

definition is_waiting :: "tf_exec \<Rightarrow> bool" where
  "is_waiting ex \<longleftrightarrow> te_status ex = TfWaiting"

definition refresh_waiting_status :: "tf_exec \<Rightarrow> tf_exec" where
  "refresh_waiting_status ex =
     (if has_pending_interrupts ex then ex\<lparr> te_status := TfWaiting \<rparr>
      else if te_status ex = TfWaiting then ex\<lparr> te_status := TfRunning \<rparr>
      else ex)"

section \<open>Writing the map\<close>

text \<open>\<open>status\<close> and \<open>bump\<close> are the keyword arguments; the activity time is not kept.\<close>

definition write_interrupt_state ::
  "exec_status option \<Rightarrow> bool \<Rightarrow> (string, interrupt) dict \<Rightarrow> tf_exec \<Rightarrow> tf_exec" where
  "write_interrupt_state status bump ints ex =
     ex\<lparr> te_interrupts := ints,
         te_status := (case status of None \<Rightarrow> te_status ex | Some st \<Rightarrow> st),
         te_version := te_version ex + (if bump then 1 else 0) \<rparr>"

definition atomic_store_interrupt ::
  "string \<Rightarrow> interrupt \<Rightarrow> exec_status option \<Rightarrow> bool \<Rightarrow> tf_exec \<Rightarrow> tf_exec" where
  "atomic_store_interrupt k i status bump ex =
     write_interrupt_state status bump (dict_set k i (te_interrupts ex)) ex"

definition atomic_mutate_interrupt ::
  "string \<Rightarrow> (interrupt \<Rightarrow> interrupt) \<Rightarrow> exec_status option \<Rightarrow> bool \<Rightarrow> bool \<Rightarrow> tf_exec \<Rightarrow> tf_exec" where
  "atomic_mutate_interrupt k f status bump require_waiting ex =
     (case get_interrupt ex k of
        None \<Rightarrow> ex
      | Some stored \<Rightarrow>
          if require_waiting \<and> in_status stored \<noteq> IntWaiting then ex
          else write_interrupt_state status bump (dict_set k (f stored) (te_interrupts ex)) ex)"

section \<open>The request shown outside\<close>

record wait_args =
  wa_channel :: pyval
  wa_provider :: pyval
  wa_mode :: string
  wa_hot_timeout :: "rat option"
  wa_policy :: string
  wa_request_schema :: pyval
  wa_response_schema :: pyval
  wa_audit :: pydict

definition default_wait_args :: wait_args where
  "default_wait_args =
     \<lparr> wa_channel = PNone, wa_provider = PNone, wa_mode = ''disconnected'', wa_hot_timeout = None,
       wa_policy = ''persist'', wa_request_schema = PNone, wa_response_schema = PNone, wa_audit = [] \<rparr>"

text \<open>\<open>str(v) if v else None\<close> and \<open>str(v) if v is not None else None\<close>.\<close>

definition str_if_truthy :: "pyval \<Rightarrow> pyval" where
  "str_if_truthy v = (if truthy v then PStr (py_str v) else PNone)"

definition str_unless_none :: "pyval \<Rightarrow> pyval" where
  "str_unless_none v = (if v = PNone then PNone else PStr (py_str v))"

definition external_wait_request ::
  "string \<Rightarrow> string \<Rightarrow> pyval \<Rightarrow> pyval \<Rightarrow> string \<Rightarrow> wait_args \<Rightarrow> pydict" where
  "external_wait_request interrupt_id interrupt_type kind payload dispatch_state wa =
     (let audit = dict_update
            [(''type'', PStr interrupt_type), (''exchange_kind'', str_if_truthy kind),
             (''payload'', serializable_data payload)]
            (map (\<lambda>(k, v). (k, serializable_data v)) (wa_audit wa))
      in [(''request_id'', PStr interrupt_id), (''interrupt_id'', PStr interrupt_id),
          (''exchange_kind'', str_if_truthy kind),
          (''exchange_id'', str_unless_none (pget audit ''exchange_id'')),
          (''callback_idempotency_key'', PNone), (''actor_id'', PNone),
          (''channel_id'', wa_channel wa), (''provider_id'', wa_provider wa),
          (''wait_mode'', PStr (wa_mode wa)),
          (''hot_wait_timeout'', (case wa_hot_timeout wa of None \<Rightarrow> PNone | Some q \<Rightarrow> PFloat q)),
          (''cold_persistence_policy'', PStr (wa_policy wa)),
          (''request_payload_schema'', serializable_data (wa_request_schema wa)),
          (''response_payload_schema'', serializable_data (wa_response_schema wa)),
          (''dispatch_state'', PStr dispatch_state),
          (''audit_metadata'', PDict audit), (''provider_metadata'', PDict [])])"

definition merge_wait_field :: "string \<times> pyval \<Rightarrow> pydict \<Rightarrow> pydict" where
  "merge_wait_field kv request =
     (case kv of (k, v) \<Rightarrow>
        (case v of
           PDict new \<Rightarrow>
             if k \<in> {''audit_metadata'', ''provider_metadata''} then
               (case pget request k of
                  PDict current \<Rightarrow> dict_set k (PDict (dict_update current new)) request
                | _ \<Rightarrow> dict_set k (PDict new) request)
             else dict_set k v request
         | _ \<Rightarrow> dict_set k v request))"

definition merge_external_wait_request_update :: "pydict \<Rightarrow> pydict \<Rightarrow> pydict" where
  "merge_external_wait_request_update request update =
     fold merge_wait_field (map (\<lambda>(k, v). (k, serializable_data v)) update) request"

definition set_external_wait_state ::
  "string \<Rightarrow> string option \<Rightarrow> string option \<Rightarrow> string option \<Rightarrow> interrupt \<Rightarrow> interrupt" where
  "set_external_wait_state dispatch_state rid actor error i =
     (let r0 = (case in_wait_request i of
                  PDict d \<Rightarrow> d
                | _ \<Rightarrow> external_wait_request (in_id i) (in_type i) (in_exchange_kind i)
                         (in_payload i) dispatch_state default_wait_args);
          r1 = dict_set ''dispatch_state'' (PStr dispatch_state) r0;
          r2 = (case rid of None \<Rightarrow> r1 | Some r \<Rightarrow> dict_set ''callback_idempotency_key'' (PStr r) r1);
          r3 = (case actor of None \<Rightarrow> r2 | Some a \<Rightarrow> dict_set ''actor_id'' (PStr a) r2);
          r4 = (case error of
                  None \<Rightarrow> r3
                | Some e \<Rightarrow> dict_set ''audit_metadata''
                    (PDict (dict_set ''error'' (PStr e) (mapping_or_empty (pget r3 ''audit_metadata'')))) r3)
      in i\<lparr> in_wait_request := PDict r4 \<rparr>)"

definition owns_waiting_pause_boundary :: "interrupt option \<Rightarrow> interrupt \<Rightarrow> bool" where
  "owns_waiting_pause_boundary current expected =
     (case current of
        None \<Rightarrow> False
      | Some c \<Rightarrow>
          in_created c = in_created expected \<and> in_status c = IntWaiting \<and>
          (case in_wait_request c of
             PDict d \<Rightarrow> pget d ''dispatch_state'' = PStr ''persisted''
           | _ \<Rightarrow> False))"

section \<open>Signals\<close>

text \<open>
  \<open>Execution._serialize_signal\<close> and \<open>_restore_signal\<close>.  A stored signal has one of the three
  trigger types, string layer marks and a dictionary of metadata.
\<close>

definition serialize_signal :: "tf_signal option \<Rightarrow> pyval" where
  "serialize_signal s =
     (case s of None \<Rightarrow> PNone | Some sg \<Rightarrow> serializable_data (PDict (signal_state_dict sg)))"

definition trigger_of_value :: "pyval \<Rightarrow> trigger_type option" where
  "trigger_of_value v = find (\<lambda>ty. PStr (trigger_name ty) = v) trigger_types"

fun as_string :: "pyval \<Rightarrow> string option" where
  "as_string (PStr s) = Some s"
| "as_string _ = None"

definition restore_signal :: "pyval \<Rightarrow> tf_signal option" where
  "restore_signal v =
     (case v of
        PDict d \<Rightarrow>
          (case (trigger_of_value (dict_get_or d ''trigger_type'' (PStr ''event'')),
                 py_iter (dict_get_or d ''layer_marks'' (PList [])),
                 dict_get_or d ''meta'' (PDict [])) of
             (Some ty, Some marks, PDict meta) \<Rightarrow>
               map_option (\<lambda>ms.
                 \<lparr> sg_id = py_str (pget d ''id''), sg_event = py_str (pget d ''trigger_event''),
                   sg_type = ty, sg_value = pget d ''value'', sg_layer_marks = ms,
                   sg_source = py_str (dict_get_or d ''source'' (PStr ''runtime'')), sg_meta = meta \<rparr>)
                 (those (map as_string marks))
           | _ \<Rightarrow> None)
      | _ \<Rightarrow> None)"

section \<open>Planning a pause\<close>

record pause_args =
  pq_type :: string
  pq_kind :: pyval
  pq_payload :: pyval
  pq_resume_event :: pyval
  pq_id :: "string option"
  pq_resume_to :: pyval
  pq_max :: "int option"
  pq_wait :: wait_args

datatype pause_error =
    BadMaxResumes
  | BadWaitMode string
  | BadHotTimeout
  | HiddenHandle
  | SelfLimitReached string int int

definition self_count_key :: string where
  "self_count_key = ''_triggerflow_self_resume_count''"

definition self_max_key :: string where
  "self_max_key = ''_triggerflow_self_resume_max''"

text \<open>\<open>n if isinstance(n, int) and n >= 0 else 0\<close>: a boolean is an integer.\<close>

definition count_of :: "pyval \<Rightarrow> int" where
  "count_of v =
     (case v of PInt n \<Rightarrow> if n < 0 then 0 else n | PBool b \<Rightarrow> (if b then 1 else 0) | _ \<Rightarrow> 0)"

text \<open>The event of the first signal of the operator that has the role of continuation.\<close>

fun continuation_of :: "pyval list \<Rightarrow> pyval" where
  "continuation_of [] = PNone"
| "continuation_of (PDict d # rest) =
     (if pget d ''role'' = PStr ''continuation'' then pget d ''trigger_event''
      else continuation_of rest)"
| "continuation_of (_ # rest) = continuation_of rest"

definition continuation_event :: "pyval \<Rightarrow> tf_exec \<Rightarrow> pyval" where
  "continuation_event operator_id ex =
     (if \<not> truthy operator_id then PNone
      else (case dict_get (te_operators ex) (py_str operator_id) of
              None \<Rightarrow> PNone
            | Some op \<Rightarrow>
                (case dict_get_or op ''emit_signals'' (PList []) of
                   PList signals \<Rightarrow> continuation_of signals
                 | _ \<Rightarrow> PNone)))"

definition normalized_resume_to :: "pause_args \<Rightarrow> pyval" where
  "normalized_resume_to args =
     (if pq_resume_to args \<noteq> PNone then pq_resume_to args
      else if truthy (pq_resume_event args) then PDict [(''event'', pq_resume_event args)]
      else PStr ''next'')"

definition self_resume_count :: "pause_args \<Rightarrow> string \<Rightarrow> tf_exec \<Rightarrow> int" where
  "self_resume_count args k ex =
     (let meta = (case restore_signal (te_last_signal ex) of None \<Rightarrow> [] | Some s \<Rightarrow> sg_meta s);
          resumed_from = pget meta ''interrupt_id''
      in if pq_id args \<noteq> None \<and> resumed_from \<noteq> PNone \<and> resumed_from \<noteq> PStr k then 0
         else count_of (dict_get_or meta self_count_key (PInt 0)))"

definition check_pause_args :: "pause_args \<Rightarrow> tf_exec \<Rightarrow> pause_error + unit" where
  "check_pause_args args ex =
     (if (case pq_max args of None \<Rightarrow> False | Some m \<Rightarrow> m < 0) then Inl BadMaxResumes
      else if wa_mode (pq_wait args) \<notin>
                {''connected'', ''disconnected'', ''connected_then_disconnected''}
        then Inl (BadWaitMode (wa_mode (pq_wait args)))
      else if (case wa_hot_timeout (pq_wait args) of None \<Rightarrow> False | Some t \<Rightarrow> t < 0)
        then Inl BadHotTimeout
      else if \<not> te_exposed ex then Inl HiddenHandle
      else Inr ())"

text \<open>\<open>chunk\<close> is the identifier of the chunk that runs, \<open>None\<close> outside of one.\<close>

definition planned_interrupt ::
  "pause_args \<Rightarrow> string \<Rightarrow> pyval \<Rightarrow> int \<Rightarrow> pyval \<Rightarrow> rat \<Rightarrow> tf_exec \<Rightarrow> interrupt" where
  "planned_interrupt args k to n chunk now ex =
     \<lparr> in_id = k, in_type = pq_type args, in_exchange_kind = pq_kind args,
       in_payload = pq_payload args, in_resume_event = pq_resume_event args, in_resume_to = to,
       in_status = IntWaiting, in_execution = te_id ex, in_flow = te_flow ex, in_operator = chunk,
       in_source_signal = serialize_signal (restore_signal (te_last_signal ex)),
       in_continuation = continuation_event chunk ex,
       in_count = (if to = PStr ''self'' then n else 0),
       in_max = (if to = PStr ''self'' then pq_max args else None),
       in_created = now, in_resumed_at = None, in_response = PNone, in_value = PNone,
       in_wait_request = PDict (external_wait_request k (pq_type args) (pq_kind args)
         (pq_payload args) ''planned'' (pq_wait args)),
       in_claim = None, in_requests = [], in_request_id = None, in_resumed_by = None,
       in_signal_id = None, in_cancelled_at = None, in_cancel_reason = None, in_frame = PNone \<rparr>"

definition plan_pause ::
  "pause_args \<Rightarrow> string \<Rightarrow> pyval \<Rightarrow> rat \<Rightarrow> tf_exec \<Rightarrow> pause_error + string \<times> interrupt" where
  "plan_pause args uid chunk now ex =
     bindE (check_pause_args args ex) (\<lambda>_.
       let k = (case pq_id args of None \<Rightarrow> uid | Some i \<Rightarrow> i);
           to = normalized_resume_to args;
           n = self_resume_count args k ex
       in case (to = PStr ''self'', pq_max args) of
            (True, Some m) \<Rightarrow>
              if n \<ge> m then Inl (SelfLimitReached k n m) else
              Inr (k, planned_interrupt args k to n chunk now ex)
          | _ \<Rightarrow> Inr (k, planned_interrupt args k to n chunk now ex))"

section \<open>Storing, publishing and exposing a pause\<close>

text \<open>
  \<open>store_pause\<close> reads the entry and the status that a failed save puts back, and stores the
  new interrupt; it gives the stored interrupt, those two, and the new state.
\<close>

definition store_pause ::
  "string \<Rightarrow> interrupt \<Rightarrow> tf_exec \<Rightarrow> interrupt \<times> interrupt option \<times> exec_status \<times> tf_exec" where
  "store_pause k i ex =
     (let i' = set_external_wait_state ''persisted'' None None None i
      in (i', get_interrupt ex k, te_status ex, atomic_store_interrupt k i' (Some TfWaiting) True ex))"

text \<open>The save of the snapshot raised: put the earlier entry back, if the pause still owns it.\<close>

definition rollback_pause ::
  "string \<Rightarrow> interrupt \<Rightarrow> interrupt option \<Rightarrow> exec_status \<Rightarrow> tf_exec \<Rightarrow> tf_exec" where
  "rollback_pause k i previous previous_status ex =
     (if \<not> owns_waiting_pause_boundary (get_interrupt ex k) i then ex
      else let restored = (case previous of
                 Some p \<Rightarrow> dict_set k p (te_interrupts ex)
               | None \<Rightarrow> dict_del k (te_interrupts ex));
               status = (if list_ex (\<lambda>(k, j). is_open j) restored then TfWaiting else previous_status)
           in write_interrupt_state (Some status) False restored ex)"

definition apply_local_envelope :: "interrupt \<Rightarrow> interrupt \<Rightarrow> interrupt" where
  "apply_local_envelope i stored = stored\<lparr> in_wait_request := in_wait_request i \<rparr>"

text \<open>\<open>publish_request\<close> of the provider returned a mapping, or nothing.\<close>

definition published ::
  "string \<Rightarrow> pydict option \<Rightarrow> interrupt \<Rightarrow> tf_exec \<Rightarrow> interrupt \<times> tf_exec" where
  "published k update i ex =
     (let i' = (case (update, in_wait_request i) of
                  (Some u, PDict request) \<Rightarrow>
                    i\<lparr> in_wait_request := PDict (merge_external_wait_request_update request u) \<rparr>
                | _ \<Rightarrow> i)
      in (i', atomic_mutate_interrupt k (apply_local_envelope i') (Some TfWaiting) False True ex))"

definition publish_failed :: "string \<Rightarrow> string \<Rightarrow> interrupt \<Rightarrow> tf_exec \<Rightarrow> tf_exec" where
  "publish_failed k error i ex =
     atomic_mutate_interrupt k
       (apply_local_envelope (set_external_wait_state ''exposure_failed'' None None (Some error) i))
       (Some TfWaiting) True True ex"

definition expose_pause :: "string \<Rightarrow> interrupt \<Rightarrow> tf_exec \<Rightarrow> tf_exec" where
  "expose_pause k i ex =
     atomic_mutate_interrupt k
       (apply_local_envelope (set_external_wait_state ''exposed'' None None None i))
       (Some TfWaiting) True True ex"

section \<open>Claiming an interrupt\<close>

datatype resume_error =
    NotFound
  | ConflictingRequest
  | StoredDigest projection_error
  | NotWaiting
  | SelfLimit int int
  | LeaseExpired string
  | MissingSignal
  | MissingContinuation

text \<open>
  What a coroutine of \<open>_async_continue_with_unlocked\<close> holds between two of its awaits;
  \<open>co_fresh\<close> is its \<open>accepted_now\<close>.
\<close>

record resume_run =
  co_id :: string
  co_value :: pyval
  co_rid :: "string option"
  co_actor :: "string option"
  co_int :: interrupt
  co_requests :: "(string, resume_request) dict"
  co_record :: "resume_request option"
  co_fresh :: bool

datatype claim_outcome =
    Ignored
  | Refused resume_error
  | KnownRequest interrupt
  | Claimed tf_exec resume_run

definition resume_request_record :: "string \<Rightarrow> pyval \<Rightarrow> string option \<Rightarrow> rat \<Rightarrow> resume_request" where
  "resume_request_record r v actor now =
     \<lparr> rr_id = r, rr_status = ReqAccepted, rr_value = serializable_data v, rr_actor = actor,
       rr_accepted_at = now, rr_dispatched_at = None, rr_attempts = 0, rr_failed_at = None,
       rr_error = None, rr_completed_at = None \<rparr>"

definition same_resume_request_value ::
  "(nat list \<Rightarrow> string) \<Rightarrow> resume_request \<Rightarrow> pyval \<Rightarrow> projection_error + bool" where
  "same_resume_request_value sha record v =
     (if is_value_digest_projection (rr_value record)
      then value_matches_digest_projection sha (serializable_data v) (rr_value record)
      else Inr (py_eq (rr_value record) (serializable_data v)))"

definition expired_lease :: "rat \<Rightarrow> tf_exec \<Rightarrow> string option" where
  "expired_lease now ex =
     (case te_owner ex of
        None \<Rightarrow> None
      | Some owner \<Rightarrow>
          if te_lease_until ex = PNone then None
          else (case py_float (te_lease_until ex) of
                  None \<Rightarrow> None
                | Some until \<Rightarrow> if until > now then None else Some owner))"

definition count_self_resume :: "interrupt \<Rightarrow> resume_error + interrupt" where
  "count_self_resume i =
     (if in_resume_to i \<noteq> PStr ''self'' then Inr i
      else let n = (if in_count i < 0 then 0 else in_count i) + 1
           in case in_max i of
                None \<Rightarrow> Inr (i\<lparr> in_count := n \<rparr>)
              | Some m \<Rightarrow> if n > m then Inl (SelfLimit n m) else Inr (i\<lparr> in_count := n \<rparr>))"

definition take_claim ::
  "string \<Rightarrow> pyval \<Rightarrow> string option \<Rightarrow> string option \<Rightarrow> rat \<Rightarrow> resume_request option \<Rightarrow> interrupt \<Rightarrow>
   tf_exec \<Rightarrow> claim_outcome" where
  "take_claim k v rid actor now existing i ex =
     (let i1 = i\<lparr> in_claim := Some \<lparr> rc_request = rid, rc_actor = actor, rc_at = now \<rparr> \<rparr>;
          (i2, rec) =
            (case rid of
               None \<Rightarrow> (i1, None)
             | Some r \<Rightarrow>
                 (case existing of
                    None \<Rightarrow>
                      let rec = resume_request_record r v actor now
                      in (set_external_wait_state ''accepted'' (Some r) actor None
                            (i1\<lparr> in_requests := dict_set r rec (in_requests i),
                                 in_request_id := Some r, in_resumed_by := actor \<rparr>), Some rec)
                  | Some rec \<Rightarrow>
                      (i1\<lparr> in_request_id := Some r,
                           in_resumed_by := (if actor \<noteq> None then actor else in_resumed_by i) \<rparr>,
                       Some rec)))
      in Claimed (atomic_store_interrupt k i2 (Some TfWaiting) True ex)
           \<lparr> co_id = k, co_value = v, co_rid = rid, co_actor = actor, co_int = i2,
             co_requests = in_requests i2, co_record = rec,
             co_fresh = (rid \<noteq> None \<and> existing = None) \<rparr>)"

definition claim_interrupt ::
  "(nat list \<Rightarrow> string) \<Rightarrow> string \<Rightarrow> pyval \<Rightarrow> string option \<Rightarrow> string option \<Rightarrow> rat \<Rightarrow> tf_exec \<Rightarrow>
   claim_outcome" where
  "claim_interrupt sha k v rid actor now ex =
     (if te_lifecycle ex \<noteq> LcOpen then Ignored
      else case expired_lease now ex of Some owner \<Rightarrow> Refused (LeaseExpired owner) | None \<Rightarrow>
      (case get_interrupt ex k of None \<Rightarrow> Refused NotFound | Some i \<Rightarrow>
        let existing = (case rid of None \<Rightarrow> None | Some r \<Rightarrow> dict_get (in_requests i) r)
        in case (case existing of None \<Rightarrow> Inr True | Some rec \<Rightarrow> same_resume_request_value sha rec v) of
             Inl e \<Rightarrow> Refused (StoredDigest e)
           | Inr False \<Rightarrow> Refused ConflictingRequest
           | Inr True \<Rightarrow>
               if (case existing of
                     None \<Rightarrow> False
                   | Some rec \<Rightarrow> in_status i \<noteq> IntWaiting \<or> rr_status rec = ReqCompleted)
               then KnownRequest i
               else (case in_claim i of
                   Some c \<Rightarrow>
                     if rid \<noteq> None \<and> rc_request c = rid then KnownRequest i else Refused NotWaiting
                 | None \<Rightarrow>
                     if in_status i \<noteq> IntWaiting then Refused NotWaiting
                     else (case count_self_resume i of
                         Inl e \<Rightarrow> Refused e
                       | Inr i' \<Rightarrow> take_claim k v rid actor now existing i' ex))))"

section \<open>From the claim to the answer\<close>

definition mark_dispatched :: "rat \<Rightarrow> resume_run \<Rightarrow> tf_exec \<Rightarrow> resume_run \<times> tf_exec" where
  "mark_dispatched now co ex =
     (case (co_rid co, co_record co) of
        (Some r, Some rec) \<Rightarrow>
          let rec' = rec\<lparr> rr_status := ReqDispatched, rr_dispatched_at := Some now,
                          rr_attempts := rr_attempts rec + 1,
                          rr_actor := (if co_actor co \<noteq> None then co_actor co else rr_actor rec) \<rparr>;
              requests = dict_set r rec' (co_requests co);
              i = set_external_wait_state ''dispatched'' (Some r) (co_actor co) None
                    ((co_int co)\<lparr> in_requests := requests \<rparr>)
          in (co\<lparr> co_int := i, co_requests := requests, co_record := Some rec' \<rparr>,
              atomic_store_interrupt (co_id co) i (Some TfWaiting) True ex)
      | _ \<Rightarrow> (co, ex))"

definition mark_resumed :: "rat \<Rightarrow> resume_run \<Rightarrow> tf_exec \<Rightarrow> resume_run \<times> tf_exec" where
  "mark_resumed now co ex =
     (let i0 = (co_int co)\<lparr> in_status := IntResumed, in_response := co_value co,
                 in_value := co_value co, in_resumed_at := Some now, in_claim := None \<rparr>;
          i = (case co_rid co of
                 None \<Rightarrow> i0
               | Some r \<Rightarrow> i0\<lparr> in_request_id := Some r, in_resumed_by := co_actor co \<rparr>)
      in (co\<lparr> co_int := i \<rparr>, atomic_store_interrupt (co_id co) i (Some TfRunning) True ex))"

section \<open>What is dispatched\<close>

fun request_status_name :: "request_status \<Rightarrow> string" where
  "request_status_name ReqAccepted = ''accepted''"
| "request_status_name ReqDispatched = ''dispatched''"
| "request_status_name ReqFailed = ''dispatch_failed''"
| "request_status_name ReqCompleted = ''completed''"

fun interrupt_status_name :: "interrupt_status \<Rightarrow> string" where
  "interrupt_status_name IntWaiting = ''waiting''"
| "interrupt_status_name IntResumed = ''resumed''"
| "interrupt_status_name IntCancelled = ''cancelled''"

definition opt_time :: "rat option \<Rightarrow> pyval" where
  "opt_time t = (case t of None \<Rightarrow> PNone | Some q \<Rightarrow> PFloat q)"

text \<open>An optional key appears with its value, or not at all.\<close>

definition key_unless_none :: "string \<Rightarrow> pyval \<Rightarrow> pydict" where
  "key_unless_none k v = (if v = PNone then [] else [(k, v)])"

definition request_dict :: "resume_request \<Rightarrow> pydict" where
  "request_dict r =
     [(''request_id'', PStr (rr_id r)), (''status'', PStr (request_status_name (rr_status r))),
      (''value'', rr_value r), (''actor'', str_or_none (rr_actor r)),
      (''accepted_at'', PFloat (rr_accepted_at r))]
     @ key_unless_none ''dispatched_at'' (opt_time (rr_dispatched_at r))
     @ (if rr_attempts r = 0 then [] else [(''dispatch_attempts'', PInt (int (rr_attempts r)))])
     @ key_unless_none ''dispatch_failed_at'' (opt_time (rr_failed_at r))
     @ key_unless_none ''error'' (str_or_none (rr_error r))
     @ key_unless_none ''completed_at'' (opt_time (rr_completed_at r))"

text \<open>The dictionary of an interrupt that \<open>continue_with\<close> has just marked as resumed.\<close>

definition interrupt_dict :: "interrupt \<Rightarrow> pydict" where
  "interrupt_dict i =
     [(''id'', PStr (in_id i)), (''type'', PStr (in_type i)), (''exchange_kind'', in_exchange_kind i),
      (''payload'', in_payload i), (''resume_event'', in_resume_event i),
      (''resume_to'', in_resume_to i), (''status'', PStr (interrupt_status_name (in_status i))),
      (''source_execution_id'', PStr (in_execution i)), (''source_flow_name'', PStr (in_flow i)),
      (''source_operator_id'', in_operator i), (''source_signal'', in_source_signal i),
      (''continuation_event'', in_continuation i), (''resume_count'', PInt (in_count i)),
      (''max_resumes'', (case in_max i of None \<Rightarrow> PNone | Some m \<Rightarrow> PInt m)),
      (''created_at'', PFloat (in_created i)), (''resumed_at'', opt_time (in_resumed_at i)),
      (''resume_value'', in_value i), (''external_wait_request'', in_wait_request i),
      (''resume_claim'', PNone)]
     @ (if in_requests i = [] then []
        else [(''resume_requests'', PDict (map (\<lambda>(r, rec). (r, PDict (request_dict rec))) (in_requests i)))])
     @ (case in_request_id i of
          None \<Rightarrow> []
        | Some r \<Rightarrow> [(''resume_request_id'', PStr r), (''resumed_by'', str_or_none (in_resumed_by i))])
     @ [(''response'', in_response i)]
     @ key_unless_none ''sub_flow_frame_id'' (in_frame i)"

definition resume_context :: "resume_run \<Rightarrow> pydict" where
  "resume_context co =
     [(''interrupt_id'', PStr (co_id co)), (''value'', co_value co),
      (''interrupt'', serializable_data (PDict (interrupt_dict (co_int co)))),
      (''origin_signal'', in_source_signal (co_int co))]"

definition resume_meta :: "resume_run \<Rightarrow> pydict" where
  "resume_meta co =
     [(''interrupt_id'', PStr (co_id co)), (''resume_request_id'', str_or_none (co_rid co)),
      (''actor_id'', str_or_none (co_actor co)), (''resume'', PDict (resume_context co))]"

datatype dispatch = ToSubFlow string | ToSignal tf_signal | ToNothing

text \<open>The branch of the code that sends the answer on; \<open>Inl\<close> are its two exceptions.\<close>

definition dispatch_target :: "string \<Rightarrow> resume_run \<Rightarrow> resume_error + dispatch" where
  "dispatch_target uid co =
     (let i = co_int co;
          event = (\<lambda>name. create_signal uid (py_str name) EventTrigger (co_value co) None ''interrupt''
                            (Some (resume_meta co)));
          target = (case in_resume_to i of PDict d \<Rightarrow> pget d ''event'' | _ \<Rightarrow> PNone)
      in if truthy (in_frame i) then Inr (ToSubFlow (py_str (in_frame i)))
         else if truthy target then Inr (ToSignal (event target))
         else if in_resume_to i = PStr ''self'' then
           (case restore_signal (in_source_signal i) of
              None \<Rightarrow> Inl MissingSignal
            | Some s \<Rightarrow>
                Inr (ToSignal (create_signal uid (sg_event s) (sg_type s) (sg_value s)
                  (Some (sg_layer_marks s)) ''interrupt''
                  (Some (dict_update (sg_meta s)
                    ((self_count_key, PInt (in_count i))
                     # (case in_max i of None \<Rightarrow> [] | Some m \<Rightarrow> [(self_max_key, PInt m)])
                     @ resume_meta co))))))
         else if in_resume_to i = PStr ''next'' then
           (if \<not> truthy (in_continuation i) then Inl MissingContinuation
            else Inr (ToSignal (create_signal uid (py_str (in_continuation i)) EventTrigger (co_value co)
                   (map_option sg_layer_marks (restore_signal (in_source_signal i))) ''interrupt''
                   (Some (resume_meta co)))))
         else if truthy (in_resume_event i) then Inr (ToSignal (event (in_resume_event i)))
         else Inr ToNothing)"

section \<open>After the dispatch\<close>

text \<open>The write of the failure: only a request with an identifier goes back to waiting.\<close>

definition fail_resume_request ::
  "string \<Rightarrow> resume_request \<Rightarrow> string option \<Rightarrow> string \<Rightarrow> rat \<Rightarrow> interrupt \<Rightarrow> interrupt" where
  "fail_resume_request r rec actor error created stored =
     (let s = stored\<lparr> in_requests := dict_set r rec (in_requests stored) \<rparr>
      in if in_created stored = created
         then set_external_wait_state ''dispatch_failed'' (Some r) actor (Some error)
                (s\<lparr> in_status := IntWaiting, in_response := PNone, in_value := PNone,
                    in_resumed_at := None, in_claim := None \<rparr>)
         else s)"

definition dispatch_failed :: "string \<Rightarrow> rat \<Rightarrow> resume_run \<Rightarrow> tf_exec \<Rightarrow> tf_exec" where
  "dispatch_failed error now co ex =
     (case (co_rid co, co_record co) of
        (Some r, Some rec) \<Rightarrow>
          let rec' = rec\<lparr> rr_status := ReqFailed, rr_failed_at := Some now, rr_error := Some error \<rparr>;
              current = get_interrupt ex (co_id co);
              waiting = (case current of
                  None \<Rightarrow> False
                | Some c \<Rightarrow> in_created c = in_created (co_int co) \<or> in_status c = IntWaiting)
          in atomic_mutate_interrupt (co_id co)
               (fail_resume_request r rec' (co_actor co) error (in_created (co_int co)))
               (if waiting then Some TfWaiting else None) True False ex
      | _ \<Rightarrow> ex)"

definition complete_resume_request ::
  "string \<Rightarrow> resume_request \<Rightarrow> string option \<Rightarrow> rat \<Rightarrow> interrupt \<Rightarrow> interrupt" where
  "complete_resume_request r rec actor created stored =
     (let s = stored\<lparr> in_requests := dict_set r rec (in_requests stored) \<rparr>
      in if in_created stored = created
         then set_external_wait_state ''completed'' (Some r) actor None s else s)"

definition dispatch_completed :: "rat \<Rightarrow> resume_run \<Rightarrow> tf_exec \<Rightarrow> tf_exec" where
  "dispatch_completed now co ex =
     (case (co_rid co, co_record co) of
        (Some r, Some rec) \<Rightarrow>
          let rec' = rec\<lparr> rr_status := ReqCompleted, rr_completed_at := Some now \<rparr>
          in atomic_mutate_interrupt (co_id co)
               (complete_resume_request r rec' (co_actor co) (in_created (co_int co)))
               None True False ex
      | _ \<Rightarrow> ex)"

section \<open>Answers by an event, cancellation, closing\<close>

text \<open>The keys and interrupts of a dictionary that satisfy a test, changed in place.\<close>

definition change_where ::
  "(interrupt \<Rightarrow> bool) \<Rightarrow> (interrupt \<Rightarrow> interrupt) \<Rightarrow> (string, interrupt) dict \<Rightarrow> (string, interrupt) dict" where
  "change_where p f d = map (\<lambda>(k, i). (k, if p i then f i else i)) d"

definition unclaimed :: "interrupt \<Rightarrow> bool" where
  "unclaimed i \<longleftrightarrow> in_status i = IntWaiting \<and> in_claim i = None"

definition awaits_event :: "string \<Rightarrow> interrupt \<Rightarrow> bool" where
  "awaits_event event i \<longleftrightarrow>
     unclaimed i \<and>
     (case in_resume_to i of PDict d \<Rightarrow> pget d ''event'' | _ \<Rightarrow> in_resume_event i) = PStr event"

definition resume_by_signal :: "tf_signal \<Rightarrow> rat \<Rightarrow> interrupt \<Rightarrow> interrupt" where
  "resume_by_signal s now i =
     set_external_wait_state ''completed'' None None None
       (i\<lparr> in_status := IntResumed, in_response := sg_value s, in_value := sg_value s,
           in_resumed_at := Some now, in_signal_id := Some (sg_id s) \<rparr>)"

definition resume_for_signal :: "tf_signal \<Rightarrow> rat \<Rightarrow> tf_exec \<Rightarrow> tf_exec" where
  "resume_for_signal s now ex =
     (if sg_type s \<noteq> EventTrigger \<or> sg_source s = ''interrupt'' then ex
      else if list_ex (\<lambda>(k, i). awaits_event (sg_event s) i) (te_interrupts ex)
      then let ex' = refresh_waiting_status (ex\<lparr> te_interrupts :=
                 change_where (awaits_event (sg_event s)) (resume_by_signal s now) (te_interrupts ex) \<rparr>)
           in ex'\<lparr> te_version := te_version ex' + 1 \<rparr>
      else ex)"

definition cancel_interrupt :: "string \<Rightarrow> rat \<Rightarrow> interrupt \<Rightarrow> interrupt" where
  "cancel_interrupt reason now i =
     set_external_wait_state ''cancelled'' None None None
       (i\<lparr> in_status := IntCancelled, in_cancelled_at := Some now, in_cancel_reason := Some reason \<rparr>)"

definition cancel_pending_interrupts :: "string \<Rightarrow> rat \<Rightarrow> tf_exec \<Rightarrow> tf_exec" where
  "cancel_pending_interrupts reason now ex =
     (if list_ex (\<lambda>(k, i). unclaimed i) (te_interrupts ex)
      then ex\<lparr> te_interrupts := change_where unclaimed (cancel_interrupt reason now) (te_interrupts ex),
               te_status := TfCancelled, te_version := te_version ex + 1 \<rparr>
      else ex)"

datatype close_error = BadPolicy string | PendingInterrupts "string list"

definition validate_close_policy :: "string \<Rightarrow> close_error + unit" where
  "validate_close_policy policy =
     (if policy \<in> {''error'', ''cancel''} then Inr () else Inl (BadPolicy policy))"

definition handle_pending_before_close ::
  "string \<Rightarrow> string \<Rightarrow> rat \<Rightarrow> tf_exec \<Rightarrow> close_error + tf_exec" where
  "handle_pending_before_close policy reason now ex =
     (if get_pending_interrupts ex = [] then Inr ex
      else if policy = ''cancel'' then Inr (cancel_pending_interrupts reason now ex)
      else Inl (PendingInterrupts (sort (dict_keys (get_pending_interrupts ex)))))"

end
