(* ===== verification/InterruptRuns.thy ===== *)
theory InterruptRuns
  imports InterruptModel
begin

text \<open>
  Interleavings of the interrupt coroutines.  A task is a coroutine of
  \<open>ExecutionInterrupts.py\<close> that has stopped at an await, with what it holds; a step runs one
  task up to its next await, starts a coroutine, or lets the rest of the program change the
  execution without touching the map of interrupts.  The main result is a conservation law:
  however the coroutines interleave, a pause is answered at most once.
\<close>

section \<open>Coroutines\<close>

text \<open>
  The \<open>bool\<close> of a pause says that it has an explicit identifier, on which it then holds the
  boundary lock until it returns; a \<open>continue_with\<close> waits for that lock before it starts.
\<close>

datatype task =
    PausePlanned bool string interrupt
  | PauseStored bool string interrupt "interrupt option" exec_status
  | PausePersisted bool string interrupt
  | PausePublishing bool string interrupt
  | PauseRaising bool string interrupt
  | PauseClosing bool string
  | ResumeAccepted resume_run
  | ResumeDispatched resume_run
  | ResumeResumed resume_run
  | ResumeDispatching resume_run
  | ResumeCompleted resume_run

fun holds_boundary :: "string \<Rightarrow> task \<Rightarrow> bool" where
  "holds_boundary k (PausePlanned e l _) = (e \<and> l = k)"
| "holds_boundary k (PauseStored e l _ _ _) = (e \<and> l = k)"
| "holds_boundary k (PausePersisted e l _) = (e \<and> l = k)"
| "holds_boundary k (PausePublishing e l _) = (e \<and> l = k)"
| "holds_boundary k (PauseRaising e l _) = (e \<and> l = k)"
| "holds_boundary k (PauseClosing e l) = (e \<and> l = k)"
| "holds_boundary k _ = False"

definition boundary_free :: "string \<Rightarrow> task list \<Rightarrow> bool" where
  "boundary_free k ts \<longleftrightarrow> \<not> list_ex (holds_boundary k) ts"

text \<open>What has happened to the pause of an identifier made at a time.\<close>

datatype happening = PauseMade | SignalSent | SendFailed | Answered | AnsweredByEvent | Withdrawn

type_synonym history = "(string \<times> rat \<times> happening) list"

record flow_world =
  w_exec :: tf_exec
  w_tasks :: "task list"
  w_past :: history

definition happened :: "string \<Rightarrow> rat \<Rightarrow> happening \<Rightarrow> history \<Rightarrow> nat" where
  "happened k g h past = count_list past (k, g, h)"

text \<open>The rest of a pause after each await.\<close>

definition after_persist :: "bool \<Rightarrow> string \<Rightarrow> interrupt \<Rightarrow> tf_exec \<Rightarrow> task list" where
  "after_persist e k i ex =
     (if owns_waiting_pause_boundary (get_interrupt ex k) i then [PausePersisted e k i] else [])"

definition before_publish :: "bool \<Rightarrow> string \<Rightarrow> interrupt \<Rightarrow> tf_exec \<Rightarrow> task list" where
  "before_publish e k i ex =
     (if owns_waiting_pause_boundary (get_interrupt ex k) i then [PausePublishing e k i] else [])"

text \<open>The first stretch of a \<open>continue_with\<close> after its claim, and the last after its dispatch.\<close>

definition after_claim :: "rat \<Rightarrow> resume_run \<Rightarrow> tf_exec \<Rightarrow> task \<times> tf_exec" where
  "after_claim now co ex =
     (if co_fresh co then (ResumeAccepted co, ex)
      else if co_rid co \<noteq> None then
        (let (co', ex') = mark_dispatched now co ex in (ResumeDispatched co', ex'))
      else (let (co', ex') = mark_resumed now co ex in (ResumeResumed co', ex')))"

definition after_dispatch :: "rat \<Rightarrow> resume_run \<Rightarrow> tf_exec \<Rightarrow> task list \<times> tf_exec" where
  "after_dispatch now co ex =
     (if co_rid co \<noteq> None then ([ResumeCompleted co], dispatch_completed now co ex)
      else ([], refresh_waiting_status ex))"

text \<open>An exception at an await whose code does not catch it ends the coroutine there.\<close>

fun can_die :: "task \<Rightarrow> bool" where
  "can_die (PauseStored _ _ _ _ _) = False"
| "can_die (PausePublishing _ _ _) = False"
| "can_die (ResumeDispatching _) = False"
| "can_die _ = True"

definition changed_keys :: "(interrupt \<Rightarrow> bool) \<Rightarrow> happening \<Rightarrow> (string, interrupt) dict \<Rightarrow> history" where
  "changed_keys p h d = map (\<lambda>(k, i). (k, in_created i, h)) (filter (\<lambda>(k, i). p i) d)"

inductive tf_step :: "(nat list \<Rightarrow> string) \<Rightarrow> flow_world \<Rightarrow> flow_world \<Rightarrow> bool" for sha where
  pause_start:
    "plan_pause args uid chunk now ex = Inr (k, i) \<Longrightarrow>
     (if pq_id args = None then k \<notin> fst ` set (te_interrupts ex) else boundary_free k ts) \<Longrightarrow>
     tf_step sha \<lparr> w_exec = ex, w_tasks = ts, w_past = past \<rparr>
       \<lparr> w_exec = ex, w_tasks = ts @ [PausePlanned (pq_id args \<noteq> None) k i],
         w_past = past @ [(k, in_created i, PauseMade)] \<rparr>"
| pause_store:
    "store_pause k i ex = (i', previous, status, ex') \<Longrightarrow>
     tf_step sha \<lparr> w_exec = ex, w_tasks = xs @ PausePlanned e k i # ys, w_past = past \<rparr>
       \<lparr> w_exec = ex', w_tasks = xs @ PauseStored e k i' previous status # ys, w_past = past \<rparr>"
| pause_saved:
    "tf_step sha \<lparr> w_exec = ex, w_tasks = xs @ PauseStored e k i previous status # ys, w_past = past \<rparr>
       \<lparr> w_exec = ex, w_tasks = xs @ after_persist e k i ex @ ys, w_past = past \<rparr>"
| pause_save_fails:
    "tf_step sha \<lparr> w_exec = ex, w_tasks = xs @ PauseStored e k i previous status # ys, w_past = past \<rparr>
       \<lparr> w_exec = rollback_pause k i previous status ex, w_tasks = xs @ ys, w_past = past \<rparr>"
| pause_announced:
    "tf_step sha \<lparr> w_exec = ex, w_tasks = xs @ PausePersisted e k i # ys, w_past = past \<rparr>
       \<lparr> w_exec = ex, w_tasks = xs @ before_publish e k i ex @ ys, w_past = past \<rparr>"
| pause_published:
    "published k update i ex = (i', ex') \<Longrightarrow>
     tf_step sha \<lparr> w_exec = ex, w_tasks = xs @ PausePublishing e k i # ys, w_past = past \<rparr>
       \<lparr> w_exec = ex', w_tasks = xs @ PauseRaising e k i' # ys, w_past = past \<rparr>"
| pause_publish_fails:
    "tf_step sha \<lparr> w_exec = ex, w_tasks = xs @ PausePublishing e k i # ys, w_past = past \<rparr>
       \<lparr> w_exec = publish_failed k error i ex, w_tasks = xs @ PauseClosing e k # ys, w_past = past \<rparr>"
| pause_exposed:
    "tf_step sha \<lparr> w_exec = ex, w_tasks = xs @ PauseRaising e k i # ys, w_past = past \<rparr>
       \<lparr> w_exec = expose_pause k i ex, w_tasks = xs @ PauseClosing e k # ys, w_past = past \<rparr>"
| pause_returns:
    "tf_step sha \<lparr> w_exec = ex, w_tasks = xs @ PauseClosing e k # ys, w_past = past \<rparr>
       \<lparr> w_exec = ex, w_tasks = xs @ ys, w_past = past \<rparr>"
| resume_start:
    "boundary_free k ts \<Longrightarrow> claim_interrupt sha k v rid actor now ex = Claimed ex1 co \<Longrightarrow>
     after_claim now co ex1 = (t, ex') \<Longrightarrow>
     tf_step sha \<lparr> w_exec = ex, w_tasks = ts, w_past = past \<rparr>
       \<lparr> w_exec = ex', w_tasks = ts @ [t], w_past = past \<rparr>"
| resume_dispatch:
    "mark_dispatched now co ex = (co', ex') \<Longrightarrow>
     tf_step sha \<lparr> w_exec = ex, w_tasks = xs @ ResumeAccepted co # ys, w_past = past \<rparr>
       \<lparr> w_exec = ex', w_tasks = xs @ ResumeDispatched co' # ys, w_past = past \<rparr>"
| resume_resume:
    "mark_resumed now co ex = (co', ex') \<Longrightarrow>
     tf_step sha \<lparr> w_exec = ex, w_tasks = xs @ ResumeDispatched co # ys, w_past = past \<rparr>
       \<lparr> w_exec = ex', w_tasks = xs @ ResumeResumed co' # ys, w_past = past \<rparr>"
| resume_send:
    "dispatch_target uid co = Inr target \<Longrightarrow>
     tf_step sha \<lparr> w_exec = ex, w_tasks = xs @ ResumeResumed co # ys, w_past = past \<rparr>
       \<lparr> w_exec = ex, w_tasks = xs @ ResumeDispatching co # ys,
         w_past = past @ [(co_id co, in_created (co_int co), SignalSent)] \<rparr>"
| resume_no_target:
    "dispatch_target uid co = Inl err \<Longrightarrow>
     tf_step sha \<lparr> w_exec = ex, w_tasks = xs @ ResumeResumed co # ys, w_past = past \<rparr>
       \<lparr> w_exec = dispatch_failed error now co ex, w_tasks = xs @ ys, w_past = past \<rparr>"
| resume_fails:
    "tf_step sha \<lparr> w_exec = ex, w_tasks = xs @ ResumeDispatching co # ys, w_past = past \<rparr>
       \<lparr> w_exec = dispatch_failed error now co ex, w_tasks = xs @ ys,
         w_past = past @ [(co_id co, in_created (co_int co), SendFailed)] \<rparr>"
| resume_done:
    "after_dispatch now co ex = (rest, ex') \<Longrightarrow>
     tf_step sha \<lparr> w_exec = ex, w_tasks = xs @ ResumeDispatching co # ys, w_past = past \<rparr>
       \<lparr> w_exec = ex', w_tasks = xs @ rest @ ys,
         w_past = past @ [(co_id co, in_created (co_int co), Answered)] \<rparr>"
| resume_end:
    "tf_step sha \<lparr> w_exec = ex, w_tasks = xs @ ResumeCompleted co # ys, w_past = past \<rparr>
       \<lparr> w_exec = refresh_waiting_status ex, w_tasks = xs @ ys, w_past = past \<rparr>"
| task_dies:
    "can_die t \<Longrightarrow>
     tf_step sha \<lparr> w_exec = ex, w_tasks = xs @ t # ys, w_past = past \<rparr>
       \<lparr> w_exec = ex, w_tasks = xs @ ys, w_past = past \<rparr>"
| event_arrives:
    "sg_type s = EventTrigger \<Longrightarrow> sg_source s \<noteq> ''interrupt'' \<Longrightarrow>
     tf_step sha \<lparr> w_exec = ex, w_tasks = ts, w_past = past \<rparr>
       \<lparr> w_exec = resume_for_signal s now ex, w_tasks = ts,
         w_past = past @ changed_keys (awaits_event (sg_event s)) AnsweredByEvent (te_interrupts ex) \<rparr>"
| pending_cancelled:
    "tf_step sha \<lparr> w_exec = ex, w_tasks = ts, w_past = past \<rparr>
       \<lparr> w_exec = cancel_pending_interrupts reason now ex, w_tasks = ts,
         w_past = past @ changed_keys unclaimed Withdrawn (te_interrupts ex) \<rparr>"
| elsewhere:
    "te_interrupts ex' = te_interrupts ex \<Longrightarrow>
     tf_step sha \<lparr> w_exec = ex, w_tasks = ts, w_past = past \<rparr>
       \<lparr> w_exec = ex', w_tasks = ts, w_past = past \<rparr>"

definition tf_start :: "tf_exec \<Rightarrow> flow_world" where
  "tf_start ex = \<lparr> w_exec = ex\<lparr> te_interrupts := [] \<rparr>, w_tasks = [], w_past = [] \<rparr>"

inductive tf_reach :: "(nat list \<Rightarrow> string) \<Rightarrow> flow_world \<Rightarrow> bool" for sha where
  start: "tf_reach sha (tf_start ex)"
| step: "tf_reach sha w \<Longrightarrow> tf_step sha w w' \<Longrightarrow> tf_reach sha w'"

section \<open>Running a schedule\<close>

text \<open>
  A schedule is a list of moves: start a coroutine, let the task at a position run to its next
  await, let its await raise, deliver an event, cancel.  \<open>run_move\<close> computes the step, so that
  examples are found by evaluation.
\<close>

datatype move =
    StartPause pause_args string pyval rat
  | StartResume string pyval "string option" "string option" rat
  | Advance nat string rat
  | Raise nat string rat
  | Deliver tf_signal rat
  | Cancel string rat

text \<open>What the task leaves behind, the execution, and what is added to the history.\<close>

fun advance_task :: "string \<Rightarrow> rat \<Rightarrow> tf_exec \<Rightarrow> task \<Rightarrow> task list \<times> tf_exec \<times> history" where
  "advance_task uid now ex (PausePlanned e k i) =
     (case store_pause k i ex of (i', previous, st, ex') \<Rightarrow> ([PauseStored e k i' previous st], ex', []))"
| "advance_task uid now ex (PauseStored e k i previous st) = (after_persist e k i ex, ex, [])"
| "advance_task uid now ex (PausePersisted e k i) = (before_publish e k i ex, ex, [])"
| "advance_task uid now ex (PausePublishing e k i) =
     (case published k None i ex of (i', ex') \<Rightarrow> ([PauseRaising e k i'], ex', []))"
| "advance_task uid now ex (PauseRaising e k i) = ([PauseClosing e k], expose_pause k i ex, [])"
| "advance_task uid now ex (PauseClosing e k) = ([], ex, [])"
| "advance_task uid now ex (ResumeAccepted co) =
     (case mark_dispatched now co ex of (co', ex') \<Rightarrow> ([ResumeDispatched co'], ex', []))"
| "advance_task uid now ex (ResumeDispatched co) =
     (case mark_resumed now co ex of (co', ex') \<Rightarrow> ([ResumeResumed co'], ex', []))"
| "advance_task uid now ex (ResumeResumed co) =
     (case dispatch_target uid co of
        Inr _ \<Rightarrow> ([ResumeDispatching co], ex, [(co_id co, in_created (co_int co), SignalSent)])
      | Inl _ \<Rightarrow> ([], dispatch_failed uid now co ex, []))"
| "advance_task uid now ex (ResumeDispatching co) =
     (case after_dispatch now co ex of
        (rest, ex') \<Rightarrow> (rest, ex', [(co_id co, in_created (co_int co), Answered)]))"
| "advance_task uid now ex (ResumeCompleted co) = ([], refresh_waiting_status ex, [])"

fun raise_task :: "string \<Rightarrow> rat \<Rightarrow> tf_exec \<Rightarrow> task \<Rightarrow> task list \<times> tf_exec \<times> history" where
  "raise_task error now ex (PauseStored e k i previous st) = ([], rollback_pause k i previous st ex, [])"
| "raise_task error now ex (PausePublishing e k i) =
     ([PauseClosing e k], publish_failed k error i ex, [])"
| "raise_task error now ex (ResumeDispatching co) =
     ([], dispatch_failed error now co ex, [(co_id co, in_created (co_int co), SendFailed)])"
| "raise_task error now ex t = ([], ex, [])"

definition replace_task ::
  "nat \<Rightarrow> (task \<Rightarrow> task list \<times> tf_exec \<times> history) \<Rightarrow> flow_world \<Rightarrow> flow_world option" where
  "replace_task n f w =
     (if n < length (w_tasks w) then
        (case f (w_tasks w ! n) of
           (rest, ex, added) \<Rightarrow>
             Some \<lparr> w_exec = ex, w_tasks = take n (w_tasks w) @ rest @ drop (Suc n) (w_tasks w),
                    w_past = w_past w @ added \<rparr>)
      else None)"

fun run_move :: "(nat list \<Rightarrow> string) \<Rightarrow> move \<Rightarrow> flow_world \<Rightarrow> flow_world option" where
  "run_move sha (StartPause args uid chunk now) w =
     (case plan_pause args uid chunk now (w_exec w) of
        Inl _ \<Rightarrow> None
      | Inr (k, i) \<Rightarrow>
          if (if pq_id args = None then k \<notin> fst ` set (te_interrupts (w_exec w))
              else boundary_free k (w_tasks w))
          then Some (w\<lparr> w_tasks := w_tasks w @ [PausePlanned (pq_id args \<noteq> None) k i],
                        w_past := w_past w @ [(k, in_created i, PauseMade)] \<rparr>)
          else None)"
| "run_move sha (StartResume k v rid actor now) w =
     (case claim_interrupt sha k v rid actor now (w_exec w) of
        Claimed ex1 co \<Rightarrow>
          if boundary_free k (w_tasks w)
          then (case after_claim now co ex1 of
                  (t, ex') \<Rightarrow> Some (w\<lparr> w_exec := ex', w_tasks := w_tasks w @ [t] \<rparr>))
          else None
      | _ \<Rightarrow> None)"
| "run_move sha (Advance n uid now) w = replace_task n (advance_task uid now (w_exec w)) w"
| "run_move sha (Raise n error now) w = replace_task n (raise_task error now (w_exec w)) w"
| "run_move sha (Deliver s now) w =
     (if sg_type s = EventTrigger \<and> sg_source s \<noteq> ''interrupt''
      then Some (w\<lparr> w_exec := resume_for_signal s now (w_exec w),
                    w_past := w_past w @ changed_keys (awaits_event (sg_event s)) AnsweredByEvent
                                (te_interrupts (w_exec w)) \<rparr>)
      else None)"
| "run_move sha (Cancel reason now) w =
     Some (w\<lparr> w_exec := cancel_pending_interrupts reason now (w_exec w),
              w_past := w_past w @ changed_keys unclaimed Withdrawn (te_interrupts (w_exec w)) \<rparr>)"

fun run_moves :: "(nat list \<Rightarrow> string) \<Rightarrow> move list \<Rightarrow> flow_world \<Rightarrow> flow_world option" where
  "run_moves sha [] w = Some w"
| "run_moves sha (m # ms) w = (case run_move sha m w of None \<Rightarrow> None | Some w' \<Rightarrow> run_moves sha ms w')"

lemma advance_step:
  "advance_task uid now ex t = (rest, ex', added) \<Longrightarrow>
   tf_step sha \<lparr> w_exec = ex, w_tasks = xs @ t # ys, w_past = past \<rparr>
     \<lparr> w_exec = ex', w_tasks = xs @ rest @ ys, w_past = past @ added \<rparr>"
proof (cases t)
  case (ResumeResumed co)
  moreover assume "advance_task uid now ex t = (rest, ex', added)"
  ultimately show ?thesis
    using tf_step.resume_send [of uid co _ sha ex xs ys past]
      tf_step.resume_no_target [of uid co _ sha ex xs ys past uid now]
    by (auto split: sum.splits)
qed (auto split: prod.splits intro: tf_step.intros)

lemma raise_step:
  "raise_task error now ex t = (rest, ex', added) \<Longrightarrow>
   tf_step sha \<lparr> w_exec = ex, w_tasks = xs @ t # ys, w_past = past \<rparr>
     \<lparr> w_exec = ex', w_tasks = xs @ rest @ ys, w_past = past @ added \<rparr>"
  by (cases t) (auto intro: tf_step.intros)

lemma replace_task_step:
  assumes "replace_task n f w = Some w'"
    and "\<And>t rest ex added xs ys. f t = (rest, ex, added) \<Longrightarrow>
      tf_step sha \<lparr> w_exec = w_exec w, w_tasks = xs @ t # ys, w_past = w_past w \<rparr>
        \<lparr> w_exec = ex, w_tasks = xs @ rest @ ys, w_past = w_past w @ added \<rparr>"
  shows "tf_step sha w w'"
proof -
  have n: "n < length (w_tasks w)" using assms(1) by (auto simp: replace_task_def split: if_splits)
  obtain rest ex added where f: "f (w_tasks w ! n) = (rest, ex, added)" by (cases "f (w_tasks w ! n)")
  from assms(2) [OF f, of "take n (w_tasks w)" "drop (Suc n) (w_tasks w)"] assms(1) n f
  show ?thesis by (cases w) (auto simp: replace_task_def id_take_nth_drop [symmetric])
qed

lemma run_move_step: "run_move sha m w = Some w' \<Longrightarrow> tf_step sha w w'"
proof (cases m)
  case (StartPause args uid chunk now)
  moreover assume "run_move sha m w = Some w'"
  ultimately show ?thesis
    using tf_step.pause_start [of args uid chunk now "w_exec w" _ _ "w_tasks w" sha "w_past w"]
    by (cases w) (auto split: sum.splits if_splits)
next
  case (StartResume k v rid actor now)
  moreover assume "run_move sha m w = Some w'"
  ultimately show ?thesis
    using tf_step.resume_start [of k "w_tasks w" sha v rid actor now "w_exec w"]
    by (cases w) (auto split: claim_outcome.splits if_splits prod.splits)
next
  case (Advance n uid now)
  moreover assume "run_move sha m w = Some w'"
  ultimately show ?thesis by (auto intro: replace_task_step advance_step)
next
  case (Raise n error now)
  moreover assume "run_move sha m w = Some w'"
  ultimately show ?thesis by (auto intro: replace_task_step raise_step)
next
  case (Deliver s now)
  moreover assume "run_move sha m w = Some w'"
  ultimately show ?thesis
    using tf_step.event_arrives [of s sha "w_exec w" "w_tasks w" "w_past w" now]
    by (cases w) (auto split: if_splits)
next
  case (Cancel reason now)
  moreover assume "run_move sha m w = Some w'"
  ultimately show ?thesis
    using tf_step.pending_cancelled [of sha "w_exec w" "w_tasks w" "w_past w" reason now]
    by (cases w) auto
qed

lemma run_moves_reach: "tf_reach sha w \<Longrightarrow> run_moves sha ms w = Some w' \<Longrightarrow> tf_reach sha w'"
proof (induction ms arbitrary: w)
  case (Cons m ms)
  then obtain w1 where "run_move sha m w = Some w1" "run_moves sha ms w1 = Some w'"
    by (auto split: option.splits)
  with Cons show ?case by (blast intro: tf_reach.step run_move_step)
qed simp

end
