(* ===== verification/InterruptCorrect.thy ===== *)
theory InterruptCorrect
  imports InterruptRuns
begin

text \<open>
  What the stretches of the interrupt coroutines do to the stored interrupts, and the
  conservation law of their interleavings: the right to answer a pause is a token that is
  created by the pause, handed from the stored interrupt to the coroutine that claims it,
  given back by a failed dispatch, and used up by the answer.
\<close>

section \<open>Fields the outside request does not touch\<close>

lemma set_wait_state_fields [simp]:
  "in_created (set_external_wait_state st rid actor err i) = in_created i"
  "in_status (set_external_wait_state st rid actor err i) = in_status i"
  "in_claim (set_external_wait_state st rid actor err i) = in_claim i"
  "in_requests (set_external_wait_state st rid actor err i) = in_requests i"
  "in_resume_to (set_external_wait_state st rid actor err i) = in_resume_to i"
  "in_id (set_external_wait_state st rid actor err i) = in_id i"
  by (simp_all add: set_external_wait_state_def Let_def)

lemma apply_envelope_fields [simp]:
  "in_created (apply_local_envelope i s) = in_created s"
  "in_status (apply_local_envelope i s) = in_status s"
  "in_claim (apply_local_envelope i s) = in_claim s"
  "in_requests (apply_local_envelope i s) = in_requests s"
  by (simp_all add: apply_local_envelope_def)

lemma complete_request_fields [simp]:
  "in_created (complete_resume_request r rec actor g s) = in_created s"
  "in_status (complete_resume_request r rec actor g s) = in_status s"
  "in_claim (complete_resume_request r rec actor g s) = in_claim s"
  by (simp_all add: complete_resume_request_def Let_def)

lemma fail_request_fields:
  "in_created (fail_resume_request r rec actor err g s) = in_created s"
  "in_status (fail_resume_request r rec actor err g s) =
     (if in_created s = g then IntWaiting else in_status s)"
  "in_claim (fail_resume_request r rec actor err g s) =
     (if in_created s = g then None else in_claim s)"
  by (simp_all add: fail_resume_request_def Let_def)

section \<open>Tokens\<close>

definition open_at :: "rat \<Rightarrow> interrupt \<Rightarrow> bool" where
  "open_at g i \<longleftrightarrow> in_created i = g \<and> unclaimed i"

definition entry_tokens :: "string \<Rightarrow> rat \<Rightarrow> tf_exec \<Rightarrow> nat" where
  "entry_tokens k g ex =
     (case get_interrupt ex k of None \<Rightarrow> 0 | Some i \<Rightarrow> of_bool (open_at g i))"

definition run_tokens :: "string \<Rightarrow> rat \<Rightarrow> resume_run \<Rightarrow> nat" where
  "run_tokens k g co = of_bool (co_id co = k \<and> in_created (co_int co) = g)"

fun task_tokens :: "string \<Rightarrow> rat \<Rightarrow> task \<Rightarrow> nat" where
  "task_tokens k g (PausePlanned e l i) = of_bool (l = k \<and> in_created i = g)"
| "task_tokens k g (PauseStored e l i previous st) =
     (case previous of None \<Rightarrow> 0 | Some p \<Rightarrow> of_bool (l = k \<and> open_at g p))"
| "task_tokens k g (ResumeAccepted co) = run_tokens k g co"
| "task_tokens k g (ResumeDispatched co) = run_tokens k g co"
| "task_tokens k g (ResumeResumed co) = run_tokens k g co"
| "task_tokens k g (ResumeDispatching co) = run_tokens k g co"
| "task_tokens k g _ = 0"

text \<open>A weight for every happening, added up over those of one pause.\<close>

definition tally :: "(happening \<Rightarrow> nat) \<Rightarrow> string \<Rightarrow> rat \<Rightarrow> history \<Rightarrow> nat" where
  "tally f k g past = sum_list (map (\<lambda>(l, g', h). if l = k \<and> g' = g then f h else 0) past)"

lemma tally_simps [simp]:
  "tally f k g [] = 0"
  "tally f k g ((l, g', h) # past) = (if l = k \<and> g' = g then f h else 0) + tally f k g past"
  "tally f k g (xs @ ys) = tally f k g xs + tally f k g ys"
  by (simp_all add: tally_def)

lemma happened_tally: "happened k g h past = tally (\<lambda>h'. of_bool (h' = h)) k g past"
  by (induction past) (auto simp: happened_def of_bool_def split: if_splits)

definition answers :: "string \<Rightarrow> rat \<Rightarrow> history \<Rightarrow> nat" where
  "answers k g past =
     happened k g Answered past + happened k g AnsweredByEvent past + happened k g Withdrawn past"

lemma answers_tally:
  "answers k g past = tally (\<lambda>h. of_bool (h \<in> {Answered, AnsweredByEvent, Withdrawn})) k g past"
  by (induction past) (auto simp: answers_def happened_def of_bool_def split: if_splits)

text \<open>
  What a world holds for a pause: the open interrupt, the tokens of its coroutines, where one
  whose signal is on its way counts \<open>sending\<close>, and the happenings that count as \<open>used\<close>.
\<close>

fun weighed_tokens :: "nat \<Rightarrow> string \<Rightarrow> rat \<Rightarrow> task \<Rightarrow> nat" where
  "weighed_tokens sending k g (ResumeDispatching co) = sending * run_tokens k g co"
| "weighed_tokens sending k g t = task_tokens k g t"

definition account_load ::
  "nat \<Rightarrow> (happening \<Rightarrow> nat) \<Rightarrow> string \<Rightarrow> rat \<Rightarrow> flow_world \<Rightarrow> nat" where
  "account_load sending used k g w =
     entry_tokens k g (w_exec w) + sum_list (map (weighed_tokens sending k g) (w_tasks w))
     + tally used k g (w_past w)"

section \<open>One stored interrupt under the operations\<close>

lemma te_interrupts_write [simp]: "te_interrupts (write_interrupt_state st b ints ex) = ints"
  by (simp add: write_interrupt_state_def)

lemma get_write [simp]:
  "get_interrupt (write_interrupt_state st b ints ex) l = dict_get ints l"
  by (simp add: get_interrupt_def)

lemma get_store [simp]:
  "get_interrupt (atomic_store_interrupt k i st b ex) l =
     (if l = k then Some i else get_interrupt ex l)"
  by (simp add: atomic_store_interrupt_def get_interrupt_def)

lemma get_mutate:
  "get_interrupt (atomic_mutate_interrupt k f st b req ex) l =
     (case get_interrupt ex l of
        None \<Rightarrow> None
      | Some s \<Rightarrow> Some (if l = k \<and> \<not> (req \<and> in_status s \<noteq> IntWaiting) then f s else s))"
  by (auto simp: atomic_mutate_interrupt_def get_interrupt_def split: option.splits)

lemma get_refresh [simp]: "get_interrupt (refresh_waiting_status ex) l = get_interrupt ex l"
  by (simp add: refresh_waiting_status_def get_interrupt_def)

lemma get_rollback:
  "get_interrupt (rollback_pause k i p st ex) l =
     (if l = k \<and> owns_waiting_pause_boundary (get_interrupt ex k) i then p else get_interrupt ex l)"
  by (auto simp: rollback_pause_def Let_def get_interrupt_def split: option.splits)

lemma get_change_where:
  "dict_get (change_where p f d) k = map_option (\<lambda>i. if p i then f i else i) (dict_get d k)"
  by (induction d) (auto simp: change_where_def)

lemma get_resume_for_signal:
  assumes "sg_type s = EventTrigger" "sg_source s \<noteq> ''interrupt''"
  shows "get_interrupt (resume_for_signal s now ex) l =
     map_option (\<lambda>i. if awaits_event (sg_event s) i then resume_by_signal s now i else i)
       (get_interrupt ex l)"
proof (cases "list_ex (\<lambda>(k, i). awaits_event (sg_event s) i) (te_interrupts ex)")
  case True
  with assms show ?thesis
    by (simp add: resume_for_signal_def Let_def get_interrupt_def refresh_waiting_status_def
        get_change_where)
next
  case False
  then have "\<not> awaits_event (sg_event s) i" if "get_interrupt ex l = Some i" for i
    using dict_get_Some_mem [of "te_interrupts ex" l i] that
    by (auto simp: list_ex_iff get_interrupt_def)
  with assms False show ?thesis
    by (cases "get_interrupt ex l") (simp_all add: resume_for_signal_def)
qed

lemma get_cancel_pending:
  "get_interrupt (cancel_pending_interrupts reason now ex) l =
     map_option (\<lambda>i. if unclaimed i then cancel_interrupt reason now i else i) (get_interrupt ex l)"
proof (cases "list_ex (\<lambda>(k, i). unclaimed i) (te_interrupts ex)")
  case True
  then show ?thesis
    by (simp add: cancel_pending_interrupts_def get_interrupt_def get_change_where)
next
  case False
  then have "\<not> unclaimed i" if "get_interrupt ex l = Some i" for i
    using dict_get_Some_mem [of "te_interrupts ex" l i] that
    by (auto simp: list_ex_iff get_interrupt_def)
  with False show ?thesis
    by (cases "get_interrupt ex l") (simp_all add: cancel_pending_interrupts_def)
qed

lemma not_unclaimed_after [simp]:
  "\<not> unclaimed (resume_by_signal s now i)" "\<not> unclaimed (cancel_interrupt reason now i)"
  "in_created (resume_by_signal s now i) = in_created i"
  "in_created (cancel_interrupt reason now i) = in_created i"
  by (simp_all add: unclaimed_def resume_by_signal_def cancel_interrupt_def)

section \<open>Tokens under the operations\<close>

lemma entry_tokens_mutate_keep:
  assumes "\<And>s. in_created (f s) = in_created s" "\<And>s. unclaimed (f s) = unclaimed s"
  shows "entry_tokens k g (atomic_mutate_interrupt l f st b req ex) = entry_tokens k g ex"
  using assms by (cases "get_interrupt ex k") (simp_all add: entry_tokens_def get_mutate open_at_def)

lemma unclaimed_envelope [simp]: "unclaimed (apply_local_envelope i s) = unclaimed s"
  by (simp add: unclaimed_def)

lemma entry_tokens_published:
  "published l u i ex = (i', ex') \<Longrightarrow> entry_tokens k g ex' = entry_tokens k g ex"
  by (auto simp: published_def Let_def entry_tokens_mutate_keep)

lemma entry_tokens_envelope [simp]:
  "entry_tokens k g (publish_failed l err i ex) = entry_tokens k g ex"
  "entry_tokens k g (expose_pause l i ex) = entry_tokens k g ex"
  by (simp_all add: publish_failed_def expose_pause_def entry_tokens_mutate_keep)

lemma entry_tokens_cong:
  "get_interrupt ex' k = get_interrupt ex k \<Longrightarrow> entry_tokens k g ex' = entry_tokens k g ex"
  by (simp add: entry_tokens_def)

lemma entry_tokens_refresh [simp]: "entry_tokens k g (refresh_waiting_status ex) = entry_tokens k g ex"
  by (rule entry_tokens_cong) simp

lemma entry_tokens_store_held:
  "\<not> unclaimed i \<Longrightarrow> entry_tokens k g (atomic_store_interrupt l i st b ex) \<le> entry_tokens k g ex"
  by (simp add: entry_tokens_def open_at_def)

lemma entry_tokens_completed [simp]:
  "entry_tokens k g (dispatch_completed now co ex) = entry_tokens k g ex"
  by (auto simp: dispatch_completed_def Let_def entry_tokens_mutate_keep unclaimed_def
      split: option.splits)

lemma entry_tokens_failed:
  "entry_tokens k g (dispatch_failed err now co ex) \<le> entry_tokens k g ex + run_tokens k g co"
  by (auto simp: dispatch_failed_def Let_def entry_tokens_def get_mutate open_at_def run_tokens_def
      fail_request_fields unclaimed_def split: option.splits)

lemma run_tokens_mark [simp]:
  "mark_dispatched now co ex = (co', ex') \<Longrightarrow> run_tokens k g co' = run_tokens k g co"
  "mark_resumed now co ex = (co', ex') \<Longrightarrow> run_tokens k g co' = run_tokens k g co"
  by (auto simp: mark_dispatched_def mark_resumed_def Let_def run_tokens_def split: option.splits)

lemma mark_dispatched_claim:
  "mark_dispatched now co ex = (co', ex') \<Longrightarrow> in_claim (co_int co') = in_claim (co_int co)"
  by (auto simp: mark_dispatched_def Let_def split: option.splits)

lemma entry_tokens_marked:
  "mark_dispatched now co ex = (co', ex') \<Longrightarrow> in_claim (co_int co) \<noteq> None \<Longrightarrow>
     entry_tokens k g ex' \<le> entry_tokens k g ex"
  "mark_resumed now co ex = (co', ex') \<Longrightarrow> entry_tokens k g ex' \<le> entry_tokens k g ex"
proof -
  assume "mark_dispatched now co ex = (co', ex')" "in_claim (co_int co) \<noteq> None"
  then show "entry_tokens k g ex' \<le> entry_tokens k g ex"
    by (auto simp: mark_dispatched_def Let_def unclaimed_def split: option.splits
        intro!: entry_tokens_store_held)
next
  assume "mark_resumed now co ex = (co', ex')"
  then show "entry_tokens k g ex' \<le> entry_tokens k g ex"
    by (auto simp: mark_resumed_def Let_def unclaimed_def split: option.splits
        intro!: entry_tokens_store_held)
qed

text \<open>A claim takes the token of the stored interrupt.\<close>

lemma count_self_resume_fields:
  "count_self_resume i = Inr j \<Longrightarrow> in_created j = in_created i \<and> in_status j = in_status i"
  by (auto simp: count_self_resume_def Let_def split: if_splits option.splits)

lemma take_claim_Claimed:
  assumes "take_claim k v rid actor now existing i ex = Claimed ex1 co"
  shows "co_id co = k \<and> co_value co = v \<and> co_rid co = rid \<and> in_claim (co_int co) \<noteq> None \<and>
    in_created (co_int co) = in_created i \<and> in_status (co_int co) = in_status i \<and>
    ex1 = atomic_store_interrupt k (co_int co) (Some TfWaiting) True ex"
  using assms by (auto simp: take_claim_def Let_def split: option.splits)

lemma claim_interrupt_taken:
  assumes "claim_interrupt sha k v rid actor now ex = Claimed ex1 co"
  obtains i j where "get_interrupt ex k = Some i" "unclaimed i" "count_self_resume i = Inr j"
    "te_lifecycle ex = LcOpen" "expired_lease now ex = None"
    "take_claim k v rid actor now (case rid of None \<Rightarrow> None | Some r \<Rightarrow> dict_get (in_requests i) r) j ex
      = Claimed ex1 co"
  using assms unfolding claim_interrupt_def
  by (auto simp: Let_def unclaimed_def split: if_splits option.splits sum.splits bool.splits)

lemma claim_interrupt_Claimed:
  assumes "claim_interrupt sha k v rid actor now ex = Claimed ex1 co"
  obtains i where "get_interrupt ex k = Some i" "unclaimed i" "co_id co = k" "co_value co = v"
    "co_rid co = rid" "in_claim (co_int co) \<noteq> None" "in_created (co_int co) = in_created i"
    "ex1 = atomic_store_interrupt k (co_int co) (Some TfWaiting) True ex"
  using assms by (rule claim_interrupt_taken) (metis that count_self_resume_fields take_claim_Claimed)

lemma claim_tokens:
  assumes "claim_interrupt sha k v rid actor now ex = Claimed ex1 co"
  shows "entry_tokens l g ex1 + run_tokens l g co \<le> entry_tokens l g ex"
proof (rule claim_interrupt_Claimed [OF assms])
  fix i
  assume "get_interrupt ex k = Some i" "unclaimed i" "co_id co = k" "in_claim (co_int co) \<noteq> None"
    "in_created (co_int co) = in_created i"
    "ex1 = atomic_store_interrupt k (co_int co) (Some TfWaiting) True ex"
  then show ?thesis by (auto simp: entry_tokens_def open_at_def run_tokens_def unclaimed_def)
qed

lemma after_claim_tokens:
  assumes "after_claim now co ex = (t, ex')" "in_claim (co_int co) \<noteq> None"
  shows "entry_tokens k g ex' + task_tokens k g t \<le> entry_tokens k g ex + run_tokens k g co"
proof -
  obtain d exd where d: "mark_dispatched now co ex = (d, exd)" by fastforce
  obtain r exr where r: "mark_resumed now co ex = (r, exr)" by fastforce
  from assms entry_tokens_marked(1) [OF d assms(2), of k g] entry_tokens_marked(2) [OF r, of k g]
    run_tokens_mark(1) [OF d, of k g] run_tokens_mark(2) [OF r, of k g]
  show ?thesis by (auto simp: after_claim_def d r split: if_splits)
qed

lemma store_tokens:
  assumes "store_pause l i ex = (i', previous, st, ex')"
  shows "entry_tokens k g ex' + task_tokens k g (PauseStored e l i' previous st) \<le>
    entry_tokens k g ex + task_tokens k g (PausePlanned e l i)"
  using assms
  by (auto simp: store_pause_def Let_def entry_tokens_def open_at_def split: option.splits)

lemma rollback_tokens:
  "entry_tokens k g (rollback_pause l i previous st ex) \<le>
   entry_tokens k g ex + task_tokens k g (PauseStored e l i previous st)"
  by (cases previous) (simp_all add: entry_tokens_def get_rollback)

lemma changed_keys_tally:
  "dict_wf d \<Longrightarrow> tally f k g (changed_keys p h d) =
     (case dict_get d k of None \<Rightarrow> 0 | Some i \<Rightarrow> if p i \<and> in_created i = g then f h else 0)"
proof (induction d)
  case (Cons a d)
  obtain l i where a: "a = (l, i)" by (cases a)
  have "l = k \<Longrightarrow> dict_get d k = None" using Cons.prems by (simp add: a dict_get_None_iff)
  with Cons show ?case by (auto simp: a changed_keys_def)
qed (simp add: changed_keys_def)

lemma changed_in_exec:
  "dict_wf (te_interrupts ex) \<Longrightarrow> tally f k g (changed_keys p h (te_interrupts ex)) =
     (case get_interrupt ex k of None \<Rightarrow> 0 | Some i \<Rightarrow> if p i \<and> in_created i = g then f h else 0)"
  by (simp add: changed_keys_tally get_interrupt_def)

lemma awaits_event_unclaimed: "awaits_event e i \<Longrightarrow> unclaimed i"
  by (simp add: awaits_event_def)

lemma event_tokens:
  assumes "dict_wf (te_interrupts ex)" "sg_type s = EventTrigger" "sg_source s \<noteq> ''interrupt''"
    and "f h \<le> 1"
  shows "entry_tokens k g (resume_for_signal s now ex)
      + tally f k g (changed_keys (awaits_event (sg_event s)) h (te_interrupts ex))
    \<le> entry_tokens k g ex"
  using awaits_event_unclaimed assms(4)
  by (cases "get_interrupt ex k")
     (auto simp: entry_tokens_def get_resume_for_signal [OF assms(2, 3)]
       changed_in_exec [OF assms(1)] open_at_def)

lemma cancel_tokens:
  assumes "dict_wf (te_interrupts ex)" "f h \<le> 1"
  shows "entry_tokens k g (cancel_pending_interrupts reason now ex)
      + tally f k g (changed_keys unclaimed h (te_interrupts ex)) \<le> entry_tokens k g ex"
  using assms(2)
  by (cases "get_interrupt ex k")
     (auto simp: entry_tokens_def get_cancel_pending changed_in_exec [OF assms(1)] open_at_def)

section \<open>Well-formed worlds\<close>

fun claim_held :: "task \<Rightarrow> bool" where
  "claim_held (ResumeAccepted co) = (in_claim (co_int co) \<noteq> None)"
| "claim_held _ = True"

definition world_ok :: "flow_world \<Rightarrow> bool" where
  "world_ok w \<longleftrightarrow> dict_wf (te_interrupts (w_exec w)) \<and> list_all claim_held (w_tasks w)"

abbreviation ints_ok :: "tf_exec \<Rightarrow> bool" where
  "ints_ok ex \<equiv> dict_wf (te_interrupts ex)"

lemma ints_ok_store [simp, intro]: "ints_ok ex \<Longrightarrow> ints_ok (atomic_store_interrupt k i st b ex)"
  by (simp add: atomic_store_interrupt_def dict_wf_set del: fst_image_set)

lemma ints_ok_mutate [simp, intro]: "ints_ok ex \<Longrightarrow> ints_ok (atomic_mutate_interrupt k f st b req ex)"
  by (simp add: atomic_mutate_interrupt_def dict_wf_set del: fst_image_set split: option.splits)

lemma ints_ok_refresh [simp]: "ints_ok (refresh_waiting_status ex) = ints_ok ex"
  by (simp add: refresh_waiting_status_def)

lemma ints_ok_rollback [simp, intro]: "ints_ok ex \<Longrightarrow> ints_ok (rollback_pause k i p st ex)"
  by (simp add: rollback_pause_def Let_def dict_wf_set dict_wf_del split: option.splits)

lemma keys_change_where [simp]: "dict_keys (change_where p f d) = dict_keys d"
  by (induction d) (auto simp: change_where_def)

lemma ints_ok_event [simp, intro]: "ints_ok ex \<Longrightarrow> ints_ok (resume_for_signal s now ex)"
  by (simp add: resume_for_signal_def Let_def refresh_waiting_status_def)

lemma ints_ok_cancel [simp, intro]: "ints_ok ex \<Longrightarrow> ints_ok (cancel_pending_interrupts reason now ex)"
  by (simp add: cancel_pending_interrupts_def)

lemma ints_ok_failed [simp, intro]: "ints_ok ex \<Longrightarrow> ints_ok (dispatch_failed err now co ex)"
  by (simp add: dispatch_failed_def Let_def split: option.splits)

lemma ints_ok_completed [simp, intro]: "ints_ok ex \<Longrightarrow> ints_ok (dispatch_completed now co ex)"
  by (simp add: dispatch_completed_def Let_def split: option.splits)

lemma ints_ok_marked:
  "mark_dispatched now co ex = (co', ex') \<Longrightarrow> ints_ok ex \<Longrightarrow> ints_ok ex'"
  "mark_resumed now co ex = (co', ex') \<Longrightarrow> ints_ok ex \<Longrightarrow> ints_ok ex'"
  by (auto simp: mark_dispatched_def mark_resumed_def Let_def split: option.splits)

lemma ints_ok_after_claim:
  "after_claim now co ex = (t, ex') \<Longrightarrow> ints_ok ex \<Longrightarrow> ints_ok ex'"
  by (auto simp: after_claim_def split: if_splits prod.splits dest: ints_ok_marked)

lemma claim_held_after_claim:
  "after_claim now co ex = (t, ex') \<Longrightarrow> in_claim (co_int co) \<noteq> None \<Longrightarrow> claim_held t"
  by (auto simp: after_claim_def split: if_splits prod.splits)

lemma world_ok_step:
  assumes "tf_step sha w w'" "world_ok w"
  shows "world_ok w'"
  using assms
proof cases
  case (resume_start k ts v rid actor now ex ex1 co t ex' past)
  from claim_interrupt_Claimed [OF resume_start(4)] obtain i where
    "in_claim (co_int co) \<noteq> None"
    "ex1 = atomic_store_interrupt k (co_int co) (Some TfWaiting) True ex" by metis
  with resume_start assms(2) ints_ok_after_claim [OF resume_start(5)]
    claim_held_after_claim [OF resume_start(5)]
  show ?thesis by (simp add: world_ok_def)
next
  case (resume_dispatch now co co' ex ex')
  with assms(2) show ?thesis
    by (auto simp: world_ok_def intro: ints_ok_marked(1))
next
  case (resume_resume now co co' ex ex')
  with assms(2) show ?thesis
    by (auto simp: world_ok_def intro: ints_ok_marked(2))
qed (auto simp: world_ok_def store_pause_def after_persist_def before_publish_def published_def
      publish_failed_def expose_pause_def after_dispatch_def Let_def split: if_splits)

lemma world_ok_start: "world_ok (tf_start ex)"
  by (simp add: tf_start_def world_ok_def)

lemma world_ok_reach: "tf_reach sha w \<Longrightarrow> world_ok w"
  by (induction rule: tf_reach.induct) (auto intro: world_ok_start world_ok_step)

section \<open>Conservation\<close>

text \<open>
  An account of the tokens: \<open>made\<close> tells which happenings issue tokens, \<open>used\<close> which use them
  up, and \<open>sending\<close> whether a coroutine still has one while its signal is on its way.  The
  assumptions say that no happening uses more than it is given.
\<close>

locale token_account =
  fixes sending :: nat and used made :: "happening \<Rightarrow> nat"
  assumes pause_pays: "used PauseMade + 1 \<le> made PauseMade"
    and send_pays: "sending + used SignalSent \<le> 1 + made SignalSent"
    and failure_pays: "1 + used SendFailed \<le> sending + made SendFailed"
    and answer_pays: "used Answered \<le> sending + made Answered"
    and event_pays: "used AnsweredByEvent \<le> 1" "used Withdrawn \<le> 1"
begin

lemma weighed_after_claim:
  "after_claim now co ex = (t, ex') \<Longrightarrow> weighed_tokens sending k g t = task_tokens k g t"
  by (auto simp: after_claim_def split: if_splits prod.splits)

lemma account_step:
  assumes "tf_step sha w w'" "world_ok w"
  shows "account_load sending used k g w' + tally made k g (w_past w) \<le>
    account_load sending used k g w + tally made k g (w_past w')"
  using assms
proof cases
  case (pause_start args uid chunk now ex l i ts past)
  with pause_pays show ?thesis by (simp add: account_load_def)
next
  case (pause_store l i i' previous st ex ex' xs e ys past)
  with store_tokens [OF pause_store(3), of k g e] show ?thesis by (simp add: account_load_def)
next
  case (pause_save_fails ex xs e l i previous st ys past)
  with rollback_tokens [of k g l i previous st ex e] show ?thesis by (simp add: account_load_def)
next
  case (pause_published l update i ex i' ex' xs e ys past)
  then show ?thesis by (simp add: account_load_def entry_tokens_published [OF pause_published(3)])
next
  case (resume_start l ts v rid actor now ex ex1 co t ex' past)
  have "in_claim (co_int co) \<noteq> None"
    using claim_interrupt_Claimed [OF resume_start(4)] by metis
  from after_claim_tokens [OF resume_start(5) this, of k g] claim_tokens [OF resume_start(4), of k g]
    resume_start weighed_after_claim [OF resume_start(5), of k g]
  show ?thesis by (simp add: account_load_def)
next
  case (resume_dispatch now co co' ex ex' xs ys past)
  with assms(2) entry_tokens_marked(1) [OF resume_dispatch(3), of k g]
  show ?thesis by (simp add: account_load_def world_ok_def run_tokens_mark(1) [OF resume_dispatch(3)])
next
  case (resume_resume now co co' ex ex' xs ys past)
  with entry_tokens_marked(2) [OF resume_resume(3), of k g]
  show ?thesis by (simp add: account_load_def run_tokens_mark(2) [OF resume_resume(3)])
next
  case (resume_send uid co target ex xs ys past)
  with send_pays show ?thesis
    by (cases "co_id co = k \<and> in_created (co_int co) = g") (auto simp: account_load_def run_tokens_def)
next
  case (resume_no_target uid co err ex xs ys past error now)
  with entry_tokens_failed [of k g error now co ex] show ?thesis by (simp add: account_load_def)
next
  case (resume_fails ex xs co ys past error now)
  with entry_tokens_failed [of k g error now co ex] failure_pays show ?thesis
    by (cases "co_id co = k \<and> in_created (co_int co) = g") (auto simp: account_load_def run_tokens_def)
next
  case (resume_done now co ex rest ex' xs ys past)
  then have "entry_tokens k g ex' = entry_tokens k g ex" "rest = [] \<or> rest = [ResumeCompleted co]"
    by (auto simp: after_dispatch_def split: if_splits)
  with resume_done answer_pays show ?thesis
    by (cases "co_id co = k \<and> in_created (co_int co) = g") (auto simp: account_load_def run_tokens_def)
next
  case (event_arrives s ex ts past now)
  with assms(2) event_tokens [of ex s used AnsweredByEvent k g now] event_pays
  show ?thesis by (simp add: account_load_def world_ok_def)
next
  case (pending_cancelled ex ts past reason now)
  with assms(2) cancel_tokens [of ex used Withdrawn k g reason now] event_pays
  show ?thesis by (simp add: account_load_def world_ok_def)
next
  case (elsewhere ex' ex ts past)
  then show ?thesis by (simp add: account_load_def entry_tokens_def get_interrupt_def)
qed (auto simp: account_load_def after_persist_def before_publish_def)

lemma account_bounded:
  "tf_reach sha w \<Longrightarrow> account_load sending used k g w \<le> tally made k g (w_past w)"
proof (induction rule: tf_reach.induct)
  case (start ex)
  then show ?case
    by (simp add: tf_start_def account_load_def entry_tokens_def get_interrupt_def)
next
  case (step w w')
  with account_step [OF step(2) world_ok_reach [OF step(1)], of k g] show ?case by simp
qed

end

text \<open>
  Two accounts: every pause pays for one answer, and every pause and every failed dispatch
  pays for one signal.
\<close>

interpretation answer_account: token_account 1
  "\<lambda>h. of_bool (h \<in> {Answered, AnsweredByEvent, Withdrawn})" "\<lambda>h. of_bool (h = PauseMade)"
  by unfold_locales simp_all

interpretation signal_account: token_account 0
  "\<lambda>h. of_bool (h = SignalSent)" "\<lambda>h. of_bool (h \<in> {PauseMade, SendFailed})"
  by unfold_locales simp_all

end
