(* ===== verification/InterruptTheorems.thy ===== *)
theory InterruptTheorems
  imports InterruptCorrect
begin

text \<open>
  The properties of TriggerFlow interrupts: every pause is answered at most once under every
  interleaving, signals are repeated only after a failed dispatch, a claimed interrupt is
  its claimant's, callbacks are idempotent, a failed save and a failed dispatch put things
  back, and a schedule in which a pause is lost.
\<close>

section \<open>Answers\<close>






section \<open>Schedules\<close>

definition sample_exec :: tf_exec where
  "sample_exec =
     \<lparr> te_id = ''x'', te_flow = ''f'', te_interrupts = [], te_status = TfRunning, te_version = 0,
       te_lifecycle = LcOpen, te_exposed = True, te_owner = None, te_lease_until = PNone,
       te_last_signal = PNone, te_operators = [] \<rparr>"

definition sample_args :: pause_args where
  "sample_args =
     \<lparr> pq_type = ''ask'', pq_kind = PNone, pq_payload = PNone, pq_resume_event = PStr ''go'',
       pq_id = Some ''q'', pq_resume_to = PNone, pq_max = Some 1, pq_wait = default_wait_args \<rparr>"

definition world_summary :: "flow_world \<Rightarrow> task list \<times> history \<times> (rat \<times> interrupt_status \<times> bool) option" where
  "world_summary w = (w_tasks w, w_past w,
     map_option (\<lambda>i. (in_created i, in_status i, in_claim i = None)) (get_interrupt (w_exec w) ''q''))"

lemma schedule_reach:
  assumes "map_option world_summary (run_moves sha ms (tf_start ex)) = Some (ts, past, q)"
  obtains w where "tf_reach sha w" "w_tasks w = ts" "w_past w = past"
    "map_option (\<lambda>i. (in_created i, in_status i, in_claim i = None)) (get_interrupt (w_exec w) ''q'') = q"
  using assms run_moves_reach [OF tf_reach.start, of sha ms ex]
  by (auto simp: world_summary_def)

text \<open>One pause, one answer whose first dispatch fails and whose second succeeds.\<close>

definition pause_moves :: "rat \<Rightarrow> move list" where
  "pause_moves now =
     StartPause sample_args ''u'' PNone now # replicate 6 (Advance 0 ''s'' now)"





text \<open>
  A pause can be lost.  A \<open>continue_with\<close> that has claimed an earlier pause writes its own
  copy of the interrupt back after an await, over a pause of the same identifier made in
  between: that pause is then neither open, nor being answered, nor answered, and no
  coroutine is left.
\<close>

definition lost_pause_schedule :: "move list" where
  "lost_pause_schedule = pause_moves 1
     @ [StartResume ''q'' (PInt 5) (Some ''r'') None 3, StartPause sample_args ''u'' PNone 4,
        Advance 1 ''s'' 5, Advance 0 ''s'' 6, Advance 1 ''s'' 7, Advance 0 ''s'' 8,
        Advance 0 ''s'' 8, Advance 0 ''s'' 8, Advance 0 ''s'' 9]"

lemma lost_pause_run:
  "map_option world_summary (run_moves (\<lambda>_. []) lost_pause_schedule (tf_start sample_exec)) =
     Some ([], [(''q'', 1, PauseMade), (''q'', 4, PauseMade), (''q'', 1, SignalSent),
                (''q'', 1, Answered)],
           Some (1, IntResumed, True))"
  by code_simp

theorem stale_copy_loses_pause:
  "\<exists>w. tf_reach (\<lambda>_. []) w \<and> w_tasks w = [] \<and> happened ''q'' 4 PauseMade (w_past w) = 1 \<and>
     answers ''q'' 4 (w_past w) = 0 \<and> entry_tokens ''q'' 4 (w_exec w) = 0"
proof (rule schedule_reach [OF lost_pause_run])
  fix w :: flow_world
  assume w: "tf_reach (\<lambda>_. []) w" "w_tasks w = []"
    "w_past w = [(''q'', 1, PauseMade), (''q'', 4, PauseMade), (''q'', 1, SignalSent),
                (''q'', 1, Answered)]"
    "map_option (\<lambda>i. (in_created i, in_status i, in_claim i = None)) (get_interrupt (w_exec w) ''q'')
      = Some (1, IntResumed, True)"
  then show ?thesis
    by (intro exI [of _ w])
       (auto simp: happened_def answers_def entry_tokens_def open_at_def unclaimed_def)
qed

section \<open>Claimed interrupts\<close>

text \<open>
  C38: while a claim is on it, an interrupt is its claimant's: no other \<open>continue_with\<close> gets
  to answer it, no event resumes it, and a close that cancels pending interrupts leaves it.
\<close>

theorem claimed_interrupt_is_kept:
  assumes "get_interrupt ex k = Some i" "in_claim i = Some c"
  shows "(\<forall>ex1 co. claim_interrupt sha k v rid actor now ex \<noteq> Claimed ex1 co) \<and>
    get_interrupt (resume_for_signal s now ex) k = Some i \<and>
    get_interrupt (cancel_pending_interrupts reason now ex) k = Some i"
proof (intro conjI allI notI)
  fix ex1 co
  assume "claim_interrupt sha k v rid actor now ex = Claimed ex1 co"
  then show False using assms by (auto elim!: claim_interrupt_Claimed simp: unclaimed_def)
next
  show "get_interrupt (resume_for_signal s now ex) k = Some i"
    using assms get_resume_for_signal [of s now ex k]
    by (cases "sg_type s \<noteq> EventTrigger \<or> sg_source s = ''interrupt''")
       (auto simp: resume_for_signal_def awaits_event_def unclaimed_def)
next
  show "get_interrupt (cancel_pending_interrupts reason now ex) k = Some i"
    using assms by (simp add: get_cancel_pending unclaimed_def)
qed

text \<open>
  So a claimant that is cancelled at an await before its dispatch leaves an interrupt that
  stays waiting and claimed, with no coroutine to answer it.
\<close>

definition abandoned_schedule :: "move list" where
  "abandoned_schedule = pause_moves 1
     @ [StartResume ''q'' (PInt 5) (Some ''r'') None 3, Raise 0 ''gone'' 4]"

lemma abandoned_run:
  "map_option world_summary (run_moves (\<lambda>_. []) abandoned_schedule (tf_start sample_exec)) =
     Some ([], [(''q'', 1, PauseMade)], Some (1, IntWaiting, False))"
  by code_simp

lemma abandoned_claim:
  "\<exists>w i c. tf_reach (\<lambda>_. []) w \<and> w_tasks w = [] \<and> get_interrupt (w_exec w) ''q'' = Some i \<and>
     in_status i = IntWaiting \<and> in_claim i = Some c"
  by (rule schedule_reach [OF abandoned_run]) auto

lemma claimed_interrupt_is_kept_witness:
  "\<exists>w i. tf_reach (\<lambda>_. []) w \<and> get_interrupt (w_exec w) ''q'' = Some i \<and> in_status i = IntWaiting \<and>
     (\<forall>ex1 co. claim_interrupt (\<lambda>_. []) ''q'' PNone None None 5 (w_exec w) \<noteq> Claimed ex1 co) \<and>
     get_interrupt (cancel_pending_interrupts ''close'' 5 (w_exec w)) ''q'' = Some i"
proof -
  obtain w i c where w: "tf_reach (\<lambda>_. []) w" "get_interrupt (w_exec w) ''q'' = Some i"
    "in_status i = IntWaiting" "in_claim i = Some c" using abandoned_claim by blast
  from claimed_interrupt_is_kept [OF w(2, 4), of "\<lambda>_. []" PNone None None 5 undefined "''close''"] w
  show ?thesis by blast
qed

section \<open>Callbacks that come again\<close>

text \<open>What a claim with a request identifier leaves in the stored interrupt.\<close>

definition knows_request :: "string \<Rightarrow> pyval \<Rightarrow> interrupt \<Rightarrow> bool" where
  "knows_request r v i \<longleftrightarrow>
     (\<exists>rec. dict_get (in_requests i) r = Some rec \<and> rr_value rec = v) \<and>
     (in_status i \<noteq> IntWaiting \<or> map_option rc_request (in_claim i) = Some (Some r))"

lemma knows_request_repeats:
  assumes "get_interrupt ex k = Some i" "knows_request r stored i" "te_lifecycle ex = LcOpen"
    "expired_lease now ex = None" "\<not> is_value_digest_projection stored"
  shows "claim_interrupt sha k v (Some r) actor now ex =
    (if py_eq stored (serializable_data v) then KnownRequest i else Refused ConflictingRequest)"
proof -
  obtain rec where rec: "dict_get (in_requests i) r = Some rec" "rr_value rec = stored"
    using assms(2) by (auto simp: knows_request_def)
  have same: "same_resume_request_value sha rec v = Inr (py_eq stored (serializable_data v))"
    using assms(5) rec by (simp add: same_resume_request_value_def)
  consider "in_status i \<noteq> IntWaiting" | c where "in_status i = IntWaiting" "in_claim i = Some c" "rc_request c = Some r"
    using assms(2) by (auto simp: knows_request_def)
  then show ?thesis
    using assms rec same by cases (simp_all add: claim_interrupt_def Let_def)
qed

text \<open>The states of the execution after each stretch of a \<open>continue_with\<close>, from its claim on.\<close>

definition resume_states :: "rat \<Rightarrow> resume_run \<Rightarrow> tf_exec \<Rightarrow> tf_exec list" where
  "resume_states now co ex =
     (let (co1, ex1) = mark_dispatched now co ex;
          (co2, ex2) = mark_resumed now co1 ex1
      in [ex, ex1, ex2, dispatch_completed now co2 ex2])"

lemma expired_lease_cong:
  "te_owner ex' = te_owner ex \<Longrightarrow> te_lease_until ex' = te_lease_until ex \<Longrightarrow>
   expired_lease now ex' = expired_lease now ex"
  by (auto simp: expired_lease_def split: option.split)

lemma write_fields [simp]:
  "te_lifecycle (write_interrupt_state st b ints ex) = te_lifecycle ex"
  "te_owner (write_interrupt_state st b ints ex) = te_owner ex"
  "te_lease_until (write_interrupt_state st b ints ex) = te_lease_until ex"
  "te_status (write_interrupt_state (Some status) b ints ex) = status"
  by (simp_all add: write_interrupt_state_def)

lemma write_exec [simp]:
  "expired_lease now (write_interrupt_state st b ints ex) = expired_lease now ex"
  by (rule expired_lease_cong) simp_all

lemma store_exec [simp]:
  "te_lifecycle (atomic_store_interrupt k i st b ex) = te_lifecycle ex"
  "expired_lease now (atomic_store_interrupt k i st b ex) = expired_lease now ex"
  by (simp_all add: atomic_store_interrupt_def)

lemma mutate_exec [simp]:
  "te_lifecycle (atomic_mutate_interrupt k f st b req ex) = te_lifecycle ex"
  "expired_lease now (atomic_mutate_interrupt k f st b req ex) = expired_lease now ex"
  by (simp_all add: atomic_mutate_interrupt_def split: option.splits)

lemma take_claim_knows:
  assumes "take_claim k v (Some r) actor now existing i ex = Claimed ex1 co"
    "existing = dict_get (in_requests i) r"
  shows "\<exists>rec. co_record co = Some rec \<and> dict_get (in_requests (co_int co)) r = Some rec \<and>
    map_option rc_request (in_claim (co_int co)) = Some (Some r) \<and>
    (rr_value rec = serializable_data v \<or> existing = Some rec)"
  using assms
  by (auto simp: take_claim_def Let_def resume_request_record_def split: option.splits)

lemma mark_dispatched_knows:
  assumes "co_rid co = Some r" "co_record co = Some rec" "mark_dispatched now co ex = (co1, ex1)"
  shows "\<exists>rec1. co_record co1 = Some rec1 \<and> rr_value rec1 = rr_value rec \<and> co_rid co1 = Some r \<and>
    co_id co1 = co_id co \<and> dict_get (in_requests (co_int co1)) r = Some rec1 \<and>
    in_claim (co_int co1) = in_claim (co_int co) \<and> get_interrupt ex1 (co_id co) = Some (co_int co1) \<and>
    in_created (co_int co1) = in_created (co_int co)"
  using assms by (auto simp: mark_dispatched_def Let_def)

lemma mark_resumed_knows:
  assumes "co_rid co = Some r" "mark_resumed now co ex = (co1, ex1)"
  shows "co_record co1 = co_record co \<and> co_rid co1 = Some r \<and> co_id co1 = co_id co \<and>
    in_requests (co_int co1) = in_requests (co_int co) \<and> in_status (co_int co1) = IntResumed \<and>
    in_created (co_int co1) = in_created (co_int co) \<and> get_interrupt ex1 (co_id co) = Some (co_int co1)"
  using assms by (auto simp: mark_resumed_def Let_def)

lemma dispatch_completed_knows:
  assumes "co_rid co = Some r" "co_record co = Some rec" "get_interrupt ex (co_id co) = Some i"
  shows "\<exists>j rec'. get_interrupt (dispatch_completed now co ex) (co_id co) = Some j \<and>
    dict_get (in_requests j) r = Some rec' \<and> rr_value rec' = rr_value rec \<and> in_status j = in_status i"
  using assms
  by (simp add: dispatch_completed_def Let_def get_mutate)
     (simp add: complete_resume_request_def Let_def)

lemma resume_states_know:
  assumes "co_rid co = Some r" "co_record co = Some rec" "dict_get (in_requests (co_int co)) r = Some rec"
    "map_option rc_request (in_claim (co_int co)) = Some (Some r)"
    "get_interrupt ex (co_id co) = Some (co_int co)" "ex2 \<in> set (resume_states now co ex)"
  shows "\<exists>i. get_interrupt ex2 (co_id co) = Some i \<and> knows_request r (rr_value rec) i"
proof -
  obtain co1 ex1 where d: "mark_dispatched now co ex = (co1, ex1)" by fastforce
  obtain co2 ex2' where r: "mark_resumed now co1 ex1 = (co2, ex2')" by fastforce
  obtain rec1 where one: "co_record co1 = Some rec1" "rr_value rec1 = rr_value rec" "co_rid co1 = Some r"
    "co_id co1 = co_id co" "dict_get (in_requests (co_int co1)) r = Some rec1"
    "in_claim (co_int co1) = in_claim (co_int co)" "get_interrupt ex1 (co_id co) = Some (co_int co1)"
    using mark_dispatched_knows [OF assms(1, 2) d] by metis
  note two = mark_resumed_knows [OF one(3) r]
  obtain j rec' where three: "get_interrupt (dispatch_completed now co2 ex2') (co_id co) = Some j"
    "dict_get (in_requests j) r = Some rec'" "rr_value rec' = rr_value rec" "in_status j = IntResumed"
    using dispatch_completed_knows [of co2 r rec1 ex2' "co_int co2" now] one two by auto
  from assms(6) consider "ex2 = ex" | "ex2 = ex1" | "ex2 = ex2'" | "ex2 = dispatch_completed now co2 ex2'"
    by (auto simp: resume_states_def d r)
  then show ?thesis
    using assms(3-5) one two three by cases (auto simp: knows_request_def)
qed

definition same_gate :: "tf_exec \<Rightarrow> tf_exec \<Rightarrow> bool" where
  "same_gate ex' ex \<longleftrightarrow>
     te_lifecycle ex' = te_lifecycle ex \<and> (\<forall>t. expired_lease t ex' = expired_lease t ex)"

lemma same_gate_ops:
  "mark_dispatched now co ex = (co', ex') \<Longrightarrow> same_gate ex' ex"
  "mark_resumed now co ex = (co', ex') \<Longrightarrow> same_gate ex' ex"
  "same_gate (dispatch_completed now co ex) ex"
proof -
  show "same_gate ex' ex" if "mark_dispatched now co ex = (co', ex')"
    using that by (cases "co_rid co"; cases "co_record co") (auto simp: mark_dispatched_def Let_def same_gate_def)
  show "same_gate ex' ex" if "mark_resumed now co ex = (co', ex')"
    using that by (auto simp: mark_resumed_def Let_def same_gate_def)
  show "same_gate (dispatch_completed now co ex) ex"
    by (cases "co_rid co"; cases "co_record co") (auto simp: dispatch_completed_def Let_def same_gate_def)
qed

lemma resume_states_exec: "ex2 \<in> set (resume_states now co ex) \<Longrightarrow> same_gate ex2 ex"
proof -
  assume ex2: "ex2 \<in> set (resume_states now co ex)"
  obtain co1 ex1 where d: "mark_dispatched now co ex = (co1, ex1)" by fastforce
  obtain co2 ex2' where r: "mark_resumed now co1 ex1 = (co2, ex2')" by fastforce
  from same_gate_ops(1) [OF d] same_gate_ops(2) [OF r] same_gate_ops(3) [of now co2 ex2'] ex2
  show ?thesis by (auto simp: resume_states_def d r same_gate_def)
qed

lemma claim_gate:
  assumes "claim_interrupt sha k v rid actor now ex = Claimed ex1 co"
  shows "co_id co = k \<and> co_rid co = rid \<and> get_interrupt ex1 k = Some (co_int co) \<and>
    te_lifecycle ex1 = LcOpen \<and> same_gate ex1 ex"
proof -
  have "te_lifecycle ex = LcOpen" using assms by (rule claim_interrupt_taken)
  with assms show ?thesis by (auto elim!: claim_interrupt_Claimed simp: same_gate_def)
qed

lemma claim_knows:
  assumes "claim_interrupt sha k v (Some r) actor now ex = Claimed ex1 co"
  shows "\<exists>rec. co_record co = Some rec \<and> dict_get (in_requests (co_int co)) r = Some rec \<and>
    map_option rc_request (in_claim (co_int co)) = Some (Some r)"
  using assms
proof (rule claim_interrupt_taken)
  fix i j
  assume "count_self_resume i = Inr j"
    "take_claim k v (Some r) actor now (case Some r of None \<Rightarrow> None | Some r \<Rightarrow> dict_get (in_requests i) r) j ex
      = Claimed ex1 co"
  moreover from this(1) have "in_requests j = in_requests i"
    by (auto simp: count_self_resume_def Let_def split: if_splits option.splits)
  ultimately show ?thesis using take_claim_knows [of k v r actor now _ j ex ex1 co] by fastforce
qed

text \<open>
  C16: a callback is idempotent.  Once a \<open>continue_with\<close> has claimed an interrupt for a request
  identifier, the same identifier with an equal value gets the interrupt as it is, at every
  stage from the claim to the completed dispatch, and with another value is refused; in
  neither case does it answer a second time.
\<close>

theorem repeated_callback_is_known:
  assumes "claim_interrupt sha k v (Some r) actor now ex = Claimed ex1 co"
    and "ex2 \<in> set (resume_states now1 co ex1)"
    and "expired_lease now2 ex = None"
    and "rr_value (the (co_record co)) = stored" "\<not> is_value_digest_projection stored"
  shows "claim_interrupt sha k v2 (Some r) actor2 now2 ex2 =
    (if py_eq stored (serializable_data v2) then KnownRequest (the (get_interrupt ex2 k))
     else Refused ConflictingRequest)"
proof -
  obtain rec where rec: "co_record co = Some rec" "dict_get (in_requests (co_int co)) r = Some rec"
    "map_option rc_request (in_claim (co_int co)) = Some (Some r)"
    using claim_knows [OF assms(1)] by blast
  have co: "co_id co = k" "co_rid co = Some r" "get_interrupt ex1 k = Some (co_int co)"
    "te_lifecycle ex1 = LcOpen" "expired_lease now2 ex1 = None"
    using claim_gate [OF assms(1)] assms(3) by (auto simp: same_gate_def)
  obtain i where i: "get_interrupt ex2 k = Some i" "knows_request r stored i"
    using resume_states_know [OF co(2) rec _ assms(2)] co rec assms(4) by auto
  have "te_lifecycle ex2 = LcOpen" "expired_lease now2 ex2 = None"
    using resume_states_exec [OF assms(2)] co by (auto simp: same_gate_def)
  with knows_request_repeats [OF i] assms(5) i show ?thesis by simp
qed

definition waiting_exec :: tf_exec where
  "waiting_exec =
     (case plan_pause sample_args ''u'' PNone 1 sample_exec of
        Inr (k, i) \<Rightarrow> (case store_pause k i sample_exec of (i', previous, st, ex) \<Rightarrow> ex)
      | Inl _ \<Rightarrow> sample_exec)"

lemma waiting_exec_claim:
  "\<exists>ex1 co. claim_interrupt (\<lambda>_. []) ''q'' (PInt 5) (Some ''r'') None 2 waiting_exec = Claimed ex1 co \<and>
     rr_value (the (co_record co)) = PInt 5 \<and> in_resume_to (co_int co) \<noteq> PStr ''self''"
proof -
  have "case claim_interrupt (\<lambda>_. []) ''q'' (PInt 5) (Some ''r'') None 2 waiting_exec of
      Claimed ex1 co \<Rightarrow> rr_value (the (co_record co)) = PInt 5 \<and> in_resume_to (co_int co) \<noteq> PStr ''self''
    | _ \<Rightarrow> False" by code_simp
  then show ?thesis by (auto split: claim_outcome.splits)
qed

lemma repeated_callback_is_known_witness:
  "\<exists>ex1 co. claim_interrupt (\<lambda>_. []) ''q'' (PInt 5) (Some ''r'') None 2 waiting_exec = Claimed ex1 co \<and>
     (\<forall>ex2 \<in> set (resume_states 3 co ex1).
        claim_interrupt (\<lambda>_. []) ''q'' (PInt 5) (Some ''r'') None 4 ex2 =
          KnownRequest (the (get_interrupt ex2 ''q'')) \<and>
        claim_interrupt (\<lambda>_. []) ''q'' (PInt 6) (Some ''r'') None 4 ex2 = Refused ConflictingRequest)"
proof -
  obtain ex1 co where co: "claim_interrupt (\<lambda>_. []) ''q'' (PInt 5) (Some ''r'') None 2 waiting_exec = Claimed ex1 co"
    "rr_value (the (co_record co)) = PInt 5" using waiting_exec_claim by blast
  have free: "expired_lease 4 waiting_exec = None" by code_simp
  note rule = repeated_callback_is_known [OF co(1) _ free co(2)]
  show ?thesis
  proof (intro exI conjI ballI)
    fix ex2 assume "ex2 \<in> set (resume_states 3 co ex1)"
    note known = rule [OF this]
    show "claim_interrupt (\<lambda>_. []) ''q'' (PInt 5) (Some ''r'') None 4 ex2 =
        KnownRequest (the (get_interrupt ex2 ''q''))"
      using known [of "PInt 5" None] by (simp add: is_value_digest_projection_def)
    show "claim_interrupt (\<lambda>_. []) ''q'' (PInt 6) (Some ''r'') None 4 ex2 = Refused ConflictingRequest"
      using known [of "PInt 6" None] by (simp add: is_value_digest_projection_def)
  qed (rule co(1))
qed

section \<open>Failures put things back\<close>

lemma persisted_owned:
  assumes "in_status i = IntWaiting"
  shows "owns_waiting_pause_boundary (Some (set_external_wait_state ''persisted'' None None None i))
    (set_external_wait_state ''persisted'' None None None i)"
  using assms
  by (simp add: owns_waiting_pause_boundary_def)
     (simp add: set_external_wait_state_def Let_def pget_def dict_get_or_def)

lemma pending_after_write:
  "has_pending_interrupts (write_interrupt_state st b ints ex) = list_ex (\<lambda>(k, j). is_open j) ints"
  by (auto simp: has_pending_interrupts_def get_pending_interrupts_def list_ex_iff filter_empty_conv)

text \<open>
  C28: when the save that follows the store of a pause raises, and nobody has changed the
  entry meanwhile, the entry is again what it was before the pause (absent, if it was
  absent), every other interrupt keeps what others wrote to it during the save, and the
  execution is waiting if an interrupt is, and in its earlier status otherwise.
\<close>

theorem save_failure_restores:
  assumes "store_pause k i ex = (i', previous, st, ex1)" "in_status i = IntWaiting"
    and "get_interrupt ex2 k = get_interrupt ex1 k"
  shows "get_interrupt (rollback_pause k i' previous st ex2) l =
      (if l = k then get_interrupt ex k else get_interrupt ex2 l) \<and>
    te_status (rollback_pause k i' previous st ex2) =
      (if has_pending_interrupts (rollback_pause k i' previous st ex2) then TfWaiting else te_status ex)"
proof -
  have owned: "owns_waiting_pause_boundary (get_interrupt ex2 k) i'"
    and parts: "previous = get_interrupt ex k" "st = te_status ex"
    using assms persisted_owned [OF assms(2)] by (auto simp: store_pause_def Let_def)
  then show ?thesis
    by (simp add: get_rollback, simp add: rollback_pause_def Let_def pending_after_write)
qed

lemma save_failure_restores_witness:
  "\<exists>ex1. get_interrupt ex1 ''q'' \<noteq> None \<and>
     (\<exists>i previous st. get_interrupt (rollback_pause ''q'' i previous st ex1) ''q'' = None \<and>
        te_status (rollback_pause ''q'' i previous st ex1) = TfRunning)"
proof -
  obtain i i' previous st ex1 where s:
    "plan_pause sample_args ''u'' PNone 1 sample_exec = Inr (''q'', i)"
    "store_pause ''q'' i sample_exec = (i', previous, st, ex1)" "in_status i = IntWaiting"
    by (auto simp: plan_pause_def check_pause_args_def sample_args_def default_wait_args_def sample_exec_def
        bindE_def Let_def normalized_resume_to_def planned_interrupt_def store_pause_def)
  note restored = save_failure_restores [OF s(2, 3) refl, of "''q''"]
  have "get_interrupt sample_exec ''q'' = None" "te_status sample_exec = TfRunning"
    by (simp_all add: sample_exec_def get_interrupt_def)
  moreover have "get_interrupt ex1 ''q'' \<noteq> None" using s(2) by (auto simp: store_pause_def Let_def)
  moreover have "\<not> has_pending_interrupts (rollback_pause ''q'' i' previous st ex1)"
    using s by (auto simp: rollback_pause_def store_pause_def Let_def pending_after_write sample_exec_def
        get_interrupt_def atomic_store_interrupt_def persisted_owned)
  ultimately show ?thesis using restored by auto
qed


text \<open>Without a request identifier nothing is put back: the answer is lost.\<close>

lemma anonymous_failure_is_final:
  assumes "co_rid co = None" "mark_resumed now co ex = (co1, ex1)"
    "te_lifecycle ex = LcOpen" "expired_lease now1 ex = None"
  shows "claim_interrupt sha (co_id co) v None actor now1 (dispatch_failed err now co1 ex1) = Refused NotWaiting"
proof -
  have "dispatch_failed err now co1 ex1 = ex1"
    using assms by (auto simp: mark_resumed_def Let_def dispatch_failed_def)
  moreover have "get_interrupt ex1 (co_id co) = Some (co_int co1)" "in_status (co_int co1) = IntResumed"
    "in_claim (co_int co1) = None"
    using assms by (auto simp: mark_resumed_def Let_def)
  moreover have "same_gate ex1 ex" by (rule same_gate_ops(2) [OF assms(2)])
  ultimately show ?thesis using assms by (simp add: claim_interrupt_def same_gate_def Let_def)
qed


section \<open>The status after an answer\<close>

lemma refresh_status:
  "is_waiting (refresh_waiting_status ex) \<longleftrightarrow> has_pending_interrupts ex"
  by (auto simp: is_waiting_def refresh_waiting_status_def)

end
