(* ===== verification/SnapshotProjection.thy ===== *)
theory SnapshotProjection
  imports InterruptTheorems
begin

text \<open>
  The two places that rewrite interrupts from outside: the projector that replaces the large
  values of terminal interrupts and signal attempts by digests before a snapshot is saved
  (\<open>TriggerFlowSnapshotProjector\<close> of \<open>SnapshotProjection.py\<close>), and the projection of a child
  execution's pending interrupts into its parent (\<open>project_child_interrupts\<close> of
  \<open>BluePrintSubFlow.py\<close>).
\<close>

section \<open>Terminal interrupts\<close>

definition project_unless_none ::
  "(nat list \<Rightarrow> string) \<Rightarrow> projection_policy \<Rightarrow> pyval \<Rightarrow> projector \<Rightarrow> projection_error + pyval \<times> projector" where
  "project_unless_none sha policy v p =
     (if v = PNone then Inr (v, p) else project_value sha policy v p)"

definition project_audit_payload ::
  "(nat list \<Rightarrow> string) \<Rightarrow> projection_policy \<Rightarrow> pyval \<Rightarrow> projector \<Rightarrow> projection_error + pyval \<times> projector" where
  "project_audit_payload sha policy request p =
     (case request of
        PDict d \<Rightarrow>
          (case pget d ''audit_metadata'' of
             PDict audit \<Rightarrow>
               if pget audit ''payload'' = PNone then Inr (request, p)
               else bindE (project_value sha policy (pget audit ''payload'') p) (\<lambda>(v, p').
                 Inr (PDict (dict_set ''audit_metadata'' (PDict (dict_set ''payload'' v audit)) d), p'))
           | _ \<Rightarrow> Inr (request, p))
      | _ \<Rightarrow> Inr (request, p))"

definition project_request ::
  "(nat list \<Rightarrow> string) \<Rightarrow> projection_policy \<Rightarrow> resume_request \<Rightarrow> projector \<Rightarrow>
   projection_error + resume_request \<times> projector" where
  "project_request sha policy r p =
     (if rr_status r = ReqCompleted \<and> rr_value r \<noteq> PNone then
        bindE (project_value sha policy (rr_value r) p) (\<lambda>(v, p'). Inr (r\<lparr> rr_value := v \<rparr>, p'))
      else Inr (r, p))"

fun project_requests ::
  "(nat list \<Rightarrow> string) \<Rightarrow> projection_policy \<Rightarrow> (string, resume_request) dict \<Rightarrow> projector \<Rightarrow>
   projection_error + (string, resume_request) dict \<times> projector" where
  "project_requests sha policy [] p = Inr ([], p)"
| "project_requests sha policy ((k, r) # rs) p =
     bindE (project_request sha policy r p) (\<lambda>(r', p1).
       bindE (project_requests sha policy rs p1) (\<lambda>(rs', p2). Inr ((k, r') # rs', p2)))"

definition project_terminal_interrupt ::
  "(nat list \<Rightarrow> string) \<Rightarrow> projection_policy \<Rightarrow> interrupt \<Rightarrow> projector \<Rightarrow>
   projection_error + interrupt \<times> projector" where
  "project_terminal_interrupt sha policy i p =
     bindE (project_unless_none sha policy (in_payload i) p) (\<lambda>(payload, p1).
     bindE (project_unless_none sha policy (in_response i) p1) (\<lambda>(response, p2).
     bindE (project_unless_none sha policy (in_value i) p2) (\<lambda>(v, p3).
     bindE (project_audit_payload sha policy (in_wait_request i) p3) (\<lambda>(request, p4).
     bindE (project_requests sha policy (in_requests i) p4) (\<lambda>(requests, p5).
       Inr (i\<lparr> in_payload := payload, in_response := response, in_value := v,
               in_wait_request := request, in_requests := requests \<rparr>, p5))))))"

definition is_terminal :: "interrupt \<Rightarrow> bool" where
  "is_terminal i \<longleftrightarrow> in_status i \<in> {IntResumed, IntCancelled}"

fun project_interrupts ::
  "(nat list \<Rightarrow> string) \<Rightarrow> projection_policy \<Rightarrow> (string, interrupt) dict \<Rightarrow> projector \<Rightarrow>
   projection_error + (string, interrupt) dict \<times> projector" where
  "project_interrupts sha policy [] p = Inr ([], p)"
| "project_interrupts sha policy ((k, i) # d) p =
     bindE (if is_terminal i then project_terminal_interrupt sha policy i p else Inr (i, p))
       (\<lambda>(i', p1). bindE (project_interrupts sha policy d p1) (\<lambda>(d', p2). Inr ((k, i') # d', p2)))"

section \<open>Terminal signal attempts\<close>

definition attempt_summary :: "pyval \<Rightarrow> pydict" where
  "attempt_summary interrupt =
     (case interrupt of
        PDict d \<Rightarrow> concat (map (\<lambda>k. key_unless_none k (pget d k))
          [''id'', ''status'', ''resume_request_id'', ''resumed_at'', ''cancelled_at'',
           ''source_execution_id'', ''source_operator_id''])
      | _ \<Rightarrow> [])"

text \<open>\<open>str(resume.get("interrupt_id") or meta.get("interrupt_id") or "")\<close>.\<close>

definition attempt_interrupt_id :: "pydict \<Rightarrow> pydict \<Rightarrow> string" where
  "attempt_interrupt_id resume meta =
     py_str (py_or (py_or (pget resume ''interrupt_id'') (pget meta ''interrupt_id'')) (PStr []))"

definition project_attempt ::
  "(nat list \<Rightarrow> string) \<Rightarrow> projection_policy \<Rightarrow> string list \<Rightarrow> pyval \<Rightarrow> projector \<Rightarrow>
   projection_error + pyval \<times> projector" where
  "project_attempt sha policy terminal attempt p =
     (case attempt of
        PDict a \<Rightarrow>
          (if pget a ''status'' \<notin> {PStr ''completed'', PStr ''failed'', PStr ''interrupted''}
           then Inr (attempt, p)
           else case pget a ''meta'' of
             PDict meta \<Rightarrow>
               (case pget meta ''resume'' of
                  PDict resume \<Rightarrow>
                    let k = attempt_interrupt_id resume meta
                    in if k \<notin> set terminal then Inr (attempt, p)
                       else bindE (project_value sha policy (pget resume ''value'') p) (\<lambda>(v, p').
                         Inr (PDict (dict_set ''meta'' (PDict (dict_set ''resume''
                           (PDict [(''interrupt_id'', PStr k),
                                   (''resume_request_id'', pget meta ''resume_request_id''),
                                   (''actor_id'', pget meta ''actor_id''), (''value'', v),
                                   (''interrupt'', PDict (attempt_summary (pget resume ''interrupt'')))])
                           meta)) a), p'))
                | _ \<Rightarrow> Inr (attempt, p))
           | _ \<Rightarrow> Inr (attempt, p))
      | _ \<Rightarrow> Inr (attempt, p))"

fun project_attempts ::
  "(nat list \<Rightarrow> string) \<Rightarrow> projection_policy \<Rightarrow> string list \<Rightarrow> pyval list \<Rightarrow> projector \<Rightarrow>
   projection_error + pyval list \<times> projector" where
  "project_attempts sha policy terminal [] p = Inr ([], p)"
| "project_attempts sha policy terminal (a # as) p =
     bindE (project_attempt sha policy terminal a p) (\<lambda>(a', p1).
       bindE (project_attempts sha policy terminal as p1) (\<lambda>(as', p2). Inr (a' # as', p2)))"

section \<open>The projector\<close>

datatype deferral = NotDeferred | Disabled | NotIdle

record projection_state =
  ps_applied :: bool
  ps_deferred :: deferral
  ps_terminal :: "string list"
  ps_counts :: projector

definition fresh_projector :: projector where
  "fresh_projector = \<lparr> pj_count = 0, pj_original = 0, pj_projected = 0 \<rparr>"

definition project_signal_net ::
  "(nat list \<Rightarrow> string) \<Rightarrow> projection_policy \<Rightarrow> string list \<Rightarrow> pydict \<Rightarrow> projector \<Rightarrow>
   projection_error + pydict \<times> projector" where
  "project_signal_net sha policy terminal net p =
     (case pget net ''signal_attempts'' of
        PList attempts \<Rightarrow>
          bindE (project_attempts sha policy terminal attempts p) (\<lambda>(attempts', p').
            Inr (dict_set ''signal_attempts'' (PList attempts') net, p'))
      | _ \<Rightarrow> Inr (net, p))"

text \<open>\<open>with_attempts\<close> is the policy's \<open>project_terminal_signal_attempts\<close>.\<close>

definition project_snapshot ::
  "(nat list \<Rightarrow> string) \<Rightarrow> projection_policy \<Rightarrow> bool \<Rightarrow> bool \<Rightarrow> (string, interrupt) dict \<Rightarrow> pydict \<Rightarrow>
   projection_error + (string, interrupt) dict \<times> pydict \<times> projection_state" where
  "project_snapshot sha policy with_attempts idle ints net =
     (if \<not> pj_enabled policy then
        Inr (ints, net, \<lparr> ps_applied = False, ps_deferred = Disabled, ps_terminal = [],
                          ps_counts = fresh_projector \<rparr>)
      else if \<not> idle then
        Inr (ints, net, \<lparr> ps_applied = False, ps_deferred = NotIdle, ps_terminal = [],
                          ps_counts = fresh_projector \<rparr>)
      else
        let terminal = dict_keys (filter (\<lambda>(k, i). is_terminal i) ints)
        in bindE (project_interrupts sha policy ints fresh_projector) (\<lambda>(ints', p1).
           bindE (if with_attempts then project_signal_net sha policy terminal net p1 else Inr (net, p1))
             (\<lambda>(net', p2).
               Inr (ints', net', \<lparr> ps_applied = True, ps_deferred = NotDeferred, ps_terminal = terminal,
                                   ps_counts = p2 \<rparr>))))"

section \<open>Children\<close>

text \<open>
  \<open>project_child_interrupts\<close> copies the parent's map when it begins, awaits a stream write for
  every child interrupt, and stores the map it has built when it ends.
\<close>

definition root_id_for :: "string \<Rightarrow> (string, string) dict \<Rightarrow> string \<Rightarrow> string" where
  "root_id_for frame projected child =
     (case find (\<lambda>(r, c). c = child) projected of
        Some (rt, _) \<Rightarrow> rt
      | None \<Rightarrow> frame @ '':'' @ child)"

definition root_interrupt :: "string \<Rightarrow> string \<Rightarrow> string \<Rightarrow> string \<Rightarrow> interrupt \<Rightarrow> interrupt" where
  "root_interrupt frame child_execution child_flow rt i =
     i\<lparr> in_id := rt, in_status := IntWaiting, in_execution := child_execution,
        in_flow := child_flow, in_frame := PStr frame \<rparr>"

fun project_children ::
  "string \<Rightarrow> string \<Rightarrow> string \<Rightarrow> (string, interrupt) dict \<Rightarrow> (string, string) dict \<Rightarrow>
   (string, interrupt) dict \<Rightarrow> (string, string) dict \<times> (string, interrupt) dict \<times> string list" where
  "project_children frame ce cf [] projected ints = (projected, ints, [])"
| "project_children frame ce cf ((child, i) # rest) projected ints =
     (let rt = root_id_for frame projected child;
          projected1 = (if find (\<lambda>(r, c). c = child) projected = None
                        then dict_set rt child projected else projected);
          (projected', ints', roots) =
            project_children frame ce cf rest projected1
              (dict_set rt (root_interrupt frame ce cf rt i) ints)
      in (projected', ints', rt # roots))"

definition finish_projection :: "(string, interrupt) dict \<Rightarrow> tf_exec \<Rightarrow> tf_exec" where
  "finish_projection ints ex =
     ex\<lparr> te_interrupts := ints, te_status := TfWaiting, te_version := te_version ex + 1 \<rparr>"


section \<open>What the projector keeps\<close>


lemma project_requests_None:
  "project_requests sha policy rs p = Inr (rs', p') \<Longrightarrow> dict_get rs k = None \<Longrightarrow> dict_get rs' k = None"
  by (induction rs arbitrary: p rs' p') (auto simp: bindE_eq_Inr split: if_splits)




section \<open>What the projection of children overwrites\<close>

lemma project_children_other:
  "project_children frame ce cf pending projected ints = (projected', ints', roots) \<Longrightarrow> k \<notin> set roots \<Longrightarrow>
   dict_get ints' k = dict_get ints k"
proof (induction pending arbitrary: projected ints projected' ints' roots)
  case (Cons a rest)
  then show ?case by (cases a) (auto simp: Let_def split: prod.splits)
qed simp



text \<open>
  The projection of children writes back the map it copied when it began.  An interrupt
  that was open then, and is not one of the children's, is open again when it ends, whatever
  was done to it in between: it can be answered a second time.
\<close>

theorem stale_projection_reopens:
  assumes "get_interrupt ex k = Some i" "unclaimed i"
    and "project_children frame ce cf pending projected (te_interrupts ex) = (projected', ints, roots)"
    and "k \<notin> set roots" "in_resume_to i \<noteq> PStr ''self''"
    and "te_lifecycle ex_later = LcOpen" "expired_lease now ex_later = None"
  shows "get_interrupt (finish_projection ints ex_later) k = Some i \<and>
    (\<exists>ex1 co. claim_interrupt sha k v None actor now (finish_projection ints ex_later) = Claimed ex1 co)"
proof -
  have "get_interrupt (finish_projection ints ex_later) k = Some i"
    using project_children_other [OF assms(3, 4)] assms(1)
    by (simp add: finish_projection_def get_interrupt_def)
  moreover have "te_lifecycle (finish_projection ints ex_later) = LcOpen"
    "expired_lease now (finish_projection ints ex_later) = None"
    using assms(6, 7) expired_lease_cong [of "finish_projection ints ex_later" ex_later now]
    by (simp_all add: finish_projection_def)
  ultimately show ?thesis
    using assms(2, 5)
    by (simp add: claim_interrupt_def Let_def count_self_resume_def unclaimed_def take_claim_def)
qed

section \<open>Examples\<close>

text \<open>An execution whose interrupt \<open>q\<close> has been answered for the request \<open>r\<close> with 5.\<close>

definition answered_exec :: tf_exec where
  "answered_exec =
     (case claim_interrupt (\<lambda>_. []) ''q'' (PInt 5) (Some ''r'') None 2 waiting_exec of
        Claimed ex1 co \<Rightarrow>
          (let (co1, ex2) = mark_dispatched 2 co ex1; (co2, ex3) = mark_resumed 2 co1 ex2
           in dispatch_completed 3 co2 ex3)
      | _ \<Rightarrow> waiting_exec)"



lemma answered_exec_state:
  "\<exists>i rec. get_interrupt answered_exec ''q'' = Some i \<and> in_status i = IntResumed \<and>
     dict_get (in_requests i) ''r'' = Some rec \<and> rr_status rec = ReqCompleted \<and> rr_value rec = PInt 5"
proof -
  have "case get_interrupt answered_exec ''q'' of
      Some i \<Rightarrow> in_status i = IntResumed \<and>
        (case dict_get (in_requests i) ''r'' of
           Some rec \<Rightarrow> rr_status rec = ReqCompleted \<and> rr_value rec = PInt 5
         | None \<Rightarrow> False)
    | None \<Rightarrow> False" by code_simp
  then show ?thesis by (auto split: option.splits)
qed



lemma stale_projection_reopens_witness:
  "\<exists>ints i. get_interrupt answered_exec ''q'' = Some i \<and> in_status i = IntResumed \<and>
     (\<exists>ex1 co. claim_interrupt (\<lambda>_. []) ''q'' (PInt 7) None None 9 (finish_projection ints answered_exec)
        = Claimed ex1 co)"
proof -
  obtain i rec where i: "get_interrupt answered_exec ''q'' = Some i" "in_status i = IntResumed"
    using answered_exec_state by blast
  obtain w where w: "get_interrupt waiting_exec ''q'' = Some w" "unclaimed w" "in_resume_to w \<noteq> PStr ''self''"
  proof -
    have "case get_interrupt waiting_exec ''q'' of
        Some w \<Rightarrow> in_status w = IntWaiting \<and> in_claim w = None \<and> in_resume_to w \<noteq> PStr ''self''
      | None \<Rightarrow> False" by code_simp
    then show thesis using that by (auto simp: unclaimed_def split: option.splits)
  qed
  have roots: "snd (snd (project_children ''f1'' ''c'' ''g'' [(''z'', w)] [] (te_interrupts waiting_exec))) = [''f1:z'']"
    by (simp add: Let_def root_id_for_def)
  obtain projected ints where c: "project_children ''f1'' ''c'' ''g'' [(''z'', w)] [] (te_interrupts waiting_exec)
      = (projected, ints, [''f1:z''])" using roots by (metis prod.collapse)
  have "te_lifecycle answered_exec = LcOpen" "expired_lease 9 answered_exec = None" by code_simp+
  from stale_projection_reopens [OF w(1, 2) c _ w(3) this, of "\<lambda>_. []" "PInt 7" None] i
  show ?thesis by auto
qed

end
