(* ===== verification/BoundaryLocks.thy ===== *)
theory BoundaryLocks
  imports Prelude
begin

text \<open>
  The locks that serialise the pauses of one interrupt identifier
  (\<open>_serialize_interrupt_boundary\<close> of \<open>ExecutionInterrupts.py\<close>): a lock and the number of its
  users for every identifier in use, dropped with the last user.  An \<open>asyncio.Lock\<close> is a
  number; a coroutine that uses one waits for it or is inside the block.
\<close>

section \<open>The map of locks\<close>

record lock_user =
  lu_key :: string
  lu_lock :: nat
  lu_inside :: bool

record boundary =
  bd_locks :: "(string, nat \<times> nat) dict"
  bd_next :: nat
  bd_users :: "lock_user list"

text \<open>Entering takes the lock of the identifier, or a new one, and counts the user.\<close>

definition enter_boundary :: "string \<Rightarrow> boundary \<Rightarrow> boundary" where
  "enter_boundary k b =
     (case dict_get_or (bd_locks b) k (bd_next b, 0) of
        (l, n) \<Rightarrow>
          b\<lparr> bd_locks := dict_set k (l, n + 1) (bd_locks b), bd_next := bd_next b + 1,
             bd_users := bd_users b @ [\<lparr> lu_key = k, lu_lock = l, lu_inside = False \<rparr>] \<rparr>)"

text \<open>The \<open>finally\<close> block, for a user of the identifier that holds this lock object.\<close>

definition drop_lock :: "string \<Rightarrow> nat \<Rightarrow> (string, nat \<times> nat) dict \<Rightarrow> (string, nat \<times> nat) dict" where
  "drop_lock k l locks =
     (case dict_get locks k of
        Some (l', n) \<Rightarrow>
          if l' \<noteq> l then locks
          else if n \<le> 1 then dict_del k locks else dict_set k (l, n - 1) locks
      | None \<Rightarrow> locks)"

definition lock_taken :: "nat \<Rightarrow> lock_user list \<Rightarrow> bool" where
  "lock_taken l us \<longleftrightarrow> list_ex (\<lambda>u. lu_lock u = l \<and> lu_inside u) us"

text \<open>A user leaves after its block, or because it is cancelled while it waits for the lock.\<close>

inductive boundary_step :: "boundary \<Rightarrow> boundary \<Rightarrow> bool" where
  enter: "boundary_step b (enter_boundary k b)"
| acquire: "bd_users b = xs @ u # ys \<Longrightarrow> \<not> lu_inside u \<Longrightarrow> \<not> lock_taken (lu_lock u) (bd_users b) \<Longrightarrow>
    boundary_step b (b\<lparr> bd_users := xs @ u\<lparr> lu_inside := True \<rparr> # ys \<rparr>)"
| leave: "bd_users b = xs @ u # ys \<Longrightarrow>
    boundary_step b (b\<lparr> bd_users := xs @ ys, bd_locks := drop_lock (lu_key u) (lu_lock u) (bd_locks b) \<rparr>)"

definition no_boundary :: boundary where
  "no_boundary = \<lparr> bd_locks = [], bd_next = 0, bd_users = [] \<rparr>"

inductive boundary_reach :: "boundary \<Rightarrow> bool" where
  start: "boundary_reach no_boundary"
| step: "boundary_reach b \<Longrightarrow> boundary_step b b' \<Longrightarrow> boundary_reach b'"

section \<open>One lock for an identifier\<close>

definition users_of :: "string \<Rightarrow> lock_user list \<Rightarrow> lock_user list" where
  "users_of k us = filter (\<lambda>u. lu_key u = k) us"

lemma users_of_simps [simp]:
  "users_of k [] = []"
  "users_of k (u # us) = (if lu_key u = k then u # users_of k us else users_of k us)"
  "users_of k (xs @ ys) = users_of k xs @ users_of k ys"
  by (simp_all add: users_of_def)

text \<open>
  The map has an identifier exactly while it has users; they all have the lock of the map and
  are as many as it counts; locks of different identifiers differ and are below the next one.
\<close>

definition boundary_ok :: "boundary \<Rightarrow> bool" where
  "boundary_ok b \<longleftrightarrow>
     (\<forall>k. case dict_get (bd_locks b) k of
        None \<Rightarrow> users_of k (bd_users b) = []
      | Some (l, n) \<Rightarrow> length (users_of k (bd_users b)) = n \<and> 0 < n \<and> l < bd_next b \<and>
          (\<forall>u \<in> set (users_of k (bd_users b)). lu_lock u = l)) \<and>
     (\<forall>k k' l n n'. dict_get (bd_locks b) k = Some (l, n) \<longrightarrow> dict_get (bd_locks b) k' = Some (l, n') \<longrightarrow> k = k')"

definition insiders :: "string \<Rightarrow> lock_user list \<Rightarrow> nat" where
  "insiders k us = length (filter (\<lambda>u. lu_key u = k \<and> lu_inside u) us)"

lemma insiders_simps [simp]:
  "insiders k [] = 0"
  "insiders k (u # us) = (if lu_key u = k \<and> lu_inside u then 1 else 0) + insiders k us"
  "insiders k (xs @ ys) = insiders k xs + insiders k ys"
  by (simp_all add: insiders_def)

lemma ok_none: "boundary_ok b \<Longrightarrow> dict_get (bd_locks b) k = None \<Longrightarrow> users_of k (bd_users b) = []"
  unfolding boundary_ok_def by (drule conjunct1, drule spec [of _ k]) simp

lemma ok_some:
  "boundary_ok b \<Longrightarrow> dict_get (bd_locks b) k = Some (l, n) \<Longrightarrow>
   length (users_of k (bd_users b)) = n \<and> 0 < n \<and> l < bd_next b \<and>
   (\<forall>u \<in> set (users_of k (bd_users b)). lu_lock u = l)"
  unfolding boundary_ok_def by (drule conjunct1, drule spec [of _ k]) simp

lemma ok_inj:
  "boundary_ok b \<Longrightarrow> dict_get (bd_locks b) k = Some (l, n) \<Longrightarrow> dict_get (bd_locks b) k' = Some (l, n') \<Longrightarrow> k = k'"
  unfolding boundary_ok_def by blast

lemma ok_user:
  assumes "boundary_ok b" "u \<in> set (bd_users b)"
  shows "\<exists>n. dict_get (bd_locks b) (lu_key u) = Some (lu_lock u, n)"
proof (cases "dict_get (bd_locks b) (lu_key u)")
  case None
  from ok_none [OF assms(1) this] assms(2) show ?thesis by (auto simp: users_of_def filter_empty_conv)
next
  case (Some p)
  then obtain l n where p: "dict_get (bd_locks b) (lu_key u) = Some (l, n)" by (cases p) auto
  from ok_some [OF assms(1) p] assms(2) have "lu_lock u = l" by (auto simp: users_of_def)
  with p show ?thesis by blast
qed

lemma boundary_ok_enter: "boundary_ok b \<Longrightarrow> boundary_ok (enter_boundary k b)"
proof (cases "dict_get (bd_locks b) k")
  case None
  assume ok: "boundary_ok b"
  from ok_none [OF ok None] None have new: "enter_boundary k b =
      b\<lparr> bd_locks := dict_set k (bd_next b, 1) (bd_locks b), bd_next := bd_next b + 1,
         bd_users := bd_users b @ [\<lparr> lu_key = k, lu_lock = bd_next b, lu_inside = False \<rparr>] \<rparr>"
    by (simp add: enter_boundary_def dict_get_or_def)
  show ?thesis unfolding new boundary_ok_def
    using ok_none [OF ok] ok_some [OF ok] ok_inj [OF ok] None
    by (auto split: option.splits) fastforce+
next
  case (Some p)
  assume ok: "boundary_ok b"
  obtain l n where p: "dict_get (bd_locks b) k = Some (l, n)" using Some by (cases p) auto
  then have more: "enter_boundary k b =
      b\<lparr> bd_locks := dict_set k (l, n + 1) (bd_locks b), bd_next := bd_next b + 1,
         bd_users := bd_users b @ [\<lparr> lu_key = k, lu_lock = l, lu_inside = False \<rparr>] \<rparr>"
    by (simp add: enter_boundary_def dict_get_or_def)
  show ?thesis unfolding more boundary_ok_def
    using ok_none [OF ok] ok_some [OF ok] ok_inj [OF ok] p
    by (auto split: option.splits) fastforce+
qed

lemma boundary_okI:
  assumes "\<And>k. dict_get (bd_locks b) k = None \<Longrightarrow> users_of k (bd_users b) = []"
    and "\<And>k l n. dict_get (bd_locks b) k = Some (l, n) \<Longrightarrow>
      length (users_of k (bd_users b)) = n \<and> 0 < n \<and> l < bd_next b \<and>
      (\<forall>u \<in> set (users_of k (bd_users b)). lu_lock u = l)"
    and "\<And>k k' l n n'. dict_get (bd_locks b) k = Some (l, n) \<Longrightarrow> dict_get (bd_locks b) k' = Some (l, n') \<Longrightarrow> k = k'"
  shows "boundary_ok b"
  unfolding boundary_ok_def using assms by (auto split: option.split)

lemma boundary_ok_acquire:
  assumes ok: "boundary_ok b" and u: "bd_users b = xs @ u # ys"
  shows "boundary_ok (b\<lparr> bd_users := xs @ u\<lparr> lu_inside := True \<rparr> # ys \<rparr>)"
proof (rule boundary_okI, goal_cases)
  case (1 k)
  then show ?case using ok_none [OF ok, of k] u by (simp split: if_splits)
next
  case (2 k l n)
  then have "dict_get (bd_locks b) k = Some (l, n)" by simp
  from ok_some [OF ok this] show ?case unfolding u by (cases "lu_key u = k") simp_all
next
  case (3 k k' l n n')
  then have "dict_get (bd_locks b) k = Some (l, n)" "dict_get (bd_locks b) k' = Some (l, n')" by simp_all
  then show ?case by (rule ok_inj [OF ok])
qed

lemma boundary_ok_leave:
  assumes ok: "boundary_ok b" and u: "bd_users b = xs @ u # ys"
  shows "boundary_ok (b\<lparr> bd_users := xs @ ys,
    bd_locks := drop_lock (lu_key u) (lu_lock u) (bd_locks b) \<rparr>)"
proof -
  obtain n where n: "dict_get (bd_locks b) (lu_key u) = Some (lu_lock u, n)"
    using ok_user [OF ok, of u] u by auto
  have dropped: "dict_get (drop_lock (lu_key u) (lu_lock u) (bd_locks b)) k =
      (if k = lu_key u then (if n \<le> 1 then None else Some (lu_lock u, n - 1))
       else dict_get (bd_locks b) k)" for k
    using n by (simp add: drop_lock_def)
  have own: "length (users_of (lu_key u) (bd_users b)) = n" "lu_lock u < bd_next b"
    "\<forall>v \<in> set (users_of (lu_key u) (bd_users b)). lu_lock v = lu_lock u"
    using ok_some [OF ok n] by blast+
  have left: "length (users_of (lu_key u) (xs @ ys)) = n - 1"
    "\<forall>v \<in> set (users_of (lu_key u) (xs @ ys)). lu_lock v = lu_lock u"
    using own(1, 3) unfolding u by auto
  have others: "users_of k (bd_users b) = users_of k (xs @ ys)" if "k \<noteq> lu_key u" for k
    using that unfolding u by simp
  show ?thesis
  proof (rule boundary_okI, goal_cases)
    case (1 k)
    show ?case
    proof (cases "k = lu_key u")
      case True
      with 1 left(1) show ?thesis by (simp add: dropped split: if_splits)
    next
      case False
      with 1 ok_none [OF ok, of k] others show ?thesis by (simp add: dropped)
    qed
  next
    case (2 k l m)
    show ?case
    proof (cases "k = lu_key u")
      case True
      with 2 left own(2) show ?thesis by (auto simp: dropped split: if_splits)
    next
      case False
      with 2 ok_some [OF ok, of k l m] others show ?thesis by (simp add: dropped)
    qed
  next
    case (3 k k' l m m')
    have "\<exists>m. dict_get (bd_locks b) j = Some (l, m)"
      if "dict_get (drop_lock (lu_key u) (lu_lock u) (bd_locks b)) j = Some (l, m)" for j m
      using that n by (auto simp: dropped split: if_splits)
    with 3 show ?case using ok_inj [OF ok] by simp blast
  qed
qed

lemma boundary_ok_step: "boundary_step b b' \<Longrightarrow> boundary_ok b \<Longrightarrow> boundary_ok b'"
  by (induction rule: boundary_step.induct)
     (auto intro: boundary_ok_enter boundary_ok_acquire boundary_ok_leave)

section \<open>Mutual exclusion\<close>

lemma no_insider:
  assumes "boundary_ok b" "u \<in> set (bd_users b)" "\<not> lock_taken (lu_lock u) (bd_users b)"
  shows "insiders (lu_key u) (bd_users b) = 0"
proof -
  obtain n where "dict_get (bd_locks b) (lu_key u) = Some (lu_lock u, n)"
    using ok_user [OF assms(1, 2)] by blast
  from ok_some [OF assms(1) this] assms(3) show ?thesis
    by (auto simp: insiders_def filter_empty_conv lock_taken_def list_ex_iff users_of_def)
qed

lemma insiders_step:
  "boundary_step b b' \<Longrightarrow> boundary_ok b \<Longrightarrow> insiders k (bd_users b) \<le> 1 \<Longrightarrow> insiders k (bd_users b') \<le> 1"
proof (induction rule: boundary_step.induct)
  case (enter b l)
  then show ?case by (simp add: enter_boundary_def split: prod.splits)
next
  case (acquire b xs u ys)
  with no_insider [of b u] show ?case by (cases "lu_key u = k") auto
next
  case (leave b xs u ys)
  then show ?case by (simp split: if_splits)
qed

lemma boundary_reach_ok: "boundary_reach b \<Longrightarrow> boundary_ok b \<and> insiders k (bd_users b) \<le> 1"
proof (induction rule: boundary_reach.induct)
  case start
  show ?case by (simp add: no_boundary_def boundary_ok_def)
next
  case (step b b')
  then show ?case using boundary_ok_step insiders_step by blast
qed

text \<open>
  C40: however many pauses and callbacks of one identifier come and go, and even if some are
  cancelled while they wait, at most one is inside its boundary, and the map holds a lock for
  an identifier exactly while somebody uses it.
\<close>

theorem boundary_is_exclusive:
  assumes "boundary_reach b"
  shows "insiders k (bd_users b) \<le> 1 \<and>
    (dict_has (bd_locks b) k \<longleftrightarrow> (\<exists>u \<in> set (bd_users b). lu_key u = k))"
proof -
  from boundary_reach_ok [OF assms, of k] have ok: "boundary_ok b" and "insiders k (bd_users b) \<le> 1" by auto
  moreover have "dict_has (bd_locks b) k \<longleftrightarrow> users_of k (bd_users b) \<noteq> []"
    using ok_none [OF ok, of k] ok_some [OF ok, of k]
    by (cases "dict_get (bd_locks b) k") (auto simp: dict_has_iff)
  ultimately show ?thesis by (auto simp: users_of_def filter_empty_conv)
qed

lemma boundary_is_exclusive_witness:
  "\<exists>b. boundary_reach b \<and> length (bd_users b) = 2 \<and> insiders ''q'' (bd_users b) = 1 \<and>
     insiders ''q'' (bd_users b) \<le> 1 \<and> dict_has (bd_locks b) ''q''"
proof -
  let ?b1 = "enter_boundary ''q'' no_boundary"
  let ?b2 = "?b1\<lparr> bd_users := [] @ (hd (bd_users ?b1))\<lparr> lu_inside := True \<rparr> # [] \<rparr>"
  let ?b3 = "enter_boundary ''q'' ?b2"
  have "boundary_step ?b1 ?b2"
    by (rule boundary_step.acquire) (simp_all add: enter_boundary_def no_boundary_def lock_taken_def dict_get_or_def)
  with boundary_reach.step [OF boundary_reach.start boundary_step.enter, of "''q''"]
  have "boundary_reach ?b2" by (rule boundary_reach.step)
  then have reach: "boundary_reach ?b3" by (rule boundary_reach.step) (rule boundary_step.enter)
  from boundary_is_exclusive [OF reach, of "''q''"] reach show ?thesis
    by (intro exI [of _ ?b3]) (auto simp: enter_boundary_def no_boundary_def dict_get_or_def)
qed

end
