(* ===== verification/Spec2Isabelle.thy ===== *)
theory Spec2Isabelle
  imports DagRunCorrect DagRuntimeCorrect DataPathCorrect BoardData NamespaceTheorems
    JsonRepair JsonLocate JsonComplete ActionRegistryCorrect SignalSnapshot PolicyTheorems
    ResourceTheorems ModelPoolTheorems SettingsTheorems InterruptTheorems SnapshotProjection
    BoundaryLocks
begin

text \<open>
  A verification library for the deterministic core of Agently, a framework that runs model
  driven tasks.  Paths below are relative to \<open>src/agently/\<close>.

  THE PROGRAM.  A plan is either a task graph or a task board.  A task graph
  (\<open>core/orchestration/TaskDAG\<close>) is validated against the executors a resolver knows,
  compiled onto a TriggerFlow (\<open>core/orchestration/TriggerFlow\<close>) whose and-gates start a
  task once the completion signals of its dependencies have arrived, and run with retries.
  A task board (\<open>core/orchestration/TaskBoard\<close>) is a revisioned graph of cards: a schedule
  lists the cards that may run, their results and patches lead to the next revision.  What a
  model writes is text in which JSON has to be found, repaired and completed
  (\<open>utils/DataLocator.py\<close>, \<open>utils/StreamingJSONCompleter.py\<close>) and read through paths
  (\<open>utils/DataPathBuilder.py\<close>).  Settings and states live in nested stores
  (\<open>utils/StateData.py\<close>).  Actions are found by tag in a registry
  (\<open>core/operation/Action/ActionRegistry.py\<close>).  What an action may do is decided by
  policies and by people (\<open>core/operation/PolicyApproval\<close>), and the resources it needs are
  leased from providers (\<open>core/operation/ExecutionResource\<close>).

  HOW IT IS MODELLED.  A Python value is a \<open>pyval\<close> (Prelude, PyValue, PyText): None,
  booleans, unbounded integers, floats as the rationals their decimal notation denotes,
  strings, lists, tuples, sets as lists in iteration order, dictionaries with string keys as
  association lists in insertion order, and opaque objects with an identity and a text.  A
  function that may raise returns a sum whose left side is the exception.  Dataclasses are
  records, shared state is passed explicitly, and concurrency is a step relation.

  THE THEORIES.
  \<^item> DepGraph: Kahn's algorithm as both validators run it.  The fuel of the loop is the
    number of tasks, enough because each round orders a new one; the locale
    \<open>topo_sorter\<close> states what the validators need of it and is interpreted on it.
  \<^item> DagModel, DagHelpers, DagValidation (\<open>types/data/task_dag.py\<close>, \<open>TaskDAGHelpers.py\<close>,
    \<open>TaskDAGResolver.py\<close>, \<open>TaskDAGValidation.py\<close>): graph data, resolver, and
    \<open>validate_dag\<close>, the composition of id checks, cycle check, pruning and the resolver
    check in the order of the code.  DagCorrect and DagTheorems show exactly which graphs
    are accepted, what is returned, and that the root check after pruning is dead code.
  \<^item> DagRuntime, DagRun (\<open>TaskDAGRuntime.py\<close>, the and-gate of \<open>process/BaseProcess.py\<close>):
    placeholders, the retry loop (recursion on the attempts left), the compile cache, and
    the run as an inductive step relation \<open>run_step\<close> between states that hold the flow
    state, the signals under way, the gates and the activations.  DagRunCorrect proves the
    invariant of reachable states by rule induction, and from it safety and that a stopped
    run has executed every task no failure cuts off; DagRuntimeCorrect bounds the retries.
  \<^item> BoardModel, BoardOps (\<open>types/data/task_board.py\<close>, \<open>TaskBoardValidation.py\<close>): cards,
    revisions, patches and their normalisation; validation, schedule, patching and derived
    status.  BoardCorrect, BoardTheorems, BoardPatch and BoardData: validation is exact, a
    schedule is exact and makes progress, histories of patches, normal forms, round trip.
  \<^item> StateStore (\<open>StateData.py\<close>, \<open>SerializableStateData.py\<close>): dotted keys, inheritance,
    merging and namespaces.  StateCorrect states the contract of a store addressed by paths
    as the locale \<open>path_store\<close>, interpreted on dictionaries, on the store and on its
    namespaces; StateTheorems and NamespaceTheorems: laws, idempotence of updates, the
    inherited view, refinement of a dictionary by a namespace.
  \<^item> DataPath, DataPathCorrect (\<open>DataPathBuilder.py\<close> and the first half of \<open>DataLocator.py\<close>):
    paths, their styles, and locating them, against a reference lookup \<open>follow\<close>.  A scan
    that may never end is a \<open>partial_function (option)\<close>; when it returns is a theorem.
  \<^item> JsonText, JsonRepair, JsonLocate (second half of \<open>DataLocator.py\<close>) and JsonComplete
    (\<open>StreamingJSONCompleter.py\<close>): scanning text for JSON blocks, choosing one by a schema,
    repairing and completing a fragment.
  \<^item> ActionRegistry, ActionRegistryCorrect (\<open>ActionRegistry.py\<close>): the tag tables agree in
    every history that registers no id twice, and drift apart in one that does.
  \<^item> SignalNet, SignalNetCorrect, SignalNetTheorems, SignalSnapshot (\<open>SignalNet.py\<close>,
    \<open>Signal.py\<close>, callable references of \<open>Definition.py\<close>): dynamic bindings, records of
    signals, saving and loading; reachable nets keep \<open>net_ok\<close>, on which loading a snapshot
    rebuilds every binding in place.

  \<^item> JsonDump (\<open>json.dumps\<close> with sorted keys, which several components use as a key),
    PolicyApproval, PolicyTheorems (\<open>PolicyApproval.py\<close>, \<open>AccessControlPolicy.py\<close>): who
    approves a request, normal forms, and the gate of a replayed chunk, which uses each
    answer once.
  \<^item> ResourceProviders, ResourceModel (\<open>ExecutionResource.py\<close>): registration, matching of
    capabilities, the two probes and the choice of a provider; ensuring a resource with reuse
    of a healthy handle, and releasing it.  The release is split where the provider is
    awaited.  ResourceCorrect abstracts a manager to its leases and describes every
    operation by what it does to them; ResourceTheorems states the contract of a table of
    leases as the locale \<open>lease_table\<close>, interpreted on the manager, and shows over all
    histories that the last release alone ends a resource, that the choice is the best
    admitted candidate, and that two overlapping releases clash.
  \<^item> Placeholders, SettingsMaps, SettingsTheorems (\<open>Settings.py\<close>, the placeholders of
    \<open>DataFormatter.py\<close>): short names for settings and environment variables in values; what
    setting a name writes and leaves alone.
  \<^item> ModelPool, ModelPoolTheorems (\<open>utils/ModelPool.py\<close>): choosing a key, going on with
    another key after a failure, and writing the choice into the settings of a requester.
    The counters of the strategies are the state; retries are a run of \<open>failover_step\<close>,
    bounded whatever a handler answers.

  \<^item> ValueProjection, InterruptModel (\<open>SnapshotProjection.py\<close>, \<open>ExecutionInterrupts.py\<close>): a
    flow pauses for an answer from outside, and a callback continues it.  Every stretch of
    the coroutines between two awaits is a function of the execution's state.
    InterruptRuns interleaves them: a task is a coroutine stopped at an await, a step runs
    one to its next await, ends it by an exception, or starts one; \<open>run_moves\<close> computes a
    schedule.  InterruptCorrect keeps accounts of the right to answer a pause (the locale
    \<open>token_account\<close>, interpreted for answers and for signals); InterruptTheorems: at most
    one answer to a pause under every interleaving, repeated callbacks, failures that put
    things back, and schedules in which a pause or its claim is lost.  SnapshotProjection:
    digests in saved snapshots are invisible to callbacks; what the projection of a sub
    flow's interrupts (\<open>BluePrintSubFlow.py\<close>) overwrites.  BoundaryLocks: the counted locks
    that serialise the pauses of one identifier.

  PARAMETERS.  Code outside the repository or outside a component is an argument: the JSON5
  printer and parser, the identifiers \<open>uuid\<close> would draw, the clock, what \<open>inspect\<close> says of a
  callable, SHA-256, the executors of tasks and the answers of handlers.

  LIMITS.  Characters are code points below 256 outside the JSON scanners.  Dictionary keys
  are strings.  Values have no aliases: a container shared by two owners is two equal
  values, and where the code relies on sharing the note of the component says so.  After an
  exception the model gives no state, unless a definition returns both.

  NOT MODELLED.  What only calls a model, a network, a process or a file: model requests and
  requesters, actions and their executors, workspaces, storage and record stores, sandboxes,
  hooks and sinks.  The application layer (\<open>core/application\<close>: agent tasks, executions,
  skills, dynamic tasks) prompts models and interprets their answers; its pure parts are
  classification tables without laws of their own.  Of TriggerFlow, the execution engine,
  blueprints, persistence and sub flows are not modelled beyond the parts named above; of
  an interrupt, the payloads of events and the activity time are left out.
\<close>

end
